(* ===== verification/Prelude.thy ===== *)
theory Prelude
  imports Main "HOL-Library.Word"
begin

text \<open>
  Shared vocabulary of the development: machine-integer abbreviations, C strings, the
  character classes of \<^verbatim>\<open>ctype.h\<close> (C locale), the \<^verbatim>\<open>strtol\<close> family, decimal printing
  (\<^verbatim>\<open>%d\<close>, \<^verbatim>\<open>%lld\<close>, \<^verbatim>\<open>%llu\<close>).

  A \<^verbatim>\<open>char *\<close> of the source is an Isabelle \<^typ>\<open>string\<close> (one \<^typ>\<open>char\<close> per byte).  Where the
  code measures such a buffer with \<^verbatim>\<open>strlen\<close>, compares it with \<^verbatim>\<open>strcmp\<close> or copies it with
  \<^verbatim>\<open>strdup\<close>, the model applies \<open>c_str\<close> first if the buffer may hold a NUL byte.
\<close>

unbundle bit_operations_syntax

named_theorems c_simps \<open>evaluation of the C library functions on the shapes the proofs meet\<close>
named_theorems step_inv \<open>an operation keeps the invariant of its component\<close>

section \<open>Machine integers\<close>

type_synonym byte = "8 word"
type_synonym u16 = "16 word"
type_synonym u32 = "32 word"
type_synonym u64 = "64 word"

text \<open>An \<^verbatim>\<open>int64_t\<close> is a 64-bit word read with \<^const>\<open>sint\<close>; a \<^verbatim>\<open>double\<close> is its bit pattern.\<close>

type_synonym i64 = "64 word"
type_synonym double = "64 word"

definition byte_char :: "byte \<Rightarrow> char" where
  "byte_char b = char_of (unat b)"

definition char_byte :: "char \<Rightarrow> byte" where
  "char_byte c = of_nat (of_char c :: nat)"

definition to_bytes :: "string \<Rightarrow> byte list" where
  "to_bytes s = map char_byte s"

definition of_bytes :: "byte list \<Rightarrow> string" where
  "of_bytes bs = map byte_char bs"

lemma byte_char_char_byte [simp]: "byte_char (char_byte c) = c"
  by (simp add: byte_char_def char_byte_def unat_of_nat of_char_mod_256)

lemma char_byte_byte_char [simp]: "char_byte (byte_char b) = b"
proof -
  have "unat b < 2 ^ LENGTH(8)"
    by (rule unsigned_less)
  then have "unat b mod 256 = unat b"
    by simp
  then show ?thesis
    by (simp add: byte_char_def char_byte_def)
qed

lemma of_bytes_to_bytes [simp]: "of_bytes (to_bytes s) = s"
  by (simp add: of_bytes_def to_bytes_def map_idI)

lemma to_bytes_of_bytes [simp]: "to_bytes (of_bytes bs) = bs"
  by (simp add: of_bytes_def to_bytes_def map_idI)

lemma length_to_bytes [simp]: "length (to_bytes s) = length s"
  by (simp add: to_bytes_def)

lemma length_of_bytes [simp]: "length (of_bytes bs) = length bs"
  by (simp add: of_bytes_def)

lemma to_bytes_inject [simp]: "to_bytes s = to_bytes t \<longleftrightarrow> s = t"
  by (metis of_bytes_to_bytes)

section \<open>C strings\<close>

text \<open>The C string that starts at a buffer: everything before the first NUL byte.\<close>

definition c_str :: "string \<Rightarrow> string" where
  "c_str s = takeWhile (\<lambda>c. c \<noteq> CHR 0x00) s"

definition nul_free :: "string \<Rightarrow> bool" where
  "nul_free s \<longleftrightarrow> (\<forall>c \<in> set s. c \<noteq> CHR 0x00)"

lemma c_str_nul_free [simp]: "nul_free (c_str s)"
  by (auto simp: nul_free_def c_str_def dest: set_takeWhileD)

lemma c_str_id [simp]: "nul_free s \<Longrightarrow> c_str s = s"
  by (simp add: nul_free_def c_str_def takeWhile_eq_all_conv)

lemma c_str_length: "length (c_str s) \<le> length s"
  by (simp add: c_str_def length_takeWhile_le)

lemma nul_free_simps [simp]:
  "nul_free []"
  "nul_free (c # s) \<longleftrightarrow> c \<noteq> CHR 0x00 \<and> nul_free s"
  "nul_free (s @ t) \<longleftrightarrow> nul_free s \<and> nul_free t"
  by (auto simp: nul_free_def)

lemma nul_free_take [simp]: "nul_free s \<Longrightarrow> nul_free (take n s)"
  by (auto simp: nul_free_def dest: in_set_takeD)

lemma c_str_append_nul: "nul_free s \<Longrightarrow> c_str (s @ CHR 0x00 # t) = s"
  by (simp add: c_str_def nul_free_def takeWhile_append2)

text \<open>\<^verbatim>\<open>snprintf(buf, n, "%s", s)\<close>: the text that ends up in the buffer.\<close>

definition snprintf_s :: "nat \<Rightarrow> string \<Rightarrow> string" where
  "snprintf_s n s = take (n - 1) s"

lemma snprintf_s_bound: "0 < n \<Longrightarrow> length (snprintf_s n s) < n"
  by (simp add: snprintf_s_def)

lemma snprintf_s_fits [simp]: "length s < n \<Longrightarrow> snprintf_s n s = s"
  by (simp add: snprintf_s_def)

section \<open>Character classes (C locale)\<close>

definition c_isspace :: "char \<Rightarrow> bool" where
  "c_isspace c \<longleftrightarrow> c = CHR '' '' \<or> (9 \<le> (of_char c :: nat) \<and> (of_char c :: nat) \<le> 13)"

definition c_isdigit :: "char \<Rightarrow> bool" where
  "c_isdigit c \<longleftrightarrow> 48 \<le> (of_char c :: nat) \<and> (of_char c :: nat) \<le> 57"

definition c_isupper :: "char \<Rightarrow> bool" where
  "c_isupper c \<longleftrightarrow> 65 \<le> (of_char c :: nat) \<and> (of_char c :: nat) \<le> 90"

definition c_islower :: "char \<Rightarrow> bool" where
  "c_islower c \<longleftrightarrow> 97 \<le> (of_char c :: nat) \<and> (of_char c :: nat) \<le> 122"

definition c_isalnum :: "char \<Rightarrow> bool" where
  "c_isalnum c \<longleftrightarrow> c_isdigit c \<or> c_isupper c \<or> c_islower c"

definition c_tolower :: "char \<Rightarrow> char" where
  "c_tolower c = (if c_isupper c then char_of ((of_char c :: nat) + 32) else c)"

lemmas ctype_defs = c_isspace_def c_isdigit_def c_isupper_def c_islower_def c_isalnum_def
  c_tolower_def

text \<open>\<^verbatim>\<open>memchr\<close>: the offset of the first occurrence of a byte.\<close>

primrec memchr :: "char \<Rightarrow> string \<Rightarrow> nat option" where
  "memchr c [] = None"
| "memchr c (d # s) = (if d = c then Some 0 else map_option Suc (memchr c s))"

lemma memchr_Some: "memchr c s = Some k \<Longrightarrow> k < length s \<and> s ! k = c"
  by (induction s arbitrary: k) (auto split: if_splits)

lemma memchr_append [c_simps]: "c \<notin> set s \<Longrightarrow> memchr c (s @ c # t) = Some (length s)"
  by (induction s) auto

section \<open>The strtol family\<close>

text \<open>The value of a digit in a base up to 36.\<close>

definition digit_val :: "nat \<Rightarrow> char \<Rightarrow> nat option" where
  "digit_val base c =
     (let v = (if c_isdigit c then Some ((of_char c :: nat) - 48)
               else if c_islower c then Some ((of_char c :: nat) - 87)
               else if c_isupper c then Some ((of_char c :: nat) - 55)
               else None)
      in case v of Some d \<Rightarrow> (if d < base then Some d else None) | None \<Rightarrow> None)"

fun digits_value :: "nat \<Rightarrow> nat \<Rightarrow> string \<Rightarrow> nat" where
  "digits_value base acc [] = acc"
| "digits_value base acc (c # s) =
     (case digit_val base c of
        Some d \<Rightarrow> digits_value base (acc * base + d) s
      | None \<Rightarrow> acc)"

definition strto_sign :: "string \<Rightarrow> bool \<times> string" where
  "strto_sign s =
     (case dropWhile c_isspace s of
        c # t \<Rightarrow> if c = CHR ''-'' then (True, t) else if c = CHR ''+'' then (False, t)
                 else (False, c # t)
      | [] \<Rightarrow> (False, []))"

text \<open>\<^verbatim>\<open>strtoll(s, NULL, 10)\<close> saturates at the ends of the 64-bit range.\<close>

definition strtoll10 :: "string \<Rightarrow> i64" where
  "strtoll10 s =
     (let (neg, t) = strto_sign s;
          n = int (digits_value 10 0 t);
          v = (if neg then - n else n)
      in word_of_int (max (- (2 ^ 63)) (min (2 ^ 63 - 1) v)))"

text \<open>
  \<^verbatim>\<open>strtoul(s, NULL, base)\<close> for the bases 10 and 16: \<^verbatim>\<open>ULONG_MAX\<close> on overflow, and a minus
  sign negates modulo \<open>2 ^ 64\<close>.
\<close>

definition strtoul :: "nat \<Rightarrow> string \<Rightarrow> u64" where
  "strtoul base s =
     (let (neg, t) = strto_sign s;
          u = (if base = 16 \<and> take 2 t \<in> {''0x'', ''0X''} then drop 2 t else t);
          n = digits_value base 0 u
      in if 2 ^ 64 \<le> n then - 1 else if neg then - of_nat n else of_nat n)"

section \<open>Decimal printing\<close>

fun dec_nat :: "nat \<Rightarrow> string" where
  "dec_nat n = (if n < 10 then [char_of (48 + n)]
                else dec_nat (n div 10) @ [char_of (48 + n mod 10)])"

declare dec_nat.simps [simp del]

definition dec_int :: "int \<Rightarrow> string" where
  "dec_int i = (if i < 0 then CHR ''-'' # dec_nat (nat (- i)) else dec_nat (nat i))"

lemma of_char_digit [c_simps]: "n < 10 \<Longrightarrow> (of_char (char_of (48 + n)) :: nat) = 48 + n"
  by (simp add: of_char_of)

lemma digit_val_digit [c_simps]:
  assumes "n < 10" shows "digit_val 10 (char_of (48 + n)) = Some n"
  using assms of_char_digit [OF assms] by (simp add: digit_val_def c_isdigit_def)

lemma digits_value_append_dec:
  "digits_value 10 acc (dec_nat n @ s) = digits_value 10 (acc * 10 ^ length (dec_nat n) + n) s"
proof (induction n arbitrary: acc s rule: dec_nat.induct)
  case (1 n)
  show ?case
  proof (cases "n < 10")
    case True
    then show ?thesis by (simp add: dec_nat.simps [of n] digit_val_digit)
  next
    case False
    let ?c = "char_of (48 + n mod 10) :: char"
    have "digits_value 10 acc (dec_nat n @ s) =
          digits_value 10 acc (dec_nat (n div 10) @ ?c # s)"
      using False by (simp add: dec_nat.simps [of n])
    also have "\<dots> = digits_value 10 (acc * 10 ^ length (dec_nat (n div 10)) + n div 10) (?c # s)"
      using "1.IH" [OF False] by blast
    also have "\<dots> = digits_value 10 ((acc * 10 ^ length (dec_nat (n div 10)) + n div 10) * 10
                                      + n mod 10) s"
      by (simp add: digit_val_digit)
    finally show ?thesis
      using False by (simp add: dec_nat.simps [of n] algebra_simps)
  qed
qed

lemma digits_value_dec [simp]: "digits_value 10 0 (dec_nat n) = n"
  using digits_value_append_dec [of 0 n "[]"] by simp

lemma dec_nat_digits: "c \<in> set (dec_nat n) \<Longrightarrow> c_isdigit c"
proof (induction n rule: dec_nat.induct)
  case (1 n)
  have "n mod 10 < 10" by simp
  then show ?case
    using 1 of_char_digit [of n] of_char_digit [of "n mod 10"]
    by (auto simp: dec_nat.simps [of n] c_isdigit_def split: if_splits)
qed

lemma dec_nat_nonempty [simp]: "dec_nat n \<noteq> []"
  by (simp add: dec_nat.simps [of n])

lemma digit_not_special:
  "c_isdigit c \<Longrightarrow> \<not> c_isspace c \<and> c \<noteq> CHR ''-'' \<and> c \<noteq> CHR ''+'' \<and> c \<noteq> CHR 0x00
     \<and> c \<noteq> CHR ''<'' \<and> c \<noteq> CHR ''&''"
  by (auto simp: ctype_defs)

lemma strto_sign_dec_int:
  "strto_sign (dec_int i) = (i < 0, dec_nat (nat \<bar>i\<bar>))"
proof (cases "dec_nat (nat \<bar>i\<bar>)")
  case (Cons c t)
  then have "c_isdigit c" using dec_nat_digits [of c "nat \<bar>i\<bar>"] by simp
  then show ?thesis
    using Cons digit_not_special [of c]
    by (auto simp: strto_sign_def dec_int_def c_isspace_def)
qed simp

lemma strtoll10_dec_int [c_simps]:
  assumes "- (2 ^ 63) \<le> i" "i < 2 ^ 63"
  shows "strtoll10 (dec_int i) = word_of_int i"
proof -
  have "max (- (2 ^ 63)) (min (2 ^ 63 - 1) i) = i"
    using assms by simp
  then show ?thesis
    by (auto simp: strtoll10_def strto_sign_dec_int Let_def)
qed

lemma strtoll10_dec_sint [c_simps, simp]: "strtoll10 (dec_int (sint (w :: i64))) = w"
  using sint_range_size [of w] by (subst strtoll10_dec_int) (auto simp: word_size)

lemma dec_nat_length: "n < 10 ^ Suc k \<Longrightarrow> length (dec_nat n) \<le> Suc k"
proof (induction k arbitrary: n)
  case 0
  then show ?case by (subst dec_nat.simps) simp
next
  case (Suc k)
  then have "n div 10 < 10 ^ Suc k" by (simp add: less_mult_imp_div_less)
  then show ?case using Suc.IH [of "n div 10"] by (subst dec_nat.simps) auto
qed

lemma dec_nat_u64: "length (dec_nat (unat (w :: u64))) \<le> 20"
proof -
  have "unat w < 2 ^ LENGTH(64)" by (rule unsigned_less)
  then have "unat w < 10 ^ Suc 19" by simp
  then show ?thesis using dec_nat_length by fastforce
qed

lemma dec_int_i64: "length (dec_int (sint (w :: i64))) \<le> 20"
proof -
  have "sint w < 2 ^ (LENGTH(64) - 1)" "- (2 ^ (LENGTH(64) - 1)) \<le> sint w"
    using sint_range_size [of w] by (simp_all add: word_size)
  then have "nat \<bar>sint w\<bar> < 10 ^ Suc 18" by simp
  then have "length (dec_nat (nat \<bar>sint w\<bar>)) \<le> Suc 18" by (rule dec_nat_length)
  then show ?thesis by (auto simp: dec_int_def)
qed

lemma dec_nat_u32: "length (dec_nat (unat (w :: u32))) \<le> 10"
proof -
  have "unat w < 2 ^ LENGTH(32)" by (rule unsigned_less)
  then have "unat w < 10 ^ Suc 9" by simp
  then show ?thesis using dec_nat_length by fastforce
qed

lemma dec_int_i32: "length (dec_int (sint (w :: u32))) \<le> 11"
proof -
  have "sint w < 2 ^ (LENGTH(32) - 1)" "- (2 ^ (LENGTH(32) - 1)) \<le> sint w"
    using sint_range_size [of w] by (simp_all add: word_size)
  then have "nat \<bar>sint w\<bar> < 10 ^ Suc 9" by simp
  then have "length (dec_nat (nat \<bar>sint w\<bar>)) \<le> Suc 9" by (rule dec_nat_length)
  then show ?thesis by (auto simp: dec_int_def)
qed

lemma dec_int_chars: "c \<in> set (dec_int i) \<Longrightarrow> c = CHR ''-'' \<or> c_isdigit c"
  by (auto simp: dec_int_def dest: dec_nat_digits split: if_splits)

end
