(* ===== verification/Plist_Parser.thy ===== *)
theory Plist_Parser
  imports Prelude
begin

text \<open>
  Model of \<^verbatim>\<open>src/src/darwin-compat/launchd/plist_lite.c\<close>: the tag reader, entity and base64
  decoding, the recursive-descent parser, its entry points and the accessors.

  The parser state \<^verbatim>\<open>parser_t\<close> is the text that is left (\<^verbatim>\<open>p\<close> up to \<^verbatim>\<open>end\<close>).  A failure is
  the value \<open>PFail n msg\<close>: \<open>n\<close> bytes were left when \<^verbatim>\<open>fail()\<close> was called with the message
  \<open>msg\<close>, from which the entry point computes the line number.  Since every function returns at
  once after a failure, the first message is the one reported, as the \<^verbatim>\<open>failed\<close> flag of the source
  ensures.  \<open>POut\<close> (out of fuel) marks the recursion bound of the model; the entry points give
  enough fuel (theory \<open>Plist_Props\<close>).  Allocation is taken to succeed (theory \<open>Plist_Memory\<close> has its failures), and \<^verbatim>\<open>strtod\<close> is the
  parameter \<open>sd\<close>.
\<close>

section \<open>Values\<close>

datatype plist =
    PDict "(string \<times> plist) list"
  | PArray "plist list"
  | PString string
  | PInteger i64
  | PReal double
  | PBool bool
  | PData "byte list"

definition PLIST_INVALID :: nat where "PLIST_INVALID = 0"
definition PLIST_DICT :: nat where "PLIST_DICT = 1"
definition PLIST_ARRAY :: nat where "PLIST_ARRAY = 2"
definition PLIST_STRING :: nat where "PLIST_STRING = 3"
definition PLIST_INTEGER :: nat where "PLIST_INTEGER = 4"
definition PLIST_REAL :: nat where "PLIST_REAL = 5"
definition PLIST_BOOL :: nat where "PLIST_BOOL = 6"
definition PLIST_DATA :: nat where "PLIST_DATA = 7"

lemmas plist_type_codes = PLIST_INVALID_def PLIST_DICT_def PLIST_ARRAY_def PLIST_STRING_def
  PLIST_INTEGER_def PLIST_REAL_def PLIST_BOOL_def PLIST_DATA_def

section \<open>Parser results\<close>

datatype 'a pres = POk 'a string | PFail nat string | POut

fun pbind :: "'a pres \<Rightarrow> ('a \<Rightarrow> string \<Rightarrow> 'b pres) \<Rightarrow> 'b pres" where
  "pbind (POk a r) f = f a r"
| "pbind (PFail n m) f = PFail n m"
| "pbind POut f = POut"

lemma pbind_POk [simp]:
  "pbind m f = POk b r \<longleftrightarrow> (\<exists>a t. m = POk a t \<and> f a t = POk b r)"
  by (cases m) auto

lemma pbind_POut [simp]:
  "pbind m f = POut \<longleftrightarrow> m = POut \<or> (\<exists>a t. m = POk a t \<and> f a t = POut)"
  by (cases m) auto

section \<open>Skipping the prologue\<close>

primrec memmem_compat :: "string \<Rightarrow> string \<Rightarrow> nat option" where
  "memmem_compat [] needle = None"
| "memmem_compat (c # h) needle =
     (if needle = [] \<or> length (c # h) < length needle then None
      else if take (length needle) (c # h) = needle then Some 0
      else map_option Suc (memmem_compat h needle))"

definition skip_ws :: "string \<Rightarrow> string" where
  "skip_ws s = dropWhile c_isspace s"

text \<open>The scan to the end of a \<^verbatim>\<open><!DOCTYPE ...>\<close> with its bracket depth.\<close>

fun doctype_end :: "int \<Rightarrow> string \<Rightarrow> string option" where
  "doctype_end depth [] = None"
| "doctype_end depth (c # q) =
     (if c = CHR ''['' then doctype_end (depth + 1) q
      else if c = CHR '']'' then doctype_end (depth - 1) q
      else if c = CHR ''>'' \<and> depth \<le> 0 then Some q
      else doctype_end depth q)"

text \<open>\<open>None\<close> is the return value 0 (nothing to skip); \<open>Some\<close> is 1, with the new position or
  the failure.\<close>

definition skip_prologue_at :: "string \<Rightarrow> unit pres option" where
  "skip_prologue_at s =
     (if length s < 2 \<or> s ! 0 \<noteq> CHR ''<'' then None
      else if s ! 1 = CHR ''?'' then
        Some (case memmem_compat s ''?>'' of
                None \<Rightarrow> PFail (length s) ''unterminated <? ... ?> declaration''
              | Some close \<Rightarrow> POk () (drop (close + 2) s))
      else if take 4 s = ''<!--'' then
        Some (case memmem_compat (drop 4 s) ''-->'' of
                None \<Rightarrow> PFail (length s) ''unterminated comment''
              | Some close \<Rightarrow> POk () (drop (4 + close + 3) s))
      else if s ! 1 = CHR ''!'' then
        Some (case doctype_end 0 (drop 2 s) of
                None \<Rightarrow> PFail (length s) ''unterminated <! ... > declaration''
              | Some r \<Rightarrow> POk () r)
      else None)"

lemma doctype_end_shorter: "doctype_end d s = Some r \<Longrightarrow> length r < length s"
  by (induction d s rule: doctype_end.induct) (auto split: if_splits)

lemma skip_ws_shorter: "length (skip_ws s) \<le> length s"
  by (simp add: skip_ws_def length_dropWhile_le)

lemma skip_prologue_shorter:
  "skip_prologue_at s = Some (POk u r) \<Longrightarrow> length r < length s"
  using doctype_end_shorter [of 0 "drop 2 s" r]
  by (auto simp: skip_prologue_at_def split: if_splits option.splits)

lemma skip_prologue_no_fuel [simp]: "skip_prologue_at s \<noteq> Some POut"
  by (auto simp: skip_prologue_at_def split: option.splits)

function skip_noise :: "string \<Rightarrow> unit pres" where
  "skip_noise s =
     (let t = skip_ws s in
      case skip_prologue_at t of
        None \<Rightarrow> POk () t
      | Some (POk _ r) \<Rightarrow> skip_noise r
      | Some (PFail n m) \<Rightarrow> PFail n m
      | Some POut \<Rightarrow> POut)"
  by pat_completeness auto
termination
proof (relation "measure length")
  fix s t :: string and a u r
  assume "t = skip_ws s" and "skip_prologue_at t = Some a" and "a = POk u r"
  then show "(r, s) \<in> measure length"
    using less_le_trans [OF skip_prologue_shorter [of t u r] skip_ws_shorter [of s, folded \<open>t = _\<close>]]
    by simp
qed simp

declare skip_noise.simps [simp del]

section \<open>Tags\<close>

record tag =
  t_name :: string
  t_closing :: bool
  t_self_closing :: bool

text \<open>\<^verbatim>\<open>char name[32]\<close> keeps 31 characters and the terminating NUL.\<close>

definition TAG_NAME_MAX :: nat where "TAG_NAME_MAX = 31"

definition name_char :: "char \<Rightarrow> bool" where
  "name_char c \<longleftrightarrow> c_isalnum c \<or> c = CHR ''_''"

text \<open>The attribute loop: up to \<^verbatim>\<open>>\<close>, noting a \<^verbatim>\<open>/\<close> right before it.\<close>

fun scan_attrs :: "bool \<Rightarrow> string \<Rightarrow> (bool \<times> string) option" where
  "scan_attrs self [] = None"
| "scan_attrs self (c # q) =
     (if c = CHR ''>'' then Some (self, q)
      else scan_attrs
        (self \<or> (c = CHR ''/'' \<and> (case q of [] \<Rightarrow> False | d # _ \<Rightarrow> d = CHR ''>''))) q)"

text \<open>The name and attributes of a tag, what follows its \<^verbatim>\<open><\<close>, and \<^verbatim>\<open>read_tag\<close> itself.\<close>

definition read_tag_name :: "bool \<Rightarrow> string \<Rightarrow> tag pres" where
  "read_tag_name closing p =
     (let name = map c_tolower (take TAG_NAME_MAX (takeWhile name_char p));
          q = dropWhile name_char p
      in if name = [] then PFail (length q) ''malformed tag''
         else case scan_attrs False q of
                None \<Rightarrow> PFail (length q) (''unterminated <'' @ name @ ''> tag'')
              | Some (self, r) \<Rightarrow>
                  POk \<lparr>t_name = name, t_closing = closing, t_self_closing = self\<rparr> r)"

fun read_tag_body :: "string \<Rightarrow> tag pres" where
  "read_tag_body [] = read_tag_name False []"
| "read_tag_body (c # p) =
     (if c = CHR ''/'' then read_tag_name True p else read_tag_name False (c # p))"

definition read_tag :: "string \<Rightarrow> tag pres" where
  "read_tag s =
     pbind (skip_noise s) (\<lambda>_ t.
       case t of
         [] \<Rightarrow> PFail 0 ''expected a tag''
       | c # p \<Rightarrow> if c \<noteq> CHR ''<'' then PFail (length t) ''expected a tag''
                  else read_tag_body p)"

section \<open>Character data\<close>

definition sb_put_codepoint :: "u64 \<Rightarrow> string" where
  "sb_put_codepoint cp =
     (let low6 = (\<lambda>k. byte_char (ucast (0x80 OR (drop_bit k cp AND 0x3F)))) in
      if cp < 0x80 then [byte_char (ucast cp)]
      else if cp < 0x800 then
        [byte_char (ucast (0xC0 OR drop_bit 6 cp)), low6 0]
      else if cp < 0x10000 then
        [byte_char (ucast (0xE0 OR drop_bit 12 cp)), low6 6, low6 0]
      else
        [byte_char (ucast (0xF0 OR drop_bit 18 cp)), low6 12, low6 6, low6 0])"

text \<open>One entity reference; the argument is the text between \<^verbatim>\<open>&\<close> and \<^verbatim>\<open>;\<close>.\<close>

definition decode_entity :: "string \<Rightarrow> string + string" where
  "decode_entity body =
     (if body = ''lt'' then Inr ''<''
      else if body = ''gt'' then Inr ''>''
      else if body = ''amp'' then Inr ''&''
      else if body = ''quot'' then Inr [CHR 0x22]
      else if body = ''apos'' then Inr [CHR 0x27]
      else if 2 \<le> length body \<and> body ! 0 = CHR ''#'' then
        (let numbuf = tl body in
         if 16 \<le> length numbuf then Inl ''oversized numeric entity''
         else Inr (sb_put_codepoint
                (if numbuf ! 0 = CHR ''x'' \<or> numbuf ! 0 = CHR ''X''
                 then strtoul 16 (c_str (tl numbuf)) else strtoul 10 (c_str numbuf))))
      else Inl ''unknown entity reference'')"

text \<open>The loop of \<^verbatim>\<open>read_text\<close>; \<open>sb\<close> is the string buffer.\<close>

function read_text_loop :: "string \<Rightarrow> string \<Rightarrow> string pres" where
  "read_text_loop sb s =
     (case s of
        [] \<Rightarrow> POk sb []
      | c # q \<Rightarrow>
          if c = CHR ''<'' then POk sb s
          else if c = CHR ''&'' then
            (case memchr (CHR '';'') q of
               None \<Rightarrow> PFail (length s) ''unterminated entity reference''
             | Some elen \<Rightarrow>
                 (case decode_entity (take elen q) of
                    Inl m \<Rightarrow> PFail (length s) m
                  | Inr bs \<Rightarrow> read_text_loop (sb @ bs) (drop (elen + 1) q)))
          else read_text_loop (sb @ [c]) q)"
  by pat_completeness auto
termination by (relation "measure (\<lambda>(sb, s). length s)") auto

declare read_text_loop.simps [simp del]

text \<open>Every caller reads the result as a C string.\<close>

definition read_text :: "string \<Rightarrow> string pres" where
  "read_text s = pbind (read_text_loop [] s) (\<lambda>sb r. POk (c_str sb) r)"

definition expect_close :: "string \<Rightarrow> string \<Rightarrow> unit pres" where
  "expect_close name s =
     pbind (read_tag s) (\<lambda>tag r.
       if \<not> t_closing tag \<or> t_name tag \<noteq> name
       then PFail (length r) (''expected </'' @ name @ ''>, got <'' @
              (if t_closing tag then ''/'' else '''') @ t_name tag @ ''>'')
       else POk () r)"

section \<open>base64\<close>

definition b64_alphabet :: string where
  "b64_alphabet = ''ABCDEFGHIJKLMNOPQRSTUVWXYZabcdefghijklmnopqrstuvwxyz0123456789+/''"

fun base64_loop :: "u32 \<Rightarrow> nat \<Rightarrow> byte list \<Rightarrow> string \<Rightarrow> byte list option" where
  "base64_loop acc bits out [] = Some out"
| "base64_loop acc bits out (c # s) =
     (if c_isspace c then base64_loop acc bits out s
      else if c = CHR ''='' then Some out
      else case memchr c b64_alphabet of
             None \<Rightarrow> None
           | Some pos \<Rightarrow>
               (let acc' = push_bit 6 acc OR of_nat pos; bits' = bits + 6 in
                if 8 \<le> bits'
                then base64_loop acc' (bits' - 8)
                       (out @ [ucast (drop_bit (bits' - 8) acc' AND 0xFF)]) s
                else base64_loop acc' bits' out s))"

definition base64_decode :: "string \<Rightarrow> byte list option" where
  "base64_decode s = base64_loop 0 0 [] s"

text \<open>The size of the buffer the decoder allocates for an input of \<open>n\<close> characters.\<close>

definition base64_capacity :: "nat \<Rightarrow> nat" where
  "base64_capacity n = n div 4 * 3 + 4"

section \<open>The recursive descent\<close>

text \<open>
  The branches of \<^verbatim>\<open>parse_after_tag\<close> for the elements without children.  (The element names are
  distinct, so testing \<^verbatim>\<open>dict\<close> and \<^verbatim>\<open>array\<close> before them does not change the choice.)
\<close>

definition parse_scalar :: "(string \<Rightarrow> double) \<Rightarrow> tag \<Rightarrow> string \<Rightarrow> plist pres" where
  "parse_scalar sd tag s =
     (let name = t_name tag in
      if name = ''true'' \<or> name = ''false'' then
        (let v = PBool (name ! 0 = CHR ''t'') in
         if t_self_closing tag then POk v s
         else pbind (expect_close name s) (\<lambda>_ r. POk v r))
      else if name = ''string'' then
        (if t_self_closing tag then POk (PString []) s
         else pbind (read_text s) (\<lambda>text r.
                pbind (expect_close ''string'' r) (\<lambda>_ r'. POk (PString text) r')))
      else if name = ''integer'' \<or> name = ''real'' then
        pbind (read_text s) (\<lambda>text r.
          pbind (expect_close name r) (\<lambda>_ r'.
            POk (if name ! 0 = CHR ''i'' then PInteger (strtoll10 text) else PReal (sd text)) r'))
      else if name = ''data'' then
        (if t_self_closing tag then POk (PData []) s
         else pbind (read_text s) (\<lambda>text r.
                pbind (expect_close ''data'' r) (\<lambda>_ r'.
                  case base64_decode text of
                    None \<Rightarrow> PFail (length r') ''malformed base64 in <data>''
                  | Some bs \<Rightarrow> POk (PData bs) r')))
      else PFail (length s) (''unsupported element <'' @ name @ ''>''))"

text \<open>
  \<^verbatim>\<open>parse_value\<close>, \<^verbatim>\<open>parse_after_tag\<close> and the two element loops of the latter.  The first number
  is the fuel; a call with \<open>length s + 1\<close> (\<open>parse_value\<close>), \<open>length s + 3\<close>
  (\<open>parse_after_tag\<close>) or \<open>length s + 2\<close> (a loop) never runs out of it.
\<close>

function (sequential) parse_value :: "(string \<Rightarrow> double) \<Rightarrow> nat \<Rightarrow> string \<Rightarrow> plist pres"
  and parse_after_tag :: "(string \<Rightarrow> double) \<Rightarrow> nat \<Rightarrow> tag \<Rightarrow> string \<Rightarrow> plist pres"
  and parse_dict :: "(string \<Rightarrow> double) \<Rightarrow> nat \<Rightarrow> (string \<times> plist) list \<Rightarrow> string \<Rightarrow> plist pres"
  and parse_array :: "(string \<Rightarrow> double) \<Rightarrow> nat \<Rightarrow> plist list \<Rightarrow> string \<Rightarrow> plist pres"
where
  "parse_value sd 0 s = POut"
| "parse_value sd (Suc n) s =
     pbind (read_tag s) (\<lambda>tag r.
       if t_closing tag then PFail (length r) (''unexpected </'' @ t_name tag @ ''>'')
       else parse_after_tag sd n tag r)"
| "parse_after_tag sd 0 tag s = POut"
| "parse_after_tag sd (Suc n) tag s =
     (if t_name tag = ''dict'' then
        (if t_self_closing tag then POk (PDict []) s else parse_dict sd n [] s)
      else if t_name tag = ''array'' then
        (if t_self_closing tag then POk (PArray []) s else parse_array sd n [] s)
      else parse_scalar sd tag s)"
| "parse_dict sd 0 items s = POut"
| "parse_dict sd (Suc n) items s =
     pbind (read_tag s) (\<lambda>next r.
       if t_closing next \<and> t_name next = ''dict'' then POk (PDict items) r
       else if t_name next \<noteq> ''key'' \<or> t_closing next then
         PFail (length r) (''expected <key> inside <dict>, got <'' @ t_name next @ ''>'')
       else
         pbind (read_text r) (\<lambda>key r1.
           pbind (expect_close ''key'' r1) (\<lambda>_ r2.
             pbind (parse_value sd n r2) (\<lambda>child r3.
               parse_dict sd n (items @ [(key, child)]) r3))))"
| "parse_array sd 0 items s = POut"
| "parse_array sd (Suc n) items s =
     pbind (skip_noise s) (\<lambda>_ save.
       pbind (read_tag save) (\<lambda>next r.
         if t_closing next \<and> t_name next = ''array'' then POk (PArray items) r
         else
           pbind (parse_value sd n save) (\<lambda>child r1.
             parse_array sd n (items @ [child]) r1)))"
  by pat_completeness auto
termination
  by (relation "measure (\<lambda>c. case c of
        Inl (Inl (sd, n, s)) \<Rightarrow> n | Inl (Inr (sd, n, tag, s)) \<Rightarrow> n
      | Inr (Inl (sd, n, items, s)) \<Rightarrow> n | Inr (Inr (sd, n, items, s)) \<Rightarrow> n)") auto

section \<open>Entry points\<close>

text \<open>\<^verbatim>\<open>fail()\<close>: the line of the failure, and the message as it fits the two buffers.\<close>

definition line_of :: "string \<Rightarrow> nat \<Rightarrow> nat" where
  "line_of start left =
     1 + length (filter (\<lambda>c. c = CHR 0x0A) (take (length start - left) start))"

definition fail_message :: "string \<Rightarrow> nat \<Rightarrow> nat \<Rightarrow> string \<Rightarrow> string" where
  "fail_message start errlen left detail =
     snprintf_s errlen
       (''line '' @ dec_nat (line_of start left) @ '': '' @ snprintf_s 192 detail)"

definition parse_document :: "(string \<Rightarrow> double) \<Rightarrow> string \<Rightarrow> plist pres" where
  "parse_document sd xml =
     pbind (read_tag xml) (\<lambda>tag r.
       if t_name tag = ''plist'' \<and> \<not> t_closing tag then
         pbind (parse_value sd (length xml + 3) r) (\<lambda>root r1.
           pbind (expect_close ''plist'' r1) (\<lambda>_ r2. POk root r2))
       else parse_after_tag sd (length xml + 3) tag r)"

text \<open>
  The result is \<open>None\<close> if the parser does not return (which theory \<open>Plist_Props\<close> excludes),
  the text left in \<^verbatim>\<open>errbuf\<close> for a \<^verbatim>\<open>NULL\<close> return, or the value.  An input of \<open>None\<close> is a
  \<^verbatim>\<open>NULL\<close> pointer.
\<close>

definition plist_parse_string ::
  "(string \<Rightarrow> double) \<Rightarrow> string option \<Rightarrow> nat \<Rightarrow> (string + plist) option" where
  "plist_parse_string sd input errlen =
     (case input of
        None \<Rightarrow> Some (Inl (snprintf_s errlen ''no input''))
      | Some xml \<Rightarrow>
          (case parse_document sd xml of
             POk v _ \<Rightarrow> Some (Inr v)
           | PFail left detail \<Rightarrow> Some (Inl (fail_message xml errlen left detail))
           | POut \<Rightarrow> None))"

text \<open>What the C library makes of opening, sizing and reading a file.\<close>

datatype file_read = CannotOpen string | CannotSize | Contents string

definition plist_parse_file ::
  "(string \<Rightarrow> double) \<Rightarrow> (string \<Rightarrow> file_read) \<Rightarrow> string option \<Rightarrow> nat \<Rightarrow> (string + plist) option"
where
  "plist_parse_file sd fs path errlen =
     (case path of
        None \<Rightarrow> Some (Inl (snprintf_s errlen ''no path given''))
      | Some p \<Rightarrow>
          (case fs p of
             CannotOpen e \<Rightarrow> Some (Inl (snprintf_s errlen (''cannot open '' @ p @ '': '' @ e)))
           | CannotSize \<Rightarrow> Some (Inl (snprintf_s errlen (''cannot size '' @ p)))
           | Contents buf \<Rightarrow> plist_parse_string sd (Some buf) errlen))"

section \<open>Accessors\<close>

text \<open>A value argument of \<open>None\<close> is a \<^verbatim>\<open>NULL\<close> pointer.\<close>

fun plist_type :: "plist option \<Rightarrow> nat" where
  "plist_type None = PLIST_INVALID"
| "plist_type (Some (PDict _)) = PLIST_DICT"
| "plist_type (Some (PArray _)) = PLIST_ARRAY"
| "plist_type (Some (PString _)) = PLIST_STRING"
| "plist_type (Some (PInteger _)) = PLIST_INTEGER"
| "plist_type (Some (PReal _)) = PLIST_REAL"
| "plist_type (Some (PBool _)) = PLIST_BOOL"
| "plist_type (Some (PData _)) = PLIST_DATA"

fun plist_dict_get :: "plist option \<Rightarrow> string \<Rightarrow> plist option" where
  "plist_dict_get (Some (PDict items)) key = map_option snd (find (\<lambda>kv. fst kv = key) items)"
| "plist_dict_get _ key = None"

fun plist_dict_count :: "plist option \<Rightarrow> nat" where
  "plist_dict_count (Some (PDict items)) = length items"
| "plist_dict_count _ = 0"

fun plist_dict_key_at :: "plist option \<Rightarrow> nat \<Rightarrow> string option" where
  "plist_dict_key_at (Some (PDict items)) i =
     (if length items \<le> i then None else Some (fst (items ! i)))"
| "plist_dict_key_at _ i = None"

fun plist_dict_value_at :: "plist option \<Rightarrow> nat \<Rightarrow> plist option" where
  "plist_dict_value_at (Some (PDict items)) i =
     (if length items \<le> i then None else Some (snd (items ! i)))"
| "plist_dict_value_at _ i = None"

fun plist_array_count :: "plist option \<Rightarrow> nat" where
  "plist_array_count (Some (PArray items)) = length items"
| "plist_array_count _ = 0"

fun plist_array_get :: "plist option \<Rightarrow> nat \<Rightarrow> plist option" where
  "plist_array_get (Some (PArray items)) i =
     (if length items \<le> i then None else Some (items ! i))"
| "plist_array_get _ i = None"

fun plist_string_value :: "plist option \<Rightarrow> string option \<Rightarrow> string option" where
  "plist_string_value (Some (PString s)) fallback = Some s"
| "plist_string_value _ fallback = fallback"

text \<open>The casts between \<^verbatim>\<open>double\<close> and \<^verbatim>\<open>int64_t\<close> are parameters.\<close>

fun plist_integer_value :: "(double \<Rightarrow> i64) \<Rightarrow> plist option \<Rightarrow> i64 \<Rightarrow> i64" where
  "plist_integer_value d2i (Some (PInteger i)) fallback = i"
| "plist_integer_value d2i (Some (PReal d)) fallback = d2i d"
| "plist_integer_value d2i _ fallback = fallback"

fun plist_real_value :: "(i64 \<Rightarrow> double) \<Rightarrow> plist option \<Rightarrow> double \<Rightarrow> double" where
  "plist_real_value i2d (Some (PReal d)) fallback = d"
| "plist_real_value i2d (Some (PInteger i)) fallback = i2d i"
| "plist_real_value i2d _ fallback = fallback"

fun plist_bool_value :: "plist option \<Rightarrow> bool \<Rightarrow> bool" where
  "plist_bool_value (Some (PBool b)) fallback = b"
| "plist_bool_value _ fallback = fallback"

fun plist_data_value :: "plist option \<Rightarrow> byte list option" where
  "plist_data_value (Some (PData bs)) = Some bs"
| "plist_data_value _ = None"

definition plist_dict_get_string :: "plist option \<Rightarrow> string \<Rightarrow> string option \<Rightarrow> string option" where
  "plist_dict_get_string d key fallback = plist_string_value (plist_dict_get d key) fallback"

definition plist_dict_get_integer ::
  "(double \<Rightarrow> i64) \<Rightarrow> plist option \<Rightarrow> string \<Rightarrow> i64 \<Rightarrow> i64" where
  "plist_dict_get_integer d2i d key fallback = plist_integer_value d2i (plist_dict_get d key) fallback"

definition plist_dict_get_bool :: "plist option \<Rightarrow> string \<Rightarrow> bool \<Rightarrow> bool" where
  "plist_dict_get_bool d key fallback = plist_bool_value (plist_dict_get d key) fallback"

declare parse_value.simps [simp del] parse_after_tag.simps [simp del]
  parse_dict.simps [simp del] parse_array.simps [simp del]

end
