(* ===== verification/Plist_Render.thy ===== *)
theory Plist_Render
  imports Plist_Props
begin

text \<open>
  A reference writer for property lists (the source has none) and the proof that the reader
  returns exactly the value that was written, with any white space between the elements and the
  usual prologue in front: the specification of the reader as the inverse of the format.
\<close>

section \<open>The writer\<close>

definition escape_char :: "char \<Rightarrow> string" where
  "escape_char c = (if c = CHR ''<'' then ''&lt;'' else if c = CHR ''>'' then ''&gt;''
                    else if c = CHR ''&'' then ''&amp;'' else [c])"

definition escape :: "string \<Rightarrow> string" where
  "escape s = concat (map escape_char s)"

definition open_tag :: "string \<Rightarrow> string" where "open_tag n = CHR ''<'' # n @ ''>''"
definition close_tag :: "string \<Rightarrow> string" where "close_tag n = CHR ''<'' # CHR ''/'' # n @ ''>''"
definition empty_tag :: "string \<Rightarrow> string" where "empty_tag n = CHR ''<'' # n @ ''/>''"

definition element :: "string \<Rightarrow> string \<Rightarrow> string" where
  "element n body = open_tag n @ body @ close_tag n"

text \<open>\<open>w\<close> is the white space put before every child and closing tag of a container, \<open>rs\<close>
  prints a \<^verbatim>\<open>double\<close>.\<close>

fun render :: "(double \<Rightarrow> string) \<Rightarrow> string \<Rightarrow> plist \<Rightarrow> string"
  and render_list :: "(double \<Rightarrow> string) \<Rightarrow> string \<Rightarrow> plist list \<Rightarrow> string"
  and render_items :: "(double \<Rightarrow> string) \<Rightarrow> string \<Rightarrow> (string \<times> plist) list \<Rightarrow> string"
where
  "render rs w (PBool b) = empty_tag (if b then ''true'' else ''false'')"
| "render rs w (PString s) = element ''string'' (escape s)"
| "render rs w (PInteger i) = element ''integer'' (dec_int (sint i))"
| "render rs w (PReal d) = element ''real'' (escape (rs d))"
| "render rs w (PData bs) = element ''data'' (b64_encode bs)"
| "render rs w (PArray vs) = open_tag ''array'' @ render_list rs w vs @ w @ close_tag ''array''"
| "render rs w (PDict items) = open_tag ''dict'' @ render_items rs w items @ w @ close_tag ''dict''"
| "render_list rs w [] = []"
| "render_list rs w (v # vs) = w @ render rs w v @ render_list rs w vs"
| "render_items rs w [] = []"
| "render_items rs w (kv # items) =
     w @ element ''key'' (escape (fst kv)) @ w @ render rs w (snd kv) @ render_items rs w items"

text \<open>Values a C string can hold: no NUL in a string or key, and reals that the printer and
  \<open>sd\<close> carry over.\<close>

fun plist_ok :: "(string \<Rightarrow> double) \<Rightarrow> (double \<Rightarrow> string) \<Rightarrow> plist \<Rightarrow> bool" where
  "plist_ok sd rs (PString s) = nul_free s"
| "plist_ok sd rs (PReal d) = (nul_free (rs d) \<and> sd (rs d) = d)"
| "plist_ok sd rs (PArray vs) = (\<forall>v \<in> set vs. plist_ok sd rs v)"
| "plist_ok sd rs (PDict items) = (\<forall>kv \<in> set items. nul_free (fst kv) \<and> plist_ok sd rs (snd kv))"
| "plist_ok sd rs _ = True"

section \<open>Reading tags back\<close>

definition all_space :: "string \<Rightarrow> bool" where
  "all_space w \<longleftrightarrow> (\<forall>c \<in> set w. c_isspace c)"

lemma skip_ws_space: "all_space w \<Longrightarrow> skip_ws (w @ s) = skip_ws s"
  by (auto simp: skip_ws_def all_space_def dropWhile_append2)

lemma skip_noise_space: "all_space w \<Longrightarrow> skip_noise (w @ s) = skip_noise s"
  by (simp add: skip_noise.simps [of "w @ s"] skip_noise.simps [of s] skip_ws_space)

lemma skip_noise_tag [c_simps]:
  assumes "c \<noteq> CHR ''?''" "c \<noteq> CHR ''!''"
  shows "skip_noise (CHR ''<'' # c # s) = POk () (CHR ''<'' # c # s)"
proof -
  have "skip_ws (CHR ''<'' # c # s) = CHR ''<'' # c # s"
    by (simp add: skip_ws_def c_isspace_def)
  moreover have "skip_prologue_at (CHR ''<'' # c # s) = None"
    using assms by (simp add: skip_prologue_at_def)
  ultimately show ?thesis by (simp add: skip_noise_steps)
qed

lemma read_tag_space: "all_space w \<Longrightarrow> read_tag (w @ s) = read_tag s"
  by (simp add: read_tag_def skip_noise_space)

definition good_name :: "string \<Rightarrow> bool" where
  "good_name n \<longleftrightarrow> n \<noteq> [] \<and> length n \<le> TAG_NAME_MAX \<and>
     (\<forall>c \<in> set n. name_char c \<and> c_tolower c = c)"

lemma good_names [simp]:
  "good_name ''true''" "good_name ''false''" "good_name ''string''" "good_name ''integer''"
  "good_name ''real''" "good_name ''data''" "good_name ''array''" "good_name ''dict''"
  "good_name ''key''" "good_name ''plist''"
  by (simp_all add: good_name_def TAG_NAME_MAX_def name_char_def ctype_defs)

lemma name_char_not_special:
  "name_char c \<Longrightarrow> c \<noteq> CHR ''?'' \<and> c \<noteq> CHR ''!'' \<and> c \<noteq> CHR ''/'' \<and> c \<noteq> CHR ''>''"
  by (auto simp: name_char_def ctype_defs)

lemma name_char_stops [simp]: "\<not> name_char CHR ''>''" "\<not> name_char CHR '' ''" "\<not> name_char CHR ''/''"
  by (simp_all add: name_char_def ctype_defs)

lemma good_name_split:
  assumes "good_name n" "\<not> name_char c"
  shows "takeWhile name_char (n @ c # s) = n" "dropWhile name_char (n @ c # s) = c # s"
  using assms by (simp_all add: good_name_def)

lemma good_name_lower: "good_name n \<Longrightarrow> map c_tolower (take TAG_NAME_MAX n) = n"
  by (simp add: good_name_def map_idI)

lemma good_name_head:
  assumes "good_name n" obtains c m where "n = c # m" "name_char c"
  using assms by (cases n) (auto simp: good_name_def)

lemma read_tag_name_good:
  assumes "good_name n" "\<not> name_char c" "scan_attrs False (c # s) = Some (self, r)"
  shows "read_tag_name b (n @ c # s) = POk \<lparr>t_name = n, t_closing = b, t_self_closing = self\<rparr> r"
proof -
  have "n \<noteq> []" using assms(1) by (simp add: good_name_def)
  then show ?thesis
    unfolding read_tag_name_def good_name_split [OF assms(1,2)] good_name_lower [OF assms(1)]
    using assms(3) by simp
qed

lemma read_tag_body_good:
  assumes "good_name n" "\<not> name_char c" "scan_attrs False (c # s) = Some (self, r)"
  shows "read_tag (CHR ''<'' # n @ c # s)
           = POk \<lparr>t_name = n, t_closing = False, t_self_closing = self\<rparr> r"
proof -
  obtain d m where n: "n = d # m" "name_char d" using good_name_head [OF assms(1)] .
  then show ?thesis
    using read_tag_name_good [OF assms, of False] name_char_not_special [of d]
    by (simp add: read_tag_def skip_noise_tag)
qed

lemma read_open_tag [c_simps]:
  "good_name n \<Longrightarrow>
     read_tag (open_tag n @ s) = POk \<lparr>t_name = n, t_closing = False, t_self_closing = False\<rparr> s"
  using read_tag_body_good [of n "CHR ''>''" s False s] by (simp add: open_tag_def)

lemma read_empty_tag [c_simps]:
  "good_name n \<Longrightarrow>
     read_tag (empty_tag n @ s) = POk \<lparr>t_name = n, t_closing = False, t_self_closing = True\<rparr> s"
  using read_tag_body_good [of n "CHR ''/''" "CHR ''>'' # s" True s] by (simp add: empty_tag_def)

lemma read_close_tag [c_simps]:
  "good_name n \<Longrightarrow>
     read_tag (close_tag n @ s) = POk \<lparr>t_name = n, t_closing = True, t_self_closing = False\<rparr> s"
  using read_tag_name_good [of n "CHR ''>''" s False s True]
  by (simp add: read_tag_def close_tag_def skip_noise_tag)

lemma expect_close_tag [c_simps]: "good_name n \<Longrightarrow> expect_close n (close_tag n @ s) = POk () s"
  by (simp add: expect_close_def read_close_tag)

section \<open>Reading text back\<close>

lemma read_text_loop_escape:
  "read_text_loop sb (escape s @ CHR ''<'' # r) = POk (sb @ s) (CHR ''<'' # r)"
proof (induction s arbitrary: sb)
  case Nil
  then show ?case by (simp add: escape_def read_text_loop.simps)
next
  case (Cons c s)
  have step: "escape (c # s) = escape_char c @ escape s"
    by (simp add: escape_def)
  show ?case
    using Cons [of "sb @ [c]"]
    by (auto simp: step escape_char_def read_text_loop.simps [of sb] decode_entity_def)
qed

lemma read_text_escape [c_simps]:
  "nul_free s \<Longrightarrow> read_text (escape s @ close_tag n @ r) = POk s (close_tag n @ r)"
  by (simp add: read_text_def close_tag_def read_text_loop_escape)

lemma escape_plain: "\<forall>c \<in> set s. c \<noteq> CHR ''<'' \<and> c \<noteq> CHR ''>'' \<and> c \<noteq> CHR ''&'' \<Longrightarrow> escape s = s"
  by (induction s) (auto simp: escape_def escape_char_def)

lemma read_text_plain [c_simps]:
  assumes "\<And>c. c \<in> set s \<Longrightarrow> c \<noteq> CHR ''<'' \<and> c \<noteq> CHR ''>'' \<and> c \<noteq> CHR ''&'' \<and> c \<noteq> CHR 0x00"
  shows "read_text (s @ close_tag n @ r) = POk s (close_tag n @ r)"
  using read_text_escape [of s n r] assms escape_plain [of s] by (simp add: nul_free_def)

lemma dec_int_plain:
  "c \<in> set (dec_int i) \<Longrightarrow> c \<noteq> CHR ''<'' \<and> c \<noteq> CHR ''>'' \<and> c \<noteq> CHR ''&'' \<and> c \<noteq> CHR 0x00"
  by (auto dest!: dec_int_chars simp: c_isdigit_def)

lemma b64_plain:
  "c \<in> set (b64_encode bs) \<Longrightarrow> c \<noteq> CHR ''<'' \<and> c \<noteq> CHR ''>'' \<and> c \<noteq> CHR ''&'' \<and> c \<noteq> CHR 0x00"
  using b64_encode_chars [of c bs] by (auto simp: b64_alphabet_def)

section \<open>Reading values back\<close>

lemma tag_lengths [simp]:
  "length (open_tag n) = length n + 2" "length (close_tag n) = length n + 3"
  "length (empty_tag n) = length n + 3"
  by (simp_all add: open_tag_def close_tag_def empty_tag_def)

lemma element_length [simp]: "length (element n s) = 2 * length n + length s + 5"
  by (simp add: element_def)

lemma parse_value_space:
  "all_space w \<Longrightarrow> parse_value sd n (w @ s) = parse_value sd n s"
  by (cases n) (simp_all add: parse_value.simps read_tag_space)

lemma parse_scalar_element [c_simps]:
  assumes "nul_free s"
  shows "parse_scalar sd \<lparr>t_name = ''string'', t_closing = False, t_self_closing = False\<rparr>
           (escape s @ close_tag ''string'' @ r) = POk (PString s) r"
    and "parse_scalar sd \<lparr>t_name = ''real'', t_closing = False, t_self_closing = False\<rparr>
           (escape s @ close_tag ''real'' @ r) = POk (PReal (sd s)) r"
  using assms by (simp_all add: parse_scalar_def read_text_escape expect_close_tag)

lemma parse_scalar_integer [c_simps]:
  "parse_scalar sd \<lparr>t_name = ''integer'', t_closing = False, t_self_closing = False\<rparr>
     (dec_int (sint i) @ close_tag ''integer'' @ r) = POk (PInteger i) r"
  by (simp add: parse_scalar_def read_text_plain dec_int_plain expect_close_tag)

lemma parse_scalar_data [c_simps]:
  "parse_scalar sd \<lparr>t_name = ''data'', t_closing = False, t_self_closing = False\<rparr>
     (b64_encode bs @ close_tag ''data'' @ r) = POk (PData bs) r"
  by (simp add: parse_scalar_def read_text_plain b64_plain expect_close_tag b64_decode_encode)

lemma parse_scalar_bool [c_simps]:
  "parse_scalar sd \<lparr>t_name = ''true'', t_closing = False, t_self_closing = True\<rparr> r = POk (PBool True) r"
  "parse_scalar sd \<lparr>t_name = ''false'', t_closing = False, t_self_closing = True\<rparr> r = POk (PBool False) r"
  by (simp_all add: parse_scalar_def)

lemma parse_value_element [c_simps]:
  assumes "good_name n" "n \<noteq> ''dict''" "n \<noteq> ''array''" "1 < k"
  shows "parse_value sd k (element n s @ r) =
           parse_scalar sd \<lparr>t_name = n, t_closing = False, t_self_closing = False\<rparr>
             (s @ close_tag n @ r)"
    and "parse_value sd k (empty_tag n @ s) =
           parse_scalar sd \<lparr>t_name = n, t_closing = False, t_self_closing = True\<rparr> s"
proof -
  obtain j where k: "k = Suc (Suc j)"
    using less_imp_Suc_add [OF assms(4)] by auto
  show "parse_value sd k (element n s @ r) =
           parse_scalar sd \<lparr>t_name = n, t_closing = False, t_self_closing = False\<rparr>
             (s @ close_tag n @ r)"
    and "parse_value sd k (empty_tag n @ s) =
           parse_scalar sd \<lparr>t_name = n, t_closing = False, t_self_closing = True\<rparr> s"
    unfolding k using assms
    by (simp_all add: parse_value.simps parse_after_tag.simps element_def
        read_open_tag read_empty_tag)
qed

lemma render_starts_element:
  "\<exists>n t. good_name n \<and> n \<noteq> ''plist'' \<and> (render rs w v = open_tag n @ t \<or> render rs w v = empty_tag n @ t)"
proof (cases v)
  case (PBool b)
  show ?thesis
    by (rule exI [of _ "if b then ''true'' else ''false''"], rule exI [of _ "[]"])
      (simp add: PBool)
qed (auto simp: element_def intro: good_names)

lemma render_nonempty: "2 \<le> length (render rs w v)"
  using render_starts_element [of rs w v] by auto

lemma skip_noise_element:
  "good_name n \<Longrightarrow> skip_noise (open_tag n @ s) = POk () (open_tag n @ s)"
  "good_name n \<Longrightarrow> skip_noise (empty_tag n @ s) = POk () (empty_tag n @ s)"
  by (erule good_name_head, simp add: open_tag_def empty_tag_def skip_noise_tag
      name_char_not_special)+

lemma skip_noise_close: "skip_noise (close_tag n @ s) = POk () (close_tag n @ s)"
  by (simp add: close_tag_def skip_noise_tag)

lemma skip_noise_render: "skip_noise (render rs w v @ s) = POk () (render rs w v @ s)"
  using render_starts_element [of rs w v] skip_noise_element by fastforce

lemma read_tag_render:
  "\<exists>tag t. read_tag (render rs w v @ s) = POk tag t \<and> \<not> t_closing tag \<and> t_name tag \<noteq> ''plist''"
  using render_starts_element [of rs w v] by (fastforce simp: read_open_tag read_empty_tag)

lemma parse_value_container:
  assumes "1 < n"
  shows "parse_value sd n (open_tag ''array'' @ s) = parse_array sd (n - 2) [] s"
    and "parse_value sd n (open_tag ''dict'' @ s) = parse_dict sd (n - 2) [] s"
proof -
  obtain j where n: "n = Suc (Suc j)"
    using less_imp_Suc_add [OF assms] by auto
  show "parse_value sd n (open_tag ''array'' @ s) = parse_array sd (n - 2) [] s"
    and "parse_value sd n (open_tag ''dict'' @ s) = parse_dict sd (n - 2) [] s"
    by (simp_all add: n parse_value.simps parse_after_tag.simps read_open_tag)
qed

lemma parse_render_aux:
  shows "plist_ok sd rs v \<Longrightarrow> all_space w \<Longrightarrow> length (render rs w v) < n
      \<Longrightarrow> parse_value sd n (render rs w v @ r) = POk v r"
    and "(\<forall>v \<in> set vs. plist_ok sd rs v) \<Longrightarrow> all_space w
      \<Longrightarrow> length (render_list rs w vs @ w @ close_tag ''array'') < n
      \<Longrightarrow> parse_array sd n acc (render_list rs w vs @ w @ close_tag ''array'' @ r)
            = POk (PArray (acc @ vs)) r"
    and "(\<forall>kv \<in> set items. nul_free (fst kv) \<and> plist_ok sd rs (snd kv)) \<Longrightarrow> all_space w
      \<Longrightarrow> length (render_items rs w items @ w @ close_tag ''dict'') < n
      \<Longrightarrow> parse_dict sd n acc' (render_items rs w items @ w @ close_tag ''dict'' @ r)
            = POk (PDict (acc' @ items)) r"
proof (induction rs w v and rs w vs and rs w items
    arbitrary: n r and n r acc and n r acc' rule: render_render_list_render_items.induct)
  case (6 rs w vs)
  then show ?case using 6 by (simp add: parse_value_container)
next
  case (7 rs w items)
  then show ?case by (simp add: parse_value_container)
next
  case (8 rs w)
  then obtain j where "n = Suc j" by (cases n) auto
  with 8 show ?case
    by (simp add: parse_array.simps skip_noise_space skip_noise_close read_close_tag)
next
  case (9 rs w v vs)
  then obtain j where n: "n = Suc j" by (cases n) auto
  have "parse_value sd j (render rs w v @ s) = POk v s" for s
    using 9 n by simp
  moreover have "parse_array sd j (acc @ [v]) (render_list rs w vs @ w @ close_tag ''array'' @ r)
      = POk (PArray (acc @ v # vs)) r"
    using "9.IH"(2) [of j "acc @ [v]" r] "9.prems" n render_nonempty [of rs w v] by simp
  moreover obtain tag t where "read_tag (render rs w v @ render_list rs w vs @ w @
      close_tag ''array'' @ r) = POk tag t" "\<not> t_closing tag"
    using read_tag_render by blast
  ultimately show ?case
    using "9.prems"(2) by (simp add: n parse_array.simps skip_noise_space skip_noise_render)
next
  case (10 rs w)
  then obtain j where "n = Suc j" by (cases n) auto
  with 10 show ?case by (simp add: parse_dict.simps read_tag_space read_close_tag)
next
  case (11 rs w kv items)
  then obtain j where n: "n = Suc j" by (cases n) auto
  have "parse_value sd j (render rs w (snd kv) @ s) = POk (snd kv) s" for s
    using 11 n by simp
  moreover have "parse_dict sd j (acc' @ [kv]) (render_items rs w items @ w @ close_tag ''dict'' @ r)
      = POk (PDict (acc' @ kv # items)) r"
    using "11.IH"(2) [of j "acc' @ [kv]" r] "11.prems" n render_nonempty [of rs w "snd kv"]
    by simp
  ultimately show ?case
    using "11.prems"(1,2)
    by (simp add: n parse_dict.simps element_def read_tag_space read_open_tag read_text_escape
        expect_close_tag parse_value_space)
qed (simp_all add: parse_value_element parse_scalar_element parse_scalar_integer
    parse_scalar_data parse_scalar_bool element_def [symmetric])

section \<open>Whole documents\<close>

definition xml_declaration :: string where
  \<open>xml_declaration = ''<?xml version="1.0" encoding="UTF-8"?>''\<close>

definition plist_doctype :: string where
  \<open>plist_doctype = ''<!DOCTYPE plist PUBLIC "-//Apple//DTD PLIST 1.0//EN" "http://www.apple.com/DTDs/PropertyList-1.0.dtd">''\<close>

definition plist_open :: string where
  \<open>plist_open = ''<plist version="1.0">''\<close>

definition render_document :: "(double \<Rightarrow> string) \<Rightarrow> string \<Rightarrow> plist \<Rightarrow> string" where
  "render_document rs w v =
     xml_declaration @ w @ plist_doctype @ w @ plist_open @ w @ render rs w v @ w @ close_tag ''plist''"

lemma skip_noise_step_space:
  assumes "all_space w" "skip_prologue_at (CHR ''<'' # s) = Some (POk u r)"
  shows "skip_noise (w @ CHR ''<'' # s) = skip_noise r"
proof -
  have "skip_ws (CHR ''<'' # s) = CHR ''<'' # s"
    by (simp add: skip_ws_def c_isspace_def)
  with assms show ?thesis by (simp add: skip_noise_space skip_noise_steps)
qed

lemma skip_declaration: "skip_noise (xml_declaration @ s) = skip_noise s"
proof -
  have "skip_prologue_at (xml_declaration @ s) = Some (POk () s)"
    by (simp add: xml_declaration_def skip_prologue_at_def)
  then show ?thesis
    using skip_noise_step_space [of "[]" "tl (xml_declaration @ s)"]
    by (simp add: xml_declaration_def all_space_def)
qed

lemma skip_doctype: "skip_noise (plist_doctype @ s) = skip_noise s"
proof -
  have "skip_prologue_at (plist_doctype @ s) = Some (POk () s)"
    by (simp add: plist_doctype_def skip_prologue_at_def)
  then show ?thesis
    using skip_noise_step_space [of "[]" "tl (plist_doctype @ s)"]
    by (simp add: plist_doctype_def all_space_def)
qed

lemma read_tag_noise_cong: "skip_noise s = skip_noise t \<Longrightarrow> read_tag s = read_tag t"
  by (simp add: read_tag_def)

lemma read_plist_open:
  "read_tag (plist_open @ s) = POk \<lparr>t_name = ''plist'', t_closing = False, t_self_closing = False\<rparr> s"
proof -
  let ?attrs = \<open>''version="1.0">''\<close>
  have "scan_attrs False (CHR '' '' # ?attrs @ s) = Some (False, s)"
    by simp
  then have "read_tag (CHR ''<'' # ''plist'' @ CHR '' '' # ?attrs @ s) =
      POk \<lparr>t_name = ''plist'', t_closing = False, t_self_closing = False\<rparr> s"
    by (rule read_tag_body_good [rotated 2]) simp_all
  then show ?thesis by (simp add: plist_open_def)
qed

lemma parse_document_render:
  assumes "plist_ok sd rs v" "all_space w"
  shows "parse_document sd (render_document rs w v @ trailing) = POk v trailing"
proof -
  let ?body = "w @ render rs w v @ w @ close_tag ''plist'' @ trailing"
  let ?n = "length (render_document rs w v @ trailing) + 3"
  have "read_tag (render_document rs w v @ trailing) = read_tag (plist_open @ ?body)"
    using assms(2)
    by (intro read_tag_noise_cong)
      (simp add: render_document_def skip_declaration skip_doctype skip_noise_space)
  moreover have "parse_value sd ?n ?body = POk v (w @ close_tag ''plist'' @ trailing)"
    using parse_render_aux(1) [OF assms, of ?n] assms(2)
    by (simp add: parse_value_space render_document_def)
  moreover have "expect_close ''plist'' (w @ close_tag ''plist'' @ trailing) = POk () trailing"
    using assms(2) by (simp add: expect_close_def read_tag_space read_close_tag)
  ultimately show ?thesis
    by (simp add: parse_document_def read_plist_open)
qed

lemma parse_bare_render:
  assumes "plist_ok sd rs v" "all_space w"
  shows "parse_document sd (w @ render rs w v @ trailing) = POk v trailing"
proof -
  let ?n = "length (w @ render rs w v @ trailing) + 3"
  obtain tag t where tag: "read_tag (render rs w v @ trailing) = POk tag t" "\<not> t_closing tag"
    "t_name tag \<noteq> ''plist''"
    using read_tag_render by blast
  have "parse_value sd (Suc ?n) (render rs w v @ trailing) = POk v trailing"
    by (rule parse_render_aux(1) [OF assms]) simp
  moreover have "parse_value sd (Suc ?n) (render rs w v @ trailing) = parse_after_tag sd ?n tag t"
    by (subst parse_value.simps(2)) (simp add: tag)
  ultimately have "parse_after_tag sd ?n tag t = POk v trailing" by simp
  then show ?thesis
    using assms(2) tag by (simp add: parse_document_def read_tag_space)
qed

end
