(* ===== verification/C_Memory.thy ===== *)
theory C_Memory
  imports Prelude "HOL-Library.Multiset"
begin

text \<open>
  Allocated memory, when any allocation may fail: the functions of the C library, and who owns which block.
\<close>

section \<open>Allocation\<close>

text \<open>The blocks that are allocated, by address, and how many requests there have been.  A request that
  succeeds gives an address that was never used.  \<open>ok k\<close> is whether the request number \<open>k\<close> succeeds.\<close>

record mem =
  live :: "nat set"
  requests :: nat

type_synonym alloc_plan = "nat \<Rightarrow> bool"

text \<open>\<^verbatim>\<open>malloc\<close>, \<^verbatim>\<open>calloc\<close> and \<^verbatim>\<open>strdup\<close>; 0 is \<^verbatim>\<open>NULL\<close>.\<close>

definition malloc :: "alloc_plan \<Rightarrow> mem \<Rightarrow> nat \<times> mem" where
  "malloc ok m =
     (let k = requests m in
      if ok k then (Suc k, m\<lparr>live := insert (Suc k) (live m), requests := Suc k\<rparr>)
      else (0, m\<lparr>requests := Suc k\<rparr>))"

text \<open>\<open>None\<close> is a block that is freed although it is not allocated.\<close>

definition free :: "nat \<Rightarrow> mem \<Rightarrow> mem option" where
  "free p m =
     (if p = 0 then Some m else if p \<in> live m then Some (m\<lparr>live := live m - {p}\<rparr>) else None)"

text \<open>A \<^verbatim>\<open>realloc\<close> that fails leaves the old block.\<close>

definition realloc :: "alloc_plan \<Rightarrow> nat \<Rightarrow> mem \<Rightarrow> (nat \<times> mem) option" where
  "realloc ok p m =
     (case malloc ok m of
        (q, m1) \<Rightarrow>
          if p \<noteq> 0 \<and> p \<notin> live m then None
          else if q = 0 then Some (0, m1)
          else map_option (Pair q) (free p m1))"

definition both :: "(mem \<Rightarrow> mem option) \<Rightarrow> (mem \<Rightarrow> mem option) \<Rightarrow> mem \<Rightarrow> mem option" where
  "both f g m = Option.bind (f m) g"

text \<open>A piece of text in its block.\<close>

type_synonym text_block = "nat \<times> string"

definition free_text :: "text_block \<Rightarrow> mem \<Rightarrow> mem option" where
  "free_text t = free (fst t)"

text \<open>\<^verbatim>\<open>strdup\<close>.\<close>

definition dup_string :: "alloc_plan \<Rightarrow> string \<Rightarrow> mem \<Rightarrow> text_block \<times> mem" where
  "dup_string ok s m = (case malloc ok m of (p, m1) \<Rightarrow> ((p, if p = 0 then [] else s), m1))"

section \<open>Ownership\<close>

named_theorems owns \<open>rules for who owns which block\<close>

text \<open>The allocated blocks are split into those of the rest of the program and those of the code at hand.\<close>

definition owned :: "mem \<Rightarrow> nat multiset \<Rightarrow> nat multiset \<Rightarrow> bool" where
  "owned m R B \<longleftrightarrow>
     finite (live m) \<and> (\<forall>p \<in> live m. 0 < p \<and> p \<le> requests m) \<and> mset_set (live m) = R + B"

text \<open>The block of a pointer.\<close>

definition blk :: "nat \<Rightarrow> nat multiset" where
  "blk p = (if p = 0 then {#} else {#p#})"

lemma blk_simps [simp]: "blk 0 = {#}" "blk (Suc n) = {#Suc n#}" "p \<noteq> 0 \<Longrightarrow> blk p = {#p#}"
  by (simp_all add: blk_def)

definition frees :: "nat multiset \<Rightarrow> (mem \<Rightarrow> mem option) \<Rightarrow> bool" where
  "frees B f \<longleftrightarrow> (\<forall>m R. owned m R B \<longrightarrow> (\<exists>m'. f m = Some m' \<and> owned m' R {#}))"

lemma owned_move: "owned m R (B + F) \<longleftrightarrow> owned m (R + F) B" "owned m R (F + B) \<longleftrightarrow> owned m (R + F) B"
  by (simp_all add: owned_def ac_simps)

lemma owned_none: "owned m (R + F) {#} \<longleftrightarrow> owned m R F"
  by (simp add: owned_def)

lemma owned_live: "owned m R B \<Longrightarrow> p \<in># B \<Longrightarrow> p \<in> live m"
  by (metis owned_def elem_mset_set union_iff)

lemma malloc_owned:
  assumes "malloc ok m = (p, m')" and "owned m R B"
  shows "owned m' R (blk p + B)"
proof -
  have "Suc (requests m) \<notin> live m"
    using assms(2) by (force simp: owned_def)
  moreover have "\<forall>q \<in> live m. 0 < q \<and> q \<le> Suc (requests m)"
    using assms(2) by (force simp: owned_def)
  ultimately show ?thesis
    using assms by (auto simp: malloc_def owned_def Let_def split: if_splits)
qed

lemma free_owned:
  assumes "owned m R (blk p + B)"
  obtains m' where "free p m = Some m'" "owned m' R B"
proof (cases "p = 0")
  case True
  then show ?thesis using assms that by (simp add: free_def)
next
  case False
  then have *: "p \<in> live m"
    using owned_live [OF assms, of p] by simp
  have "mset_set (live m - {p}) = mset_set (live m) - {#p#}"
    using assms * by (simp add: owned_def mset_set_Diff)
  then show ?thesis
    using assms False * by (intro that [of "m\<lparr>live := live m - {p}\<rparr>"]) (auto simp: free_def owned_def)
qed

lemma realloc_owned:
  assumes "owned m R (blk p + B)"
  obtains q m' where "realloc ok p m = Some (q, m')" "owned m' R (blk (if q = 0 then p else q) + B)"
proof -
  obtain q m1 where m1: "malloc ok m = (q, m1)" by (cases "malloc ok m")
  have o1: "owned m1 R (blk q + (blk p + B))"
    by (rule malloc_owned [OF m1 assms])
  have p: "p = 0 \<or> p \<in> live m"
    using owned_live [OF assms, of p] by (cases "p = 0") simp_all
  have "owned m1 R (blk p + (blk q + B))"
    using o1 by (simp add: ac_simps)
  from free_owned [OF this] obtain m2 where "free p m1 = Some m2" "owned m2 R (blk q + B)" .
  then show ?thesis
    using m1 p o1 that by (cases "q = 0") (auto simp: realloc_def)
qed

lemma frees_use: "frees B f \<Longrightarrow> owned m R B \<Longrightarrow> \<exists>m'. f m = Some m' \<and> owned m' R {#}"
  by (simp add: frees_def)

lemma frees_none [owns]: "frees {#} Some"
  by (simp add: frees_def)

lemma frees_block [owns]: "frees (blk p) (free p)"
  unfolding frees_def using free_owned [of _ _ p "{#}"] by fastforce

lemma frees_text [owns]: "frees (blk (fst t)) (free_text t)"
  by (simp add: free_text_def owns)

lemma frees_frame:
  assumes "frees B f" and "owned m R (B + F)"
  obtains m' where "f m = Some m'" "owned m' R F"
  using assms by (metis frees_def owned_move(1) owned_none)

lemma frees_both [owns]:
  assumes f: "frees B f" and g: "frees C g"
  shows "frees (B + C) (both f g)"
  unfolding frees_def
proof (intro allI impI)
  fix m R
  assume "owned m R (B + C)"
  from frees_frame [OF f this] obtain m1 where "f m = Some m1" "owned m1 R C" .
  then show "\<exists>m'. both f g m = Some m' \<and> owned m' R {#}"
    using frees_use [OF g] by (auto simp: both_def)
qed

definition text_blk :: "text_block \<Rightarrow> nat multiset" where
  "text_blk t = blk (fst t)"

lemma frees_text_blk [owns]: "frees (text_blk t) (free_text t)"
  by (simp add: text_blk_def owns)

section \<open>Enough memory\<close>

abbreviation plenty :: alloc_plan where
  "plenty \<equiv> (\<lambda>_. True)"

lemma malloc_plenty: "malloc plenty m = (p, m') \<Longrightarrow> p \<noteq> 0"
  by (auto simp: malloc_def Let_def)

lemma realloc_plenty: "realloc plenty p m = Some (q, m') \<Longrightarrow> q \<noteq> 0"
  by (auto simp: realloc_def malloc_def Let_def split: if_splits)

lemma dup_string_owned:
  "dup_string ok s m = (t, m') \<Longrightarrow> owned m R B \<Longrightarrow> owned m' R (text_blk t + B)"
  by (auto simp: dup_string_def text_blk_def dest: malloc_owned split: prod.splits)

lemma dup_string_plenty: "dup_string plenty s m = (t, m') \<Longrightarrow> fst t \<noteq> 0 \<and> snd t = s"
  by (auto simp: dup_string_def dest: malloc_plenty split: prod.splits)

section \<open>A whole memory\<close>

definition mem_ok :: "mem \<Rightarrow> bool" where
  "mem_ok m \<longleftrightarrow> finite (live m) \<and> (\<forall>p \<in> live m. 0 < p \<and> p \<le> requests m)"

lemma mem_ok_owned: "mem_ok m \<Longrightarrow> owned m (mset_set (live m)) {#}"
  by (simp add: mem_ok_def owned_def)

lemma owned_all: "owned m (mset_set S) {#} \<Longrightarrow> finite S \<Longrightarrow> live m = S"
  by (metis add.right_neutral finite_set_mset_mset_set owned_def)

end
