(* ===== verification/Plist_Memory.thy ===== *)
theory Plist_Memory
  imports Plist_Props C_Memory
begin

text \<open>
  The property-list reader with its memory: which blocks \<^verbatim>\<open>plist_lite.c\<close> allocates and frees, when any
  allocation may fail.  The reading of tags and the decoding of entities and of base64 are those of theory
  \<open>Plist_Parser\<close>; added are the string buffer, the nodes of a value and their arrays, and the clean-up on every
  path.
\<close>

section \<open>The string buffer\<close>

text \<open>The block, the characters before the terminating NUL, and the size of the block.\<close>

record strbuf =
  sb_buf :: nat
  sb_chars :: string
  sb_cap :: nat

text \<open>\<open>None\<close> is also a write outside the block.\<close>

definition sb_putc :: "alloc_plan \<Rightarrow> strbuf \<Rightarrow> char \<Rightarrow> mem \<Rightarrow> (bool \<times> strbuf \<times> mem) option" where
  "sb_putc ok sb c m =
     (let len = length (sb_chars sb);
          store = (\<lambda>sb m. if len + 1 < sb_cap sb then Some (True, sb\<lparr>sb_chars := sb_chars sb @ [c]\<rparr>, m) else None)
      in if sb_cap sb < len + 2 then
           (let cap = (if sb_cap sb \<noteq> 0 then sb_cap sb * 2 else 64) in
            case realloc ok (sb_buf sb) m of
              None \<Rightarrow> None
            | Some (p, m1) \<Rightarrow>
                if p = 0 then Some (False, sb, m1) else store (sb\<lparr>sb_buf := p, sb_cap := cap\<rparr>) m1)
         else store sb m)"

text \<open>The characters of an entity, up to the first that finds no memory.  \<^verbatim>\<open>read_text\<close> does not look at the
  result.\<close>

fun sb_puts :: "alloc_plan \<Rightarrow> strbuf \<Rightarrow> string \<Rightarrow> mem \<Rightarrow> (bool \<times> strbuf \<times> mem) option" where
  "sb_puts ok sb [] m = Some (True, sb, m)"
| "sb_puts ok sb (c # cs) m =
     (case sb_putc ok sb c m of
        None \<Rightarrow> None
      | Some (fit, sb1, m1) \<Rightarrow> if fit then sb_puts ok sb1 cs m1 else Some (False, sb1, m1))"

section \<open>Parsers with memory\<close>

text \<open>The result of a parser, and the memory; \<open>None\<close> is a wrong access.\<close>

type_synonym 'a act = "mem \<Rightarrow> ('a pres \<times> mem) option"

definition lift :: "'a pres \<Rightarrow> 'a act" where
  "lift r m = Some (r, m)"

text \<open>Go on with the result, or clean up after a failure.\<close>

definition try_or :: "'a act \<Rightarrow> (mem \<Rightarrow> mem option) \<Rightarrow> ('a \<Rightarrow> string \<Rightarrow> 'b act) \<Rightarrow> 'b act" where
  "try_or x clean f m =
     (case x m of
        None \<Rightarrow> None
      | Some (r, m1) \<Rightarrow>
          (case r of
             POk a s \<Rightarrow> f a s m1
           | PFail n msg \<Rightarrow> map_option (Pair (PFail n msg)) (clean m1)
           | POut \<Rightarrow> Some (POut, m1)))"

definition fail_with :: "nat \<Rightarrow> string \<Rightarrow> (mem \<Rightarrow> mem option) \<Rightarrow> 'a act" where
  "fail_with n msg clean m = map_option (Pair (PFail n msg)) (clean m)"

function read_text_loop_m :: "alloc_plan \<Rightarrow> strbuf \<Rightarrow> string \<Rightarrow> text_block act" where
  "read_text_loop_m ok sb s m =
     (case s of
        [] \<Rightarrow> Some (POk (sb_buf sb, sb_chars sb) [], m)
      | c # q \<Rightarrow>
          if c = CHR ''<'' then Some (POk (sb_buf sb, sb_chars sb) s, m)
          else if c = CHR ''&'' then
            (case memchr (CHR '';'') q of
               None \<Rightarrow> fail_with (length s) ''unterminated entity reference'' (free (sb_buf sb)) m
             | Some elen \<Rightarrow>
                 (case decode_entity (take elen q) of
                    Inl e \<Rightarrow> fail_with (length s) e (free (sb_buf sb)) m
                  | Inr bs \<Rightarrow>
                      (case sb_puts ok sb bs m of
                         None \<Rightarrow> None
                       | Some (fit, sb1, m1) \<Rightarrow> read_text_loop_m ok sb1 (drop (elen + 1) q) m1)))
          else
            (case sb_putc ok sb c m of
               None \<Rightarrow> None
             | Some (fit, sb1, m1) \<Rightarrow>
                 if fit then read_text_loop_m ok sb1 q m1
                 else fail_with (length s) ''out of memory'' (free (sb_buf sb1)) m1))"
  by pat_completeness auto
termination by (relation "measure (\<lambda>(ok, sb, s, m). length s)") auto

declare read_text_loop_m.simps [simp del]

text \<open>The first character is put to get a block.\<close>

definition read_text_m :: "alloc_plan \<Rightarrow> string \<Rightarrow> text_block act" where
  "read_text_m ok s m =
     (case sb_putc ok \<lparr>sb_buf = 0, sb_chars = [], sb_cap = 0\<rparr> (CHR 0x00) m of
        None \<Rightarrow> None
      | Some (fit, sb, m1) \<Rightarrow>
          if fit then try_or (read_text_loop_m ok (sb\<lparr>sb_chars := []\<rparr>) s) Some
                         (\<lambda>t r. lift (POk (fst t, c_str (snd t)) r)) m1
          else Some (PFail (length s) ''out of memory'', m1))"

section \<open>Values in memory\<close>

text \<open>A node with its address.  A dictionary has the addresses of its arrays of keys and of values, their
  capacity, and the entries; the text of a string, and the bytes of a data value, have a block that is 0 if it
  could not be allocated.\<close>

datatype hval =
    HDict nat nat nat nat "(text_block \<times> hval) list"
  | HArray nat nat nat "hval list"
  | HString nat nat string
  | HInteger nat i64
  | HReal nat double
  | HBool nat bool
  | HData nat nat "byte list"

fun plist_free :: "hval \<Rightarrow> mem \<Rightarrow> mem option"
  and free_entries :: "(text_block \<times> hval) list \<Rightarrow> mem \<Rightarrow> mem option"
  and free_items :: "hval list \<Rightarrow> mem \<Rightarrow> mem option" where
  "plist_free (HDict a keys values cap items) m =
     Option.bind (free_entries items m) (both (free keys) (both (free values) (free a)))"
| "plist_free (HArray a items cap vs) m = Option.bind (free_items vs m) (both (free items) (free a))"
| "plist_free (HString a p s) m = both (free p) (free a) m"
| "plist_free (HInteger a i) m = free a m"
| "plist_free (HReal a d) m = free a m"
| "plist_free (HBool a b) m = free a m"
| "plist_free (HData a p bs) m = both (free p) (free a) m"
| "free_entries [] m = Some m"
| "free_entries ((key, v) # kvs) m =
     Option.bind (free (fst key) m) (\<lambda>m1. Option.bind (plist_free v m1) (free_entries kvs))"
| "free_items [] m = Some m"
| "free_items (v # vs) m = Option.bind (plist_free v m) (free_items vs)"

text \<open>\<open>None\<close> is also a write outside an array.  If the second array cannot grow, the first stays larger.\<close>

fun dict_append :: "alloc_plan \<Rightarrow> hval \<Rightarrow> text_block \<Rightarrow> hval \<Rightarrow> mem \<Rightarrow> (bool \<times> hval \<times> mem) option" where
  "dict_append ok (HDict a keys values cap items) key v m =
     (let store = (\<lambda>keys values cap m.
            if length items < cap then Some (True, HDict a keys values cap (items @ [(key, v)]), m) else None)
      in if length items = cap then
           (let cap' = (if cap \<noteq> 0 then cap * 2 else 8) in
            case realloc ok keys m of
              None \<Rightarrow> None
            | Some (k, m1) \<Rightarrow>
                if k = 0 then Some (False, HDict a keys values cap items, m1)
                else
                  (case realloc ok values m1 of
                     None \<Rightarrow> None
                   | Some (vs, m2) \<Rightarrow>
                       if vs = 0 then Some (False, HDict a k values cap items, m2) else store k vs cap' m2))
         else store keys values cap m)"
| "dict_append ok d key v m = None"

fun array_append :: "alloc_plan \<Rightarrow> hval \<Rightarrow> hval \<Rightarrow> mem \<Rightarrow> (bool \<times> hval \<times> mem) option" where
  "array_append ok (HArray a items cap vs) v m =
     (let store = (\<lambda>items cap m.
            if length vs < cap then Some (True, HArray a items cap (vs @ [v]), m) else None)
      in if length vs = cap then
           (let cap' = (if cap \<noteq> 0 then cap * 2 else 8) in
            case realloc ok items m of
              None \<Rightarrow> None
            | Some (p, m1) \<Rightarrow> if p = 0 then Some (False, HArray a items cap vs, m1) else store p cap' m1)
         else store items cap m)"
| "array_append ok d v m = None"

text \<open>\<^verbatim>\<open>value_alloc\<close>, and the failure of its callers.\<close>

definition value_alloc :: "alloc_plan \<Rightarrow> string \<Rightarrow> (nat \<Rightarrow> 'a act) \<Rightarrow> 'a act" where
  "value_alloc ok s f m =
     (case malloc ok m of
        (a, m1) \<Rightarrow> if a = 0 then Some (PFail (length s) ''out of memory'', m1) else f a m1)"

text \<open>\<^verbatim>\<open>base64_decode\<close>: the block and the bytes.  \<open>None\<close> is also a write beyond the block.\<close>

definition base64_decode_m :: "alloc_plan \<Rightarrow> string \<Rightarrow> mem \<Rightarrow> ((nat \<times> byte list) option \<times> mem) option" where
  "base64_decode_m ok text m =
     (case malloc ok m of
        (p, m1) \<Rightarrow>
          if p = 0 then Some (None, m1)
          else
            (case base64_decode text of
               None \<Rightarrow> map_option (Pair None) (free p m1)
             | Some bs \<Rightarrow>
                 if length bs \<le> base64_capacity (length text) then Some (Some (p, bs), m1) else None))"

section \<open>The recursive descent\<close>

definition parse_scalar_m :: "(string \<Rightarrow> double) \<Rightarrow> alloc_plan \<Rightarrow> tag \<Rightarrow> string \<Rightarrow> hval act" where
  "parse_scalar_m sd ok tag s =
     (let name = t_name tag in
      if name = ''true'' \<or> name = ''false'' then
        value_alloc ok s (\<lambda>a.
          let v = HBool a (name ! 0 = CHR ''t'') in
          if t_self_closing tag then lift (POk v s)
          else try_or (lift (expect_close name s)) (plist_free v) (\<lambda>_ r. lift (POk v r)))
      else if name = ''string'' then
        value_alloc ok s (\<lambda>a.
          if t_self_closing tag then (\<lambda>m. case malloc ok m of (p, m1) \<Rightarrow> Some (POk (HString a p []) s, m1))
          else
            try_or (read_text_m ok s) (plist_free (HString a 0 [])) (\<lambda>text r.
              try_or (lift (expect_close ''string'' r)) (both (free_text text) (plist_free (HString a 0 [])))
                (\<lambda>_ r'. lift (POk (HString a (fst text) (snd text)) r'))))
      else if name = ''integer'' \<or> name = ''real'' then
        value_alloc ok s (\<lambda>a.
          let v0 = (if name ! 0 = CHR ''i'' then HInteger a 0 else HReal a 0) in
          try_or (read_text_m ok s) (plist_free v0) (\<lambda>text r.
            try_or (lift (expect_close name r)) (both (free_text text) (plist_free v0)) (\<lambda>_ r' m.
              map_option (Pair (POk
                  (if name ! 0 = CHR ''i'' then HInteger a (strtoll10 (snd text)) else HReal a (sd (snd text))) r'))
                (free_text text m))))
      else if name = ''data'' then
        value_alloc ok s (\<lambda>a.
          if t_self_closing tag then (\<lambda>m. case malloc ok m of (p, m1) \<Rightarrow> Some (POk (HData a p []) s, m1))
          else
            try_or (read_text_m ok s) (plist_free (HData a 0 [])) (\<lambda>text r.
              try_or (lift (expect_close ''data'' r)) (both (free_text text) (plist_free (HData a 0 [])))
                (\<lambda>_ r' m.
                  case base64_decode_m ok (snd text) m of
                    None \<Rightarrow> None
                  | Some (None, m1) \<Rightarrow>
                      fail_with (length r') ''malformed base64 in <data>''
                        (both (free_text text) (plist_free (HData a 0 []))) m1
                  | Some (Some (p, bs), m1) \<Rightarrow> map_option (Pair (POk (HData a p bs) r')) (free_text text m1))))
      else lift (PFail (length s) (''unsupported element <'' @ name @ ''>'')))"

function (sequential) parse_value_m :: "(string \<Rightarrow> double) \<Rightarrow> alloc_plan \<Rightarrow> nat \<Rightarrow> string \<Rightarrow> hval act"
  and parse_after_tag_m :: "(string \<Rightarrow> double) \<Rightarrow> alloc_plan \<Rightarrow> nat \<Rightarrow> tag \<Rightarrow> string \<Rightarrow> hval act"
  and parse_dict_m :: "(string \<Rightarrow> double) \<Rightarrow> alloc_plan \<Rightarrow> nat \<Rightarrow> hval \<Rightarrow> string \<Rightarrow> hval act"
  and parse_array_m :: "(string \<Rightarrow> double) \<Rightarrow> alloc_plan \<Rightarrow> nat \<Rightarrow> hval \<Rightarrow> string \<Rightarrow> hval act"
where
  "parse_value_m sd ok 0 s = lift POut"
| "parse_value_m sd ok (Suc n) s =
     try_or (lift (read_tag s)) Some (\<lambda>tag r.
       if t_closing tag then lift (PFail (length r) (''unexpected </'' @ t_name tag @ ''>''))
       else parse_after_tag_m sd ok n tag r)"
| "parse_after_tag_m sd ok 0 tag s = lift POut"
| "parse_after_tag_m sd ok (Suc n) tag s =
     (if t_name tag = ''dict'' then
        value_alloc ok s (\<lambda>a. let d = HDict a 0 0 0 [] in
          if t_self_closing tag then lift (POk d s) else parse_dict_m sd ok n d s)
      else if t_name tag = ''array'' then
        value_alloc ok s (\<lambda>a. let v = HArray a 0 0 [] in
          if t_self_closing tag then lift (POk v s) else parse_array_m sd ok n v s)
      else parse_scalar_m sd ok tag s)"
| "parse_dict_m sd ok 0 d s = lift POut"
| "parse_dict_m sd ok (Suc n) d s =
     try_or (lift (read_tag s)) (plist_free d) (\<lambda>next r.
       if t_closing next \<and> t_name next = ''dict'' then lift (POk d r)
       else if t_name next \<noteq> ''key'' \<or> t_closing next then
         fail_with (length r) (''expected <key> inside <dict>, got <'' @ t_name next @ ''>'') (plist_free d)
       else
         try_or (read_text_m ok r) (plist_free d) (\<lambda>key r1.
           try_or (lift (expect_close ''key'' r1)) (both (free_text key) (plist_free d)) (\<lambda>_ r2.
             try_or (parse_value_m sd ok n r2) (both (free_text key) (plist_free d)) (\<lambda>child r3 m.
               case dict_append ok d key child m of
                 None \<Rightarrow> None
               | Some (fit, d1, m1) \<Rightarrow>
                   if fit then parse_dict_m sd ok n d1 r3 m1
                   else fail_with (length r3) ''out of memory''
                          (both (free_text key) (both (plist_free child) (plist_free d1))) m1))))"
| "parse_array_m sd ok 0 v s = lift POut"
| "parse_array_m sd ok (Suc n) v s =
     try_or (lift (pbind (skip_noise s) (\<lambda>_ save. pbind (read_tag save) (\<lambda>next r. POk (next, save) r))))
       (plist_free v) (\<lambda>(next, save) r.
         if t_closing next \<and> t_name next = ''array'' then lift (POk v r)
         else
           try_or (parse_value_m sd ok n save) (plist_free v) (\<lambda>child r1 m.
             case array_append ok v child m of
               None \<Rightarrow> None
             | Some (fit, v1, m1) \<Rightarrow>
                 if fit then parse_array_m sd ok n v1 r1 m1
                 else fail_with (length r1) ''out of memory'' (both (plist_free child) (plist_free v1)) m1))"
  by pat_completeness auto
termination
  by (relation "measure (\<lambda>c. case c of
        Inl (Inl (sd, ok, n, s)) \<Rightarrow> n | Inl (Inr (sd, ok, n, tag, s)) \<Rightarrow> n
      | Inr (Inl (sd, ok, n, d, s)) \<Rightarrow> n | Inr (Inr (sd, ok, n, v, s)) \<Rightarrow> n)") auto

declare parse_value_m.simps [simp del] parse_after_tag_m.simps [simp del]
  parse_dict_m.simps [simp del] parse_array_m.simps [simp del]

definition parse_document_m :: "(string \<Rightarrow> double) \<Rightarrow> alloc_plan \<Rightarrow> string \<Rightarrow> hval act" where
  "parse_document_m sd ok xml =
     try_or (lift (read_tag xml)) Some (\<lambda>tag r.
       if t_name tag = ''plist'' \<and> \<not> t_closing tag then
         try_or (parse_value_m sd ok (length xml + 3) r) Some (\<lambda>root r1.
           try_or (lift (expect_close ''plist'' r1)) (plist_free root) (\<lambda>_ r2. lift (POk root r2)))
       else parse_after_tag_m sd ok (length xml + 3) tag r)"

section \<open>Entry points\<close>

text \<open>\<open>None\<close> is a wrong access, or no return.\<close>

definition plist_parse_string_m ::
  "(string \<Rightarrow> double) \<Rightarrow> alloc_plan \<Rightarrow> string option \<Rightarrow> nat \<Rightarrow> mem \<Rightarrow> ((string + hval) \<times> mem) option" where
  "plist_parse_string_m sd ok input errlen m =
     (case input of
        None \<Rightarrow> Some (Inl (snprintf_s errlen ''no input''), m)
      | Some xml \<Rightarrow>
          (case parse_document_m sd ok xml m of
             None \<Rightarrow> None
           | Some (POk v _, m1) \<Rightarrow> Some (Inr v, m1)
           | Some (PFail left detail, m1) \<Rightarrow> Some (Inl (fail_message xml errlen left detail), m1)
           | Some (POut, m1) \<Rightarrow> None))"

text \<open>The buffer for the contents is freed after the parser returns.\<close>

definition plist_parse_file_m ::
  "(string \<Rightarrow> double) \<Rightarrow> alloc_plan \<Rightarrow> (string \<Rightarrow> file_read) \<Rightarrow> string option \<Rightarrow> nat \<Rightarrow> mem \<Rightarrow>
   ((string + hval) \<times> mem) option" where
  "plist_parse_file_m sd ok fs path errlen m =
     (case path of
        None \<Rightarrow> Some (Inl (snprintf_s errlen ''no path given''), m)
      | Some p \<Rightarrow>
          (case fs p of
             CannotOpen e \<Rightarrow> Some (Inl (snprintf_s errlen (''cannot open '' @ p @ '': '' @ e)), m)
           | CannotSize \<Rightarrow> Some (Inl (snprintf_s errlen (''cannot size '' @ p)), m)
           | Contents text \<Rightarrow>
               (case malloc ok m of
                  (buf, m1) \<Rightarrow>
                    if buf = 0 then Some (Inl (snprintf_s errlen (''out of memory reading '' @ p)), m1)
                    else
                      (case plist_parse_string_m sd ok (Some text) errlen m1 of
                         None \<Rightarrow> None
                       | Some (v, m2) \<Rightarrow> map_option (Pair v) (free buf m2)))))"

end
