(* ===== verification/Plist_Ownership.thy ===== *)
theory Plist_Ownership
  imports Plist_Memory
begin

text \<open>
  Who owns which block in theory \<open>Plist_Memory\<close> (the rules are in theory \<open>C_Memory\<close>): a triple says that the code, given its blocks, makes no
  wrong access, leaves the rest alone, and has nothing left after a failure.
\<close>

section \<open>Triples\<close>

definition triple ::
  "nat multiset \<Rightarrow> 'a act \<Rightarrow> ('a \<Rightarrow> nat multiset) \<Rightarrow> ('a \<Rightarrow> string \<Rightarrow> bool) \<Rightarrow> bool" where
  "triple B x bl Q \<longleftrightarrow>
     (\<forall>m R. owned m R B \<longrightarrow>
        (\<exists>r m'. x m = Some (r, m') \<and>
           (case r of POk a s \<Rightarrow> owned m' R (bl a) \<and> Q a s | PFail _ _ \<Rightarrow> owned m' R {#} | POut \<Rightarrow> False)))"

section \<open>Rules\<close>

lemma triple_weaken:
  assumes "triple B x bl Q" and "\<And>a s. Q a s \<Longrightarrow> bl a = bl' a \<and> Q' a s"
  shows "triple B x bl' Q'"
  unfolding triple_def
proof (intro allI impI)
  fix m R
  assume "owned m R B"
  with assms(1) obtain r m' where *: "x m = Some (r, m')"
      "case r of POk a s \<Rightarrow> owned m' R (bl a) \<and> Q a s | PFail _ _ \<Rightarrow> owned m' R {#} | POut \<Rightarrow> False"
    unfolding triple_def by blast
  then show "\<exists>r m'. x m = Some (r, m') \<and>
      (case r of POk a s \<Rightarrow> owned m' R (bl' a) \<and> Q' a s | PFail _ _ \<Rightarrow> owned m' R {#} | POut \<Rightarrow> False)"
    using assms(2) by (auto split: pres.splits)
qed

lemma triple_try:
  assumes x: "triple B x bl Q" and clean: "frees F clean"
    and f: "\<And>a s. Q a s \<Longrightarrow> triple (bl a + F) (f a s) bl' Q'"
  shows "triple (B + F) (try_or x clean f) bl' Q'"
  unfolding triple_def
proof (intro allI impI)
  fix m R
  assume "owned m R (B + F)"
  then have "owned m (R + F) B" by (simp add: owned_move)
  with x obtain r m1 where *: "x m = Some (r, m1)"
      "case r of POk a s \<Rightarrow> owned m1 (R + F) (bl a) \<and> Q a s | PFail _ _ \<Rightarrow> owned m1 (R + F) {#} | POut \<Rightarrow> False"
    unfolding triple_def by blast
  show "\<exists>r m'. try_or x clean f m = Some (r, m') \<and>
      (case r of POk a s \<Rightarrow> owned m' R (bl' a) \<and> Q' a s | PFail _ _ \<Rightarrow> owned m' R {#} | POut \<Rightarrow> False)"
  proof (cases r)
    case (POk a s)
    then have "owned m1 R (bl a + F)" "Q a s" using * by (simp_all add: owned_move)
    with f have "\<exists>r m'. f a s m1 = Some (r, m') \<and>
      (case r of POk a s \<Rightarrow> owned m' R (bl' a) \<and> Q' a s | PFail _ _ \<Rightarrow> owned m' R {#} | POut \<Rightarrow> False)"
      unfolding triple_def by blast
    then show ?thesis using * POk by (simp add: try_or_def)
  next
    case (PFail n msg)
    then have "owned m1 R F" using * by (simp add: owned_none)
    with clean obtain m2 where "clean m1 = Some m2" "owned m2 R {#}"
      unfolding frees_def by blast
    then show ?thesis using * PFail by (simp add: try_or_def)
  qed (use * in simp)
qed

lemma triple_lift:
  assumes "r \<noteq> POut" and "\<And>a s. r = POk a s \<Longrightarrow> bl a = B \<and> Q a s" and "\<And>n msg. r = PFail n msg \<Longrightarrow> B = {#}"
  shows "triple B (lift r) bl Q"
  using assms by (cases r) (auto simp: triple_def lift_def)

lemma triple_read: "r \<noteq> POut \<Longrightarrow> triple {#} (lift r) (\<lambda>_. {#}) (\<lambda>a s. r = POk a s)"
  by (rule triple_lift) auto

lemma triple_done: "bl a = B \<Longrightarrow> Q a s \<Longrightarrow> triple B (lift (POk a s)) bl Q"
  by (rule triple_lift) auto

lemma triple_stop: "triple {#} (lift (PFail n msg)) bl Q"
  by (rule triple_lift) auto

lemma triple_fail: "frees B clean \<Longrightarrow> triple B (fail_with n msg clean) bl Q"
  by (force simp: triple_def frees_def fail_with_def)

text \<open>A reader that allocates nothing, in front of the rest.\<close>

lemma triple_after:
  assumes "r \<noteq> POut" and "frees F clean" and "\<And>a s. r = POk a s \<Longrightarrow> triple F (f a s) bl' Q'"
  shows "triple F (try_or (lift r) clean f) bl' Q'"
proof -
  have "triple ({#} + F) (try_or (lift r) clean f) bl' Q'"
    by (rule triple_try [OF triple_read [OF assms(1)] assms(2)]) (use assms(3) in simp)
  then show ?thesis by simp
qed

lemma triple_alloc:
  assumes "\<And>a. a \<noteq> 0 \<Longrightarrow> triple {#a#} (f a) bl Q"
  shows "triple {#} (value_alloc ok s f) bl Q"
  unfolding triple_def
proof (intro allI impI)
  fix m R
  assume o: "owned m R {#}"
  obtain p m1 where m1: "malloc ok m = (p, m1)" by (cases "malloc ok m")
  have "owned m1 R (blk p)" using malloc_owned [OF m1 o] by simp
  then show "\<exists>r m'. value_alloc ok s f m = Some (r, m') \<and>
      (case r of POk a s \<Rightarrow> owned m' R (bl a) \<and> Q a s | PFail _ _ \<Rightarrow> owned m' R {#} | POut \<Rightarrow> False)"
    using assms [of p] m1 by (cases "p = 0") (simp_all add: value_alloc_def triple_def)
qed

text \<open>An allocation that is not checked.\<close>

lemma triple_malloc:
  assumes "\<And>p. bl (c p) = blk p + B" and "\<And>p. Q (c p) s"
  shows "triple B (\<lambda>m. case malloc ok m of (p, m1) \<Rightarrow> Some (POk (c p) s, m1)) bl Q"
  using assms malloc_owned by (fastforce simp: triple_def split: prod.splits)

section \<open>The string buffer\<close>

definition sb_ok :: "strbuf \<Rightarrow> bool" where
  "sb_ok sb \<longleftrightarrow> length (sb_chars sb) < sb_cap sb \<and> sb_buf sb \<noteq> 0"

lemma sb_putc_owned:
  assumes "owned m R (blk (sb_buf sb) + B)"
    and "sb_ok sb \<or> sb = \<lparr>sb_buf = 0, sb_chars = [], sb_cap = 0\<rparr>"
  obtains fit sb' m' where "sb_putc ok sb c m = Some (fit, sb', m')" "owned m' R (blk (sb_buf sb') + B)"
    "fit \<Longrightarrow> sb_ok sb' \<and> sb_chars sb' = sb_chars sb @ [c]" "\<not> fit \<Longrightarrow> sb' = sb"
proof (cases "sb_cap sb < length (sb_chars sb) + 2")
  case True
  from realloc_owned [OF assms(1)] obtain q m' where
    *: "realloc ok (sb_buf sb) m = Some (q, m')" "owned m' R (blk (if q = 0 then sb_buf sb else q) + B)" .
  then show ?thesis
  proof (cases "q = 0")
    case False
    let ?cap = "if sb_cap sb \<noteq> 0 then sb_cap sb * 2 else 64"
    let ?sb = "sb\<lparr>sb_buf := q, sb_cap := ?cap, sb_chars := sb_chars sb @ [c]\<rparr>"
    have "length (sb_chars sb) + 1 < ?cap"
      using assms(2) by (auto simp: sb_ok_def)
    then have "sb_putc ok sb c m = Some (True, ?sb, m')" "sb_ok ?sb"
      using * True False by (simp_all add: sb_putc_def sb_ok_def Let_def)
    then show ?thesis using that [of True ?sb m'] * False by simp
  qed (use that [of False sb m'] * True in \<open>simp add: sb_putc_def Let_def\<close>)
next
  case False
  then have "sb_putc ok sb c m = Some (True, sb\<lparr>sb_chars := sb_chars sb @ [c]\<rparr>, m)" "sb_ok sb"
    using assms(2) by (auto simp: sb_putc_def Let_def)
  moreover from this have "sb_ok (sb\<lparr>sb_chars := sb_chars sb @ [c]\<rparr>)"
    using False by (simp add: sb_ok_def)
  ultimately show ?thesis
    using that [of True "sb\<lparr>sb_chars := sb_chars sb @ [c]\<rparr>" m] assms(1) by simp
qed

lemma sb_puts_owned:
  assumes "owned m R (blk (sb_buf sb) + B)" and "sb_ok sb"
  obtains fit sb' m' where "sb_puts ok sb cs m = Some (fit, sb', m')" "owned m' R (blk (sb_buf sb') + B)"
    "sb_ok sb'"
proof -
  have "\<exists>fit sb' m'. sb_puts ok sb cs m = Some (fit, sb', m') \<and> owned m' R (blk (sb_buf sb') + B) \<and> sb_ok sb'"
    using assms
  proof (induction ok sb cs m rule: sb_puts.induct)
    case (2 ok sb c cs m)
    from sb_putc_owned [OF 2(2), of ok c] 2(3) obtain fit sb' m' where
      *: "sb_putc ok sb c m = Some (fit, sb', m')" "owned m' R (blk (sb_buf sb') + B)"
      "fit \<Longrightarrow> sb_ok sb'" "\<not> fit \<Longrightarrow> sb' = sb" by metis
    then show ?case using 2(1) 2(3) by (cases fit) auto
  qed auto
  then show ?thesis using that by blast
qed

end
