(* ===== verification/Plist_Memory_Props.thy ===== *)
theory Plist_Memory_Props
  imports Plist_Ownership
begin

text \<open>
  The reader with memory (theory \<open>Plist_Memory\<close>): every operation keeps to its own blocks (rules of theory
  \<open>Plist_Ownership\<close>), and with enough memory the values are those of theory \<open>Plist_Parser\<close>.
\<close>

section \<open>Text\<close>

lemma triple_putc:
  assumes "sb_ok sb" and "\<And>sb1. sb_ok sb1 \<Longrightarrow> triple (blk (sb_buf sb1)) (f sb1) bl Q"
    and "triple (blk (sb_buf sb)) (g sb) bl Q"
  shows "triple (blk (sb_buf sb))
    (\<lambda>m. case sb_putc ok sb c m of None \<Rightarrow> None | Some (fit, sb1, m1) \<Rightarrow> if fit then f sb1 m1 else g sb1 m1) bl Q"
  unfolding triple_def
proof (intro allI impI)
  fix m R
  assume "owned m R (blk (sb_buf sb))"
  then have "owned m R (blk (sb_buf sb) + {#})" by simp
  from sb_putc_owned [OF this, of ok c] assms(1) obtain b sb1 m1 where
    p: "sb_putc ok sb c m = Some (b, sb1, m1)" "owned m1 R (blk (sb_buf sb1))"
      "b \<Longrightarrow> sb_ok sb1" "\<not> b \<Longrightarrow> sb1 = sb" by (metis add.right_neutral)
  then show "\<exists>r m'. (case sb_putc ok sb c m of None \<Rightarrow> None
        | Some (fit, sb1, m1) \<Rightarrow> if fit then f sb1 m1 else g sb1 m1) = Some (r, m') \<and>
      (case r of POk a s \<Rightarrow> owned m' R (bl a) \<and> Q a s | PFail _ _ \<Rightarrow> owned m' R {#} | POut \<Rightarrow> False)"
    using assms(2, 3) by (cases b) (simp_all add: triple_def)
qed

lemma triple_puts:
  assumes "sb_ok sb" and "\<And>sb1. sb_ok sb1 \<Longrightarrow> triple (blk (sb_buf sb1)) (f sb1) bl Q"
  shows "triple (blk (sb_buf sb))
    (\<lambda>m. case sb_puts ok sb bs m of None \<Rightarrow> None | Some (fit, sb1, m1) \<Rightarrow> f sb1 m1) bl Q"
  unfolding triple_def
proof (intro allI impI)
  fix m R
  assume "owned m R (blk (sb_buf sb))"
  then have "owned m R (blk (sb_buf sb) + {#})" by simp
  from sb_puts_owned [OF this assms(1), of ok bs] obtain b sb1 m1 where
    p: "sb_puts ok sb bs m = Some (b, sb1, m1)" "owned m1 R (blk (sb_buf sb1))" "sb_ok sb1"
    by (metis add.right_neutral)
  then show "\<exists>r m'. (case sb_puts ok sb bs m of None \<Rightarrow> None | Some (fit, sb1, m1) \<Rightarrow> f sb1 m1) = Some (r, m') \<and>
      (case r of POk a s \<Rightarrow> owned m' R (bl a) \<and> Q a s | PFail _ _ \<Rightarrow> owned m' R {#} | POut \<Rightarrow> False)"
    using assms(2) by (simp add: triple_def)
qed

text \<open>The loop, case by case.\<close>

lemma read_text_loop_m_steps:
  "read_text_loop_m ok sb [] = lift (POk (sb_buf sb, sb_chars sb) [])"
  "read_text_loop_m ok sb (CHR ''<'' # q) = lift (POk (sb_buf sb, sb_chars sb) (CHR ''<'' # q))"
  "memchr (CHR '';'') q = None \<Longrightarrow> read_text_loop_m ok sb (CHR ''&'' # q) =
     fail_with (length q + 1) ''unterminated entity reference'' (free (sb_buf sb))"
  "memchr (CHR '';'') q = Some k \<Longrightarrow> decode_entity (take k q) = Inl e \<Longrightarrow>
     read_text_loop_m ok sb (CHR ''&'' # q) = fail_with (length q + 1) e (free (sb_buf sb))"
  "memchr (CHR '';'') q = Some k \<Longrightarrow> decode_entity (take k q) = Inr bs \<Longrightarrow>
     read_text_loop_m ok sb (CHR ''&'' # q) =
       (\<lambda>m. case sb_puts ok sb bs m of None \<Rightarrow> None
         | Some (fit, sb1, m1) \<Rightarrow> read_text_loop_m ok sb1 (drop (k + 1) q) m1)"
  "c \<noteq> CHR ''<'' \<Longrightarrow> c \<noteq> CHR ''&'' \<Longrightarrow> read_text_loop_m ok sb (c # q) =
     (\<lambda>m. case sb_putc ok sb c m of None \<Rightarrow> None
       | Some (fit, sb1, m1) \<Rightarrow>
           if fit then read_text_loop_m ok sb1 q m1
           else fail_with (length q + 1) ''out of memory'' (free (sb_buf sb1)) m1)"
  by (rule ext, subst read_text_loop_m.simps, simp add: lift_def split: option.split)+

lemma read_text_loop_triple:
  "sb_ok sb \<Longrightarrow>
   triple (blk (sb_buf sb)) (read_text_loop_m ok sb s) text_blk (\<lambda>_ r. length r \<le> length s)"
proof (induction s arbitrary: sb rule: length_induct)
  case (1 s)
  have IH: "triple (blk (sb_buf sb1)) (read_text_loop_m ok sb1 r) text_blk (\<lambda>_ q. length q \<le> length s)"
    if "length r < length s" "sb_ok sb1" for r sb1
  proof (rule triple_weaken)
    show "triple (blk (sb_buf sb1)) (read_text_loop_m ok sb1 r) text_blk (\<lambda>_ q. length q \<le> length r)"
      using 1(1) that by blast
  qed (use that in simp)
  show ?case
  proof (cases s)
    case Nil
    then show ?thesis by (simp add: read_text_loop_m_steps triple_done text_blk_def)
  next
    case (Cons c q)
    consider (stop) "c = CHR ''<''" | (entity) "c = CHR ''&''" | (plain) "c \<noteq> CHR ''<''" "c \<noteq> CHR ''&''"
      by blast
    then show ?thesis
    proof cases
      case stop
      then show ?thesis using Cons by (simp add: read_text_loop_m_steps triple_done text_blk_def)
    next
      case entity
      consider "memchr (CHR '';'') q = None"
        | k e where "memchr (CHR '';'') q = Some k" "decode_entity (take k q) = Inl e"
        | k bs where "memchr (CHR '';'') q = Some k" "decode_entity (take k q) = Inr bs"
        by (metis option.exhaust sum.exhaust)
      then show ?thesis
        using Cons entity
        by cases (auto simp: read_text_loop_m_steps owns
            intro!: triple_fail triple_puts [OF 1(2)] IH [unfolded Cons length_Cons])
    next
      case plain
      then show ?thesis
        using Cons
        by (auto simp: read_text_loop_m_steps owns
            intro!: triple_fail triple_putc [OF 1(2)] IH [unfolded Cons length_Cons])
    qed
  qed
qed

lemma read_text_triple:
  "triple {#} (read_text_m ok s) text_blk (\<lambda>_ r. length r \<le> length s)"
  unfolding triple_def
proof (intro allI impI)
  fix m R
  assume o: "owned m R {#}"
  let ?sb = "\<lparr>sb_buf = 0, sb_chars = [], sb_cap = 0\<rparr> :: strbuf"
  let ?post = "\<lambda>x. \<exists>r m'. x = Some (r, m') \<and>
     (case r of POk t q \<Rightarrow> owned m' R (text_blk t) \<and> length q \<le> length s
      | PFail _ _ \<Rightarrow> owned m' R {#} | POut \<Rightarrow> False)"
  have "owned m R (blk (sb_buf ?sb) + {#})" using o by simp
  from sb_putc_owned [OF this, of ok "CHR 0x00"] obtain b sb1 m1 where
    p: "sb_putc ok ?sb (CHR 0x00) m = Some (b, sb1, m1)" "owned m1 R (blk (sb_buf sb1))"
      "b \<Longrightarrow> sb_ok sb1" "\<not> b \<Longrightarrow> sb1 = ?sb" by (metis add.right_neutral)
  show "?post (read_text_m ok s m)"
  proof (cases b)
    case True
    let ?sb1 = "sb1\<lparr>sb_chars := []\<rparr>"
    have "sb_ok ?sb1" using p(3) True by (simp add: sb_ok_def)
    from read_text_loop_triple [OF this, of ok s]
    have "triple (blk (sb_buf sb1) + {#}) (try_or (read_text_loop_m ok ?sb1 s) Some
        (\<lambda>t r. lift (POk (fst t, c_str (snd t)) r))) text_blk (\<lambda>_ r. length r \<le> length s)"
      by (intro triple_try [where bl = text_blk and Q = "\<lambda>_ r. length r \<le> length s"])
        (auto intro: triple_done simp: owns text_blk_def)
    then show ?thesis
      using p True by (simp add: read_text_m_def triple_def)
  qed (use p in \<open>simp add: read_text_m_def\<close>)
qed

section \<open>Values\<close>

fun val_blk :: "hval \<Rightarrow> nat multiset"
  and entries_blk :: "(text_block \<times> hval) list \<Rightarrow> nat multiset"
  and items_blk :: "hval list \<Rightarrow> nat multiset" where
  "val_blk (HDict a keys vals cap items) = entries_blk items + (blk keys + (blk vals + blk a))"
| "val_blk (HArray a items cap vs) = items_blk vs + (blk items + blk a)"
| "val_blk (HString a p s) = blk p + blk a"
| "val_blk (HInteger a i) = blk a"
| "val_blk (HReal a d) = blk a"
| "val_blk (HBool a b) = blk a"
| "val_blk (HData a p bs) = blk p + blk a"
| "entries_blk [] = {#}"
| "entries_blk ((key, v) # kvs) = text_blk key + (val_blk v + entries_blk kvs)"
| "items_blk [] = {#}"
| "items_blk (v # vs) = val_blk v + items_blk vs"

lemma entries_blk_append [simp]: "entries_blk (xs @ ys) = entries_blk xs + entries_blk ys"
  by (induction xs) (auto simp: ac_simps)

lemma items_blk_append [simp]: "items_blk (xs @ ys) = items_blk xs + items_blk ys"
  by (induction xs) (auto simp: ac_simps)

text \<open>\<^verbatim>\<open>plist_free\<close> gives back the blocks of the value, each once.\<close>

lemma frees_as_both:
  "plist_free (HDict a keys vals cap items) =
     both (free_entries items) (both (free keys) (both (free vals) (free a)))"
  "plist_free (HArray a slots cap vs) = both (free_items vs) (both (free slots) (free a))"
  "plist_free (HString a p s) = both (free p) (free a)"
  "plist_free (HData a p bs) = both (free p) (free a)"
  "plist_free (HInteger a i) = free a"
  "plist_free (HReal a d) = free a"
  "plist_free (HBool a b) = free a"
  "free_entries [] = Some"
  "free_entries ((key, v) # kvs) = both (free (fst key)) (both (plist_free v) (free_entries kvs))"
  "free_items [] = Some"
  "free_items (v # vs) = both (plist_free v) (free_items vs)"
  by (rule ext, simp add: both_def [abs_def])+

lemma plist_free_frees [owns]: "frees (val_blk v) (plist_free v)"
  and free_entries_frees: "frees (entries_blk kvs) (free_entries kvs)"
  and free_items_frees: "frees (items_blk vs) (free_items vs)"
  by (induction v and kvs and vs rule: val_blk_entries_blk_items_blk.induct)
    (simp_all only: frees_as_both val_blk.simps entries_blk.simps items_blk.simps text_blk_def owns)

text \<open>The arrays of a dictionary or array have room for what is in them.\<close>

fun dict_room :: "hval \<Rightarrow> bool" where
  "dict_room (HDict a keys vals cap items) \<longleftrightarrow> length items \<le> cap"
| "dict_room _ \<longleftrightarrow> False"

fun array_room :: "hval \<Rightarrow> bool" where
  "array_room (HArray a slots cap vs) \<longleftrightarrow> length vs \<le> cap"
| "array_room _ \<longleftrightarrow> False"

lemma dict_append_owned:
  assumes "dict_room d" and "owned m R (text_blk key + (val_blk v + val_blk d))"
  obtains fit d1 m1 where "dict_append ok d key v m = Some (fit, d1, m1)" "dict_room d1"
    "owned m1 R (if fit then val_blk d1 else text_blk key + (val_blk v + val_blk d1))"
proof -
  from assms(1) obtain a keys vals cap items where
    d: "d = HDict a keys vals cap items" "length items \<le> cap" by (cases d) auto
  let ?kv = "text_blk key + val_blk v" and ?rest = "entries_blk items + blk a"
  have o: "owned m R (blk keys + (?kv + ?rest + blk vals))"
    using assms(2) d by (simp add: ac_simps)
  show ?thesis
  proof (cases "length items = cap")
    case False
    then show ?thesis
      using d assms(2) that [of True "HDict a keys vals cap (items @ [(key, v)])" m]
      by (simp add: Let_def ac_simps)
  next
    case True
    from realloc_owned [OF o, of ok] obtain k m1 where
      k: "realloc ok keys m = Some (k, m1)" "owned m1 R (blk (if k = 0 then keys else k) + (?kv + ?rest + blk vals))" .
    show ?thesis
    proof (cases "k = 0")
      case k0: True
      then show ?thesis
        using d k True that [of False d m1] by (simp add: Let_def ac_simps)
    next
      case k0: False
      have "owned m1 R (blk vals + (blk k + ?kv + ?rest))" using k k0 by (simp add: ac_simps)
      from realloc_owned [OF this, of ok] obtain vs m2 where
        vs: "realloc ok vals m1 = Some (vs, m2)" "owned m2 R (blk (if vs = 0 then vals else vs) + (blk k + ?kv + ?rest))" .
      show ?thesis
      proof (cases "vs = 0")
        case True
        then show ?thesis
          using d k k0 vs \<open>length items = cap\<close> that [of False "HDict a k vals cap items" m2]
          by (simp add: Let_def ac_simps)
      next
        case False
        then show ?thesis
          using d k k0 vs \<open>length items = cap\<close>
            that [of True "HDict a k vs (if cap \<noteq> 0 then cap * 2 else 8) (items @ [(key, v)])" m2]
          by (simp add: Let_def ac_simps add_mset_commute [of vs k])
      qed
    qed
  qed
qed

lemma array_append_owned:
  assumes "array_room d" and "owned m R (val_blk v + val_blk d)"
  obtains fit d1 m1 where "array_append ok d v m = Some (fit, d1, m1)" "array_room d1"
    "owned m1 R (if fit then val_blk d1 else val_blk v + val_blk d1)"
proof -
  from assms(1) obtain a slots cap vs where
    d: "d = HArray a slots cap vs" "length vs \<le> cap" by (cases d) auto
  have o: "owned m R (blk slots + (val_blk v + items_blk vs + blk a))"
    using assms(2) d by (simp add: ac_simps)
  show ?thesis
  proof (cases "length vs = cap")
    case False
    then show ?thesis
      using d assms(2) that [of True "HArray a slots cap (vs @ [v])" m] by (simp add: Let_def ac_simps)
  next
    case True
    from realloc_owned [OF o, of ok] obtain p m1 where
      p: "realloc ok slots m = Some (p, m1)"
        "owned m1 R (blk (if p = 0 then slots else p) + (val_blk v + items_blk vs + blk a))" .
    show ?thesis
    proof (cases "p = 0")
      case True
      then show ?thesis
        using d p \<open>length vs = cap\<close> that [of False d m1] by (simp add: Let_def ac_simps)
    next
      case False
      then show ?thesis
        using d p \<open>length vs = cap\<close> that [of True "HArray a p (if cap \<noteq> 0 then cap * 2 else 8) (vs @ [v])" m1]
        by (simp add: Let_def ac_simps)
    qed
  qed
qed

lemma triple_dict_append:
  assumes "dict_room d" and "\<And>d1. dict_room d1 \<Longrightarrow> triple (val_blk d1) (f d1) bl Q"
    and "\<And>d1. triple (text_blk key + (val_blk v + val_blk d1)) (g d1) bl Q"
  shows "triple (text_blk key + (val_blk v + val_blk d))
    (\<lambda>m. case dict_append ok d key v m of None \<Rightarrow> None
      | Some (fit, d1, m1) \<Rightarrow> if fit then f d1 m1 else g d1 m1) bl Q"
  unfolding triple_def
proof (intro allI impI)
  fix m R
  assume "owned m R (text_blk key + (val_blk v + val_blk d))"
  from dict_append_owned [OF assms(1) this, of ok] obtain fit d1 m1 where
    "dict_append ok d key v m = Some (fit, d1, m1)" "dict_room d1"
    "owned m1 R (if fit then val_blk d1 else text_blk key + (val_blk v + val_blk d1))" .
  then show "\<exists>r m'. (case dict_append ok d key v m of None \<Rightarrow> None
        | Some (fit, d1, m1) \<Rightarrow> if fit then f d1 m1 else g d1 m1) = Some (r, m') \<and>
      (case r of POk a s \<Rightarrow> owned m' R (bl a) \<and> Q a s | PFail _ _ \<Rightarrow> owned m' R {#} | POut \<Rightarrow> False)"
    using assms(2, 3) by (cases fit) (simp_all add: triple_def)
qed

lemma triple_array_append:
  assumes "array_room d" and "\<And>d1. array_room d1 \<Longrightarrow> triple (val_blk d1) (f d1) bl Q"
    and "\<And>d1. triple (val_blk v + val_blk d1) (g d1) bl Q"
  shows "triple (val_blk v + val_blk d)
    (\<lambda>m. case array_append ok d v m of None \<Rightarrow> None
      | Some (fit, d1, m1) \<Rightarrow> if fit then f d1 m1 else g d1 m1) bl Q"
  unfolding triple_def
proof (intro allI impI)
  fix m R
  assume "owned m R (val_blk v + val_blk d)"
  from array_append_owned [OF assms(1) this, of ok] obtain fit d1 m1 where
    "array_append ok d v m = Some (fit, d1, m1)" "array_room d1"
    "owned m1 R (if fit then val_blk d1 else val_blk v + val_blk d1)" .
  then show "\<exists>r m'. (case array_append ok d v m of None \<Rightarrow> None
        | Some (fit, d1, m1) \<Rightarrow> if fit then f d1 m1 else g d1 m1) = Some (r, m') \<and>
      (case r of POk a s \<Rightarrow> owned m' R (bl a) \<and> Q a s | PFail _ _ \<Rightarrow> owned m' R {#} | POut \<Rightarrow> False)"
    using assms(2, 3) by (cases fit) (simp_all add: triple_def)
qed

text \<open>The decoder and what its caller does with the block.\<close>

lemma triple_base64:
  assumes "triple B (\<lambda>m. g m) bl Q" and "\<And>p bs. triple (blk p + B) (\<lambda>m. f p bs m) bl Q"
  shows "triple B (\<lambda>m. case base64_decode_m ok t m of None \<Rightarrow> None
      | Some (None, m1) \<Rightarrow> g m1 | Some (Some (p, bs), m1) \<Rightarrow> f p bs m1) bl Q"
  unfolding triple_def
proof (intro allI impI)
  fix m R
  assume o: "owned m R B"
  obtain p m1 where m1: "malloc ok m = (p, m1)" by (cases "malloc ok m")
  note o1 = malloc_owned [OF m1 o]
  then obtain m2 where m2: "free p m1 = Some m2" "owned m2 R B" by (rule free_owned)
  have bound: "length bs \<le> base64_capacity (length t)" if "base64_decode t = Some bs" for bs
    using base64_prefix_length [of "length t" t bs] that by (simp add: base64_decode_def)
  show "\<exists>r m'. (case base64_decode_m ok t m of None \<Rightarrow> None
      | Some (None, m1) \<Rightarrow> g m1 | Some (Some (p, bs), m1) \<Rightarrow> f p bs m1) = Some (r, m') \<and>
      (case r of POk a s \<Rightarrow> owned m' R (bl a) \<and> Q a s | PFail _ _ \<Rightarrow> owned m' R {#} | POut \<Rightarrow> False)"
    using m1 m2 o1 assms bound
    by (cases "p = 0"; cases "base64_decode t") (simp_all add: base64_decode_m_def triple_def)
qed

text \<open>Giving back a block and going on.\<close>

lemma triple_then_free:
  assumes "frees F clean" and "bl a = B" and "Q a s"
  shows "triple (B + F) (\<lambda>m. map_option (Pair (POk a s)) (clean m)) bl Q"
  unfolding triple_def
proof (intro allI impI)
  fix m R
  assume "owned m R (B + F)"
  then have "owned m R (F + B)" by (simp add: ac_simps)
  from frees_frame [OF assms(1) this] obtain m1 where "clean m = Some m1" "owned m1 R B" .
  then show "\<exists>r m'. map_option (Pair (POk a s)) (clean m) = Some (r, m') \<and>
      (case r of POk a s \<Rightarrow> owned m' R (bl a) \<and> Q a s | PFail _ _ \<Rightarrow> owned m' R {#} | POut \<Rightarrow> False)"
    using assms(2, 3) by simp
qed

end
