(* ===== verification/Plist_Memory_Safe.thy ===== *)
theory Plist_Memory_Safe
  imports Plist_Memory_Props
begin

text \<open>
  The recursive descent with memory keeps to its blocks: the triples of theory \<open>Plist_Memory_Props\<close> for every
  element, and by induction on the fuel for values, dictionaries, arrays and documents.
\<close>

section \<open>The descent\<close>

lemma expect_close_read: "expect_close name s \<noteq> POut"
  by simp

text \<open>Text up to the closing tag, in front of the rest.\<close>

lemma triple_element:
  assumes "\<And>text r r'. length r' + 3 \<le> length s \<Longrightarrow> triple (text_blk text + val_blk v) (f text r') bl Q"
  shows "triple (val_blk v) (try_or (read_text_m ok s) (plist_free v) (\<lambda>text r.
      try_or (lift (expect_close name r)) (both (free_text text) (plist_free v)) (\<lambda>_ r'. f text r'))) bl Q"
proof -
  have "triple ({#} + val_blk v) (try_or (read_text_m ok s) (plist_free v) (\<lambda>text r.
      try_or (lift (expect_close name r)) (both (free_text text) (plist_free v)) (\<lambda>_ r'. f text r'))) bl Q"
  proof (rule triple_try [OF read_text_triple plist_free_frees])
    fix t and r :: string
    assume "length r \<le> length s"
    then show "triple (text_blk t + val_blk v)
        (try_or (lift (expect_close name r)) (both (free_text t) (plist_free v)) (\<lambda>_ r'. f t r')) bl Q"
      by (intro triple_after assms) (auto simp: owns dest: expect_close_consumes)
  qed
  then show ?thesis by simp
qed

lemma val_blk_node [simp]:
  "a \<noteq> 0 \<Longrightarrow> val_blk (HBool a b) = {#a#}" "a \<noteq> 0 \<Longrightarrow> val_blk (HInteger a i) = {#a#}"
  "a \<noteq> 0 \<Longrightarrow> val_blk (HReal a x) = {#a#}" "a \<noteq> 0 \<Longrightarrow> val_blk (HString a 0 t) = {#a#}"
  "a \<noteq> 0 \<Longrightarrow> val_blk (HData a 0 bs) = {#a#}" "a \<noteq> 0 \<Longrightarrow> val_blk (HDict a 0 0 0 []) = {#a#}"
  "a \<noteq> 0 \<Longrightarrow> val_blk (HArray a 0 0 []) = {#a#}"
  by simp_all

text \<open>The children of the elements without children elements, each for itself.\<close>

lemma parse_bool_triple:
  assumes "a \<noteq> 0"
  shows "triple {#a#} (if self then lift (POk (HBool a b) s)
      else try_or (lift (expect_close name s)) (plist_free (HBool a b)) (\<lambda>_ r. lift (POk (HBool a b) r)))
    val_blk (\<lambda>_ r. length r \<le> length s)"
  using assms plist_free_frees [of "HBool a b"]
  by (auto intro!: triple_done triple_after dest: expect_close_consumes)

lemma parse_string_triple:
  assumes "a \<noteq> 0"
  shows "triple {#a#} (if self then (\<lambda>m. case malloc ok m of (p, m1) \<Rightarrow> Some (POk (HString a p []) s, m1))
      else try_or (read_text_m ok s) (plist_free (HString a 0 [])) (\<lambda>text r.
        try_or (lift (expect_close name r)) (both (free_text text) (plist_free (HString a 0 [])))
          (\<lambda>_ r'. lift (POk (HString a (fst text) (snd text)) r'))))
    val_blk (\<lambda>_ r. length r \<le> length s)"
proof (cases self)
  case True
  then show ?thesis using assms by (auto intro!: triple_malloc)
next
  case False
  have "triple (val_blk (HString a 0 [])) (try_or (read_text_m ok s) (plist_free (HString a 0 [])) (\<lambda>text r.
        try_or (lift (expect_close name r)) (both (free_text text) (plist_free (HString a 0 [])))
          (\<lambda>_ r'. lift (POk (HString a (fst text) (snd text)) r')))) val_blk (\<lambda>_ r. length r \<le> length s)"
    by (rule triple_element) (auto intro!: triple_done simp: text_blk_def)
  then show ?thesis using False assms by simp
qed

lemma parse_number_triple:
  assumes "val_blk v = {#a#}" and "\<And>text. val_blk (c text) = {#a#}"
  shows "triple {#a#} (try_or (read_text_m ok s) (plist_free v) (\<lambda>text r.
      try_or (lift (expect_close name r)) (both (free_text text) (plist_free v)) (\<lambda>_ r' m.
        map_option (Pair (POk (c text) r')) (free_text text m))))
    val_blk (\<lambda>_ r. length r \<le> length s)"
proof -
  have "triple (val_blk v) (try_or (read_text_m ok s) (plist_free v) (\<lambda>text r.
      try_or (lift (expect_close name r)) (both (free_text text) (plist_free v)) (\<lambda>_ r' m.
        map_option (Pair (POk (c text) r')) (free_text text m))))
    val_blk (\<lambda>_ r. length r \<le> length s)"
  proof (rule triple_element)
    fix t and r r' :: string
    assume "length r' + 3 \<le> length s"
    then have "triple ({#a#} + text_blk t) (\<lambda>m. map_option (Pair (POk (c t) r')) (free_text t m))
        val_blk (\<lambda>_ r. length r \<le> length s)"
      by (intro triple_then_free owns) (simp_all add: assms)
    then show "triple (text_blk t + val_blk v) (\<lambda>m. map_option (Pair (POk (c t) r')) (free_text t m))
        val_blk (\<lambda>_ r. length r \<le> length s)"
      by (simp add: assms)
  qed
  then show ?thesis by (simp only: assms)
qed

lemma parse_data_triple:
  assumes "a \<noteq> 0"
  shows "triple {#a#} (if self then (\<lambda>m. case malloc ok m of (p, m1) \<Rightarrow> Some (POk (HData a p []) s, m1))
      else try_or (read_text_m ok s) (plist_free (HData a 0 [])) (\<lambda>text r.
        try_or (lift (expect_close name r)) (both (free_text text) (plist_free (HData a 0 []))) (\<lambda>_ r' m.
          case base64_decode_m ok (snd text) m of
            None \<Rightarrow> None
          | Some (None, m1) \<Rightarrow>
              fail_with (length r') msg (both (free_text text) (plist_free (HData a 0 []))) m1
          | Some (Some (p, bs), m1) \<Rightarrow> map_option (Pair (POk (HData a p bs) r')) (free_text text m1))))
    val_blk (\<lambda>_ r. length r \<le> length s)"
proof (cases self)
  case True
  then show ?thesis using assms by (auto intro!: triple_malloc)
next
  case False
  have "triple (val_blk (HData a 0 [])) (try_or (read_text_m ok s) (plist_free (HData a 0 [])) (\<lambda>text r.
        try_or (lift (expect_close name r)) (both (free_text text) (plist_free (HData a 0 []))) (\<lambda>_ r' m.
          case base64_decode_m ok (snd text) m of
            None \<Rightarrow> None
          | Some (None, m1) \<Rightarrow>
              fail_with (length r') msg (both (free_text text) (plist_free (HData a 0 []))) m1
          | Some (Some (p, bs), m1) \<Rightarrow> map_option (Pair (POk (HData a p bs) r')) (free_text text m1))))
    val_blk (\<lambda>_ r. length r \<le> length s)"
  proof (intro triple_element triple_base64 triple_fail owns)
    fix t p bs and r r' :: string
    assume "length r' + 3 \<le> length s"
    then have "triple (val_blk (HData a p bs) + text_blk t)
        (\<lambda>m. map_option (Pair (POk (HData a p bs) r')) (free_text t m))
        val_blk (\<lambda>_ r. length r \<le> length s)"
      by (intro triple_then_free owns) simp_all
    then show "triple (blk p + (text_blk t + val_blk (HData a 0 [])))
        (\<lambda>m. map_option (Pair (POk (HData a p bs) r')) (free_text t m))
        val_blk (\<lambda>_ r. length r \<le> length s)"
      by (simp add: ac_simps)
  qed
  then show ?thesis using False assms by simp
qed

lemma parse_scalar_triple:
  "triple {#} (parse_scalar_m sd ok tag s) val_blk (\<lambda>_ r. length r \<le> length s)"
  unfolding parse_scalar_m_def Let_def
  by (auto simp del: val_blk.simps
      intro!: triple_alloc triple_stop parse_bool_triple parse_string_triple parse_number_triple parse_data_triple)

lemma parse_after_tag_step:
  assumes "\<And>d. dict_room d \<Longrightarrow> triple (val_blk d) (parse_dict_m sd ok n d s) val_blk (\<lambda>_ r. length r \<le> length s)"
    and "\<And>v. array_room v \<Longrightarrow> triple (val_blk v) (parse_array_m sd ok n v s) val_blk (\<lambda>_ r. length r \<le> length s)"
  shows "triple {#} (parse_after_tag_m sd ok (Suc n) tag s) val_blk (\<lambda>_ r. length r \<le> length s)"
proof -
  have "triple {#a#} (parse_dict_m sd ok n (HDict a 0 0 0 []) s) val_blk (\<lambda>_ r. length r \<le> length s)"
    if "a \<noteq> 0" for a
    using assms(1) [of "HDict a 0 0 0 []"] that by simp
  moreover have "triple {#a#} (parse_array_m sd ok n (HArray a 0 0 []) s) val_blk (\<lambda>_ r. length r \<le> length s)"
    if "a \<noteq> 0" for a
    using assms(2) [of "HArray a 0 0 []"] that by simp
  ultimately show ?thesis
    by (auto simp: parse_after_tag_m.simps Let_def
        intro!: triple_alloc triple_done parse_scalar_triple)
qed

lemma parse_dict_step:
  assumes fuel: "length s + 1 < Suc n" and room: "dict_room d"
    and val: "\<And>r. length r < n \<Longrightarrow> triple {#} (parse_value_m sd ok n r) val_blk (\<lambda>_ q. length q + 3 \<le> length r)"
    and dict: "\<And>d r. length r + 1 < n \<Longrightarrow> dict_room d \<Longrightarrow>
      triple (val_blk d) (parse_dict_m sd ok n d r) val_blk (\<lambda>_ q. length q \<le> length r)"
  shows "triple (val_blk d) (parse_dict_m sd ok (Suc n) d s) val_blk (\<lambda>_ r. length r \<le> length s)"
proof -
  let ?entry = "\<lambda>key r2. try_or (parse_value_m sd ok n r2) (both (free_text key) (plist_free d)) (\<lambda>child r3 m.
      case dict_append ok d key child m of
        None \<Rightarrow> None
      | Some (fit, d1, m1) \<Rightarrow>
          if fit then parse_dict_m sd ok n d1 r3 m1
          else fail_with (length r3) ''out of memory'' (both (free_text key) (both (plist_free child) (plist_free d1))) m1)"
  have entry: "triple (text_blk key + val_blk d) (?entry key r2) val_blk (\<lambda>_ r. length r \<le> length s)"
    if "length r2 < length s" for key and r2 :: string
  proof -
    have "triple ({#} + (text_blk key + val_blk d)) (?entry key r2) val_blk (\<lambda>_ r. length r \<le> length s)"
    proof (rule triple_try [OF val])
      fix child and r3 :: string
      assume r3: "length r3 + 3 \<le> length r2"
      have "triple (val_blk d1) (parse_dict_m sd ok n d1 r3) val_blk (\<lambda>_ r. length r \<le> length s)"
        if "dict_room d1" for d1
        by (rule triple_weaken [OF dict]) (use that r3 \<open>length r2 < length s\<close> fuel in auto)
      then have "triple (text_blk key + (val_blk child + val_blk d)) (\<lambda>m. case dict_append ok d key child m of
            None \<Rightarrow> None
          | Some (fit, d1, m1) \<Rightarrow>
              if fit then parse_dict_m sd ok n d1 r3 m1
              else fail_with (length r3) ''out of memory''
                (both (free_text key) (both (plist_free child) (plist_free d1))) m1)
          val_blk (\<lambda>_ r. length r \<le> length s)"
        by (intro triple_dict_append room triple_fail owns)
      then show "triple (val_blk child + (text_blk key + val_blk d)) (\<lambda>m. case dict_append ok d key child m of
            None \<Rightarrow> None
          | Some (fit, d1, m1) \<Rightarrow>
              if fit then parse_dict_m sd ok n d1 r3 m1
              else fail_with (length r3) ''out of memory''
                (both (free_text key) (both (plist_free child) (plist_free d1))) m1)
          val_blk (\<lambda>_ r. length r \<le> length s)"
        by (simp add: ac_simps)
    qed (use that fuel in \<open>auto intro: owns\<close>)
    then show ?thesis by simp
  qed
  show ?thesis
    unfolding parse_dict_m.simps
  proof (rule triple_after)
    fix tag and r :: string
    assume "read_tag s = POk tag r"
    then have r: "length r + 3 \<le> length s" by (rule read_tag_consumes)
    show "triple (val_blk d)
        (if t_closing tag \<and> t_name tag = ''dict'' then lift (POk d r)
         else if t_name tag \<noteq> ''key'' \<or> t_closing tag then
           fail_with (length r) (''expected <key> inside <dict>, got <'' @ t_name tag @ ''>'') (plist_free d)
         else try_or (read_text_m ok r) (plist_free d) (\<lambda>key r1.
           try_or (lift (expect_close ''key'' r1)) (both (free_text key) (plist_free d)) (\<lambda>_. ?entry key)))
        val_blk (\<lambda>_ r. length r \<le> length s)"
      using r by (auto intro!: triple_done triple_fail owns triple_element entry)
  qed (auto intro: owns)
qed

lemma skip_noise_tag_consumes:
  "pbind (skip_noise s) (\<lambda>_ save. pbind (read_tag save) (\<lambda>next r. POk (next, save) r)) = POk (t, save) r
   \<Longrightarrow> length save \<le> length s \<and> length r + 3 \<le> length save"
  by (auto dest: skip_noise_consumes read_tag_consumes)

lemma parse_array_step:
  assumes fuel: "length s + 1 < Suc n" and room: "array_room v"
    and val: "\<And>r. length r < n \<Longrightarrow> triple {#} (parse_value_m sd ok n r) val_blk (\<lambda>_ q. length q + 3 \<le> length r)"
    and arr: "\<And>v r. length r + 1 < n \<Longrightarrow> array_room v \<Longrightarrow>
      triple (val_blk v) (parse_array_m sd ok n v r) val_blk (\<lambda>_ q. length q \<le> length r)"
  shows "triple (val_blk v) (parse_array_m sd ok (Suc n) v s) val_blk (\<lambda>_ r. length r \<le> length s)"
proof -
  let ?item = "\<lambda>save. try_or (parse_value_m sd ok n save) (plist_free v) (\<lambda>child r1 m.
      case array_append ok v child m of
        None \<Rightarrow> None
      | Some (fit, v1, m1) \<Rightarrow>
          if fit then parse_array_m sd ok n v1 r1 m1
          else fail_with (length r1) ''out of memory'' (both (plist_free child) (plist_free v1)) m1)"
  have item: "triple (val_blk v) (?item save) val_blk (\<lambda>_ r. length r \<le> length s)"
    if "length save \<le> length s" for save
  proof -
    have "triple ({#} + val_blk v) (?item save) val_blk (\<lambda>_ r. length r \<le> length s)"
    proof (rule triple_try [OF val])
      fix child and r1 :: string
      assume r1: "length r1 + 3 \<le> length save"
      have "triple (val_blk v1) (parse_array_m sd ok n v1 r1) val_blk (\<lambda>_ r. length r \<le> length s)"
        if "array_room v1" for v1
        by (rule triple_weaken [OF arr]) (use that r1 \<open>length save \<le> length s\<close> fuel in auto)
      then show "triple (val_blk child + val_blk v) (\<lambda>m. case array_append ok v child m of
            None \<Rightarrow> None
          | Some (fit, v1, m1) \<Rightarrow>
              if fit then parse_array_m sd ok n v1 r1 m1
              else fail_with (length r1) ''out of memory'' (both (plist_free child) (plist_free v1)) m1)
          val_blk (\<lambda>_ r. length r \<le> length s)"
        by (intro triple_array_append room triple_fail owns)
    qed (use that fuel in \<open>auto intro: owns\<close>)
    then show ?thesis by simp
  qed
  show ?thesis
    unfolding parse_array_m.simps
  proof (rule triple_after)
    fix t and r :: string
    assume t: "pbind (skip_noise s) (\<lambda>_ save. pbind (read_tag save) (\<lambda>next r. POk (next, save) r)) = POk t r"
    obtain tag save where [simp]: "t = (tag, save)" by (cases t)
    have "length save \<le> length s \<and> length r + 3 \<le> length save"
      using skip_noise_tag_consumes [of s tag save r] t by simp
    then show "triple (val_blk v) ((\<lambda>(next, save) r.
        if t_closing next \<and> t_name next = ''array'' then lift (POk v r) else ?item save) t r)
      val_blk (\<lambda>_ r. length r \<le> length s)"
      by (auto intro!: triple_done item)
  qed (auto intro: owns)
qed

text \<open>With enough fuel, for any memory.\<close>

lemma parse_m_triples:
  "(\<forall>s. length s < n \<longrightarrow>
      triple {#} (parse_value_m sd ok n s) val_blk (\<lambda>_ r. length r + 3 \<le> length s)) \<and>
   (\<forall>tag s. length s + 2 < n \<longrightarrow>
      triple {#} (parse_after_tag_m sd ok n tag s) val_blk (\<lambda>_ r. length r \<le> length s)) \<and>
   (\<forall>d s. length s + 1 < n \<and> dict_room d \<longrightarrow>
      triple (val_blk d) (parse_dict_m sd ok n d s) val_blk (\<lambda>_ r. length r \<le> length s)) \<and>
   (\<forall>v s. length s + 1 < n \<and> array_room v \<longrightarrow>
      triple (val_blk v) (parse_array_m sd ok n v s) val_blk (\<lambda>_ r. length r \<le> length s))"
proof (induction n)
  case (Suc n)
  note IH = this
  have val: "triple {#} (parse_value_m sd ok n r) val_blk (\<lambda>_ q. length q + 3 \<le> length r)"
    if "length r < n" for r
    using IH that by blast
  have tag: "triple {#} (parse_after_tag_m sd ok n t r) val_blk (\<lambda>_ q. length q \<le> length r)"
    if "length r + 2 < n" for t r
    using IH that by blast
  have dict: "triple (val_blk d) (parse_dict_m sd ok n d r) val_blk (\<lambda>_ q. length q \<le> length r)"
    if "length r + 1 < n" "dict_room d" for d r
    using IH that by blast
  have arr: "triple (val_blk v) (parse_array_m sd ok n v r) val_blk (\<lambda>_ q. length q \<le> length r)"
    if "length r + 1 < n" "array_room v" for v r
    using IH that by blast
  have "triple {#} (parse_value_m sd ok (Suc n) s) val_blk (\<lambda>_ r. length r + 3 \<le> length s)"
    if "length s < Suc n" for s
    unfolding parse_value_m.simps
  proof (rule triple_after)
    fix t and r :: string
    assume "read_tag s = POk t r"
    then have r: "length r + 3 \<le> length s" by (rule read_tag_consumes)
    have "triple {#} (parse_after_tag_m sd ok n t r) val_blk (\<lambda>_ q. length q + 3 \<le> length s)"
      by (rule triple_weaken [OF tag]) (use r that in auto)
    then show "triple {#} (if t_closing t then lift (PFail (length r) (''unexpected </'' @ t_name t @ ''>''))
        else parse_after_tag_m sd ok n t r) val_blk (\<lambda>_ r. length r + 3 \<le> length s)"
      by (simp add: triple_stop)
  qed (auto intro: owns)
  moreover have "triple {#} (parse_after_tag_m sd ok (Suc n) t s) val_blk (\<lambda>_ r. length r \<le> length s)"
    if "length s + 2 < Suc n" for t s
    by (rule parse_after_tag_step) (use that dict arr in auto)
  moreover note parse_dict_step [OF _ _ val dict] parse_array_step [OF _ _ val arr]
  ultimately show ?case by auto
qed simp

lemma parse_document_triple:
  "triple {#} (parse_document_m sd ok xml) val_blk (\<lambda>_ _. True)"
  unfolding parse_document_m_def
proof (rule triple_after)
  fix t and r :: string
  assume "read_tag xml = POk t r"
  then have r: "length r + 3 \<le> length xml" by (rule read_tag_consumes)
  let ?n = "length xml + 3"
  have root: "triple {#} (parse_value_m sd ok ?n r) val_blk (\<lambda>_ q. length q + 3 \<le> length r)"
    and rest: "triple {#} (parse_after_tag_m sd ok ?n t r) val_blk (\<lambda>_ q. length q \<le> length r)"
    using parse_m_triples [of ?n sd ok] r by auto
  have "triple ({#} + {#}) (try_or (parse_value_m sd ok ?n r) Some (\<lambda>root r1.
      try_or (lift (expect_close ''plist'' r1)) (plist_free root) (\<lambda>_ r2. lift (POk root r2)))) val_blk (\<lambda>_ _. True)"
    by (rule triple_try [OF root]) (auto intro!: owns triple_after triple_done)
  moreover have "triple {#} (parse_after_tag_m sd ok ?n t r) val_blk (\<lambda>_ _. True)"
    by (rule triple_weaken [OF rest]) simp
  ultimately show "triple {#} (if t_name t = ''plist'' \<and> \<not> t_closing t then
        try_or (parse_value_m sd ok ?n r) Some (\<lambda>root r1.
          try_or (lift (expect_close ''plist'' r1)) (plist_free root) (\<lambda>_ r2. lift (POk root r2)))
      else parse_after_tag_m sd ok ?n t r) val_blk (\<lambda>_ _. True)"
    by simp
qed (auto intro: owns)

end
