(* ===== verification/Plist_Memory_Refine.thy ===== *)
theory Plist_Memory_Refine
  imports Plist_Memory_Safe
begin

text \<open>
  If every allocation succeeds, the reader with memory computes what the reader of theory \<open>Plist_Parser\<close> does:
  the relation \<open>refines\<close>, which forgets the addresses, holds of every function.
\<close>

section \<open>With enough memory\<close>

text \<open>The tree as its accessors show it.  A string whose text could not be copied (an empty one: \<^verbatim>\<open>strdup\<close> is
  not checked there) is read as \<^verbatim>\<open>NULL\<close>, as what is no string is read with that fallback.\<close>

fun erase :: "hval \<Rightarrow> plist"
  and erase_entries :: "(text_block \<times> hval) list \<Rightarrow> (string \<times> plist) list"
  and erase_items :: "hval list \<Rightarrow> plist list" where
  "erase (HDict a keys vals cap items) = PDict (erase_entries items)"
| "erase (HArray a slots cap vs) = PArray (erase_items vs)"
| "erase (HString a p s) = (if p = 0 then PData [] else PString s)"
| "erase (HInteger a i) = PInteger i"
| "erase (HReal a d) = PReal d"
| "erase (HBool a b) = PBool b"
| "erase (HData a p bs) = PData bs"
| "erase_entries [] = []"
| "erase_entries ((key, v) # kvs) = (snd key, erase v) # erase_entries kvs"
| "erase_items [] = []"
| "erase_items (v # vs) = erase v # erase_items vs"

lemma erase_append [simp]:
  "erase_entries (xs @ [(key, v)]) = erase_entries xs @ [(snd key, erase v)]"
  "erase_items (vs @ [v]) = erase_items vs @ [erase v]"
  by (induction xs, auto) (induction vs, auto)

definition refines :: "('a \<Rightarrow> 'b) \<Rightarrow> 'a act \<Rightarrow> 'b pres \<Rightarrow> bool" where
  "refines e x r \<longleftrightarrow> (\<forall>m q m'. x m = Some (q, m') \<longrightarrow> r = pbind q (\<lambda>a s. POk (e a) s))"

lemma refinesD: "refines e x r \<Longrightarrow> x m = Some (q, m') \<Longrightarrow> r = pbind q (\<lambda>a s. POk (e a) s)"
  unfolding refines_def by blast

lemma refines_lift: "r' = pbind r (\<lambda>a s. POk (e a) s) \<Longrightarrow> refines e (lift r) r'"
  by (simp add: refines_def lift_def)

lemma refines_fail: "refines e (fail_with n msg clean) (PFail n msg)"
  by (auto simp: refines_def fail_with_def)

lemma refines_try:
  assumes "refines e x r" and "\<And>a s. \<exists>m m'. x m = Some (POk a s, m') \<Longrightarrow> refines e' (f a s) (g (e a) s)"
  shows "refines e' (try_or x clean f) (pbind r g)"
  unfolding refines_def
proof (intro allI impI)
  fix m q m'
  assume run: "try_or x clean f m = Some (q, m')"
  then obtain q1 m1 where x: "x m = Some (q1, m1)" by (auto simp: try_or_def split: option.splits)
  then have "r = pbind q1 (\<lambda>a s. POk (e a) s)" using refinesD [OF assms(1)] by blast
  then show "pbind r g = pbind q (\<lambda>a s. POk (e' a) s)"
    using run x by (cases q1) (auto simp: try_or_def intro: refinesD [OF assms(2), OF exI, OF exI])
qed

lemma refines_try_lift:
  "(\<And>a s. refines e' (f a s) (g a s)) \<Longrightarrow> refines e' (try_or (lift r) clean f) (pbind r g)"
  by (rule refines_try [where e = "\<lambda>a. a"]) (cases r; auto intro: refines_lift)+

lemma refines_alloc:
  "(\<And>a. refines e (f a) r) \<Longrightarrow> refines e (value_alloc plenty s f) r"
  by (auto simp: refines_def value_alloc_def split: prod.splits if_splits dest: malloc_plenty)

lemma sb_putc_plenty:
  "sb_putc plenty sb c m = Some (fit, sb1, m1) \<Longrightarrow> fit \<and> sb_chars sb1 = sb_chars sb @ [c]"
  by (auto simp: sb_putc_def Let_def split: if_splits option.splits dest!: realloc_plenty)

lemma sb_puts_plenty:
  "sb_puts plenty sb cs m = Some (fit, sb1, m1) \<Longrightarrow> fit \<and> sb_chars sb1 = sb_chars sb @ cs"
  by (induction plenty sb cs m rule: sb_puts.induct)
    (auto split: option.splits if_splits dest!: sb_putc_plenty)

lemma read_text_loop_refines:
  "refines snd (read_text_loop_m plenty sb s) (read_text_loop (sb_chars sb) s)"
proof (induction s arbitrary: sb rule: length_induct)
  case (1 s)
  have IH: "read_text_loop_m plenty sb1 r m = Some (q, m') \<Longrightarrow>
      read_text_loop (sb_chars sb1) r = pbind q (\<lambda>a s. POk (snd a) s)"
    if "length r < length s" for r sb1 m q m'
    using 1 that unfolding refines_def by blast
  show ?case
  proof (cases s)
    case Nil
    then show ?thesis by (simp add: read_text_loop_m_steps read_text_loop.simps refines_lift)
  next
    case (Cons c q)
    consider (stop) "c = CHR ''<''" | (entity) "c = CHR ''&''" | (plain) "c \<noteq> CHR ''<''" "c \<noteq> CHR ''&''"
      by blast
    then show ?thesis
    proof cases
      case stop
      then show ?thesis using Cons by (simp add: read_text_loop_m_steps read_text_loop.simps refines_lift)
    next
      case entity
      consider "memchr (CHR '';'') q = None"
        | k e where "memchr (CHR '';'') q = Some k" "decode_entity (take k q) = Inl e"
        | k bs where "memchr (CHR '';'') q = Some k" "decode_entity (take k q) = Inr bs"
        by (metis option.exhaust sum.exhaust)
      then show ?thesis
      proof cases
        case (3 k bs)
        have "read_text_loop (sb_chars sb) s = read_text_loop (sb_chars sb @ bs) (drop (k + 1) q)"
          by (subst read_text_loop.simps) (simp add: Cons entity 3)
        then show ?thesis
          using Cons entity 3
          by (auto simp: read_text_loop_m_steps refines_def split: option.splits prod.splits
              dest!: sb_puts_plenty dest: IH [rotated])
      qed (use Cons entity in \<open>simp_all add: read_text_loop_m_steps read_text_loop.simps refines_fail\<close>)
    next
      case plain
      have "read_text_loop (sb_chars sb) s = read_text_loop (sb_chars sb @ [c]) q"
        by (subst read_text_loop.simps) (simp add: Cons plain)
      then show ?thesis
        using Cons plain
        by (auto simp: read_text_loop_m_steps refines_def split: option.splits prod.splits
            dest!: sb_putc_plenty dest: IH [rotated])
    qed
  qed
qed

lemma read_text_refines: "refines snd (read_text_m plenty s) (read_text s)"
  unfolding refines_def
proof (intro allI impI)
  fix m q m'
  assume run: "read_text_m plenty s m = Some (q, m')"
  let ?sb = "\<lparr>sb_buf = 0, sb_chars = [], sb_cap = 0\<rparr> :: strbuf"
  from run obtain fit sb1 m1 where p: "sb_putc plenty ?sb (CHR 0x00) m = Some (fit, sb1, m1)"
    by (auto simp: read_text_m_def split: option.splits)
  have "refines snd (try_or (read_text_loop_m plenty (sb1\<lparr>sb_chars := []\<rparr>) s) Some
      (\<lambda>t r. lift (POk (fst t, c_str (snd t)) r))) (read_text s)"
    unfolding read_text_def
    by (rule refines_try [OF read_text_loop_refines [of "sb1\<lparr>sb_chars := []\<rparr>", simplified]])
      (simp add: refines_lift)
  then show "read_text s = pbind q (\<lambda>a s. POk (snd a) s)"
    using run p sb_putc_plenty [OF p] by (auto simp: read_text_m_def dest: refinesD)
qed

text \<open>Text that was read has a block.\<close>

lemma sb_putc_block:
  "sb_putc ok sb c m = Some (fit, sb1, m1) \<Longrightarrow> sb_buf sb \<noteq> 0 \<or> fit \<and> sb_cap sb = 0 \<Longrightarrow> sb_buf sb1 \<noteq> 0"
  by (auto simp: sb_putc_def Let_def split: if_splits option.splits)

lemma sb_puts_block: "sb_puts ok sb cs m = Some (fit, sb1, m1) \<Longrightarrow> sb_buf sb \<noteq> 0 \<Longrightarrow> sb_buf sb1 \<noteq> 0"
  by (induction ok sb cs m rule: sb_puts.induct) (auto split: option.splits if_splits dest: sb_putc_block)

lemma read_text_loop_block:
  "read_text_loop_m ok sb s m = Some (POk t r, m') \<Longrightarrow> sb_buf sb \<noteq> 0 \<Longrightarrow> fst t \<noteq> 0"
proof (induction ok sb s m rule: read_text_loop_m.induct)
  case (1 ok sb s m)
  show ?case
    using 1(3,4) by (subst (asm) read_text_loop_m.simps)
      (auto simp: fail_with_def split: list.splits option.splits sum.splits if_splits
        dest: sb_putc_block sb_puts_block 1(1,2))
qed

lemma read_text_block: "read_text_m ok s m = Some (POk t r, m') \<Longrightarrow> fst t \<noteq> 0"
  using sb_putc_block [of ok "\<lparr>sb_buf = 0, sb_chars = [], sb_cap = 0\<rparr>" "CHR 0x00" m]
  by (auto simp: read_text_m_def try_or_def lift_def split: option.splits pres.splits if_splits
      dest!: read_text_loop_block)

lemma refines_element:
  assumes "\<And>t r. fst t \<noteq> 0 \<Longrightarrow> refines e (f t r) (g (snd t) r)"
  shows "refines e (try_or (read_text_m plenty s) c1 (\<lambda>t r. try_or (lift (expect_close name r)) (c2 t) (\<lambda>_ r'. f t r')))
     (pbind (read_text s) (\<lambda>t r. pbind (expect_close name r) (\<lambda>_ r'. g t r')))"
  by (rule refines_try [OF read_text_refines]) (auto intro!: refines_try_lift assms dest: read_text_block)

lemma refines_then_free:
  "e a = b \<Longrightarrow> refines e (\<lambda>m. map_option (Pair (POk a s)) (clean m)) (POk b s)"
  by (auto simp: refines_def)

lemma refines_malloc:
  "(\<And>p. p \<noteq> 0 \<Longrightarrow> e (c p) = v) \<Longrightarrow> refines e (\<lambda>m. case malloc plenty m of (p, m1) \<Rightarrow> Some (POk (c p) s, m1)) (POk v s)"
  by (auto simp: refines_def split: prod.splits dest: malloc_plenty)

lemma refines_base64:
  assumes "base64_decode t = None \<Longrightarrow> refines e g r"
    and "\<And>p bs. base64_decode t = Some bs \<Longrightarrow> refines e (f p bs) r"
  shows "refines e (\<lambda>m. case base64_decode_m plenty t m of None \<Rightarrow> None
      | Some (None, m1) \<Rightarrow> g m1 | Some (Some (p, bs), m1) \<Rightarrow> f p bs m1) r"
  using assms
  by (auto simp: refines_def base64_decode_m_def split: option.splits prod.splits if_splits dest: malloc_plenty)

lemma parse_scalar_refines:
  "refines erase (parse_scalar_m sd plenty tag s) (parse_scalar sd tag s)"
  unfolding parse_scalar_m_def parse_scalar_def Let_def
  by (auto intro!: refines_alloc refines_lift refines_try_lift refines_malloc refines_element
      refines_base64 refines_fail refines_then_free split: option.split)

lemma dict_append_plenty:
  "dict_append plenty (HDict a k vs c hs) key v m = Some (fit, d1, m1) \<Longrightarrow>
   fit \<and> (\<exists>k vs c. d1 = HDict a k vs c (hs @ [(key, v)]))"
  by (auto simp: Let_def split: option.splits if_splits dest!: realloc_plenty)

lemma array_append_plenty:
  "array_append plenty (HArray a p c hs) v m = Some (fit, d1, m1) \<Longrightarrow>
   fit \<and> (\<exists>p c. d1 = HArray a p c (hs @ [v]))"
  by (auto simp: Let_def split: option.splits if_splits dest!: realloc_plenty)

lemma refines_dict_append:
  assumes "\<And>k vs c. refines e (f (HDict a k vs c (hs @ [(key, v)]))) r"
  shows "refines e (\<lambda>m. case dict_append plenty (HDict a k vs c hs) key v m of None \<Rightarrow> None
      | Some (fit, d1, m1) \<Rightarrow> if fit then f d1 m1 else g d1 m1) r"
  unfolding refines_def
  by (auto split: option.splits prod.splits dest!: dict_append_plenty dest: refinesD [OF assms]
      simp del: dict_append.simps)

lemma refines_array_append:
  assumes "\<And>p c. refines e (f (HArray a p c (hs @ [v]))) r"
  shows "refines e (\<lambda>m. case array_append plenty (HArray a p c hs) v m of None \<Rightarrow> None
      | Some (fit, d1, m1) \<Rightarrow> if fit then f d1 m1 else g d1 m1) r"
  unfolding refines_def
  by (auto split: option.splits prod.splits dest!: array_append_plenty dest: refinesD [OF assms]
      simp del: array_append.simps)

lemma pbind_assoc: "pbind (pbind m f) g = pbind m (\<lambda>a r. pbind (f a r) g)"
  by (cases m) auto

lemma parse_dict_refines_step:
  assumes "\<And>r. refines erase (parse_value_m sd plenty n r) (parse_value sd n r)"
    and "\<And>k vs c hs r. refines erase (parse_dict_m sd plenty n (HDict a k vs c hs) r)
           (parse_dict sd n (erase_entries hs) r)"
  shows "refines erase (parse_dict_m sd plenty (Suc n) (HDict a k vs c hs) s)
           (parse_dict sd (Suc n) (erase_entries hs) s)"
proof -
  have more: "refines erase (parse_dict_m sd plenty n (HDict a k vs c (hs @ [(key, v)])) r)
      (parse_dict sd n (erase_entries hs @ [(snd key, erase v)]) r)" for k vs c key v r
    using assms(2) [of k vs c "hs @ [(key, v)]" r] by simp
  show ?thesis
    unfolding parse_dict_m.simps parse_dict.simps
    by (auto simp del: dict_append.simps intro!: refines_try_lift refines_lift refines_fail refines_element
        refines_try [OF assms(1)] refines_dict_append more)
qed

lemma parse_array_refines_step:
  assumes "\<And>r. refines erase (parse_value_m sd plenty n r) (parse_value sd n r)"
    and "\<And>p c hs r. refines erase (parse_array_m sd plenty n (HArray a p c hs) r)
           (parse_array sd n (erase_items hs) r)"
  shows "refines erase (parse_array_m sd plenty (Suc n) (HArray a p c hs) s)
           (parse_array sd (Suc n) (erase_items hs) s)"
proof -
  have more: "refines erase (parse_array_m sd plenty n (HArray a p c (hs @ [v])) r)
      (parse_array sd n (erase_items hs @ [erase v]) r)" for p c v r
    using assms(2) [of p c "hs @ [v]" r] by simp
  have pure: "parse_array sd (Suc n) (erase_items hs) s =
      pbind (pbind (skip_noise s) (\<lambda>_ save. pbind (read_tag save) (\<lambda>next r. POk (next, save) r)))
        (\<lambda>(next, save) r. if t_closing next \<and> t_name next = ''array'' then POk (PArray (erase_items hs)) r
          else pbind (parse_value sd n save) (\<lambda>child r1. parse_array sd n (erase_items hs @ [child]) r1))"
    by (simp add: parse_array.simps pbind_assoc)
  show ?thesis
    unfolding parse_array_m.simps pure
    by (auto simp del: array_append.simps intro!: refines_try_lift refines_lift
        refines_try [OF assms(1)] refines_array_append more)
qed

lemma parse_m_refines:
  "(\<forall>s. refines erase (parse_value_m sd plenty n s) (parse_value sd n s)) \<and>
   (\<forall>tag s. refines erase (parse_after_tag_m sd plenty n tag s) (parse_after_tag sd n tag s)) \<and>
   (\<forall>a k vs c hs s. refines erase (parse_dict_m sd plenty n (HDict a k vs c hs) s)
      (parse_dict sd n (erase_entries hs) s)) \<and>
   (\<forall>a p c hs s. refines erase (parse_array_m sd plenty n (HArray a p c hs) s)
      (parse_array sd n (erase_items hs) s))"
proof (induction n)
  case 0
  show ?case
    by (simp add: parse_value_m.simps parse_after_tag_m.simps parse_dict_m.simps parse_array_m.simps
        parse_simps refines_lift)
next
  case (Suc n)
  then have val: "\<And>r. refines erase (parse_value_m sd plenty n r) (parse_value sd n r)"
    and tag: "\<And>t r. refines erase (parse_after_tag_m sd plenty n t r) (parse_after_tag sd n t r)"
    and dict: "\<And>a k vs c hs r. refines erase (parse_dict_m sd plenty n (HDict a k vs c hs) r)
      (parse_dict sd n (erase_entries hs) r)"
    and arr: "\<And>a p c hs r. refines erase (parse_array_m sd plenty n (HArray a p c hs) r)
      (parse_array sd n (erase_items hs) r)" by blast+
  have "refines erase (parse_value_m sd plenty (Suc n) s) (parse_value sd (Suc n) s)" for s
    unfolding parse_value_m.simps parse_value.simps
    by (auto intro!: refines_try_lift refines_lift tag)
  moreover have "refines erase (parse_after_tag_m sd plenty (Suc n) t s) (parse_after_tag sd (Suc n) t s)" for t s
    unfolding parse_after_tag_m.simps parse_after_tag.simps Let_def
    using dict [where hs = "[]"] arr [where hs = "[]"]
    by (auto intro!: refines_alloc refines_lift parse_scalar_refines)
  moreover note parse_dict_refines_step [OF val dict] parse_array_refines_step [OF val arr]
  ultimately show ?case by blast
qed

lemma parse_document_refines:
  "refines erase (parse_document_m sd plenty xml) (parse_document sd xml)"
  unfolding parse_document_m_def parse_document_def
  using parse_m_refines [of sd "length xml + 3"]
  by (auto intro!: refines_try_lift refines_lift refines_try)

end
