(* ===== verification/Plist_Memory_Claims.thy ===== *)
theory Plist_Memory_Claims
  imports Plist_Memory_Refine
begin

text \<open>
  The property of the reader with memory: no leak, no double free, no access outside a block, whatever
  allocations fail.
\<close>

lemma parse_string_m_safe:
  assumes "owned m R {#}"
  obtains res m' where "plist_parse_string_m sd ok input n m = Some (res, m')"
    "case res of Inl msg \<Rightarrow> owned m' R {#} | Inr v \<Rightarrow> owned m' R (val_blk v)"
proof (cases input)
  case None
  then show ?thesis using assms that by (simp add: plist_parse_string_m_def)
next
  case (Some xml)
  from parse_document_triple [of sd ok xml] assms obtain r m' where
    "parse_document_m sd ok xml m = Some (r, m')"
    "case r of POk v s \<Rightarrow> owned m' R (val_blk v) \<and> True | PFail _ _ \<Rightarrow> owned m' R {#} | POut \<Rightarrow> False"
    unfolding triple_def by blast
  then show ?thesis
    using Some that by (cases r) (auto simp: plist_parse_string_m_def)
qed

lemma parse_file_m_safe:
  assumes "owned m R {#}"
  obtains res m' where "plist_parse_file_m sd ok fs path n m = Some (res, m')"
    "case res of Inl msg \<Rightarrow> owned m' R {#} | Inr v \<Rightarrow> owned m' R (val_blk v)"
proof (cases "\<exists>p t. path = Some p \<and> fs p = Contents t")
  case False
  then have "\<exists>msg. plist_parse_file_m sd ok fs path n m = Some (Inl msg, m)"
    by (cases path) (auto simp: plist_parse_file_m_def split: file_read.splits)
  then show ?thesis
    using assms that by auto
next
  case True
  then obtain p t where p: "path = Some p" "fs p = Contents t" by blast
  obtain buf m1 where m1: "malloc ok m = (buf, m1)" by (cases "malloc ok m")
  have o1: "owned m1 R (blk buf)" using malloc_owned [OF m1 assms] by simp
  show ?thesis
  proof (cases "buf = 0")
    case True
    then show ?thesis using o1 p m1 that by (simp add: plist_parse_file_m_def)
  next
    case False
    have "owned m1 (R + blk buf) {#}" using o1 by (simp add: owned_none)
    then obtain res m2 where r: "plist_parse_string_m sd ok (Some t) n m1 = Some (res, m2)"
      "case res of Inl msg \<Rightarrow> owned m2 (R + blk buf) {#} | Inr v \<Rightarrow> owned m2 (R + blk buf) (val_blk v)"
      by (rule parse_string_m_safe)
    have "owned m2 R (blk buf + (case res of Inl msg \<Rightarrow> {#} | Inr v \<Rightarrow> val_blk v))"
      using r(2) by (auto simp: owned_def ac_simps split: sum.splits)
    then obtain m3 where "free buf m2 = Some m3" "owned m3 R (case res of Inl msg \<Rightarrow> {#} | Inr v \<Rightarrow> val_blk v)"
      by (rule free_owned)
    then show ?thesis
      using r(1) p m1 False that by (auto simp: plist_parse_file_m_def split: sum.splits)
  qed
qed

lemma parse_file_m_refines:
  assumes "plist_parse_file_m sd plenty fs path n m = Some (res, m')"
  shows "plist_parse_file sd fs path n = Some (map_sum (\<lambda>e. e) erase res)"
proof -
  have "plist_parse_string sd input n = Some (map_sum (\<lambda>e. e) erase res)"
    if "plist_parse_string_m sd plenty input n m = Some (res, m')" for input m res m'
    using that refinesD [OF parse_document_refines]
    by (fastforce simp: plist_parse_string_m_def plist_parse_string_def split: option.splits pres.splits)
  then show ?thesis
    using assms
    by (auto simp: plist_parse_file_m_def plist_parse_file_def
        split: option.splits file_read.splits prod.splits if_splits dest: malloc_plenty)
qed

text \<open>An entity whose character finds no room is dropped without a failure: \<^verbatim>\<open>read_text\<close> does not look at the
  result of \<^verbatim>\<open>sb_putc\<close> there.\<close>

lemma entity_dropped_without_memory:
  assumes "sb_cap sb < length (sb_chars sb) + 2" and "\<not> ok (requests m)"
    and "sb_buf sb = 0 \<or> sb_buf sb \<in> live m"
  shows "read_text_loop_m ok sb (''&amp;'' @ s) m = read_text_loop_m ok sb s (m\<lparr>requests := Suc (requests m)\<rparr>)"
proof -
  have "sb_putc ok sb (CHR ''&'') m = Some (False, sb, m\<lparr>requests := Suc (requests m)\<rparr>)"
    using assms by (auto simp: sb_putc_def realloc_def malloc_def Let_def)
  moreover have "decode_entity ''amp'' = Inr ''&''" by (simp add: decode_entity_def)
  ultimately show ?thesis
    by (subst read_text_loop_m.simps) (simp add: memchr_def)
qed

text \<open>C38: The reader owns its memory.  Whatever allocations fail and whatever the file holds, it returns without
  freeing a block twice or writing outside of one; if it reports a failure, exactly the blocks from before are
  allocated, and if it returns a value, the new blocks are those of the value, and \<^verbatim>\<open>plist_free\<close> gives them back,
  each once.  If no allocation fails, the result is that of the reader without memory.\<close>

theorem plist_memory_safe:
  assumes "mem_ok m"
  shows "\<exists>res m'. plist_parse_file_m sd ok fs path n m = Some (res, m') \<and>
    (case res of
       Inl msg \<Rightarrow> live m' = live m
     | Inr v \<Rightarrow> mset_set (live m') = mset_set (live m) + val_blk v \<and>
         (\<exists>m2. plist_free v m' = Some m2 \<and> live m2 = live m)) \<and>
    (ok = (\<lambda>_. True) \<longrightarrow> plist_parse_file sd fs path n = Some (map_sum (\<lambda>e. e) erase res))"
proof -
  have fin: "finite (live m)" using assms by (simp add: mem_ok_def)
  obtain res m' where r: "plist_parse_file_m sd ok fs path n m = Some (res, m')"
    "case res of Inl msg \<Rightarrow> owned m' (mset_set (live m)) {#} | Inr v \<Rightarrow> owned m' (mset_set (live m)) (val_blk v)"
    using parse_file_m_safe [OF mem_ok_owned [OF assms]] by blast
  have "case res of Inl msg \<Rightarrow> live m' = live m
     | Inr v \<Rightarrow> mset_set (live m') = mset_set (live m) + val_blk v \<and>
         (\<exists>m2. plist_free v m' = Some m2 \<and> live m2 = live m)"
  proof (cases res)
    case (Inr v)
    then have o: "owned m' (mset_set (live m)) (val_blk v)" using r(2) by simp
    from frees_use [OF plist_free_frees this] obtain m2 where
      "plist_free v m' = Some m2" "owned m2 (mset_set (live m)) {#}" by blast
    moreover from this have "live m2 = live m" using owned_all fin by blast
    moreover have "mset_set (live m') = mset_set (live m) + val_blk v"
      using o by (simp add: owned_def)
    ultimately show ?thesis using Inr by simp
  next
    case (Inl msg)
    then have "live m' = live m" using r(2) owned_all fin by fastforce
    then show ?thesis using Inl by simp
  qed
  moreover have "ok = (\<lambda>_. True) \<longrightarrow> plist_parse_file sd fs path n = Some (map_sum (\<lambda>e. e) erase res)"
    using r(1) parse_file_m_refines [of sd fs path n m res m'] by auto
  ultimately show ?thesis
    using r(1) by (intro exI conjI)
qed

theorem plist_memory_safe_witness:
  "\<exists>v m'. plist_parse_file_m (\<lambda>_. 0) (\<lambda>_. True) (\<lambda>_. Contents ''<array><true/></array>'') (Some ''/x'') 64
       \<lparr>live = {}, requests = 0\<rparr> = Some (Inr v, m') \<and> erase v = PArray [PBool True] \<and>
     (\<exists>m2. plist_free v m' = Some m2 \<and> live m2 = {})"
proof -
  have v: "plist_parse_file (\<lambda>_. 0) (\<lambda>_. Contents ''<array><true/></array>'') (Some ''/x'') 64 =
      Some (Inr (PArray [PBool True]))"
    by code_simp
  let ?m = "\<lparr>live = {}, requests = 0\<rparr> :: mem"
  have m: "mem_ok ?m" by (simp add: mem_ok_def)
  from plist_memory_safe [OF m, of "\<lambda>_. 0" "\<lambda>_. True" "\<lambda>_. Contents ''<array><true/></array>''" "Some ''/x''" 64]
  obtain res m' where r: "plist_parse_file_m (\<lambda>_. 0) (\<lambda>_. True) (\<lambda>_. Contents ''<array><true/></array>'')
      (Some ''/x'') 64 ?m = Some (res, m')"
    and s: "case res of Inl msg \<Rightarrow> live m' = live ?m
     | Inr v \<Rightarrow> mset_set (live m') = mset_set (live ?m) + val_blk v \<and>
         (\<exists>m2. plist_free v m' = Some m2 \<and> live m2 = live ?m)"
    and e: "Inr (PArray [PBool True]) = map_sum (\<lambda>e. e) erase res"
    unfolding v by auto
  from e obtain u where "res = Inr u" "erase u = PArray [PBool True]" by (cases res) auto
  then show ?thesis using r s by auto
qed

end
