(* ===== verification/Interfaces.thy ===== *)
theory Interfaces
  imports Prelude
begin

text \<open>
  The contracts that components of the program offer to each other, as locales: a store with
  keys, a first-in-first-out queue, a fixed-width byte codec, and a machine whose steps keep an
  invariant.  Each is interpreted on the model's own definitions in the theory of the component
  that provides it; the lemmas proved here are then facts of that component.
\<close>

section \<open>Keyed stores\<close>

text \<open>What a client of a dictionary relies on.\<close>

locale keyed_store =
  fixes lookup :: "'s \<Rightarrow> 'k \<Rightarrow> 'v option"
    and insert :: "'k \<Rightarrow> 'v \<Rightarrow> 's \<Rightarrow> 's"
    and ok :: "'s \<Rightarrow> bool"
  assumes lookup_insert: "ok s \<Longrightarrow> lookup (insert k v s) k' = (if k' = k then Some v else lookup s k')"
    and ok_insert: "ok s \<Longrightarrow> ok (insert k v s)"
begin

lemma ok_inserts: "ok s \<Longrightarrow> ok (fold (\<lambda>(k, v). insert k v) kvs s)"
  by (induction kvs arbitrary: s) (auto simp: ok_insert)

text \<open>After a sequence of insertions the last binding of a key is the one found.\<close>

lemma lookup_inserts:
  "ok s \<Longrightarrow> lookup (fold (\<lambda>(k, v). insert k v) kvs s) k =
     (case map_of (rev kvs) k of Some v \<Rightarrow> Some v | None \<Rightarrow> lookup s k)"
  by (induction kvs arbitrary: s)
    (auto simp: ok_insert lookup_insert map_add_def split: option.splits)

lemma lookup_insert_same [simp]: "ok s \<Longrightarrow> lookup (insert k v s) k = Some v"
  by (simp add: lookup_insert)

lemma lookup_insert_other: "ok s \<Longrightarrow> k' \<noteq> k \<Longrightarrow> lookup (insert k v s) k' = lookup s k'"
  by (simp add: lookup_insert)

end

locale removable_store = keyed_store +
  fixes remove :: "'b \<Rightarrow> 'a \<Rightarrow> 'a"
  assumes lookup_remove: "ok s \<Longrightarrow> lookup (remove k s) k' = (if k' = k then None else lookup s k')"
    and ok_remove: "ok s \<Longrightarrow> ok (remove k s)"
begin

lemma lookup_remove_insert:
  "ok s \<Longrightarrow> lookup s k = None \<Longrightarrow> lookup (remove k (insert k v s)) = lookup s"
  by (rule ext) (simp add: lookup_remove lookup_insert ok_insert)

end

section \<open>Queues\<close>

locale fifo =
  fixes push :: "'a \<Rightarrow> 'q \<Rightarrow> 'q"
    and pop :: "'q \<Rightarrow> 'a option \<times> 'q"
    and items :: "'q \<Rightarrow> 'a list"
  assumes items_push: "items (push x q) = items q @ [x]"
    and pop_empty: "items q = [] \<Longrightarrow> fst (pop q) = None \<and> items (snd (pop q)) = []"
    and pop_head: "items q = x # xs \<Longrightarrow> fst (pop q) = Some x \<and> items (snd (pop q)) = xs"
begin

fun pops :: "nat \<Rightarrow> 'q \<Rightarrow> 'a option list" where
  "pops 0 q = []"
| "pops (Suc n) q = fst (pop q) # pops n (snd (pop q))"

lemma items_pushes: "items (fold push xs q) = items q @ xs"
  by (induction xs arbitrary: q) (auto simp: items_push)

lemma pops_items: "n \<le> length (items q) \<Longrightarrow> pops n q = map Some (take n (items q))"
proof (induction n arbitrary: q)
  case (Suc n)
  then show ?case using pop_head [of q] by (cases "items q") auto
qed simp

text \<open>What was queued on an empty queue comes out in the same order.\<close>

lemma pops_pushes: "items q = [] \<Longrightarrow> pops (length xs) (fold push xs q) = map Some xs"
  by (simp add: pops_items items_pushes)

end

section \<open>Fixed-width codecs\<close>

text \<open>A checked read of \<open>w\<close> bytes at an offset; \<open>None\<close> is a read outside the buffer.\<close>

definition read_at :: "nat \<Rightarrow> (byte list \<Rightarrow> 'a) \<Rightarrow> byte list \<Rightarrow> nat \<Rightarrow> 'a option" where
  "read_at w dec buf off = (if off + w \<le> length buf then Some (dec (drop off buf)) else None)"

locale codec =
  fixes enc :: "'a \<Rightarrow> byte list"
    and dec :: "byte list \<Rightarrow> 'a"
    and width :: nat
  assumes enc_width: "length (enc v) = width"
    and dec_enc: "dec (enc v @ r) = v"
begin

lemma read_at_enc: "read_at width dec (pre @ enc v @ post) (length pre) = Some v"
  by (simp add: read_at_def enc_width dec_enc)

lemma read_at_enc_offset:
  "off = length pre \<Longrightarrow> read_at width dec (pre @ enc v @ post) off = Some v"
  by (simp add: read_at_enc)

lemma enc_inject: "enc v @ r = enc v' @ r' \<Longrightarrow> v = v' \<and> r = r'"
proof -
  assume eq: "enc v @ r = enc v' @ r'"
  then have "dec (enc v @ r) = dec (enc v' @ r')" by simp
  then have "v = v'" by (simp add: dec_enc)
  with eq show ?thesis by simp
qed

end

section \<open>Machines with an invariant\<close>

locale invariant_machine =
  fixes step :: "'s \<Rightarrow> 'e \<Rightarrow> 's"
    and inv :: "'s \<Rightarrow> bool"
  assumes inv_step: "inv s \<Longrightarrow> inv (step s e)"
begin

lemma inv_run: "inv s \<Longrightarrow> inv (foldl step s es)"
  by (induction es arbitrary: s) (auto simp: inv_step)

end

end
