(* ===== verification/Launch_Job.thy ===== *)
theory Launch_Job
  imports Plist_Parser Interfaces
begin

text \<open>
  Job definitions of \<^verbatim>\<open>src/src/darwin-compat/launchd/launch_job.c\<close>: the job record, and its
  construction from a property list (\<^verbatim>\<open>job_from_plist\<close> and its helpers).

  A \<^verbatim>\<open>NULL\<close>-terminated array with its count is a list; an optional string is an option.  The
  message a function leaves in \<^verbatim>\<open>errbuf\<close> is part of its result; a buffer of length 0 stands for
  \<^verbatim>\<open>NULL\<close>.  Allocation succeeds.
\<close>

section \<open>Codes\<close>

definition LAUNCH_OK :: int where "LAUNCH_OK = 0"
definition LAUNCH_EINVAL :: int where "LAUNCH_EINVAL = -1"
definition LAUNCH_ENOMEM :: int where "LAUNCH_ENOMEM = -2"
definition LAUNCH_EPARSE :: int where "LAUNCH_EPARSE = -3"
definition LAUNCH_EIO :: int where "LAUNCH_EIO = -4"
definition LAUNCH_ENOENT :: int where "LAUNCH_ENOENT = -5"
definition LAUNCH_ESTATE :: int where "LAUNCH_ESTATE = -6"
definition LAUNCH_EEXIST :: int where "LAUNCH_EEXIST = -7"
definition LAUNCH_ETIMEOUT :: int where "LAUNCH_ETIMEOUT = -8"

lemmas launch_codes = LAUNCH_OK_def LAUNCH_EINVAL_def LAUNCH_ENOMEM_def LAUNCH_EPARSE_def
  LAUNCH_EIO_def LAUNCH_ENOENT_def LAUNCH_ESTATE_def LAUNCH_EEXIST_def LAUNCH_ETIMEOUT_def

definition launch_strerror :: "int \<Rightarrow> string" where
  "launch_strerror err =
     (if err = LAUNCH_OK then ''Success''
      else if err = LAUNCH_EINVAL then ''Invalid argument''
      else if err = LAUNCH_ENOMEM then ''Out of memory''
      else if err = LAUNCH_EPARSE then ''Malformed job definition''
      else if err = LAUNCH_EIO then ''I/O error''
      else if err = LAUNCH_ENOENT then ''No such job''
      else if err = LAUNCH_ESTATE then ''Job is in the wrong state for that''
      else if err = LAUNCH_EEXIST then ''A job with that label is already loaded''
      else if err = LAUNCH_ETIMEOUT then ''Timed out''
      else ''Unknown error'')"

datatype job_state = Loaded | Running | Exited | Waiting | Stopped | Failed

text \<open>The numbers of the states, as the C interface has them.\<close>

fun state_number :: "job_state \<Rightarrow> int" where
  "state_number Loaded = 0"
| "state_number Running = 1"
| "state_number Exited = 2"
| "state_number Waiting = 3"
| "state_number Stopped = 4"
| "state_number Failed = 5"

definition launch_state_name :: "int \<Rightarrow> string" where
  "launch_state_name n =
     (if n = 0 then ''loaded'' else if n = 1 then ''running'' else if n = 2 then ''exited''
      else if n = 3 then ''waiting'' else if n = 4 then ''stopped'' else if n = 5 then ''failed''
      else ''unknown'')"

datatype keepalive = Never | Always | OnFailure | OnSuccess

section \<open>Jobs\<close>

record launch_socket =
  s_name :: string
  s_path :: string
  s_fd :: int

record launch_job =
  j_label :: string
  j_plist_path :: "string option"
  j_argv :: "string list"
  j_working_dir :: "string option"
  j_stdin :: "string option"
  j_stdout :: "string option"
  j_stderr :: "string option"
  j_env :: "string list"
  j_run_at_load :: bool
  j_keepalive :: keepalive
  j_throttle_ms :: i64
  j_sockets :: "launch_socket list"
  j_pid :: int
  j_state :: job_state
  j_last_exit :: int
  j_signaled :: bool
  j_start_count :: u64
  j_restart_at_ms :: i64

definition seterr :: "nat \<Rightarrow> string \<Rightarrow> string" where
  "seterr len text = (if len = 0 then [] else snprintf_s len text)"

section \<open>Construction from a property list\<close>

definition parse_keepalive :: "plist option \<Rightarrow> keepalive" where
  "parse_keepalive ka =
     (if ka = None then Never
      else if plist_type ka = PLIST_BOOL then (if plist_bool_value ka False then Always else Never)
      else if plist_type ka \<noteq> PLIST_DICT then Never
      else
        (let se = plist_dict_get ka ''SuccessfulExit'' in
         if se = None then Always
         else if plist_bool_value se False then OnSuccess else OnFailure))"

text \<open>The loop over \<^verbatim>\<open>ProgramArguments\<close>: \<open>Inl i\<close> if element \<open>i\<close> is not a string.\<close>

fun argv_loop :: "bool \<Rightarrow> nat \<Rightarrow> plist list \<Rightarrow> string list \<Rightarrow> nat + string list" where
  "argv_loop program i [] argv = Inr argv"
| "argv_loop program i (a # as) argv =
     (case plist_string_value (Some a) None of
        None \<Rightarrow> Inl i
      | Some s \<Rightarrow>
          if program \<and> i = 0 then argv_loop program (i + 1) as argv
          else argv_loop program (i + 1) as (argv @ [s]))"

text \<open>The code and the message, or the arguments.\<close>

definition job_set_argv :: "plist \<Rightarrow> nat \<Rightarrow> (int \<times> string) + string list" where
  "job_set_argv root errlen =
     (let args = plist_dict_get (Some root) ''ProgramArguments'';
          program = plist_dict_get_string (Some root) ''Program'' None in
      case args of
        Some (PArray as) \<Rightarrow>
          if as = [] then Inl (LAUNCH_EPARSE, seterr errlen ''ProgramArguments is empty'')
          else
            (case argv_loop (program \<noteq> None) 0 as (case program of None \<Rightarrow> [] | Some p \<Rightarrow> [p]) of
               Inl i \<Rightarrow>
                 Inl (LAUNCH_EPARSE,
                   seterr errlen (''ProgramArguments['' @ dec_nat i @ ''] is not a string''))
             | Inr argv \<Rightarrow> Inr argv)
      | _ \<Rightarrow>
          (case program of
             Some p \<Rightarrow> Inr [p]
           | None \<Rightarrow>
               Inl (LAUNCH_EPARSE,
                 seterr errlen ''neither Program nor ProgramArguments is present'')))"

text \<open>Entries whose value is not a string are skipped.\<close>

fun env_loop :: "(string \<times> plist) list \<Rightarrow> string list" where
  "env_loop [] = []"
| "env_loop ((k, v) # items) =
     (case plist_string_value (Some v) None of
        None \<Rightarrow> env_loop items
      | Some s \<Rightarrow> (k @ ''='' @ s) # env_loop items)"

definition job_set_env :: "plist \<Rightarrow> string list" where
  "job_set_env root =
     (case plist_dict_get (Some root) ''EnvironmentVariables'' of
        Some (PDict items) \<Rightarrow> env_loop items
      | _ \<Rightarrow> [])"

text \<open>The sockets, or the code and the message with the sockets that were there before the entry in error.\<close>

fun sockets_loop ::
  "nat \<Rightarrow> launch_socket list \<Rightarrow> (string \<times> plist) list \<Rightarrow>
   (int \<times> string \<times> launch_socket list) + launch_socket list" where
  "sockets_loop errlen ss [] = Inr ss"
| "sockets_loop errlen ss ((nm, entry) # items) =
     (if plist_type (Some entry) \<noteq> PLIST_DICT then
        Inl (LAUNCH_EPARSE, seterr errlen (''Sockets/'' @ nm @ '' is not a dictionary''), ss)
      else
        (case plist_dict_get_string (Some entry) ''SockPathName'' None of
           None \<Rightarrow>
             Inl (LAUNCH_EPARSE,
               seterr errlen (''Sockets/'' @ nm @
                 '' has no SockPathName (only Unix sockets are supported)''), ss)
         | Some p \<Rightarrow> sockets_loop errlen (ss @ [\<lparr>s_name = nm, s_path = p, s_fd = -1\<rparr>]) items))"

definition job_set_sockets ::
  "plist \<Rightarrow> nat \<Rightarrow> (int \<times> string \<times> launch_socket list) + launch_socket list" where
  "job_set_sockets root errlen =
     (case plist_dict_get (Some root) ''Sockets'' of
        Some (PDict items) \<Rightarrow> sockets_loop errlen [] items
      | _ \<Rightarrow> Inr [])"

text \<open>\<^verbatim>\<open>plist_integer_value(throttle, 0) * 1000\<close> in 64 bits, cut at 0 from below.\<close>

definition job_throttle :: "(double \<Rightarrow> i64) \<Rightarrow> plist \<Rightarrow> i64 \<Rightarrow> i64" where
  "job_throttle d2i root default_throttle =
     (let t = (case plist_dict_get (Some root) ''ThrottleInterval'' of
                 Some v \<Rightarrow> plist_integer_value d2i (Some v) 0 * 1000
               | None \<Rightarrow> default_throttle)
      in if sint t < 0 then 0 else t)"

text \<open>What \<^verbatim>\<open>job_from_plist\<close> builds: a job, or the code, the message, and the sockets of the job that is
  given up.\<close>

definition job_build ::
  "(double \<Rightarrow> i64) \<Rightarrow> plist \<Rightarrow> string option \<Rightarrow> i64 \<Rightarrow> nat \<Rightarrow>
   (int \<times> string \<times> launch_socket list) + launch_job" where
  "job_build d2i root path default_throttle errlen =
     (if plist_type (Some root) \<noteq> PLIST_DICT then
        Inl (LAUNCH_EPARSE, seterr errlen ''top-level value is not a dictionary'', [])
      else
        let get = (\<lambda>key. plist_dict_get_string (Some root) key None) in
        case get ''Label'' of
          None \<Rightarrow> Inl (LAUNCH_EPARSE, seterr errlen ''missing required key Label'', [])
        | Some label \<Rightarrow>
            if label = [] then Inl (LAUNCH_EPARSE, seterr errlen ''missing required key Label'', [])
            else
              (case job_set_argv root errlen of
                 Inl (rc, msg) \<Rightarrow> Inl (rc, msg, [])
               | Inr argv \<Rightarrow>
                   (case job_set_sockets root errlen of
                      Inl e \<Rightarrow> Inl e
                    | Inr ss \<Rightarrow>
                        Inr \<lparr>j_label = label, j_plist_path = path, j_argv = argv,
                             j_working_dir = get ''WorkingDirectory'',
                             j_stdin = get ''StandardInPath'',
                             j_stdout = get ''StandardOutPath'',
                             j_stderr = get ''StandardErrorPath'',
                             j_env = job_set_env root,
                             j_run_at_load = plist_dict_get_bool (Some root) ''RunAtLoad'' False,
                             j_keepalive = parse_keepalive (plist_dict_get (Some root) ''KeepAlive''),
                             j_throttle_ms = job_throttle d2i root default_throttle,
                             j_sockets = ss, j_pid = -1, j_state = Loaded, j_last_exit = 0,
                             j_signaled = False, j_start_count = 0, j_restart_at_ms = 0\<rparr>)))"

section \<open>Accessors\<close>

text \<open>A job argument of \<open>None\<close> is \<^verbatim>\<open>NULL\<close>.\<close>

definition launch_job_get_label :: "launch_job option \<Rightarrow> string option" where
  "launch_job_get_label job = map_option j_label job"

definition launch_job_get_plist_path :: "launch_job option \<Rightarrow> string option" where
  "launch_job_get_plist_path job = Option.bind job j_plist_path"

definition launch_job_get_pid :: "launch_job option \<Rightarrow> int" where
  "launch_job_get_pid job = (case job of None \<Rightarrow> -1 | Some j \<Rightarrow> j_pid j)"

definition launch_job_get_state :: "launch_job option \<Rightarrow> job_state" where
  "launch_job_get_state job = (case job of None \<Rightarrow> Loaded | Some j \<Rightarrow> j_state j)"

definition launch_job_get_keepalive :: "launch_job option \<Rightarrow> keepalive" where
  "launch_job_get_keepalive job = (case job of None \<Rightarrow> Never | Some j \<Rightarrow> j_keepalive j)"

definition launch_job_get_run_at_load :: "launch_job option \<Rightarrow> bool" where
  "launch_job_get_run_at_load job = (case job of None \<Rightarrow> False | Some j \<Rightarrow> j_run_at_load j)"

definition launch_job_get_throttle :: "launch_job option \<Rightarrow> i64" where
  "launch_job_get_throttle job = (case job of None \<Rightarrow> 0 | Some j \<Rightarrow> j_throttle_ms j)"

definition launch_job_get_start_count :: "launch_job option \<Rightarrow> u64" where
  "launch_job_get_start_count job = (case job of None \<Rightarrow> 0 | Some j \<Rightarrow> j_start_count j)"

definition launch_job_get_last_exit :: "launch_job option \<Rightarrow> int" where
  "launch_job_get_last_exit job = (case job of None \<Rightarrow> 0 | Some j \<Rightarrow> j_last_exit j)"

definition launch_job_was_signaled :: "launch_job option \<Rightarrow> bool" where
  "launch_job_was_signaled job = (case job of None \<Rightarrow> False | Some j \<Rightarrow> j_signaled j)"

definition launch_job_argc :: "launch_job option \<Rightarrow> nat" where
  "launch_job_argc job = (case job of None \<Rightarrow> 0 | Some j \<Rightarrow> length (j_argv j))"

definition launch_job_argv_at :: "launch_job option \<Rightarrow> int \<Rightarrow> string option" where
  "launch_job_argv_at job i =
     (case job of
        None \<Rightarrow> None
      | Some j \<Rightarrow> if i < 0 \<or> int (length (j_argv j)) \<le> i then None else Some (j_argv j ! nat i))"

definition launch_job_socket_count :: "launch_job option \<Rightarrow> nat" where
  "launch_job_socket_count job = (case job of None \<Rightarrow> 0 | Some j \<Rightarrow> length (j_sockets j))"

definition launch_job_socket_fd :: "launch_job option \<Rightarrow> string option \<Rightarrow> int" where
  "launch_job_socket_fd job nm =
     (case (job, nm) of
        (Some j, Some n) \<Rightarrow>
          (case find (\<lambda>s. s_name s = n) (j_sockets j) of None \<Rightarrow> -1 | Some s \<Rightarrow> s_fd s)
      | _ \<Rightarrow> -1)"

definition launch_job_socket_path :: "launch_job option \<Rightarrow> string option \<Rightarrow> string option" where
  "launch_job_socket_path job nm =
     (case (job, nm) of
        (Some j, Some n) \<Rightarrow> map_option s_path (find (\<lambda>s. s_name s = n) (j_sockets j))
      | _ \<Rightarrow> None)"

end
