(* ===== verification/Launch_Supervise.thy ===== *)
theory Launch_Supervise
  imports Launch_Job
begin

text \<open>
  Supervision in \<^verbatim>\<open>src/src/darwin-compat/launchd/launch_job.c\<close>: spawning, stopping, the registry,
  and the tick that reaps and restarts.

  The operating system is a record of functions over an abstract world \<^typ>\<open>'w\<close>: every system call
  takes the world and returns the next one.  Nothing is assumed about it unless a theorem says so.
  Loops that poll (\<^verbatim>\<open>launch_job_stop\<close>, \<^verbatim>\<open>launch_registry_run\<close>, \<^verbatim>\<open>launch_registry_wait_state\<close>) are
  partial functions; whether they return depends on the clock.
\<close>

section \<open>The operating system\<close>

datatype exit_status = ExitCode nat | KilledBy nat

text \<open>\<^verbatim>\<open>waitpid(pid, &status, WNOHANG)\<close>: 0, an error other than \<^verbatim>\<open>ECHILD\<close>, \<^verbatim>\<open>ECHILD\<close>, or a status.\<close>

datatype wait_result = StillAlive | WaitError | NoChild | Reaped exit_status

record 'w os =
  os_mono_ms :: "'w \<Rightarrow> i64 \<times> 'w"
  os_usleep :: "nat \<Rightarrow> 'w \<Rightarrow> 'w"
  os_kill :: "int \<Rightarrow> nat \<Rightarrow> 'w \<Rightarrow> 'w"
  os_waitpid :: "int \<Rightarrow> 'w \<Rightarrow> wait_result \<times> 'w"
  os_waitpid_block :: "int \<Rightarrow> 'w \<Rightarrow> 'w"
  os_fork :: "'w \<Rightarrow> (string + nat) \<times> 'w"
  os_socket :: "'w \<Rightarrow> (string + nat) \<times> 'w"
  os_unlink :: "string \<Rightarrow> 'w \<Rightarrow> 'w"
  os_bind_listen :: "nat \<Rightarrow> string \<Rightarrow> 'w \<Rightarrow> string option \<times> 'w"
  os_close :: "int \<Rightarrow> 'w \<Rightarrow> 'w"
  os_environ :: "'w \<Rightarrow> string list"

definition SIGTERM :: nat where "SIGTERM = 15"
definition SIGKILL :: nat where "SIGKILL = 9"

text \<open>A failing call returns its \<^verbatim>\<open>strerror\<close> text.  \<^verbatim>\<open>fork\<close> returns a positive pid to the parent; what
  the child does is \<open>child_run\<close>.\<close>

section \<open>Spawning\<close>

definition LAUNCH_SUN_PATH :: nat where "LAUNCH_SUN_PATH = 104"

definition socket_create ::
  "'w os \<Rightarrow> launch_socket \<Rightarrow> nat \<Rightarrow> 'w \<Rightarrow> (int \<times> string) \<times> launch_socket \<times> 'w" where
  "socket_create os s errlen w =
     (if 0 \<le> s_fd s then ((LAUNCH_OK, []), s, w)
      else if LAUNCH_SUN_PATH \<le> length (s_path s) then
        ((LAUNCH_EINVAL, seterr errlen (''socket path too long: '' @ s_path s)), s, w)
      else
        (case os_socket os w of
           (Inl e, w1) \<Rightarrow> ((LAUNCH_EIO, seterr errlen (''socket(): '' @ e)), s, w1)
         | (Inr f, w1) \<Rightarrow>
             (let w2 = os_unlink os (s_path s) w1 in
              case os_bind_listen os f (s_path s) w2 of
                (Some e, w3) \<Rightarrow>
                  ((LAUNCH_EIO, seterr errlen (''bind/listen '' @ s_path s @ '': '' @ e)), s,
                   os_close os (int f) w3)
              | (None, w3) \<Rightarrow> ((LAUNCH_OK, []), s\<lparr>s_fd := int f\<rparr>, w3))))"

text \<open>The loop over a job's sockets stops at the first failure.\<close>

fun sockets_create ::
  "'w os \<Rightarrow> launch_socket list \<Rightarrow> nat \<Rightarrow> 'w \<Rightarrow> (int \<times> string) \<times> launch_socket list \<times> 'w" where
  "sockets_create os [] errlen w = ((LAUNCH_OK, []), [], w)"
| "sockets_create os (s # ss) errlen w =
     (case socket_create os s errlen w of
        ((rc, msg), s', w1) \<Rightarrow>
          if rc \<noteq> LAUNCH_OK then ((rc, msg), s' # ss, w1)
          else (case sockets_create os ss errlen w1 of (r, ss', w2) \<Rightarrow> (r, s' # ss', w2)))"

definition SOCKET_ENV_PREFIX :: string where
  "SOCKET_ENV_PREFIX = ''LAUNCH_ACTIVATE_SOCKET_FD_''"

definition build_child_env :: "string list \<Rightarrow> launch_job \<Rightarrow> string list" where
  "build_child_env base j =
     base @ j_env j @
     map (\<lambda>s. SOCKET_ENV_PREFIX @ s_name s @ ''='' @ dec_int (s_fd s)) (j_sockets j)"

text \<open>The child between \<^verbatim>\<open>fork\<close> and \<^verbatim>\<open>exec\<close>: whether each call succeeds is an argument.\<close>

record child_os =
  chdir_ok :: "string \<Rightarrow> bool"
  redirect_ok :: "string \<Rightarrow> nat \<Rightarrow> bool"
  exec_ok :: "string \<Rightarrow> bool"

datatype child_result = ChildExit nat | ChildExec string "string list" "string list"

definition redirect :: "child_os \<Rightarrow> string option \<Rightarrow> nat \<Rightarrow> bool" where
  "redirect cos p target = (case p of None \<Rightarrow> True | Some f \<Rightarrow> redirect_ok cos f target)"

definition child_run :: "child_os \<Rightarrow> launch_job \<Rightarrow> string list \<Rightarrow> child_result" where
  "child_run cos j child_env =
     (if (case j_working_dir j of None \<Rightarrow> False | Some d \<Rightarrow> \<not> chdir_ok cos d) then ChildExit 126
      else if \<not> redirect cos (j_stdin j) 0 \<or> \<not> redirect cos (j_stdout j) 1 \<or>
              \<not> redirect cos (j_stderr j) 2 then ChildExit 126
      else if exec_ok cos (hd (j_argv j)) then ChildExec (hd (j_argv j)) (j_argv j) child_env
      else ChildExit 127)"

definition launch_job_start ::
  "'w os \<Rightarrow> launch_job \<Rightarrow> nat \<Rightarrow> 'w \<Rightarrow> (int \<times> string) \<times> launch_job \<times> 'w" where
  "launch_job_start os j errlen w =
     (if j_state j = Running then
        ((LAUNCH_ESTATE,
          seterr errlen (j_label j @ '' is already running (pid '' @ dec_int (j_pid j) @ '')'')), j, w)
      else if j_argv j = [] then ((LAUNCH_EINVAL, []), j, w)
      else
        (case sockets_create os (j_sockets j) errlen w of
           ((rc, msg), ss, w1) \<Rightarrow>
             (let j1 = j\<lparr>j_sockets := ss\<rparr> in
              if rc \<noteq> LAUNCH_OK then ((rc, msg), j1\<lparr>j_state := Failed\<rparr>, w1)
              else
                (case os_fork os w1 of
                   (Inl e, w2) \<Rightarrow>
                     ((LAUNCH_EIO, seterr errlen (''fork(): '' @ e)), j1\<lparr>j_state := Failed\<rparr>, w2)
                 | (Inr p, w2) \<Rightarrow>
                     ((LAUNCH_OK, []),
                      j1\<lparr>j_pid := int p, j_state := Running, j_start_count := j_start_count j1 + 1,
                         j_restart_at_ms := 0\<rparr>, w2)))))"

section \<open>Stopping\<close>

definition record_exit :: "exit_status \<Rightarrow> launch_job \<Rightarrow> launch_job" where
  "record_exit st j =
     (case st of
        ExitCode c \<Rightarrow> j\<lparr>j_signaled := False, j_last_exit := int c\<rparr>
      | KilledBy s \<Rightarrow> j\<lparr>j_signaled := True, j_last_exit := - int s\<rparr>)"

text \<open>The polling loop: the job with its exit recorded.\<close>

partial_function (option) stop_loop ::
  "'w os \<Rightarrow> launch_job \<Rightarrow> i64 \<Rightarrow> 'w \<Rightarrow> (launch_job \<times> 'w) option" where
  "stop_loop os j deadline w =
     (case os_waitpid os (j_pid j) w of
        (r, w1) \<Rightarrow>
          (case r of
             Reaped st \<Rightarrow> Some (record_exit st j, w1)
           | NoChild \<Rightarrow> Some (j, w1)
           | _ \<Rightarrow>
               (case os_mono_ms os w1 of
                  (now, w2) \<Rightarrow>
                    if sint deadline \<le> sint now then
                      (let w3 = os_waitpid_block os (j_pid j) (os_kill os (j_pid j) SIGKILL w2) in
                       Some (j\<lparr>j_signaled := True, j_last_exit := - int SIGKILL\<rparr>, w3))
                    else stop_loop os j deadline (os_usleep os 5000 w2))))"

definition launch_job_stop ::
  "'w os \<Rightarrow> launch_job \<Rightarrow> int \<Rightarrow> 'w \<Rightarrow> (int \<times> launch_job \<times> 'w) option" where
  "launch_job_stop os j timeout_ms w =
     (if j_state j \<noteq> Running \<or> j_pid j \<le> 0 then
        Some (LAUNCH_OK, j\<lparr>j_state := Stopped, j_restart_at_ms := 0\<rparr>, w)
      else
        (case os_mono_ms os (os_kill os (j_pid j) SIGTERM w) of
           (now, w1) \<Rightarrow>
             map_option
               (\<lambda>(j', w2). (LAUNCH_OK,
                  j'\<lparr>j_pid := -1, j_state := Stopped, j_restart_at_ms := 0\<rparr>, w2))
               (stop_loop os j (now + word_of_int (max 0 timeout_ms)) w1)))"

section \<open>The tick\<close>

definition should_restart :: "keepalive \<Rightarrow> bool \<Rightarrow> bool" where
  "should_restart ka exited_cleanly =
     (case ka of Always \<Rightarrow> True | OnFailure \<Rightarrow> \<not> exited_cleanly | OnSuccess \<Rightarrow> exited_cleanly
      | Never \<Rightarrow> False)"

text \<open>What a reaped job becomes.\<close>

definition after_exit :: "'w os \<Rightarrow> launch_job \<Rightarrow> 'w \<Rightarrow> launch_job \<times> 'w" where
  "after_exit os j w =
     (if should_restart (j_keepalive j) (\<not> j_signaled j \<and> j_last_exit j = 0) then
        (case os_mono_ms os w of
           (now, w1) \<Rightarrow> (j\<lparr>j_state := Waiting, j_restart_at_ms := now + j_throttle_ms j\<rparr>, w1))
      else (j\<lparr>j_state := Exited, j_restart_at_ms := 0\<rparr>, w))"

text \<open>One job in the reaping pass and in the restarting pass, with the number of changes.\<close>

definition reap_job :: "'w os \<Rightarrow> launch_job \<Rightarrow> 'w \<Rightarrow> launch_job \<times> nat \<times> 'w" where
  "reap_job os j w =
     (if j_state j \<noteq> Running \<or> j_pid j \<le> 0 then (j, 0, w)
      else
        (case os_waitpid os (j_pid j) w of
           (r, w1) \<Rightarrow>
             (case r of
                StillAlive \<Rightarrow> (j, 0, w1)
              | WaitError \<Rightarrow> (j, 0, w1)
              | NoChild \<Rightarrow> (case after_exit os (j\<lparr>j_pid := -1\<rparr>) w1 of (j', w2) \<Rightarrow> (j', 1, w2))
              | Reaped st \<Rightarrow>
                  (case after_exit os ((record_exit st j)\<lparr>j_pid := -1\<rparr>) w1 of
                     (j', w2) \<Rightarrow> (j', 1, w2)))))"

definition restart_job :: "'w os \<Rightarrow> i64 \<Rightarrow> launch_job \<Rightarrow> 'w \<Rightarrow> launch_job \<times> nat \<times> 'w" where
  "restart_job os now j w =
     (if j_state j = Waiting \<and> sint (j_restart_at_ms j) \<le> sint now then
        (case launch_job_start os j 0 w of
           ((rc, msg), j', w1) \<Rightarrow>
             if rc = LAUNCH_OK then (j', 1, w1) else (j'\<lparr>j_state := Failed\<rparr>, 1, w1))
      else (j, 0, w))"

text \<open>A pass over the jobs of the registry.\<close>

fun pass ::
  "(launch_job \<Rightarrow> 'w \<Rightarrow> launch_job \<times> nat \<times> 'w) \<Rightarrow> launch_job list \<Rightarrow> 'w \<Rightarrow>
   launch_job list \<times> nat \<times> 'w" where
  "pass f [] w = ([], 0, w)"
| "pass f (j # js) w =
     (case f j w of
        (j', n, w1) \<Rightarrow> (case pass f js w1 of (js', m, w2) \<Rightarrow> (j' # js', n + m, w2)))"

record launch_registry =
  jobs :: "launch_job list"
  default_throttle_ms :: i64

definition launch_registry_tick ::
  "'w os \<Rightarrow> launch_registry \<Rightarrow> 'w \<Rightarrow> nat \<times> launch_registry \<times> 'w" where
  "launch_registry_tick os reg w =
     (case pass (reap_job os) (jobs reg) w of
        (js1, c1, w1) \<Rightarrow>
          (case os_mono_ms os w1 of
             (now, w2) \<Rightarrow>
               (case pass (restart_job os now) js1 w2 of
                  (js2, c2, w3) \<Rightarrow> (c1 + c2, reg\<lparr>jobs := js2\<rparr>, w3))))"

partial_function (option) run_loop ::
  "'w os \<Rightarrow> launch_registry \<Rightarrow> i64 \<Rightarrow> nat \<Rightarrow> 'w \<Rightarrow> (nat \<times> launch_registry \<times> 'w) option" where
  "run_loop os reg deadline changes w =
     (case launch_registry_tick os reg w of
        (c, reg1, w1) \<Rightarrow>
          (case os_mono_ms os w1 of
             (now, w2) \<Rightarrow>
               if sint deadline \<le> sint now then Some (changes + c, reg1, w2)
               else run_loop os reg1 deadline (changes + c) (os_usleep os 5000 w2)))"

definition launch_registry_run ::
  "'w os \<Rightarrow> launch_registry \<Rightarrow> int \<Rightarrow> 'w \<Rightarrow> (nat \<times> launch_registry \<times> 'w) option" where
  "launch_registry_run os reg duration_ms w =
     (case os_mono_ms os w of
        (now, w1) \<Rightarrow> run_loop os reg (now + word_of_int (max 0 duration_ms)) 0 w1)"

text \<open>The job is the one at index \<open>i\<close>.\<close>

partial_function (option) wait_state_loop ::
  "'w os \<Rightarrow> launch_registry \<Rightarrow> nat \<Rightarrow> job_state \<Rightarrow> i64 \<Rightarrow> 'w \<Rightarrow>
   (int \<times> launch_registry \<times> 'w) option" where
  "wait_state_loop os reg i st deadline w =
     (case launch_registry_tick os reg w of
        (c, reg1, w1) \<Rightarrow>
          if j_state (jobs reg1 ! i) = st then Some (LAUNCH_OK, reg1, w1)
          else
            (case os_mono_ms os w1 of
               (now, w2) \<Rightarrow>
                 if sint deadline \<le> sint now then Some (LAUNCH_ETIMEOUT, reg1, w2)
                 else wait_state_loop os reg1 i st deadline (os_usleep os 5000 w2)))"

definition launch_registry_wait_state ::
  "'w os \<Rightarrow> launch_registry \<Rightarrow> nat \<Rightarrow> job_state \<Rightarrow> int \<Rightarrow> 'w \<Rightarrow>
   (int \<times> launch_registry \<times> 'w) option" where
  "launch_registry_wait_state os reg i st timeout_ms w =
     (case os_mono_ms os w of
        (now, w1) \<Rightarrow>
          if length (jobs reg) \<le> i then Some (LAUNCH_EINVAL, reg, w1)
          else wait_state_loop os reg i st (now + word_of_int (max 0 timeout_ms)) w1)"

end
