(* ===== verification/Launch_Registry.thy ===== *)
theory Launch_Registry
  imports Launch_Supervise
begin

text \<open>
  The registry of \<^verbatim>\<open>src/src/darwin-compat/launchd/launch_job.c\<close>: loading, finding, unloading,
  starting and stopping jobs, and the child's side of socket activation.

  A job pointer into the registry is an index.  The array's spare capacity is not part of the model.
\<close>

section \<open>Basics\<close>

definition launch_registry_create :: launch_registry where
  "launch_registry_create = \<lparr>jobs = [], default_throttle_ms = 10000\<rparr>"

definition launch_registry_set_default_throttle :: "launch_registry \<Rightarrow> i64 \<Rightarrow> launch_registry" where
  "launch_registry_set_default_throttle reg millis =
     (if 0 \<le> sint millis then reg\<lparr>default_throttle_ms := millis\<rparr> else reg)"

definition registry_append :: "launch_job \<Rightarrow> launch_registry \<Rightarrow> launch_registry" where
  "registry_append j reg = reg\<lparr>jobs := jobs reg @ [j]\<rparr>"

fun find_index :: "launch_job list \<Rightarrow> string \<Rightarrow> nat \<Rightarrow> nat option" where
  "find_index [] label i = None"
| "find_index (j # js) label i = (if j_label j = label then Some i else find_index js label (i + 1))"

definition launch_registry_find :: "launch_registry \<Rightarrow> string option \<Rightarrow> nat option" where
  "launch_registry_find reg label =
     (case label of None \<Rightarrow> None | Some l \<Rightarrow> find_index (jobs reg) l 0)"

definition launch_registry_count :: "launch_registry option \<Rightarrow> nat" where
  "launch_registry_count reg = (case reg of None \<Rightarrow> 0 | Some r \<Rightarrow> length (jobs r))"

definition launch_registry_at :: "launch_registry \<Rightarrow> nat \<Rightarrow> launch_job option" where
  "launch_registry_at reg i = (if length (jobs reg) \<le> i then None else Some (jobs reg ! i))"

section \<open>Freeing a job\<close>

text \<open>\<^verbatim>\<open>job_free\<close>: the sockets are closed and their files removed.\<close>

fun free_sockets :: "'w os \<Rightarrow> launch_socket list \<Rightarrow> 'w \<Rightarrow> 'w" where
  "free_sockets os [] w = w"
| "free_sockets os (s # ss) w =
     free_sockets os ss
       (os_unlink os (s_path s) (if 0 \<le> s_fd s then os_close os (s_fd s) w else w))"

definition job_free :: "'w os \<Rightarrow> launch_job \<Rightarrow> 'w \<Rightarrow> 'w" where
  "job_free os j w = free_sockets os (j_sockets j) w"

section \<open>Loading\<close>

text \<open>The host: \<^verbatim>\<open>strtod\<close>, the cast of a \<^verbatim>\<open>double\<close> to \<^verbatim>\<open>int64_t\<close>, files and directories.\<close>

record host =
  h_strtod :: "string \<Rightarrow> double"
  h_d2i :: "double \<Rightarrow> i64"
  h_file :: "string \<Rightarrow> file_read"
  h_dir :: "string \<Rightarrow> string + string list"

definition PARSE_ERR :: nat where "PARSE_ERR = 256"

text \<open>A job that is given up is freed, as any other: the socket files it names are removed.\<close>

definition job_from_plist ::
  "'w os \<Rightarrow> (double \<Rightarrow> i64) \<Rightarrow> plist \<Rightarrow> string option \<Rightarrow> i64 \<Rightarrow> nat \<Rightarrow> 'w \<Rightarrow>
   ((int \<times> string) + launch_job) \<times> 'w" where
  "job_from_plist os d2i root path default_throttle errlen w =
     (case job_build d2i root path default_throttle errlen of
        Inl (rc, msg, ss) \<Rightarrow> (Inl (rc, msg), free_sockets os ss w)
      | Inr j \<Rightarrow> (Inr j, w))"

text \<open>The code, the message, the registry and the world; a job that is loaded is the last one.\<close>

definition launch_registry_load_plist ::
  "'w os \<Rightarrow> host \<Rightarrow> launch_registry \<Rightarrow> string option \<Rightarrow> nat \<Rightarrow> 'w \<Rightarrow>
   (int \<times> string) \<times> launch_registry \<times> 'w" where
  "launch_registry_load_plist os h reg path errlen w =
     (case path of
        None \<Rightarrow> ((LAUNCH_EINVAL, []), reg, w)
      | Some p \<Rightarrow>
          (case plist_parse_file (h_strtod h) (h_file h) path PARSE_ERR of
             Some (Inr root) \<Rightarrow>
               (case job_from_plist os (h_d2i h) root path (default_throttle_ms reg) PARSE_ERR w of
                  (Inl (rc, msg), w1) \<Rightarrow> ((rc, seterr errlen (p @ '': '' @ msg)), reg, w1)
                | (Inr j, w1) \<Rightarrow>
                    if launch_registry_find reg (Some (j_label j)) \<noteq> None then
                      ((LAUNCH_EEXIST,
                        seterr errlen (p @ '': label '' @ j_label j @ '' is already loaded'')), reg,
                       job_free os j w1)
                    else ((LAUNCH_OK, []), registry_append j reg, w1))
           | Some (Inl msg) \<Rightarrow> ((LAUNCH_EPARSE, seterr errlen (p @ '': '' @ msg)), reg, w)
           | None \<Rightarrow> ((LAUNCH_EPARSE, []), reg, w)))"

definition plist_suffix :: "string \<Rightarrow> bool" where
  "plist_suffix nm = (7 \<le> length nm \<and> drop (length nm - 6) nm = ''.plist'')"

text \<open>The numbers loaded and failed, the last message, the registry and the world.\<close>

fun load_names ::
  "'w os \<Rightarrow> host \<Rightarrow> string \<Rightarrow> nat \<Rightarrow> string list \<Rightarrow> nat \<times> nat \<times> string \<times> launch_registry \<times> 'w \<Rightarrow>
   nat \<times> nat \<times> string \<times> launch_registry \<times> 'w" where
  "load_names os h dir errlen [] acc = acc"
| "load_names os h dir errlen (nm # nms) (loaded, failed, msg, reg, w) =
     (if \<not> plist_suffix nm then load_names os h dir errlen nms (loaded, failed, msg, reg, w)
      else
        (case launch_registry_load_plist os h reg (Some (snprintf_s 1024 (dir @ ''/'' @ nm))) 256 w of
           ((rc, one_err), reg', w') \<Rightarrow>
             if rc = LAUNCH_OK then load_names os h dir errlen nms (loaded + 1, failed, msg, reg', w')
             else load_names os h dir errlen nms (loaded, failed + 1, seterr errlen one_err, reg', w')))"

definition launch_registry_load_dir ::
  "'w os \<Rightarrow> host \<Rightarrow> launch_registry \<Rightarrow> string option \<Rightarrow> nat \<Rightarrow> 'w \<Rightarrow>
   (int \<times> nat \<times> string) \<times> launch_registry \<times> 'w" where
  "launch_registry_load_dir os h reg dir errlen w =
     (case dir of
        None \<Rightarrow> ((LAUNCH_EINVAL, 0, []), reg, w)
      | Some d \<Rightarrow>
          (case h_dir h d of
             Inl e \<Rightarrow> ((LAUNCH_ENOENT, 0, seterr errlen (''cannot open '' @ d @ '': '' @ e)), reg, w)
           | Inr nms \<Rightarrow>
               (case load_names os h d errlen nms (0, 0, [], reg, w) of
                  (loaded, failed, msg, reg', w') \<Rightarrow> ((int loaded, failed, msg), reg', w'))))"

section \<open>Unloading\<close>

definition remove_at :: "nat \<Rightarrow> 'a list \<Rightarrow> 'a list" where
  "remove_at i xs = take i xs @ drop (i + 1) xs"

definition launch_registry_unload ::
  "'w os \<Rightarrow> launch_registry \<Rightarrow> string option \<Rightarrow> 'w \<Rightarrow> (int \<times> launch_registry \<times> 'w) option" where
  "launch_registry_unload os reg label w =
     (case label of
        None \<Rightarrow> Some (LAUNCH_EINVAL, reg, w)
      | Some l \<Rightarrow>
          (case find_index (jobs reg) l 0 of
             None \<Rightarrow> Some (LAUNCH_ENOENT, reg, w)
           | Some i \<Rightarrow>
               (let j = jobs reg ! i in
                case (if j_state j = Running then launch_job_stop os j 2000 w
                      else Some (LAUNCH_OK, j, w)) of
                  None \<Rightarrow> None
                | Some (rc, j', w1) \<Rightarrow>
                    Some (LAUNCH_OK, reg\<lparr>jobs := remove_at i (jobs reg)\<rparr>, job_free os j' w1))))"

section \<open>All jobs\<close>

definition start_if_due :: "'w os \<Rightarrow> launch_job \<Rightarrow> 'w \<Rightarrow> launch_job \<times> nat \<times> 'w" where
  "start_if_due os j w =
     (if j_run_at_load j \<and> j_state j = Loaded then
        (case launch_job_start os j 0 w of
           ((rc, msg), j', w1) \<Rightarrow> (j', if rc = LAUNCH_OK then 1 else 0, w1))
      else (j, 0, w))"

definition launch_registry_start_all ::
  "'w os \<Rightarrow> launch_registry \<Rightarrow> 'w \<Rightarrow> nat \<times> launch_registry \<times> 'w" where
  "launch_registry_start_all os reg w =
     (case pass (start_if_due os) (jobs reg) w of (js, n, w1) \<Rightarrow> (n, reg\<lparr>jobs := js\<rparr>, w1))"

fun stop_jobs ::
  "'w os \<Rightarrow> launch_job list \<Rightarrow> int \<Rightarrow> 'w \<Rightarrow> (launch_job list \<times> nat \<times> 'w) option" where
  "stop_jobs os [] timeout_ms w = Some ([], 0, w)"
| "stop_jobs os (j # js) timeout_ms w =
     (if j_state j = Running then
        (case launch_job_stop os j timeout_ms w of
           None \<Rightarrow> None
         | Some (rc, j', w1) \<Rightarrow>
             map_option (\<lambda>(js', n, w2). (j' # js', n + 1, w2)) (stop_jobs os js timeout_ms w1))
      else map_option (\<lambda>(js', n, w2). (j # js', n, w2)) (stop_jobs os js timeout_ms w))"

definition launch_registry_stop_all ::
  "'w os \<Rightarrow> launch_registry \<Rightarrow> int \<Rightarrow> 'w \<Rightarrow> (nat \<times> launch_registry \<times> 'w) option" where
  "launch_registry_stop_all os reg timeout_ms w =
     map_option (\<lambda>(js, n, w1). (n, reg\<lparr>jobs := js\<rparr>, w1)) (stop_jobs os (jobs reg) timeout_ms w)"

definition launch_registry_free :: "'w os \<Rightarrow> launch_registry option \<Rightarrow> 'w \<Rightarrow> 'w option" where
  "launch_registry_free os reg w =
     (case reg of
        None \<Rightarrow> Some w
      | Some r \<Rightarrow>
          map_option (\<lambda>(n, r', w1). fold (job_free os) (jobs r') w1)
            (launch_registry_stop_all os r 2000 w))"

section \<open>Socket activation in the child\<close>

text \<open>\<^verbatim>\<open>getenv\<close>: the value of the first entry with the name.\<close>

fun getenv :: "string list \<Rightarrow> string \<Rightarrow> string option" where
  "getenv [] nm = None"
| "getenv (e # es) nm =
     (if take (length nm + 1) e = nm @ ''='' then Some (drop (length nm + 1) e) else getenv es nm)"

text \<open>\<^verbatim>\<open>errno\<close> or the descriptor; \<^verbatim>\<open>long\<close> has 64 bits.\<close>

datatype activate_error = ActivateEINVAL | ActivateENOENT

definition launch_activate_socket :: "string list \<Rightarrow> string option \<Rightarrow> activate_error + int" where
  "launch_activate_socket env nm =
     (case nm of
        None \<Rightarrow> Inl ActivateEINVAL
      | Some n \<Rightarrow>
          (case getenv env (snprintf_s 256 (SOCKET_ENV_PREFIX @ n)) of
             None \<Rightarrow> Inl ActivateENOENT
           | Some v \<Rightarrow>
               if v = [] then Inl ActivateENOENT
               else
                 let f = sint (strtoll10 v) in
                 if f < 0 \<or> 2147483647 < f then Inl ActivateEINVAL else Inr f))"

end
