(* ===== verification/Launch_Memory.thy ===== *)
theory Launch_Memory
  imports Launch_Registry Plist_Memory_Claims
begin

text \<open>
  The loading of job files with its memory: which blocks \<^verbatim>\<open>launch_job.c\<close> allocates and frees, when any
  allocation may fail, from the file to the registry and to the end of the process.  The memory is that of
  theory \<open>Plist_Memory\<close>, the reading of property lists is its reader.
\<close>

section \<open>Jobs in memory\<close>

text \<open>A job as \<^verbatim>\<open>job_from_plist\<close> builds it, with its address.  A string has its block, 0 where the pointer is
  \<^verbatim>\<open>NULL\<close>; the arrays have theirs.  The fields that start at a fixed value are those of \<open>launch_job\<close>.\<close>

record hsocket =
  hs_name :: text_block
  hs_path :: text_block
  hs_fd :: int

record hjob =
  hj_addr :: nat
  hj_label :: text_block
  hj_plist_path :: text_block
  hj_working_dir :: text_block
  hj_stdin :: text_block
  hj_stdout :: text_block
  hj_stderr :: text_block
  hj_argv :: nat
  hj_args :: "text_block list"
  hj_env :: nat
  hj_vars :: "text_block list"
  hj_socks :: nat
  hj_sockets :: "hsocket list"
  hj_run_at_load :: bool
  hj_keepalive :: keepalive
  hj_throttle_ms :: i64

definition no_text :: text_block where
  "no_text = (0, [])"

definition text_opt :: "text_block \<Rightarrow> string option" where
  "text_opt t = (if fst t = 0 then None else Some (snd t))"

definition dup_or_null :: "alloc_plan \<Rightarrow> string option \<Rightarrow> mem \<Rightarrow> text_block \<times> mem" where
  "dup_or_null ok s m = (case s of None \<Rightarrow> (no_text, m) | Some x \<Rightarrow> dup_string ok x m)"

section \<open>Freeing a job\<close>

fun free_texts :: "text_block list \<Rightarrow> mem \<Rightarrow> mem option" where
  "free_texts [] = Some"
| "free_texts (t # ts) = both (free_text t) (free_texts ts)"

fun free_socks :: "hsocket list \<Rightarrow> mem \<Rightarrow> mem option" where
  "free_socks [] = Some"
| "free_socks (s # ss) = both (both (free_text (hs_name s)) (free_text (hs_path s))) (free_socks ss)"

definition job_sockets :: "hjob \<Rightarrow> launch_socket list" where
  "job_sockets j = map (\<lambda>s. \<lparr>s_name = snd (hs_name s), s_path = snd (hs_path s), s_fd = hs_fd s\<rparr>) (hj_sockets j)"

text \<open>The blocks; the sockets of the world are \<open>free_sockets\<close> of theory \<open>Launch_Registry\<close>.\<close>

definition job_free_blocks :: "hjob \<Rightarrow> mem \<Rightarrow> mem option" where
  "job_free_blocks j =
     both (free_texts (hj_args j)) (both (free (hj_argv j))
     (both (free_texts (hj_vars j)) (both (free (hj_env j))
     (both (free_socks (hj_sockets j)) (both (free (hj_socks j))
     (both (free_text (hj_label j)) (both (free_text (hj_plist_path j))
     (both (free_text (hj_working_dir j)) (both (free_text (hj_stdin j))
     (both (free_text (hj_stdout j)) (both (free_text (hj_stderr j)) (free (hj_addr j)))))))))))))"

definition job_free_m :: "'w os \<Rightarrow> hjob \<Rightarrow> 'w \<Rightarrow> mem \<Rightarrow> ('w \<times> mem) option" where
  "job_free_m os j w m = map_option (Pair (free_sockets os (job_sockets j) w)) (job_free_blocks j m)"

section \<open>Construction\<close>

text \<open>The code and the message, the job as far as it was built, and the memory; \<open>None\<close> is a write beyond an
  array, here of \<open>cap\<close> elements.\<close>

type_synonym job_step = "((int \<times> string) \<times> hjob \<times> mem) option"

fun argv_loop_m ::
  "alloc_plan \<Rightarrow> nat \<Rightarrow> nat \<Rightarrow> bool \<Rightarrow> nat \<Rightarrow> plist list \<Rightarrow> hjob \<Rightarrow> mem \<Rightarrow> job_step" where
  "argv_loop_m ok errlen cap program i [] j m = Some ((LAUNCH_OK, []), j, m)"
| "argv_loop_m ok errlen cap program i (a # as) j m =
     (case plist_string_value (Some a) None of
        None \<Rightarrow>
          Some ((LAUNCH_EPARSE, seterr errlen (''ProgramArguments['' @ dec_nat i @ ''] is not a string'')), j, m)
      | Some s \<Rightarrow>
          if program \<and> i = 0 then argv_loop_m ok errlen cap program (i + 1) as j m
          else if cap \<le> length (hj_args j) then None
          else
            (case dup_string ok s m of
               (t, m1) \<Rightarrow>
                 if fst t = 0 then Some ((LAUNCH_ENOMEM, []), j, m1)
                 else argv_loop_m ok errlen cap program (i + 1) as (j\<lparr>hj_args := hj_args j @ [t]\<rparr>) m1))"

text \<open>\<^verbatim>\<open>argv[0]\<close> is counted, although its copy is not checked.\<close>

definition job_set_argv_m :: "alloc_plan \<Rightarrow> plist \<Rightarrow> nat \<Rightarrow> hjob \<Rightarrow> mem \<Rightarrow> job_step" where
  "job_set_argv_m ok root errlen j m =
     (let args = plist_dict_get (Some root) ''ProgramArguments'';
          program = plist_dict_get_string (Some root) ''Program'' None;
          one_array = (case program of
             Some p \<Rightarrow>
               (case malloc ok m of
                  (v, m1) \<Rightarrow>
                    if v = 0 then Some ((LAUNCH_ENOMEM, []), j, m1)
                    else (case dup_string ok p m1 of
                            (t, m2) \<Rightarrow> Some ((LAUNCH_OK, []), j\<lparr>hj_argv := v, hj_args := [t]\<rparr>, m2)))
           | None \<Rightarrow>
               Some ((LAUNCH_EPARSE, seterr errlen ''neither Program nor ProgramArguments is present''), j, m))
      in case args of
           Some (PArray as) \<Rightarrow>
             if as = [] then Some ((LAUNCH_EPARSE, seterr errlen ''ProgramArguments is empty''), j, m)
             else
               (case malloc ok m of
                  (v, m1) \<Rightarrow>
                    if v = 0 then Some ((LAUNCH_ENOMEM, []), j, m1)
                    else
                      (case program of
                         None \<Rightarrow>
                           argv_loop_m ok errlen (length as + 2) False 0 as (j\<lparr>hj_argv := v, hj_args := []\<rparr>) m1
                       | Some p \<Rightarrow>
                           (case dup_string ok p m1 of
                              (t, m2) \<Rightarrow>
                                argv_loop_m ok errlen (length as + 2) True 0 as
                                  (j\<lparr>hj_argv := v, hj_args := [t]\<rparr>) m2)))
         | _ \<Rightarrow> one_array)"

fun env_loop_m :: "alloc_plan \<Rightarrow> nat \<Rightarrow> (string \<times> plist) list \<Rightarrow> hjob \<Rightarrow> mem \<Rightarrow> job_step" where
  "env_loop_m ok cap [] j m = Some ((LAUNCH_OK, []), j, m)"
| "env_loop_m ok cap ((k, v) # items) j m =
     (case plist_string_value (Some v) None of
        None \<Rightarrow> env_loop_m ok cap items j m
      | Some s \<Rightarrow>
          if cap \<le> length (hj_vars j) then None
          else
            (case dup_string ok (k @ ''='' @ s) m of
               (t, m1) \<Rightarrow>
                 if fst t = 0 then Some ((LAUNCH_ENOMEM, []), j, m1)
                 else env_loop_m ok cap items (j\<lparr>hj_vars := hj_vars j @ [t]\<rparr>) m1))"

definition job_set_env_m :: "alloc_plan \<Rightarrow> plist \<Rightarrow> hjob \<Rightarrow> mem \<Rightarrow> job_step" where
  "job_set_env_m ok root j m =
     (case plist_dict_get (Some root) ''EnvironmentVariables'' of
        Some (PDict items) \<Rightarrow>
          (case malloc ok m of
             (v, m1) \<Rightarrow>
               if v = 0 then Some ((LAUNCH_ENOMEM, []), j, m1)
               else env_loop_m ok (length items + 1) items (j\<lparr>hj_env := v\<rparr>) m1)
      | _ \<Rightarrow> Some ((LAUNCH_OK, []), j, m))"

text \<open>Both copies are made before they are checked; a socket that is not counted is not freed with the job.\<close>

fun sockets_loop_m :: "alloc_plan \<Rightarrow> nat \<Rightarrow> nat \<Rightarrow> (string \<times> plist) list \<Rightarrow> hjob \<Rightarrow> mem \<Rightarrow> job_step" where
  "sockets_loop_m ok errlen cap [] j m = Some ((LAUNCH_OK, []), j, m)"
| "sockets_loop_m ok errlen cap ((nm, entry) # items) j m =
     (if plist_type (Some entry) \<noteq> PLIST_DICT then
        Some ((LAUNCH_EPARSE, seterr errlen (''Sockets/'' @ nm @ '' is not a dictionary'')), j, m)
      else
        (case plist_dict_get_string (Some entry) ''SockPathName'' None of
           None \<Rightarrow>
             Some ((LAUNCH_EPARSE,
               seterr errlen (''Sockets/'' @ nm @
                 '' has no SockPathName (only Unix sockets are supported)'')), j, m)
         | Some p \<Rightarrow>
             if cap \<le> length (hj_sockets j) then None
             else
               (case dup_string ok nm m of
                  (t, m1) \<Rightarrow>
                    (case dup_string ok p m1 of
                       (u, m2) \<Rightarrow>
                         if fst t = 0 \<or> fst u = 0 then Some ((LAUNCH_ENOMEM, []), j, m2)
                         else
                           sockets_loop_m ok errlen cap items
                             (j\<lparr>hj_sockets := hj_sockets j @ [\<lparr>hs_name = t, hs_path = u, hs_fd = -1\<rparr>]\<rparr>) m2))))"

definition job_set_sockets_m :: "alloc_plan \<Rightarrow> plist \<Rightarrow> nat \<Rightarrow> hjob \<Rightarrow> mem \<Rightarrow> job_step" where
  "job_set_sockets_m ok root errlen j m =
     (case plist_dict_get (Some root) ''Sockets'' of
        Some (PDict items) \<Rightarrow>
          if items = [] then Some ((LAUNCH_OK, []), j, m)
          else
            (case malloc ok m of
               (v, m1) \<Rightarrow>
                 if v = 0 then Some ((LAUNCH_ENOMEM, []), j, m1)
                 else sockets_loop_m ok errlen (length items) items (j\<lparr>hj_socks := v\<rparr>) m1)
      | _ \<Rightarrow> Some ((LAUNCH_OK, []), j, m))"

text \<open>The next step, unless one has failed.\<close>

definition and_then :: "job_step \<Rightarrow> (hjob \<Rightarrow> mem \<Rightarrow> job_step) \<Rightarrow> job_step" where
  "and_then x f =
     (case x of
        None \<Rightarrow> None
      | Some ((rc, msg), j, m) \<Rightarrow> if rc = LAUNCH_OK then f j m else Some ((rc, msg), j, m))"

text \<open>The copies of the strings, in their order.\<close>

definition job_strings :: "alloc_plan \<Rightarrow> plist \<Rightarrow> string \<Rightarrow> string option \<Rightarrow> hjob \<Rightarrow> mem \<Rightarrow> hjob \<times> mem" where
  "job_strings ok root label path j m =
     (let get = (\<lambda>key. plist_dict_get_string (Some root) key None) in
      case dup_string ok label m of (l, m1) \<Rightarrow>
      case dup_or_null ok path m1 of (p, m2) \<Rightarrow>
      case dup_or_null ok (get ''WorkingDirectory'') m2 of (wd, m3) \<Rightarrow>
      case dup_or_null ok (get ''StandardInPath'') m3 of (i, m4) \<Rightarrow>
      case dup_or_null ok (get ''StandardOutPath'') m4 of (out, m5) \<Rightarrow>
      case dup_or_null ok (get ''StandardErrorPath'') m5 of (err, m6) \<Rightarrow>
        (j\<lparr>hj_label := l, hj_plist_path := p, hj_working_dir := wd, hj_stdin := i, hj_stdout := out,
           hj_stderr := err\<rparr>, m6))"

definition new_job :: "nat \<Rightarrow> hjob" where
  "new_job a =
     \<lparr>hj_addr = a, hj_label = no_text, hj_plist_path = no_text, hj_working_dir = no_text,
      hj_stdin = no_text, hj_stdout = no_text, hj_stderr = no_text, hj_argv = 0, hj_args = [], hj_env = 0,
      hj_vars = [], hj_socks = 0, hj_sockets = [], hj_run_at_load = False, hj_keepalive = Never,
      hj_throttle_ms = 0\<rparr>"

text \<open>A job that is given up is freed.  A code without a message leaves the buffer as the reader left it, empty.\<close>

definition job_from_plist_m ::
  "'w os \<Rightarrow> (double \<Rightarrow> i64) \<Rightarrow> alloc_plan \<Rightarrow> plist \<Rightarrow> string option \<Rightarrow> i64 \<Rightarrow> nat \<Rightarrow> 'w \<Rightarrow> mem \<Rightarrow>
   (((int \<times> string) + hjob) \<times> 'w \<times> mem) option" where
  "job_from_plist_m os d2i ok root path default_throttle errlen w m =
     (if plist_type (Some root) \<noteq> PLIST_DICT then
        Some (Inl (LAUNCH_EPARSE, seterr errlen ''top-level value is not a dictionary''), w, m)
      else
        (case plist_dict_get_string (Some root) ''Label'' None of
           None \<Rightarrow> Some (Inl (LAUNCH_EPARSE, seterr errlen ''missing required key Label''), w, m)
         | Some label \<Rightarrow>
             if label = [] then Some (Inl (LAUNCH_EPARSE, seterr errlen ''missing required key Label''), w, m)
             else
               (case malloc ok m of
                  (a, m1) \<Rightarrow>
                    if a = 0 then Some (Inl (LAUNCH_ENOMEM, []), w, m1)
                    else
                      (case job_strings ok root label path (new_job a) m1 of
                         (j0, m2) \<Rightarrow>
                           let j = j0\<lparr>hj_run_at_load := plist_dict_get_bool (Some root) ''RunAtLoad'' False,
                                 hj_keepalive := parse_keepalive (plist_dict_get (Some root) ''KeepAlive''),
                                 hj_throttle_ms := job_throttle d2i root default_throttle\<rparr>;
                               give_up = (\<lambda>e j m. map_option (Pair (Inl e)) (job_free_m os j w m))
                           in if fst (hj_label j) = 0 then give_up (LAUNCH_ENOMEM, []) j m2
                              else
                                (case and_then (and_then (job_set_argv_m ok root errlen j m2) (job_set_env_m ok root))
                                        (job_set_sockets_m ok root errlen) of
                                   None \<Rightarrow> None
                                 | Some ((rc, msg), j', m3) \<Rightarrow>
                                     if rc = LAUNCH_OK then Some (Inr j', w, m3) else give_up (rc, msg) j' m3)))))"

section \<open>The registry\<close>

record hregistry =
  hr_addr :: nat
  hr_array :: nat
  hr_cap :: nat
  hr_jobs :: "hjob list"
  hr_throttle :: i64

definition launch_registry_create_m :: "alloc_plan \<Rightarrow> mem \<Rightarrow> hregistry option \<times> mem" where
  "launch_registry_create_m ok m =
     (case malloc ok m of
        (a, m1) \<Rightarrow>
          (if a = 0 then None
           else Some \<lparr>hr_addr = a, hr_array = 0, hr_cap = 0, hr_jobs = [], hr_throttle = 10000\<rparr>, m1))"

text \<open>\<open>None\<close> is also a write beyond the array.\<close>

definition registry_append_m :: "alloc_plan \<Rightarrow> hregistry \<Rightarrow> hjob \<Rightarrow> mem \<Rightarrow> (int \<times> hregistry \<times> mem) option" where
  "registry_append_m ok reg j m =
     (let store = (\<lambda>reg m.
            if length (hr_jobs reg) < hr_cap reg
            then Some (LAUNCH_OK, reg\<lparr>hr_jobs := hr_jobs reg @ [j]\<rparr>, m) else None)
      in if length (hr_jobs reg) = hr_cap reg then
           (let cap = (if hr_cap reg \<noteq> 0 then hr_cap reg * 2 else 8) in
            case realloc ok (hr_array reg) m of
              None \<Rightarrow> None
            | Some (p, m1) \<Rightarrow>
                if p = 0 then Some (LAUNCH_ENOMEM, reg, m1)
                else store (reg\<lparr>hr_array := p, hr_cap := cap\<rparr>) m1)
         else store reg m)"

definition has_label :: "hregistry \<Rightarrow> string \<Rightarrow> bool" where
  "has_label reg label = list_ex (\<lambda>j. snd (hj_label j) = label) (hr_jobs reg)"

text \<open>\<open>None\<close> is a wrong access, or no return.\<close>

definition launch_registry_load_plist_m ::
  "'w os \<Rightarrow> host \<Rightarrow> alloc_plan \<Rightarrow> hregistry \<Rightarrow> string option \<Rightarrow> nat \<Rightarrow> 'w \<Rightarrow> mem \<Rightarrow>
   ((int \<times> string) \<times> hregistry \<times> 'w \<times> mem) option" where
  "launch_registry_load_plist_m os h ok reg path errlen w m =
     (case path of
        None \<Rightarrow> Some ((LAUNCH_EINVAL, []), reg, w, m)
      | Some p \<Rightarrow>
          (case plist_parse_file_m (h_strtod h) ok (h_file h) path PARSE_ERR m of
             None \<Rightarrow> None
           | Some (Inl msg, m1) \<Rightarrow> Some ((LAUNCH_EPARSE, seterr errlen (p @ '': '' @ msg)), reg, w, m1)
           | Some (Inr root, m1) \<Rightarrow>
               (case job_from_plist_m os (h_d2i h) ok (erase root) path (hr_throttle reg) PARSE_ERR w m1 of
                  None \<Rightarrow> None
                | Some (built, w1, m2) \<Rightarrow>
                    (case plist_free root m2 of
                       None \<Rightarrow> None
                     | Some m3 \<Rightarrow>
                         (case built of
                            Inl (rc, msg) \<Rightarrow> Some ((rc, seterr errlen (p @ '': '' @ msg)), reg, w1, m3)
                          | Inr j \<Rightarrow>
                              if has_label reg (snd (hj_label j)) then
                                map_option (\<lambda>(w2, m4).
                                    ((LAUNCH_EEXIST,
                                      seterr errlen (p @ '': label '' @ snd (hj_label j) @ '' is already loaded'')),
                                     reg, w2, m4))
                                  (job_free_m os j w1 m3)
                              else
                                (case registry_append_m ok reg j m3 of
                                   None \<Rightarrow> None
                                 | Some (rc, reg', m4) \<Rightarrow>
                                     if rc = LAUNCH_OK then Some ((LAUNCH_OK, []), reg', w1, m4)
                                     else
                                       map_option (\<lambda>(w2, m5). ((rc, []), reg', w2, m5)) (job_free_m os j w1 m4)))))))"

text \<open>A directory: the buffers for paths and messages are on the stack.\<close>

fun load_names_m ::
  "'w os \<Rightarrow> host \<Rightarrow> alloc_plan \<Rightarrow> string \<Rightarrow> nat \<Rightarrow> string list \<Rightarrow> nat \<times> nat \<times> string \<times> hregistry \<times> 'w \<Rightarrow> mem \<Rightarrow>
   ((nat \<times> nat \<times> string \<times> hregistry \<times> 'w) \<times> mem) option" where
  "load_names_m os h ok dir errlen [] acc m = Some (acc, m)"
| "load_names_m os h ok dir errlen (nm # nms) (loaded, failed, msg, reg, w) m =
     (if \<not> plist_suffix nm then load_names_m os h ok dir errlen nms (loaded, failed, msg, reg, w) m
      else
        (case launch_registry_load_plist_m os h ok reg (Some (snprintf_s 1024 (dir @ ''/'' @ nm))) 256 w m of
           None \<Rightarrow> None
         | Some ((rc, one_err), reg', w', m') \<Rightarrow>
             if rc = LAUNCH_OK then load_names_m os h ok dir errlen nms (loaded + 1, failed, msg, reg', w') m'
             else load_names_m os h ok dir errlen nms (loaded, failed + 1, seterr errlen one_err, reg', w') m'))"

definition launch_registry_load_dir_m ::
  "'w os \<Rightarrow> host \<Rightarrow> alloc_plan \<Rightarrow> hregistry \<Rightarrow> string option \<Rightarrow> nat \<Rightarrow> 'w \<Rightarrow> mem \<Rightarrow>
   ((int \<times> nat \<times> string) \<times> hregistry \<times> 'w \<times> mem) option" where
  "launch_registry_load_dir_m os h ok reg dir errlen w m =
     (case dir of
        None \<Rightarrow> Some ((LAUNCH_EINVAL, 0, []), reg, w, m)
      | Some d \<Rightarrow>
          (case h_dir h d of
             Inl e \<Rightarrow> Some ((LAUNCH_ENOENT, 0, seterr errlen (''cannot open '' @ d @ '': '' @ e)), reg, w, m)
           | Inr nms \<Rightarrow>
               map_option (\<lambda>((loaded, failed, msg, reg', w'), m'). ((int loaded, failed, msg), reg', w', m'))
                 (load_names_m os h ok d errlen nms (0, 0, [], reg, w) m)))"

text \<open>The end of \<^verbatim>\<open>launch_registry_free\<close>, after all jobs have been stopped.\<close>

fun free_jobs_m :: "'w os \<Rightarrow> hjob list \<Rightarrow> 'w \<Rightarrow> mem \<Rightarrow> ('w \<times> mem) option" where
  "free_jobs_m os [] w m = Some (w, m)"
| "free_jobs_m os (j # js) w m = Option.bind (job_free_m os j w m) (\<lambda>(w1, m1). free_jobs_m os js w1 m1)"

definition registry_free_m :: "'w os \<Rightarrow> hregistry \<Rightarrow> 'w \<Rightarrow> mem \<Rightarrow> ('w \<times> mem) option" where
  "registry_free_m os reg w m =
     Option.bind (free_jobs_m os (hr_jobs reg) w m) (\<lambda>(w1, m1).
       map_option (Pair w1) (both (free (hr_array reg)) (free (hr_addr reg)) m1))"

end
