(* ===== verification/Launch_Memory_Props.thy ===== *)
theory Launch_Memory_Props
  imports Launch_Memory
begin

text \<open>
  Who owns which block while a job file is loaded (the rules are those of theory \<open>C_Memory\<close>): every step
  leaves the blocks of the job as far as it was built, and can lose one more only when a socket finds no
  memory.
\<close>

section \<open>The blocks of a job\<close>

fun texts_blk :: "text_block list \<Rightarrow> nat multiset" where
  "texts_blk [] = {#}"
| "texts_blk (t # ts) = text_blk t + texts_blk ts"

fun socks_blk :: "hsocket list \<Rightarrow> nat multiset" where
  "socks_blk [] = {#}"
| "socks_blk (s # ss) = (text_blk (hs_name s) + text_blk (hs_path s)) + socks_blk ss"

definition job_blk :: "hjob \<Rightarrow> nat multiset" where
  "job_blk j =
     texts_blk (hj_args j) + (blk (hj_argv j) + (texts_blk (hj_vars j) + (blk (hj_env j) +
     (socks_blk (hj_sockets j) + (blk (hj_socks j) + (text_blk (hj_label j) + (text_blk (hj_plist_path j) +
     (text_blk (hj_working_dir j) + (text_blk (hj_stdin j) + (text_blk (hj_stdout j) +
     (text_blk (hj_stderr j) + blk (hj_addr j))))))))))))"

lemma texts_blk_append [simp]: "texts_blk (ts @ us) = texts_blk ts + texts_blk us"
  by (induction ts) (simp_all add: ac_simps)

lemma socks_blk_append [simp]: "socks_blk (ts @ us) = socks_blk ts + socks_blk us"
  by (induction ts) (simp_all add: ac_simps)

lemma no_text_blk [simp]: "text_blk no_text = {#}" "fst no_text = 0"
  by (simp_all add: no_text_def text_blk_def)

lemma null_text_blk: "fst t = 0 \<Longrightarrow> text_blk t = {#}"
  by (simp add: text_blk_def)

lemma frees_texts [owns]: "frees (texts_blk ts) (free_texts ts)"
  by (induction ts) (simp_all add: owns)

lemma frees_socks [owns]: "frees (socks_blk ss) (free_socks ss)"
  by (induction ss) (simp_all add: owns)

lemma frees_job [owns]: "frees (job_blk j) (job_free_blocks j)"
  unfolding job_blk_def job_free_blocks_def by (intro owns)

lemma job_free_owned:
  assumes "owned m R (job_blk j + B)"
  obtains m' where "job_free_m os j w m = Some (free_sockets os (job_sockets j) w, m')" "owned m' R B"
  using frees_frame [OF frees_job assms] by (auto simp: job_free_m_def)

lemma dup_or_null_owned:
  "dup_or_null ok s m = (t, m') \<Longrightarrow> owned m R B \<Longrightarrow> owned m' R (text_blk t + B)"
  by (auto simp: dup_or_null_def dest: dup_string_owned split: option.splits)

section \<open>Steps\<close>

text \<open>What is lost: nothing, or one block when there was no memory.\<close>

definition lost :: "int \<Rightarrow> nat multiset \<Rightarrow> bool" where
  "lost rc L \<longleftrightarrow> L = {#} \<or> rc = LAUNCH_ENOMEM \<and> size L = 1"

definition step_safe :: "nat multiset \<Rightarrow> (hjob \<Rightarrow> bool) \<Rightarrow> job_step \<Rightarrow> bool" where
  "step_safe R P x \<longleftrightarrow>
     (\<exists>rc msg j m L. x = Some ((rc, msg), j, m) \<and> owned m (R + L) (job_blk j) \<and> lost rc L \<and>
        (rc = LAUNCH_OK \<longrightarrow> P j))"

lemma step_safeI:
  "owned m R (job_blk j) \<Longrightarrow> (rc = LAUNCH_OK \<Longrightarrow> P j) \<Longrightarrow> step_safe R P (Some ((rc, msg), j, m))"
  unfolding step_safe_def lost_def by (intro exI [of _ "{#}"] exI conjI refl) auto

lemma step_safe_fail:
  "owned m R (job_blk j) \<Longrightarrow> step_safe R P (Some ((LAUNCH_ENOMEM, msg), j, m))"
  "owned m R (job_blk j) \<Longrightarrow> step_safe R P (Some ((LAUNCH_EPARSE, msg), j, m))"
  by (auto intro: step_safeI simp: launch_codes)

lemma and_then_safe:
  assumes "step_safe R P x" and "\<And>j m. owned m R (job_blk j) \<Longrightarrow> P j \<Longrightarrow> step_safe R Q (f j m)"
  shows "step_safe R Q (and_then x f)"
proof -
  obtain rc msg j m L where x: "x = Some ((rc, msg), j, m)" "owned m (R + L) (job_blk j)" "lost rc L"
      "rc = LAUNCH_OK \<Longrightarrow> P j"
    using assms(1) by (auto simp: step_safe_def)
  show ?thesis
  proof (cases "rc = LAUNCH_OK")
    case True
    then have "L = {#}" using x(3) by (auto simp: lost_def launch_codes)
    then show ?thesis using assms(2) x True by (simp add: and_then_def)
  next
    case False
    then show ?thesis using x by (auto simp: and_then_def step_safe_def)
  qed
qed

text \<open>Nothing but the field is set.\<close>

definition no_env :: "hjob \<Rightarrow> bool" where
  "no_env j \<longleftrightarrow> hj_env j = 0 \<and> hj_vars j = []"

definition no_sockets :: "hjob \<Rightarrow> bool" where
  "no_sockets j \<longleftrightarrow> hj_socks j = 0 \<and> hj_sockets j = []"

lemma no_env_upd [simp]:
  "no_env (j\<lparr>hj_args := ts\<rparr>) = no_env j" "no_env (j\<lparr>hj_argv := v\<rparr>) = no_env j"
  "no_sockets (j\<lparr>hj_args := ts\<rparr>) = no_sockets j" "no_sockets (j\<lparr>hj_argv := v\<rparr>) = no_sockets j"
  "no_sockets (j\<lparr>hj_vars := ts\<rparr>) = no_sockets j" "no_sockets (j\<lparr>hj_env := v\<rparr>) = no_sockets j"
  by (simp_all add: no_env_def no_sockets_def)

lemma argv_loop_safe:
  "owned m R (job_blk j) \<Longrightarrow> length (hj_args j) + length as < cap \<Longrightarrow> no_env j \<Longrightarrow> no_sockets j \<Longrightarrow>
   step_safe R (\<lambda>j. no_env j \<and> no_sockets j) (argv_loop_m ok errlen cap program i as j m)"
proof (induction ok errlen cap program i as j m rule: argv_loop_m.induct)
  case (2 ok errlen cap program i a as j m)
  show ?case
  proof (cases "plist_string_value (Some a) None")
    case None
    then show ?thesis using 2(3) by (simp add: step_safe_fail)
  next
    case (Some s)
    obtain t m1 where t: "dup_string ok s m = (t, m1)" by fastforce
    have o: "owned m1 R (text_blk t + job_blk j)" by (rule dup_string_owned [OF t 2(3)])
    consider "program \<and> i = 0" | "\<not> (program \<and> i = 0)" "fst t = 0" | "\<not> (program \<and> i = 0)" "fst t \<noteq> 0" by blast
    then show ?thesis
    proof cases
      case 1
      then show ?thesis using 2(1) [OF Some] 2(3-6) Some by simp
    next
      case 2
      then show ?thesis using o t Some \<open>length (hj_args j) + length (a # as) < cap\<close>
        by (auto simp: null_text_blk intro: step_safe_fail)
    next
      case 3
      have "owned m1 R (job_blk (j\<lparr>hj_args := hj_args j @ [t]\<rparr>))"
        using o by (simp add: job_blk_def ac_simps)
      then show ?thesis using 2(2) [OF Some 3(1) _ t [symmetric] 3(2)] 2(4-6) 3 Some t by auto
    qed
  qed
qed (simp add: step_safeI)

lemma job_set_argv_safe:
  assumes "owned m R (job_blk j)" "hj_argv j = 0" "hj_args j = []" "no_env j" "no_sockets j"
  shows "step_safe R (\<lambda>j. no_env j \<and> no_sockets j) (job_set_argv_m ok root errlen j m)"
proof -
  obtain v m1 where v: "malloc ok m = (v, m1)" by fastforce
  have o: "owned m1 R (blk v + job_blk j)" by (rule malloc_owned [OF v assms(1)])
  have bad: "step_safe R (\<lambda>j. no_env j \<and> no_sockets j) (Some ((LAUNCH_ENOMEM, []), j, m1))" if "v = 0"
    using o that by (simp add: step_safe_fail)
  have parse: "step_safe R (\<lambda>j. no_env j \<and> no_sockets j) (Some ((LAUNCH_EPARSE, msg), j, m))" for msg
    using assms(1) by (simp add: step_safe_fail)
  have fill: "owned m2 R (job_blk (j\<lparr>hj_argv := v, hj_args := [t]\<rparr>))" if "dup_string ok p m1 = (t, m2)" for p t m2
    using dup_string_owned [OF that o] assms(2,3) by (simp add: job_blk_def ac_simps)
  have empty: "owned m1 R (job_blk (j\<lparr>hj_argv := v, hj_args := []\<rparr>))"
    using o assms(2,3) by (simp add: job_blk_def ac_simps)
  have one: "step_safe R (\<lambda>j. no_env j \<and> no_sockets j)
      (case dup_string ok p m1 of (t, m2) \<Rightarrow> Some ((LAUNCH_OK, []), j\<lparr>hj_argv := v, hj_args := [t]\<rparr>, m2))" for p
    using fill [of p] assms(4,5)
    by (cases "dup_string ok p m1") (auto intro!: step_safeI)
  have loop: "step_safe R (\<lambda>j. no_env j \<and> no_sockets j)
      (case dup_string ok p m1 of (t, m2) \<Rightarrow>
         argv_loop_m ok errlen (length as + 2) True 0 as (j\<lparr>hj_argv := v, hj_args := [t]\<rparr>) m2)" for p as
    using fill [of p] assms(4,5)
    by (cases "dup_string ok p m1") (auto intro!: argv_loop_safe)
  have loop0: "step_safe R (\<lambda>j. no_env j \<and> no_sockets j)
      (argv_loop_m ok errlen (length as + 2) False 0 as (j\<lparr>hj_argv := v, hj_args := []\<rparr>) m1)" for as
    using empty assms(4,5) by (intro argv_loop_safe) auto
  show ?thesis
    using bad parse one loop loop0
    by (simp add: job_set_argv_m_def Let_def v split: option.split plist.split)
qed

lemma env_loop_safe:
  "owned m R (job_blk j) \<Longrightarrow> length (hj_vars j) + length items < cap \<Longrightarrow> no_sockets j \<Longrightarrow>
   step_safe R no_sockets (env_loop_m ok cap items j m)"
proof (induction ok cap items j m rule: env_loop_m.induct)
  case (2 ok cap k v items j m)
  show ?case
  proof (cases "plist_string_value (Some v) None")
    case None
    then show ?thesis using 2(1) [OF None] 2(3-5) by simp
  next
    case (Some s)
    obtain t m1 where t: "dup_string ok (k @ ''='' @ s) m = (t, m1)" by fastforce
    have o: "owned m1 R (text_blk t + job_blk j)" by (rule dup_string_owned [OF t 2(3)])
    show ?thesis
    proof (cases "fst t = 0")
      case True
      then show ?thesis using o t Some 2(4) by (auto simp: null_text_blk intro: step_safe_fail)
    next
      case False
      have "owned m1 R (job_blk (j\<lparr>hj_vars := hj_vars j @ [t]\<rparr>))"
        using o by (simp add: job_blk_def ac_simps)
      then show ?thesis using 2(2) [OF Some _ t [symmetric] False] 2(4,5) False Some t by auto
    qed
  qed
qed (simp add: step_safeI)

lemma job_set_env_safe:
  assumes "owned m R (job_blk j)" "no_env j" "no_sockets j"
  shows "step_safe R no_sockets (job_set_env_m ok root j m)"
proof -
  obtain v m1 where v: "malloc ok m = (v, m1)" by fastforce
  have o: "owned m1 R (blk v + job_blk j)" by (rule malloc_owned [OF v assms(1)])
  then have "owned m1 R (job_blk (j\<lparr>hj_env := v\<rparr>))"
    using assms(2) by (simp add: job_blk_def no_env_def ac_simps)
  then have "step_safe R no_sockets (env_loop_m ok (length items + 1) items (j\<lparr>hj_env := v\<rparr>) m1)" for items
    using assms(2,3) by (intro env_loop_safe) (simp_all add: no_env_def no_sockets_def)
  then show ?thesis
    using assms o v
    by (auto simp: job_set_env_m_def intro!: step_safe_fail step_safeI split: option.split plist.split)
qed

text \<open>Of the two copies for a socket one may have been made.\<close>

lemma sockets_loop_safe:
  "owned m R (job_blk j) \<Longrightarrow> length (hj_sockets j) + length items \<le> cap \<Longrightarrow>
   step_safe R (\<lambda>_. True) (sockets_loop_m ok errlen cap items j m)"
proof (induction ok errlen cap items j m rule: sockets_loop_m.induct)
  case (2 ok errlen cap nm entry items j m)
  have parse: "step_safe R (\<lambda>_. True) (Some ((LAUNCH_EPARSE, msg), j, m))" for msg
    using 2(2) by (rule step_safe_fail)
  show ?case
  proof (cases "plist_type (Some entry) \<noteq> PLIST_DICT \<or> plist_dict_get_string (Some entry) ''SockPathName'' None = None")
    case True
    then show ?thesis using parse by auto
  next
    case False
    then obtain p where e: "plist_type (Some entry) = PLIST_DICT"
        "plist_dict_get_string (Some entry) ''SockPathName'' None = Some p" by auto
    obtain t m1 u m2 where t: "dup_string ok nm m = (t, m1)" and u: "dup_string ok p m1 = (u, m2)" by fastforce
    have o: "owned m2 R (text_blk u + (text_blk t + job_blk j))"
      by (rule dup_string_owned [OF u dup_string_owned [OF t 2(2)]])
    show ?thesis
    proof (cases "fst t = 0 \<or> fst u = 0")
      case True
      let ?L = "text_blk u + text_blk t"
      have "lost LAUNCH_ENOMEM ?L" using True by (auto simp: lost_def text_blk_def blk_def)
      moreover have "owned m2 (R + ?L) (job_blk j)" using o by (simp add: owned_def ac_simps)
      ultimately show ?thesis
        using True e t u 2(3) by (auto simp: step_safe_def)
    next
      case False
      let ?j = "j\<lparr>hj_sockets := hj_sockets j @ [\<lparr>hs_name = t, hs_path = u, hs_fd = -1\<rparr>]\<rparr>"
      have "owned m2 R (job_blk ?j)" using o by (simp add: job_blk_def ac_simps)
      then show ?thesis using 2(1) [of p t m1 u m2] 2(3) False e t u by simp
    qed
  qed
qed (simp add: step_safeI)

lemma job_set_sockets_safe:
  assumes "owned m R (job_blk j)" "no_sockets j"
  shows "step_safe R (\<lambda>_. True) (job_set_sockets_m ok root errlen j m)"
proof -
  obtain v m1 where v: "malloc ok m = (v, m1)" by fastforce
  have o: "owned m1 R (blk v + job_blk j)" by (rule malloc_owned [OF v assms(1)])
  then have "owned m1 R (job_blk (j\<lparr>hj_socks := v\<rparr>))"
    using assms(2) by (simp add: job_blk_def no_sockets_def ac_simps)
  then have "step_safe R (\<lambda>_. True) (sockets_loop_m ok errlen (length items) items (j\<lparr>hj_socks := v\<rparr>) m1)" for items
    using assms(2) by (intro sockets_loop_safe) (simp_all add: no_sockets_def)
  then show ?thesis
    using assms o v
    by (auto simp: job_set_sockets_m_def intro!: step_safe_fail step_safeI split: option.split plist.split)
qed

end
