(* ===== verification/Launch_Memory_Safe.thy ===== *)
theory Launch_Memory_Safe
  imports Launch_Memory_Props
begin

text \<open>
  From a file to the registry and to its end: every operation of theory \<open>Launch_Memory\<close> returns, keeps the blocks
  of the registry, and loses at most one block for a file that finds no memory.
\<close>

section \<open>A job\<close>

lemma job_strings_owned:
  assumes "job_strings ok root label path (new_job a) m = (j, m')" "owned m R (blk a)"
  shows "owned m' R (job_blk j)" "hj_argv j = 0" "hj_args j = []" "no_env j" "no_sockets j"
proof -
  let ?get = "\<lambda>key. plist_dict_get_string (Some root) key None"
  obtain l m1 p m2 wd m3 i m4 out m5 err m6 where s:
    "dup_string ok label m = (l, m1)" "dup_or_null ok path m1 = (p, m2)"
    "dup_or_null ok (?get ''WorkingDirectory'') m2 = (wd, m3)" "dup_or_null ok (?get ''StandardInPath'') m3 = (i, m4)"
    "dup_or_null ok (?get ''StandardOutPath'') m4 = (out, m5)" "dup_or_null ok (?get ''StandardErrorPath'') m5 = (err, m6)"
    by (metis prod.exhaust)
  have j: "j = (new_job a)\<lparr>hj_label := l, hj_plist_path := p, hj_working_dir := wd, hj_stdin := i,
      hj_stdout := out, hj_stderr := err\<rparr>" "m' = m6"
    using assms(1) s by (simp_all add: job_strings_def Let_def)
  note o = dup_string_owned [OF s(1) assms(2)]
  note o = dup_or_null_owned [OF s(6) dup_or_null_owned [OF s(5) dup_or_null_owned [OF s(4)
    dup_or_null_owned [OF s(3) dup_or_null_owned [OF s(2) o]]]]]
  show "owned m' R (job_blk j)" using o by (simp add: j job_blk_def new_job_def ac_simps)
  show "hj_argv j = 0" "hj_args j = []" "no_env j" "no_sockets j"
    by (simp_all add: j new_job_def no_env_def no_sockets_def)
qed

text \<open>The failure of a job, freed with what it has.\<close>

definition built_safe :: "nat multiset \<Rightarrow> (int \<times> string) + hjob \<Rightarrow> mem \<Rightarrow> bool" where
  "built_safe R built m \<longleftrightarrow>
     (case built of
        Inl (rc, msg) \<Rightarrow> rc \<noteq> LAUNCH_OK \<and> (\<exists>L. lost rc L \<and> owned m (R + L) {#})
      | Inr j \<Rightarrow> owned m R (job_blk j))"

lemma built_safe_fail:
  "owned m R {#} \<Longrightarrow> built_safe R (Inl (LAUNCH_EPARSE, msg)) m"
  "owned m R {#} \<Longrightarrow> built_safe R (Inl (LAUNCH_ENOMEM, msg)) m"
  by (auto simp: built_safe_def lost_def launch_codes intro!: exI [of _ "{#}"])

lemma give_up_safe:
  assumes "owned m (R + L) (job_blk j)" "lost rc L" "rc \<noteq> LAUNCH_OK"
  shows "\<exists>w' m'. map_option (Pair (Inl (rc, msg))) (job_free_m os j w m) = Some (Inl (rc, msg), w', m') \<and>
     built_safe R (Inl (rc, msg)) m'"
proof -
  have "owned m (R + L) (job_blk j + {#})" using assms(1) by simp
  from job_free_owned [OF this, of os w] obtain m' where
    "job_free_m os j w m = Some (free_sockets os (job_sockets j) w, m')" "owned m' (R + L) {#}" .
  then show ?thesis using assms(2,3) by (auto simp: built_safe_def)
qed

lemma job_from_plist_safe:
  assumes "owned m R {#}"
  shows "\<exists>built w' m'. job_from_plist_m os d2i ok root path thr n w m = Some (built, w', m') \<and> built_safe R built m'"
proof (cases "plist_type (Some root) \<noteq> PLIST_DICT \<or> plist_dict_get_string (Some root) ''Label'' None \<in> {None, Some []}")
  case True
  then show ?thesis
    using assms built_safe_fail(1) by (auto simp: job_from_plist_m_def)
next
  case False
  then obtain label where root: "plist_type (Some root) = PLIST_DICT"
      "plist_dict_get_string (Some root) ''Label'' None = Some label" "label \<noteq> []" by auto
  obtain a m1 where a: "malloc ok m = (a, m1)" by fastforce
  have o1: "owned m1 R (blk a)" using malloc_owned [OF a assms] by simp
  show ?thesis
  proof (cases "a = 0")
    case True
    then show ?thesis
      using o1 a root built_safe_fail(2) by (auto simp: job_from_plist_m_def)
  next
    case False
    obtain j0 m2 where s: "job_strings ok root label path (new_job a) m1 = (j0, m2)" by fastforce
    define j where "j = j0\<lparr>hj_run_at_load := plist_dict_get_bool (Some root) ''RunAtLoad'' False,
      hj_keepalive := parse_keepalive (plist_dict_get (Some root) ''KeepAlive''),
      hj_throttle_ms := job_throttle d2i root thr\<rparr>"
    have j: "owned m2 R (job_blk j)" "hj_argv j = 0" "hj_args j = []" "no_env j" "no_sockets j" "hj_label j = hj_label j0"
      using job_strings_owned [OF s o1] by (simp_all add: j_def job_blk_def no_env_def no_sockets_def)
    let ?steps = "and_then (and_then (job_set_argv_m ok root n j m2) (job_set_env_m ok root)) (job_set_sockets_m ok root n)"
    have run: "job_from_plist_m os d2i ok root path thr n w m =
        (if fst (hj_label j) = 0 then map_option (Pair (Inl (LAUNCH_ENOMEM, []))) (job_free_m os j w m2)
         else (case ?steps of None \<Rightarrow> None
           | Some ((rc, msg), j', m3) \<Rightarrow>
               if rc = LAUNCH_OK then Some (Inr j', w, m3)
               else map_option (Pair (Inl (rc, msg))) (job_free_m os j' w m3)))"
      using False root a s by (simp add: job_from_plist_m_def Let_def j_def)
    have "step_safe R (\<lambda>_. True) ?steps"
    proof (rule and_then_safe)
      show "step_safe R no_sockets (and_then (job_set_argv_m ok root n j m2) (job_set_env_m ok root))"
        by (rule and_then_safe [OF job_set_argv_safe [OF j(1-5)]]) (auto intro: job_set_env_safe)
    qed (rule job_set_sockets_safe)
    then obtain rc msg j' m3 L where st: "?steps = Some ((rc, msg), j', m3)" "owned m3 (R + L) (job_blk j')" "lost rc L"
      by (auto simp: step_safe_def)
    show ?thesis
    proof (cases "fst (hj_label j) = 0")
      case True
      have "lost LAUNCH_ENOMEM {#}" "LAUNCH_ENOMEM \<noteq> LAUNCH_OK" by (simp_all add: lost_def launch_codes)
      then show ?thesis using give_up_safe [of m2 R "{#}" j LAUNCH_ENOMEM "[]" os w] j(1) True by (auto simp: run)
    next
      case False
      show ?thesis
      proof (cases "rc = LAUNCH_OK")
        case True
        then have "L = {#}" using st(3) by (auto simp: lost_def launch_codes)
        then show ?thesis using st True False by (simp add: run built_safe_def)
      next
        case nok: False
        from give_up_safe [OF st(2,3) nok, of msg os w] show ?thesis
          using st(1) nok False by (auto simp: run)
      qed
    qed
  qed
qed

section \<open>The registry\<close>

fun jobs_blk :: "hjob list \<Rightarrow> nat multiset" where
  "jobs_blk [] = {#}"
| "jobs_blk (j # js) = job_blk j + jobs_blk js"

lemma jobs_blk_append [simp]: "jobs_blk (js @ ks) = jobs_blk js + jobs_blk ks"
  by (induction js) (simp_all add: ac_simps)

definition reg_blk :: "hregistry \<Rightarrow> nat multiset" where
  "reg_blk reg = jobs_blk (hr_jobs reg) + (blk (hr_array reg) + blk (hr_addr reg))"

definition reg_ok :: "hregistry \<Rightarrow> bool" where
  "reg_ok reg \<longleftrightarrow> length (hr_jobs reg) \<le> hr_cap reg"

lemma registry_append_safe:
  assumes "owned m R (job_blk j + reg_blk reg)" "reg_ok reg"
  obtains rc reg' m' where "registry_append_m ok reg j m = Some (rc, reg', m')" "reg_ok reg'"
    "rc = LAUNCH_OK \<and> hr_jobs reg' = hr_jobs reg @ [j] \<and> owned m' R (reg_blk reg') \<or>
     rc = LAUNCH_ENOMEM \<and> reg' = reg \<and> owned m' R (job_blk j + reg_blk reg)"
proof (cases "length (hr_jobs reg) = hr_cap reg")
  case True
  have "owned m R (blk (hr_array reg) + (job_blk j + (jobs_blk (hr_jobs reg) + blk (hr_addr reg))))"
    using assms(1) by (simp add: reg_blk_def ac_simps)
  from realloc_owned [OF this, of ok] obtain q m' where q: "realloc ok (hr_array reg) m = Some (q, m')"
    "owned m' R (blk (if q = 0 then hr_array reg else q) + (job_blk j + (jobs_blk (hr_jobs reg) + blk (hr_addr reg))))" .
  show ?thesis
  proof (cases "q = 0")
    case null: True
    then show ?thesis
      using that [of LAUNCH_ENOMEM reg m'] q True assms(2) by (simp add: registry_append_m_def reg_blk_def ac_simps)
  next
    case False
    let ?cap = "if hr_cap reg \<noteq> 0 then hr_cap reg * 2 else 8"
    let ?r = "reg\<lparr>hr_array := q, hr_cap := ?cap, hr_jobs := hr_jobs reg @ [j]\<rparr>"
    have "registry_append_m ok reg j m = Some (LAUNCH_OK, ?r, m')"
      using q(1) True False by (simp add: registry_append_m_def Let_def)
    moreover have "reg_ok ?r" using True by (simp add: reg_ok_def)
    moreover have "owned m' R (reg_blk ?r)" using q(2) False by (simp add: reg_blk_def ac_simps)
    ultimately show ?thesis using that [of LAUNCH_OK ?r m'] by simp
  qed
next
  case False
  let ?r = "reg\<lparr>hr_jobs := hr_jobs reg @ [j]\<rparr>"
  have "registry_append_m ok reg j m = Some (LAUNCH_OK, ?r, m)" "reg_ok ?r"
    using False assms(2) by (simp_all add: registry_append_m_def reg_ok_def)
  moreover have "owned m R (reg_blk ?r)" using assms(1) by (simp add: reg_blk_def ac_simps)
  ultimately show ?thesis using that [of LAUNCH_OK ?r m] by simp
qed

text \<open>After a call: the code, what is lost, and the registry.\<close>

definition load_safe :: "nat multiset \<Rightarrow> hregistry \<Rightarrow> int \<Rightarrow> hregistry \<Rightarrow> mem \<Rightarrow> bool" where
  "load_safe R reg rc reg' m \<longleftrightarrow>
     reg_ok reg' \<and> (\<exists>L. lost rc L \<and> owned m (R + L) (reg_blk reg')) \<and>
     (if rc = LAUNCH_OK then \<exists>j. hr_jobs reg' = hr_jobs reg @ [j] else hr_jobs reg' = hr_jobs reg)"

lemma load_safe_fail:
  "owned m (R + L) (reg_blk reg) \<Longrightarrow> lost rc L \<Longrightarrow> rc \<noteq> LAUNCH_OK \<Longrightarrow> reg_ok reg \<Longrightarrow> load_safe R reg rc reg m"
  by (auto simp: load_safe_def)

lemma lost_nothing [simp]: "lost rc {#}"
  by (simp add: lost_def)

lemma load_plist_safe:
  assumes o: "owned m R (reg_blk reg)" and reg: "reg_ok reg"
  shows "\<exists>rc msg reg' w' m'. launch_registry_load_plist_m os h ok reg path n w m = Some ((rc, msg), reg', w', m') \<and>
     load_safe R reg rc reg' m'"
proof (cases path)
  case None
  then show ?thesis using load_safe_fail [of m R "{#}" reg LAUNCH_EINVAL] assms
    by (simp add: launch_registry_load_plist_m_def launch_codes)
next
  case (Some p)
  let ?R = "R + reg_blk reg"
  have "owned m ?R {#}" using o by (simp add: owned_none)
  then obtain res m1 where r: "plist_parse_file_m (h_strtod h) ok (h_file h) path PARSE_ERR m = Some (res, m1)"
    "case res of Inl msg \<Rightarrow> owned m1 ?R {#} | Inr v \<Rightarrow> owned m1 ?R (val_blk v)"
    by (rule parse_file_m_safe)
  show ?thesis
  proof (cases res)
    case (Inl msg)
    then show ?thesis
      using r Some load_safe_fail [of m1 R "{#}" reg LAUNCH_EPARSE] reg
      by (simp add: launch_registry_load_plist_m_def owned_none launch_codes)
  next
    case (Inr root)
    then have "owned m1 (?R + val_blk root) {#}" using r(2) by (simp add: owned_none)
    from job_from_plist_safe [OF this, of os "h_d2i h" ok "erase root" path "hr_throttle reg" PARSE_ERR w]
    obtain built w1 m2 where
      b: "job_from_plist_m os (h_d2i h) ok (erase root) path (hr_throttle reg) PARSE_ERR w m1 = Some (built, w1, m2)"
      "built_safe (?R + val_blk root) built m2" by blast
    show ?thesis
    proof (cases built)
      case (Inl e)
      obtain rc msg where e: "e = (rc, msg)" by fastforce
      then obtain L where L: "rc \<noteq> LAUNCH_OK" "lost rc L" "owned m2 (?R + val_blk root + L) {#}"
        using b(2) Inl by (auto simp: built_safe_def)
      then have "owned m2 (R + L) (val_blk root + reg_blk reg)" by (simp add: owned_def ac_simps)
      from frees_frame [OF plist_free_frees this] obtain m3 where
        "plist_free root m2 = Some m3" "owned m3 (R + L) (reg_blk reg)" .
      then show ?thesis
        using r(1) b(1) Inl \<open>res = Inr root\<close> Some e load_safe_fail [OF _ L(2,1) reg]
        by (simp add: launch_registry_load_plist_m_def)
    next
      case (Inr j)
      then have "owned m2 (R + reg_blk reg + val_blk root) (job_blk j)" using b(2) by (simp add: built_safe_def)
      then have "owned m2 R (val_blk root + (job_blk j + reg_blk reg))" by (simp add: owned_def ac_simps)
      from frees_frame [OF plist_free_frees this] obtain m3 where
        m3: "plist_free root m2 = Some m3" "owned m3 R (job_blk j + reg_blk reg)" .
      have run: "launch_registry_load_plist_m os h ok reg path n w m =
          (if has_label reg (snd (hj_label j)) then
             map_option (\<lambda>(w2, m4).
                 ((LAUNCH_EEXIST, seterr n (p @ '': label '' @ snd (hj_label j) @ '' is already loaded'')), reg, w2, m4))
               (job_free_m os j w1 m3)
           else (case registry_append_m ok reg j m3 of None \<Rightarrow> None
             | Some (rc, reg', m4) \<Rightarrow>
                 if rc = LAUNCH_OK then Some ((LAUNCH_OK, []), reg', w1, m4)
                 else map_option (\<lambda>(w2, m5). ((rc, []), reg', w2, m5)) (job_free_m os j w1 m4)))"
        using r(1) b(1) Inr \<open>res = Inr root\<close> Some m3(1) by (simp add: launch_registry_load_plist_m_def)
      show ?thesis
      proof (cases "has_label reg (snd (hj_label j))")
        case True
        from job_free_owned [OF m3(2), of os w1] obtain m4 where
          "job_free_m os j w1 m3 = Some (free_sockets os (job_sockets j) w1, m4)" "owned m4 R (reg_blk reg)" .
        then show ?thesis using True load_safe_fail [of m4 R "{#}" reg LAUNCH_EEXIST] reg
          by (simp add: run launch_codes)
      next
        case False
        from registry_append_safe [OF m3(2) reg, of ok] obtain rc reg' m4 where
          a: "registry_append_m ok reg j m3 = Some (rc, reg', m4)" "reg_ok reg'"
          "rc = LAUNCH_OK \<and> hr_jobs reg' = hr_jobs reg @ [j] \<and> owned m4 R (reg_blk reg') \<or>
           rc = LAUNCH_ENOMEM \<and> reg' = reg \<and> owned m4 R (job_blk j + reg_blk reg)" .
        from a(3) show ?thesis
        proof (elim disjE conjE)
          assume ok: "rc = LAUNCH_OK" "hr_jobs reg' = hr_jobs reg @ [j]" "owned m4 R (reg_blk reg')"
          then have "load_safe R reg LAUNCH_OK reg' m4"
            using a(2) unfolding load_safe_def by (auto intro!: exI [of _ "{#}"])
          then show ?thesis using False a(1) ok(1) by (simp add: run)
        next
          assume fail: "rc = LAUNCH_ENOMEM" "reg' = reg" "owned m4 R (job_blk j + reg_blk reg)"
          from job_free_owned [OF fail(3), of os w1] obtain m5 where
            "job_free_m os j w1 m4 = Some (free_sockets os (job_sockets j) w1, m5)" "owned m5 R (reg_blk reg)" .
          then show ?thesis using False a(1) fail(1,2) load_safe_fail [of m5 R "{#}" reg LAUNCH_ENOMEM] reg
            by (simp add: run launch_codes)
        qed
      qed
    qed
  qed
qed

section \<open>A directory, and the end\<close>

lemma load_names_safe:
  assumes "owned m R (reg_blk reg)" "reg_ok reg"
  shows "\<exists>loaded' failed' msg' reg' w' m' L.
     load_names_m os h ok dir n nms (loaded, failed, msg, reg, w) m = Some ((loaded', failed', msg', reg', w'), m') \<and>
     owned m' (R + L) (reg_blk reg') \<and> reg_ok reg' \<and> failed + size L \<le> failed'"
  using assms
proof (induction nms arbitrary: loaded failed msg reg w m R)
  case Nil
  then show ?case by (auto intro!: exI [of _ "{#}"])
next
  case (Cons nm nms)
  show ?case
  proof (cases "plist_suffix nm")
    case False
    then show ?thesis using Cons by simp
  next
    case True
    from load_plist_safe [OF Cons.prems, of os h ok "Some (snprintf_s 1024 (dir @ ''/'' @ nm))" 256 w]
    obtain rc e reg1 w1 m1 L1 where s:
      "launch_registry_load_plist_m os h ok reg (Some (snprintf_s 1024 (dir @ ''/'' @ nm))) 256 w m =
         Some ((rc, e), reg1, w1, m1)" "reg_ok reg1" "lost rc L1" "owned m1 (R + L1) (reg_blk reg1)"
      unfolding load_safe_def by blast
    have L1: "rc = LAUNCH_OK \<and> L1 = {#} \<or> rc \<noteq> LAUNCH_OK \<and> size L1 \<le> 1"
      using s(3) by (auto simp: lost_def launch_codes)
    have rest: "\<exists>loaded' failed' msg' reg' w' m' L.
        load_names_m os h ok dir n nms (l, f, e', reg1, w1) m1 = Some ((loaded', failed', msg', reg', w'), m') \<and>
        owned m' (R + L) (reg_blk reg') \<and> reg_ok reg' \<and> f + size L \<le> failed' + size L1" for l f e'
    proof -
      from Cons.IH [OF s(4,2), of l f e' w1] obtain l' f' e'' reg' w' m' L where
        "load_names_m os h ok dir n nms (l, f, e', reg1, w1) m1 = Some ((l', f', e'', reg', w'), m')"
        "owned m' (R + L1 + L) (reg_blk reg')" "reg_ok reg'" "f + size L \<le> f'" by blast
      then show ?thesis by (intro exI [of _ l'] exI [of _ f'] exI [of _ e''] exI [of _ reg'] exI [of _ w'] exI [of _ m']
            exI [of _ "L1 + L"]) (simp add: ac_simps)
    qed
    show ?thesis
    proof (cases "rc = LAUNCH_OK")
      case True
      then show ?thesis using rest [of "loaded + 1" failed msg] L1 s(1) \<open>plist_suffix nm\<close> by simp
    next
      case False
      from rest [of loaded "failed + 1" "seterr n e"] obtain l' f' e'' reg' w' m' L where
        "load_names_m os h ok dir n nms (loaded, failed + 1, seterr n e, reg1, w1) m1 =
           Some ((l', f', e'', reg', w'), m')"
        "owned m' (R + L) (reg_blk reg')" "reg_ok reg'" "failed + 1 + size L \<le> f' + size L1" by blast
      then show ?thesis using False L1 s(1) \<open>plist_suffix nm\<close>
        by (intro exI [of _ l'] exI [of _ f'] exI [of _ e''] exI [of _ reg'] exI [of _ w'] exI [of _ m']
            exI [of _ L]) simp
    qed
  qed
qed

lemma load_dir_safe:
  assumes "owned m R (reg_blk reg)" "reg_ok reg"
  shows "\<exists>loaded failed msg reg' w' m' L.
     launch_registry_load_dir_m os h ok reg dir n w m = Some ((loaded, failed, msg), reg', w', m') \<and>
     owned m' (R + L) (reg_blk reg') \<and> reg_ok reg' \<and> size L \<le> failed"
proof (cases "\<exists>d nms. dir = Some d \<and> h_dir h d = Inr nms")
  case False
  then show ?thesis using assms
    by (auto simp: launch_registry_load_dir_m_def intro!: exI [of _ "{#}"] split: option.split sum.split)
next
  case True
  then obtain d nms where d: "dir = Some d" "h_dir h d = Inr nms" by blast
  from load_names_safe [OF assms, of os h ok d n nms 0 0 "[]" w] show ?thesis
    using d by (fastforce simp: launch_registry_load_dir_m_def)
qed

lemma free_jobs_owned:
  assumes "owned m R (jobs_blk js + B)"
  obtains w' m' where "free_jobs_m os js w m = Some (w', m')" "owned m' R B"
proof -
  have "\<exists>w' m'. free_jobs_m os js w m = Some (w', m') \<and> owned m' R B"
    using assms
  proof (induction js arbitrary: w m)
    case (Cons j js)
    then have "owned m R (job_blk j + (jobs_blk js + B))" by (simp add: ac_simps)
    from job_free_owned [OF this, of os w] obtain m1 where
      "job_free_m os j w m = Some (free_sockets os (job_sockets j) w, m1)" "owned m1 R (jobs_blk js + B)" .
    then show ?case using Cons.IH by simp
  qed simp
  then show ?thesis using that by blast
qed

lemma registry_free_owned:
  assumes "owned m R (reg_blk reg)"
  obtains w' m' where "registry_free_m os reg w m = Some (w', m')" "owned m' R {#}"
proof -
  from free_jobs_owned [OF assms [unfolded reg_blk_def], of os w] obtain w1 m1 where
    j: "free_jobs_m os (hr_jobs reg) w m = Some (w1, m1)" "owned m1 R (blk (hr_array reg) + blk (hr_addr reg))" .
  have "frees (blk (hr_array reg) + blk (hr_addr reg)) (both (free (hr_array reg)) (free (hr_addr reg)))"
    by (intro owns)
  from frees_use [OF this j(2)] show ?thesis using that j(1) by (auto simp: registry_free_m_def)
qed

end
