(* ===== verification/Launch_Memory_Refine.thy ===== *)
theory Launch_Memory_Refine
  imports Launch_Memory_Safe
begin

text \<open>
  If every allocation succeeds, loading with memory does what theory \<open>Launch_Registry\<close> does.
\<close>

section \<open>With enough memory\<close>

definition job_of :: "hjob \<Rightarrow> launch_job" where
  "job_of j =
     \<lparr>j_label = snd (hj_label j), j_plist_path = text_opt (hj_plist_path j), j_argv = map snd (hj_args j),
      j_working_dir = text_opt (hj_working_dir j), j_stdin = text_opt (hj_stdin j),
      j_stdout = text_opt (hj_stdout j), j_stderr = text_opt (hj_stderr j), j_env = map snd (hj_vars j),
      j_run_at_load = hj_run_at_load j, j_keepalive = hj_keepalive j, j_throttle_ms = hj_throttle_ms j,
      j_sockets = job_sockets j, j_pid = -1, j_state = Loaded, j_last_exit = 0, j_signaled = False,
      j_start_count = 0, j_restart_at_ms = 0\<rparr>"

definition registry_of :: "hregistry \<Rightarrow> launch_registry" where
  "registry_of reg = \<lparr>jobs = map job_of (hr_jobs reg), default_throttle_ms = hr_throttle reg\<rparr>"

lemma dup_or_null_plenty: "dup_or_null plenty s m = (t, m') \<Longrightarrow> text_opt t = s"
  by (auto simp: dup_or_null_def text_opt_def dest: dup_string_plenty split: option.splits)

lemma argv_loop_plenty:
  "argv_loop_m plenty n cap program i as j m = Some ((rc, msg), j', m') \<Longrightarrow>
   \<exists>ts. j' = j\<lparr>hj_args := ts\<rparr> \<and>
     (case argv_loop program i as (map snd (hj_args j)) of
        Inl k \<Rightarrow> rc = LAUNCH_EPARSE \<and> msg = seterr n (''ProgramArguments['' @ dec_nat k @ ''] is not a string'')
      | Inr argv \<Rightarrow> rc = LAUNCH_OK \<and> map snd ts = argv)"
proof (induction plenty n cap program i as j m rule: argv_loop_m.induct)
  case (1 errlen cap program i j m)
  then show ?case by (auto intro!: exI [of _ "hj_args j"])
next
  case (2 errlen cap program i a as j m)
  show ?case
  proof (cases "plist_string_value (Some a) None")
    case None
    then show ?thesis using 2(3) by (auto intro!: exI [of _ "hj_args j"])
  next
    case (Some s)
    obtain t m1 where t: "dup_string plenty s m = (t, m1)" by fastforce
    show ?thesis
    proof (cases "program \<and> i = 0")
      case True
      then show ?thesis using 2(1) [OF Some True] 2(3) Some by simp
    next
      case False
      note d = dup_string_plenty [OF t]
      have "argv_loop_m plenty errlen cap program (i + 1) as (j\<lparr>hj_args := hj_args j @ [t]\<rparr>) m1 =
          Some ((rc, msg), j', m')" "\<not> cap \<le> length (hj_args j)"
        using 2(3) Some False t d by (auto split: if_splits)
      from 2(2) [OF Some False this(2) t [symmetric] _ this(1)] d obtain ts where
        "j' = j\<lparr>hj_args := ts\<rparr>"
        "case argv_loop program (i + 1) as (map snd (hj_args j) @ [s]) of
           Inl k \<Rightarrow> rc = LAUNCH_EPARSE \<and> msg = seterr errlen (''ProgramArguments['' @ dec_nat k @ ''] is not a string'')
         | Inr argv \<Rightarrow> rc = LAUNCH_OK \<and> map snd ts = argv" by auto
      then show ?thesis using Some False by (intro exI [of _ ts]) auto
    qed
  qed
qed

lemma job_set_argv_plenty:
  assumes "job_set_argv_m plenty root n j m = Some ((rc, msg), j', m')" "hj_args j = []"
  shows "\<exists>v ts. j' = j\<lparr>hj_argv := v, hj_args := ts\<rparr> \<and>
     (case job_set_argv root n of
        Inl e \<Rightarrow> (rc, msg) = e \<and> rc \<noteq> LAUNCH_OK
      | Inr argv \<Rightarrow> rc = LAUNCH_OK \<and> map snd ts = argv)"
proof -
  obtain v m1 where v: "malloc plenty m = (v, m1)" "v \<noteq> 0" by (metis malloc_plenty prod.exhaust)
  have same: "\<exists>v ts. j = j\<lparr>hj_argv := v, hj_args := ts\<rparr>"
    by (intro exI [of _ "hj_argv j"] exI [of _ "hj_args j"]) simp
  let ?args = "plist_dict_get (Some root) ''ProgramArguments''"
  let ?program = "plist_dict_get_string (Some root) ''Program'' None"
  show ?thesis
  proof (cases "\<exists>as. ?args = Some (PArray as)")
    case True
    then obtain as where as: "?args = Some (PArray as)" by blast
    show ?thesis
    proof (cases "as = []")
      case True
      then show ?thesis
        using assms(1) as same by (simp add: job_set_argv_m_def job_set_argv_def Let_def launch_codes)
    next
      case False
      show ?thesis
      proof (cases ?program)
        case None
        then have "argv_loop_m plenty n (length as + 2) False 0 as (j\<lparr>hj_argv := v, hj_args := []\<rparr>) m1 =
            Some ((rc, msg), j', m')"
          using assms as v False by (simp add: job_set_argv_m_def Let_def)
        from argv_loop_plenty [OF this] show ?thesis
          using as False None by (auto simp: job_set_argv_def Let_def launch_codes split: sum.splits)
      next
        case (Some p)
        obtain t m2 where t: "dup_string plenty p m1 = (t, m2)" by fastforce
        then have "argv_loop_m plenty n (length as + 2) True 0 as (j\<lparr>hj_argv := v, hj_args := [t]\<rparr>) m2 =
            Some ((rc, msg), j', m')"
          using assms as v False Some by (simp add: job_set_argv_m_def Let_def)
        from argv_loop_plenty [OF this] show ?thesis
          using as False Some dup_string_plenty [OF t]
          by (auto simp: job_set_argv_def Let_def launch_codes split: sum.splits)
      qed
    qed
  next
    case False
    then have m: "job_set_argv_m plenty root n j m =
        (case ?program of
           Some p \<Rightarrow> (case dup_string plenty p m1 of
             (t, m2) \<Rightarrow> Some ((LAUNCH_OK, []), j\<lparr>hj_argv := v, hj_args := [t]\<rparr>, m2))
         | None \<Rightarrow> Some ((LAUNCH_EPARSE, seterr n ''neither Program nor ProgramArguments is present''), j, m))"
      using v by (auto simp: job_set_argv_m_def Let_def split: option.split plist.split)
    from False have p: "job_set_argv root n =
        (case ?program of Some p \<Rightarrow> Inr [p]
         | None \<Rightarrow> Inl (LAUNCH_EPARSE, seterr n ''neither Program nor ProgramArguments is present''))"
      by (auto simp: job_set_argv_def Let_def split: option.split plist.split)
    show ?thesis
    proof (cases ?program)
      case None
      then show ?thesis using assms(1) m p same by (simp add: launch_codes)
    next
      case (Some q)
      obtain t m2 where t: "dup_string plenty q m1 = (t, m2)" by fastforce
      have e: "j' = j\<lparr>hj_argv := v, hj_args := [t]\<rparr>" "rc = LAUNCH_OK" using assms(1) m Some t by simp_all
      have r: "job_set_argv root n = Inr [q]" using p Some by simp
      show ?thesis
        unfolding e(1) by (intro exI [of _ v] exI [of _ "[t]"]) (use e(2) r dup_string_plenty [OF t] in simp)
    qed
  qed
qed

lemma env_loop_plenty:
  "env_loop_m plenty cap items j m = Some ((rc, msg), j', m') \<Longrightarrow>
   rc = LAUNCH_OK \<and> (\<exists>ts. j' = j\<lparr>hj_vars := ts\<rparr> \<and> map snd ts = map snd (hj_vars j) @ env_loop items)"
proof (induction plenty cap items j m rule: env_loop_m.induct)
  case (1 cap j m)
  then show ?case by (auto intro!: exI [of _ "hj_vars j"])
next
  case (2 cap k v items j m)
  show ?case
  proof (cases "plist_string_value (Some v) None")
    case None
    then show ?thesis using 2(1) [OF None] 2(3) by simp
  next
    case (Some s)
    obtain t m1 where t: "dup_string plenty (k @ ''='' @ s) m = (t, m1)" by fastforce
    note d = dup_string_plenty [OF t]
    have "env_loop_m plenty cap items (j\<lparr>hj_vars := hj_vars j @ [t]\<rparr>) m1 = Some ((rc, msg), j', m')"
        "\<not> cap \<le> length (hj_vars j)"
      using 2(3) Some t d by (auto split: if_splits)
    from 2(2) [OF Some this(2) t [symmetric] _ this(1)] d show ?thesis using Some by auto
  qed
qed

lemma job_set_env_plenty:
  assumes "job_set_env_m plenty root j m = Some ((rc, msg), j', m')" "hj_vars j = []"
  shows "rc = LAUNCH_OK \<and> (\<exists>v ts. j' = j\<lparr>hj_env := v, hj_vars := ts\<rparr> \<and> map snd ts = job_set_env root)"
proof (cases "\<exists>items. plist_dict_get (Some root) ''EnvironmentVariables'' = Some (PDict items)")
  case True
  then obtain items where i: "plist_dict_get (Some root) ''EnvironmentVariables'' = Some (PDict items)" by blast
  obtain v m1 where v: "malloc plenty m = (v, m1)" "v \<noteq> 0" by (metis malloc_plenty prod.exhaust)
  have "env_loop_m plenty (length items + 1) items (j\<lparr>hj_env := v\<rparr>) m1 = Some ((rc, msg), j', m')"
    using assms(1) i v by (simp add: job_set_env_m_def)
  from env_loop_plenty [OF this] show ?thesis using assms(2) i by (auto simp: job_set_env_def)
next
  case False
  have same: "\<exists>v ts. j = j\<lparr>hj_env := v, hj_vars := ts\<rparr> \<and> map snd ts = []"
    using assms(2) by (intro exI [of _ "hj_env j"] exI [of _ "[]"]) simp
  have "job_set_env_m plenty root j m = Some ((LAUNCH_OK, []), j, m)" "job_set_env root = []"
    using False by (auto simp: job_set_env_m_def job_set_env_def split: option.split plist.split)
  then show ?thesis using assms(1) same by simp
qed

lemma sockets_loop_plenty:
  "sockets_loop_m plenty n cap items j m = Some ((rc, msg), j', m') \<Longrightarrow>
   (\<exists>ss. j' = j\<lparr>hj_sockets := ss\<rparr>) \<and>
   (case sockets_loop n (job_sockets j) items of
      Inl (rc0, msg0, ss0) \<Rightarrow> rc = rc0 \<and> rc \<noteq> LAUNCH_OK \<and> msg = msg0 \<and> job_sockets j' = ss0
    | Inr ss0 \<Rightarrow> rc = LAUNCH_OK \<and> job_sockets j' = ss0)"
proof (induction plenty n cap items j m rule: sockets_loop_m.induct)
  case (1 n cap j m)
  then show ?case by (auto intro!: exI [of _ "hj_sockets j"])
next
  case (2 n cap nm entry items j m)
  show ?case
  proof (cases "plist_type (Some entry) \<noteq> PLIST_DICT \<or> plist_dict_get_string (Some entry) ''SockPathName'' None = None")
    case True
    have same: "\<exists>ss. j = j\<lparr>hj_sockets := ss\<rparr>" by (rule exI [of _ "hj_sockets j"]) simp
    show ?thesis
    proof (cases "plist_type (Some entry) = PLIST_DICT")
      case dict: True
      then show ?thesis using 2(2) True same by (simp add: launch_codes)
    next
      case False
      then show ?thesis using 2(2) same by (simp add: launch_codes)
    qed
  next
    case False
    then obtain p where e: "plist_type (Some entry) = PLIST_DICT"
        "plist_dict_get_string (Some entry) ''SockPathName'' None = Some p" by auto
    obtain t m1 u m2 where t: "dup_string plenty nm m = (t, m1)" and u: "dup_string plenty p m1 = (u, m2)" by fastforce
    note d = dup_string_plenty [OF t] dup_string_plenty [OF u]
    let ?j = "j\<lparr>hj_sockets := hj_sockets j @ [\<lparr>hs_name = t, hs_path = u, hs_fd = -1\<rparr>]\<rparr>"
    have c: "sockets_loop_m plenty n cap items ?j m2 = Some ((rc, msg), j', m')" "\<not> cap \<le> length (hj_sockets j)"
      using 2(2) e t u d by (auto split: if_splits)
    have "job_sockets ?j = job_sockets j @ [\<lparr>s_name = nm, s_path = p, s_fd = -1\<rparr>]"
      using d by (simp add: job_sockets_def)
    moreover have "\<not> plist_type (Some entry) \<noteq> PLIST_DICT" "\<not> (fst t = 0 \<or> fst u = 0)" using e d by auto
    ultimately show ?thesis
      using 2(1) [OF _ e(2) c(2) t [symmetric] u [symmetric] _ c(1)] e by auto
  qed
qed

lemma job_set_sockets_plenty:
  assumes "job_set_sockets_m plenty root n j m = Some ((rc, msg), j', m')" "hj_sockets j = []"
  shows "(\<exists>v ss. j' = j\<lparr>hj_socks := v, hj_sockets := ss\<rparr>) \<and>
     (case job_set_sockets root n of
        Inl (rc0, msg0, ss0) \<Rightarrow> rc = rc0 \<and> rc \<noteq> LAUNCH_OK \<and> msg = msg0 \<and> job_sockets j' = ss0
      | Inr ss0 \<Rightarrow> rc = LAUNCH_OK \<and> job_sockets j' = ss0)"
proof -
  have same: "\<exists>v ss. j = j\<lparr>hj_socks := v, hj_sockets := ss\<rparr>"
    by (rule exI [of _ "hj_socks j"], rule exI [of _ "hj_sockets j"]) simp
  have none: "job_sockets j = []" using assms(2) by (simp add: job_sockets_def)
  show ?thesis
  proof (cases "\<exists>items. plist_dict_get (Some root) ''Sockets'' = Some (PDict items) \<and> items \<noteq> []")
    case True
    then obtain items where i: "plist_dict_get (Some root) ''Sockets'' = Some (PDict items)" "items \<noteq> []" by blast
    obtain v m1 where v: "malloc plenty m = (v, m1)" "v \<noteq> 0" by (metis malloc_plenty prod.exhaust)
    have "sockets_loop_m plenty n (length items) items (j\<lparr>hj_socks := v\<rparr>) m1 = Some ((rc, msg), j', m')"
      using assms(1) i v by (simp add: job_set_sockets_m_def)
    from sockets_loop_plenty [OF this] show ?thesis using none i by (auto simp: job_set_sockets_def job_sockets_def)
  next
    case False
    then have "job_set_sockets_m plenty root n j m = Some ((LAUNCH_OK, []), j, m)" "job_set_sockets root n = Inr []"
      by (auto simp: job_set_sockets_m_def job_set_sockets_def split: option.split plist.split)
    then show ?thesis using assms(1) same none by simp
  qed
qed

section \<open>A job\<close>

lemma job_strings_plenty:
  assumes "job_strings plenty root label path (new_job a) m = (j, m')"
  shows "fst (hj_label j) \<noteq> 0" "job_of j = (job_of (new_job a))\<lparr>j_label := label, j_plist_path := path,
     j_working_dir := plist_dict_get_string (Some root) ''WorkingDirectory'' None,
     j_stdin := plist_dict_get_string (Some root) ''StandardInPath'' None,
     j_stdout := plist_dict_get_string (Some root) ''StandardOutPath'' None,
     j_stderr := plist_dict_get_string (Some root) ''StandardErrorPath'' None\<rparr>"
    "hj_args j = []" "hj_vars j = []" "hj_sockets j = []"
proof -
  let ?get = "\<lambda>key. plist_dict_get_string (Some root) key None"
  obtain l m1 p m2 wd m3 i m4 out m5 err m6 where s:
    "dup_string plenty label m = (l, m1)" "dup_or_null plenty path m1 = (p, m2)"
    "dup_or_null plenty (?get ''WorkingDirectory'') m2 = (wd, m3)"
    "dup_or_null plenty (?get ''StandardInPath'') m3 = (i, m4)"
    "dup_or_null plenty (?get ''StandardOutPath'') m4 = (out, m5)"
    "dup_or_null plenty (?get ''StandardErrorPath'') m5 = (err, m6)"
    by (metis prod.exhaust)
  have j: "j = (new_job a)\<lparr>hj_label := l, hj_plist_path := p, hj_working_dir := wd, hj_stdin := i,
      hj_stdout := out, hj_stderr := err\<rparr>"
    using assms(1) s by (simp add: job_strings_def Let_def)
  note d = dup_string_plenty [OF s(1)] s(2-6) [THEN dup_or_null_plenty]
  show "fst (hj_label j) \<noteq> 0" "hj_args j = []" "hj_vars j = []" "hj_sockets j = []"
    using d by (simp_all add: j new_job_def)
  show "job_of j = (job_of (new_job a))\<lparr>j_label := label, j_plist_path := path, j_working_dir := ?get ''WorkingDirectory'',
     j_stdin := ?get ''StandardInPath'', j_stdout := ?get ''StandardOutPath'', j_stderr := ?get ''StandardErrorPath''\<rparr>"
    using d by (simp add: j job_of_def new_job_def job_sockets_def)
qed

lemma job_steps_plenty:
  assumes "and_then (and_then (job_set_argv_m plenty root n j m) (job_set_env_m plenty root))
       (job_set_sockets_m plenty root n) = Some ((rc, msg), j', m')"
    and "hj_args j = []" "hj_vars j = []" "hj_sockets j = []"
  shows "case job_set_argv root n of
       Inl e \<Rightarrow> (rc, msg) = e \<and> rc \<noteq> LAUNCH_OK \<and> job_sockets j' = []
     | Inr argv \<Rightarrow>
         (case job_set_sockets root n of
            Inl (rc0, msg0, ss) \<Rightarrow> rc = rc0 \<and> rc \<noteq> LAUNCH_OK \<and> msg = msg0 \<and> job_sockets j' = ss
          | Inr ss \<Rightarrow> rc = LAUNCH_OK \<and>
              job_of j' = (job_of j)\<lparr>j_argv := argv, j_env := job_set_env root, j_sockets := ss\<rparr>)"
proof -
  obtain rc1 msg1 j1 m1 where a: "job_set_argv_m plenty root n j m = Some ((rc1, msg1), j1, m1)"
    using assms(1) by (auto simp: and_then_def split: option.splits)
  from job_set_argv_plenty [OF a assms(2)] obtain v ts where j1: "j1 = j\<lparr>hj_argv := v, hj_args := ts\<rparr>"
    and s1: "case job_set_argv root n of Inl e \<Rightarrow> (rc1, msg1) = e \<and> rc1 \<noteq> LAUNCH_OK
      | Inr argv \<Rightarrow> rc1 = LAUNCH_OK \<and> map snd ts = argv" by blast
  show ?thesis
  proof (cases "job_set_argv root n")
    case (Inl e)
    then have rc1: "rc1 \<noteq> LAUNCH_OK" "e = (rc1, msg1)" using s1 by auto
    then have "rc = rc1" "msg = msg1" "j' = j1" using assms(1) a by (simp_all add: and_then_def)
    then show ?thesis using Inl rc1 j1 assms(4) by (simp add: job_sockets_def)
  next
    case (Inr argv)
    then have ok1: "rc1 = LAUNCH_OK" "map snd ts = argv" using s1 by simp_all
    obtain rc2 msg2 j2 m2 where e: "job_set_env_m plenty root j1 m1 = Some ((rc2, msg2), j2, m2)"
      using assms(1) a ok1 by (auto simp: and_then_def split: option.splits)
    have "hj_vars j1 = []" using j1 assms(3) by simp
    from job_set_env_plenty [OF e this] obtain u us where ok2: "rc2 = LAUNCH_OK"
      and j2: "j2 = j1\<lparr>hj_env := u, hj_vars := us\<rparr>" "map snd us = job_set_env root" by blast
    have k: "job_set_sockets_m plenty root n j2 m2 = Some ((rc, msg), j', m')"
      using assms(1) a ok1 e ok2 by (simp add: and_then_def)
    have "hj_sockets j2 = []" using j1 j2 assms(4) by simp
    from job_set_sockets_plenty [OF k this] obtain x xs where j': "j' = j2\<lparr>hj_socks := x, hj_sockets := xs\<rparr>"
      and s3: "case job_set_sockets root n of
        Inl (rc0, msg0, ss0) \<Rightarrow> rc = rc0 \<and> rc \<noteq> LAUNCH_OK \<and> msg = msg0 \<and> job_sockets j' = ss0
      | Inr ss0 \<Rightarrow> rc = LAUNCH_OK \<and> job_sockets j' = ss0" by blast
    have "job_of j' = (job_of j)\<lparr>j_argv := argv, j_env := job_set_env root, j_sockets := job_sockets j'\<rparr>"
      using ok1(2) j2(2) by (simp add: j' j2(1) j1 job_of_def)
    then show ?thesis using Inr s3 by (simp split: sum.splits prod.splits)
  qed
qed

lemma job_from_plist_plenty:
  assumes "job_from_plist_m os d2i plenty root path thr n w m = Some (built, w', m')"
  shows "job_from_plist os d2i root path thr n w = (map_sum (\<lambda>e. e) job_of built, w')"
proof -
  let ?label = "plist_dict_get_string (Some root) ''Label'' None"
  show ?thesis
  proof (cases "plist_type (Some root) \<noteq> PLIST_DICT \<or> ?label = None \<or> ?label = Some []")
    case True
    then show ?thesis using assms
      by (cases "plist_type (Some root) = PLIST_DICT"; cases ?label)
        (auto simp: job_from_plist_m_def job_from_plist_def job_build_def Let_def)
  next
    case False
    then obtain label where l: "plist_type (Some root) = PLIST_DICT" "?label = Some label" "label \<noteq> []" by auto
    obtain a m1 where a: "malloc plenty m = (a, m1)" "a \<noteq> 0" by (metis malloc_plenty prod.exhaust)
    obtain j0 m2 where j0: "job_strings plenty root label path (new_job a) m1 = (j0, m2)" by fastforce
    note s = job_strings_plenty [OF j0]
    let ?j = "j0\<lparr>hj_run_at_load := plist_dict_get_bool (Some root) ''RunAtLoad'' False,
        hj_keepalive := parse_keepalive (plist_dict_get (Some root) ''KeepAlive''),
        hj_throttle_ms := job_throttle d2i root thr\<rparr>"
    let ?steps = "and_then (and_then (job_set_argv_m plenty root n ?j m2) (job_set_env_m plenty root))
        (job_set_sockets_m plenty root n)"
    have run: "job_from_plist_m os d2i plenty root path thr n w m =
        (case ?steps of None \<Rightarrow> None
         | Some ((rc, msg), j', m3) \<Rightarrow>
             if rc = LAUNCH_OK then Some (Inr j', w, m3)
             else map_option (Pair (Inl (rc, msg))) (job_free_m os j' w m3))"
      using l a j0 s(1) by (simp add: job_from_plist_m_def Let_def)
    then obtain rc msg j' m3 where st: "?steps = Some ((rc, msg), j', m3)"
      using assms by (auto split: option.splits)
    have "hj_args ?j = []" "hj_vars ?j = []" "hj_sockets ?j = []" using s(3-5) by simp_all
    note t = job_steps_plenty [OF st this]
    have built: "if rc = LAUNCH_OK then built = Inr j' \<and> w' = w
        else built = Inl (rc, msg) \<and> w' = free_sockets os (job_sockets j') w"
      using assms run st by (auto simp: job_free_m_def split: if_splits)
    have j: "job_of ?j = (job_of j0)\<lparr>j_run_at_load := plist_dict_get_bool (Some root) ''RunAtLoad'' False,
        j_keepalive := parse_keepalive (plist_dict_get (Some root) ''KeepAlive''),
        j_throttle_ms := job_throttle d2i root thr\<rparr>"
      by (simp add: job_of_def job_sockets_def)
    show ?thesis
    proof (cases "job_set_argv root n")
      case (Inl e)
      then show ?thesis using t built l
        by (cases e) (simp add: job_from_plist_def job_build_def Let_def)
    next
      case (Inr argv)
      show ?thesis
      proof (cases "job_set_sockets root n")
        case (Inl e)
        then show ?thesis using t built l Inr
          by (cases e) (simp add: job_from_plist_def job_build_def Let_def)
      next
        case sock: (Inr ss)
        then have rc: "rc = LAUNCH_OK"
          and j': "job_of j' = (job_of ?j)\<lparr>j_argv := argv, j_env := job_set_env root, j_sockets := ss\<rparr>"
          using t Inr by simp_all
        have none: "job_of (new_job a) =
            \<lparr>j_label = [], j_plist_path = None, j_argv = [], j_working_dir = None, j_stdin = None,
             j_stdout = None, j_stderr = None, j_env = [], j_run_at_load = False, j_keepalive = Never,
             j_throttle_ms = 0, j_sockets = [], j_pid = -1, j_state = Loaded, j_last_exit = 0,
             j_signaled = False, j_start_count = 0, j_restart_at_ms = 0\<rparr>"
          by (simp add: job_of_def new_job_def text_opt_def no_text_def job_sockets_def)
        from rc show ?thesis using built l Inr sock
          by (simp add: job_from_plist_def job_build_def Let_def j' [unfolded j s(2) none])
      qed
    qed
  qed
qed

section \<open>A registry\<close>

lemma has_label_find: "has_label reg l \<longleftrightarrow> launch_registry_find (registry_of reg) (Some l) \<noteq> None"
proof -
  have "list_ex (\<lambda>j. snd (hj_label j) = l) js \<longleftrightarrow> find_index (map job_of js) l i \<noteq> None" for js i
    by (induction js arbitrary: i) (simp_all add: job_of_def)
  then show ?thesis by (simp add: has_label_def launch_registry_find_def registry_of_def)
qed

lemma registry_append_plenty:
  "registry_append_m plenty reg j m = Some (rc, reg', m') \<Longrightarrow>
   rc = LAUNCH_OK \<and> registry_of reg' = registry_append (job_of j) (registry_of reg)"
  by (auto simp: registry_append_m_def Let_def registry_of_def registry_append_def dest: realloc_plenty
      split: if_splits option.splits prod.splits)

end
