(* ===== verification/Launch_Props.thy ===== *)
theory Launch_Props
  imports Launch_Registry
begin

text \<open>
  Lemmas on the supervisor: the well-formedness of jobs and registries and that every operation
  keeps it, what a tick does to one job, and that the polling loops return.
\<close>

section \<open>Well-formed jobs\<close>

text \<open>Documented behaviour of \<^verbatim>\<open>fork\<close>: the parent gets a positive pid.\<close>

definition fork_ok :: "'w os \<Rightarrow> bool" where
  "fork_ok os = (\<forall>w p w'. os_fork os w = (Inr p, w') \<longrightarrow> 0 < p)"

lemma fork_okD: "os_fork os w = (Inr p, w') \<Longrightarrow> fork_ok os \<Longrightarrow> 0 < p"
  by (auto simp: fork_ok_def)

text \<open>A job has a pid exactly while it is running.\<close>

definition job_ok :: "launch_job \<Rightarrow> bool" where
  "job_ok j =
     (j_label j \<noteq> [] \<and> j_argv j \<noteq> [] \<and> 0 \<le> sint (j_throttle_ms j) \<and>
      (if j_state j = Running then 0 < j_pid j else j_pid j = -1))"

lemma argv_loop_nonempty:
  "argv_loop b i as argv = Inr argv' \<Longrightarrow> argv \<noteq> [] \<or> (as \<noteq> [] \<and> \<not> (b \<and> i = 0)) \<Longrightarrow> argv' \<noteq> []"
  by (induction b i as argv rule: argv_loop.induct) (auto split: option.splits if_splits)

lemma job_set_argv_nonempty: "job_set_argv root n = Inr argv \<Longrightarrow> argv \<noteq> []"
proof -
  assume a: "job_set_argv root n = Inr argv"
  consider as where "plist_dict_get (Some root) ''ProgramArguments'' = Some (PArray as)"
    | "\<forall>as. plist_dict_get (Some root) ''ProgramArguments'' \<noteq> Some (PArray as)" by blast
  then show ?thesis
  proof cases
    case 1
    then show ?thesis
      using a argv_loop_nonempty
      by (auto simp: job_set_argv_def Let_def split: if_splits sum.splits option.splits)
  next
    case 2
    then show ?thesis
      using a by (auto simp: job_set_argv_def Let_def split: option.splits plist.splits)
  qed
qed

lemma job_throttle_nonneg: "0 \<le> sint (job_throttle d2i root dflt)"
  by (simp add: job_throttle_def Let_def)

lemma job_build_ok: "job_build d2i root path dflt n = Inr j \<Longrightarrow> job_ok j \<and> j_state j = Loaded"
  by (auto simp: job_build_def Let_def job_ok_def job_throttle_nonneg job_set_argv_nonempty
      split: if_splits option.splits sum.splits)

lemma job_from_plist_ok:
  "job_from_plist os d2i root path dflt n w = (Inr j, w') \<Longrightarrow> job_ok j \<and> j_state j = Loaded"
  by (auto simp: job_from_plist_def job_build_ok split: sum.splits prod.splits)

lemma sockets_loop_error: "sockets_loop n ss items = Inl (rc, msg, ss') \<Longrightarrow> rc \<noteq> LAUNCH_OK"
  by (induction n ss items arbitrary: rc msg ss' rule: sockets_loop.induct)
    (auto simp: launch_codes split: if_splits option.splits sum.splits)

lemma job_set_argv_error: "job_set_argv root n = Inl (rc, msg) \<Longrightarrow> rc \<noteq> LAUNCH_OK"
  by (auto simp: job_set_argv_def Let_def launch_codes
      split: option.splits plist.splits if_splits sum.splits)

lemma job_from_plist_error:
  "job_from_plist os d2i root path dflt n w = (Inl (rc, msg), w') \<Longrightarrow> rc \<noteq> LAUNCH_OK"
  by (auto simp: job_from_plist_def job_build_def job_set_sockets_def Let_def launch_codes
      dest: sockets_loop_error job_set_argv_error [unfolded launch_codes]
      split: if_splits option.splits sum.splits plist.splits)

lemma start_result:
  assumes "launch_job_start os j n w = ((rc, msg), j', w')"
  shows "j_label j' = j_label j \<and> j_argv j' = j_argv j \<and> j_throttle_ms j' = j_throttle_ms j \<and>
         j_keepalive j' = j_keepalive j \<and> j_last_exit j' = j_last_exit j \<and>
         j_signaled j' = j_signaled j \<and>
         (rc = LAUNCH_OK \<and> j_state j' = Running \<and> j_start_count j' = j_start_count j + 1 \<and>
            j_state j \<noteq> Running \<and> (\<exists>p w1. os_fork os w1 = (Inr p, w') \<and> j_pid j' = int p) \<or>
          rc \<noteq> LAUNCH_OK \<and> j_start_count j' = j_start_count j \<and> j_pid j' = j_pid j \<and>
            (j_state j' = Failed \<and> j_state j \<noteq> Running \<or> j_state j' = j_state j))"
proof (cases "j_state j = Running \<or> j_argv j = []")
  case True
  then show ?thesis using assms by (auto simp: launch_job_start_def launch_codes split: if_splits)
next
  case False
  obtain rc1 msg1 ss w1 where s: "sockets_create os (j_sockets j) n w = ((rc1, msg1), ss, w1)"
    by (metis prod.exhaust)
  show ?thesis
  proof (cases "rc1 = LAUNCH_OK")
    case True
    obtain f w2 where f: "os_fork os w1 = (f, w2)" by fastforce
    show ?thesis
      using assms False s True f
      by (cases f) (auto simp: launch_job_start_def launch_codes)
  next
    case False
    then show ?thesis
      using assms s \<open>\<not> (j_state j = Running \<or> j_argv j = [])\<close> by (auto simp: launch_job_start_def)
  qed
qed

lemma start_ok:
  "fork_ok os \<Longrightarrow> job_ok j \<Longrightarrow> launch_job_start os j n w = (r, j', w') \<Longrightarrow>
   job_ok j' \<and> j_label j' = j_label j"
  using start_result [of os j n w "fst r" "snd r" j' w']
  by (auto simp: job_ok_def split: if_splits dest: fork_okD)

section \<open>Stopping\<close>

text \<open>The loop changes only what it records of the exit.\<close>

definition same_but_exit :: "launch_job \<Rightarrow> launch_job \<Rightarrow> bool" where
  "same_but_exit j j' = (j' = j\<lparr>j_signaled := j_signaled j', j_last_exit := j_last_exit j'\<rparr>)"

lemma same_but_exit_record [simp]: "same_but_exit j (record_exit st j)" "same_but_exit j j"
  "same_but_exit j (j\<lparr>j_signaled := b, j_last_exit := e\<rparr>)"
  by (auto simp: same_but_exit_def record_exit_def split: exit_status.splits)

lemma stop_loop_same: "stop_loop os j deadline w = Some r \<Longrightarrow> same_but_exit j (fst r)"
proof (induction rule: stop_loop.raw_induct [rotated, consumes 1, case_names step])
  case (step loop os j deadline w r)
  show ?case
    using step(2) step(1) by (auto split: prod.splits wait_result.splits if_splits simp: Let_def)
qed

text \<open>A stop, when it returns, leaves the job stopped, without a pid or a pending restart.\<close>

lemma stop_result:
  assumes "launch_job_stop os j t w = Some (rc, j', w')"
  shows "rc = LAUNCH_OK \<and> j_state j' = Stopped \<and> j_restart_at_ms j' = 0 \<and>
         j_label j' = j_label j \<and> j_argv j' = j_argv j \<and> j_throttle_ms j' = j_throttle_ms j \<and>
         j_sockets j' = j_sockets j \<and> j_start_count j' = j_start_count j \<and>
         (job_ok j \<longrightarrow> job_ok j')"
proof (cases "j_state j \<noteq> Running \<or> j_pid j \<le> 0")
  case True
  then show ?thesis using assms by (auto simp: launch_job_stop_def job_ok_def)
next
  case False
  then obtain d w1 j1 w2 where l: "stop_loop os j d w1 = Some (j1, w2)"
    "rc = LAUNCH_OK" "j' = j1\<lparr>j_pid := -1, j_state := Stopped, j_restart_at_ms := 0\<rparr>"
    using assms by (auto simp: launch_job_stop_def split: prod.splits)
  have "same_but_exit j j1" using stop_loop_same [OF l(1)] by simp
  then obtain s e where "j1 = j\<lparr>j_signaled := s, j_last_exit := e\<rparr>"
    unfolding same_but_exit_def by blast
  then show ?thesis using l(2,3) by (simp add: job_ok_def)
qed

lemma stop_shape:
  assumes "job_ok j" "launch_job_stop os j t w = Some (rc, j', w')"
  shows "j' = j\<lparr>j_pid := -1, j_state := Stopped, j_restart_at_ms := 0, j_last_exit := j_last_exit j',
            j_signaled := j_signaled j'\<rparr>"
proof (cases "j_state j = Running")
  case False
  then show ?thesis using assms by (auto simp: launch_job_stop_def job_ok_def)
next
  case True
  then have "0 < j_pid j" using assms(1) by (simp add: job_ok_def)
  then obtain d w1 j1 w2 where l: "stop_loop os j d w1 = Some (j1, w2)"
    "j' = j1\<lparr>j_pid := -1, j_state := Stopped, j_restart_at_ms := 0\<rparr>"
    using assms(2) True by (auto simp: launch_job_stop_def split: prod.splits)
  obtain s e where "j1 = j\<lparr>j_signaled := s, j_last_exit := e\<rparr>"
    using stop_loop_same [OF l(1)] unfolding same_but_exit_def by auto
  then show ?thesis using l(2) by simp
qed

text \<open>The clock that the polling loops rely on: readings follow one time (and stick at the largest
  \<^verbatim>\<open>int64_t\<close>), no call turns it back, and a sleep takes at least a millisecond.\<close>

definition reading :: "int \<Rightarrow> int" where
  "reading t = min t (2 ^ 63 - 1)"

lemma reading_id: "t < 2 ^ 63 \<Longrightarrow> reading t = t"
  by (simp add: reading_def)

lemma reading_le: "reading t \<le> t"
  by (simp add: reading_def)

lemma reading_mono: "s \<le> t \<Longrightarrow> reading s \<le> reading t"
  by (simp add: reading_def)

lemma below_deadline: "\<not> sint (d :: i64) \<le> reading t \<Longrightarrow> t < sint d"
  using sint_range_size [of d] by (auto simp: reading_def word_size)

definition clock_ok :: "'w os \<Rightarrow> ('w \<Rightarrow> int) \<Rightarrow> bool" where
  "clock_ok os time =
     ((\<forall>w. sint (fst (os_mono_ms os w)) = reading (time w) \<and> time w \<le> time (snd (os_mono_ms os w))) \<and>
      (\<forall>w n. time w + 1 \<le> time (os_usleep os n w)) \<and>
      (\<forall>w p s. time w \<le> time (os_kill os p s w)) \<and>
      (\<forall>w p. time w \<le> time (snd (os_waitpid os p w))) \<and>
      (\<forall>w p. time w \<le> time (os_waitpid_block os p w)) \<and>
      (\<forall>w. time w \<le> time (snd (os_fork os w))) \<and>
      (\<forall>w. time w \<le> time (snd (os_socket os w))) \<and>
      (\<forall>w p. time w \<le> time (os_unlink os p w)) \<and>
      (\<forall>w f p. time w \<le> time (snd (os_bind_listen os f p w))) \<and>
      (\<forall>w f. time w \<le> time (os_close os f w)))"

lemma clock_okD:
  assumes "clock_ok os time"
  shows "os_mono_ms os w = (now, w') \<Longrightarrow> sint now = reading (time w) \<and> time w \<le> time w'"
    and "time w + 1 \<le> time (os_usleep os n w)"
    and "time w \<le> time (os_kill os p s w)"
    and "os_waitpid os p w = (r, w') \<Longrightarrow> time w \<le> time w'"
    and "time w \<le> time (os_waitpid_block os p w)"
    and "os_fork os w = (f, w') \<Longrightarrow> time w \<le> time w'"
    and "os_socket os w = (k, w') \<Longrightarrow> time w \<le> time w'"
    and "time w \<le> time (os_unlink os u w)"
    and "os_bind_listen os b u w = (e, w') \<Longrightarrow> time w \<le> time w'"
    and "time w \<le> time (os_close os c w)"
  using assms unfolding clock_ok_def by (metis fst_conv snd_conv)+

lemma stop_loop_returns:
  "clock_ok os time \<Longrightarrow> \<exists>r. stop_loop os j deadline w = Some r"
proof (induction "nat (sint deadline - time w)" arbitrary: w rule: less_induct)
  case less
  obtain r w1 where r: "os_waitpid os (j_pid j) w = (r, w1)" by fastforce
  obtain now w2 where m: "os_mono_ms os w1 = (now, w2)" by fastforce
  have t: "time w \<le> time w1" "sint now = reading (time w1)" "time w1 \<le> time w2"
    "time w2 + 1 \<le> time (os_usleep os 5000 w2)"
    using clock_okD [OF less.prems] r m by blast+
  show ?case
  proof (cases "sint deadline \<le> sint now")
    case True
    then show ?thesis
      by (subst stop_loop.simps) (auto simp: r m Let_def split: wait_result.splits)
  next
    case False
    then have "time w1 < sint deadline" using t(2) below_deadline by simp
    then have "nat (sint deadline - time (os_usleep os 5000 w2)) < nat (sint deadline - time w)"
      using t by linarith
    from less.hyps [OF this less.prems] show ?thesis
      by (subst stop_loop.simps) (auto simp: r m Let_def split: wait_result.splits)
  qed
qed

lemma stop_returns: "clock_ok os time \<Longrightarrow> \<exists>j' w'. launch_job_stop os j t w = Some (LAUNCH_OK, j', w')"
proof -
  assume c: "clock_ok os time"
  obtain now w1 where m: "os_mono_ms os (os_kill os (j_pid j) SIGTERM w) = (now, w1)" by fastforce
  obtain r where "stop_loop os j (now + word_of_int (max 0 t)) w1 = Some r"
    using stop_loop_returns [OF c] by blast
  then show ?thesis by (cases r) (auto simp: launch_job_stop_def m)
qed

lemma unload_returns:
  assumes "clock_ok os time"
  shows "\<exists>rc reg' w'. launch_registry_unload os reg (Some l) w = Some (rc, reg', w')"
proof (cases "find_index (jobs reg) l 0")
  case (Some i)
  obtain j' w' where "launch_job_stop os (jobs reg ! i) 2000 w = Some (LAUNCH_OK, j', w')"
    using stop_returns [OF assms] by blast
  then show ?thesis using Some by (auto simp: launch_registry_unload_def Let_def)
qed (simp add: launch_registry_unload_def)

section \<open>The tick, one job at a time\<close>

lemma after_exit_cases:
  "after_exit os j w = (j', w') \<Longrightarrow>
   j_label j' = j_label j \<and> j_argv j' = j_argv j \<and> j_throttle_ms j' = j_throttle_ms j \<and>
   j_pid j' = j_pid j \<and> j_start_count j' = j_start_count j \<and> j_keepalive j' = j_keepalive j \<and>
   j_last_exit j' = j_last_exit j \<and> j_signaled j' = j_signaled j \<and>
   (if should_restart (j_keepalive j) (\<not> j_signaled j \<and> j_last_exit j = 0)
    then j_state j' = Waiting \<and>
      (\<exists>now. os_mono_ms os w = (now, w') \<and> j_restart_at_ms j' = now + j_throttle_ms j)
    else j_state j' = Exited \<and> j_restart_at_ms j' = 0)"
  by (auto simp: after_exit_def split: if_splits prod.splits)

lemma record_exit_simps [simp]:
  "j_label (record_exit st j) = j_label j" "j_argv (record_exit st j) = j_argv j"
  "j_throttle_ms (record_exit st j) = j_throttle_ms j" "j_pid (record_exit st j) = j_pid j"
  "j_keepalive (record_exit st j) = j_keepalive j" "j_state (record_exit st j) = j_state j"
  "j_start_count (record_exit st j) = j_start_count j"
  by (cases st; simp add: record_exit_def)+

lemma reap_job_ok:
  "job_ok j \<Longrightarrow> reap_job os j w = (j', n, w') \<Longrightarrow>
   job_ok j' \<and> j_label j' = j_label j \<and> j_start_count j' = j_start_count j"
  by (auto simp: reap_job_def job_ok_def split: prod.splits wait_result.splits if_splits
      dest!: after_exit_cases)

lemma restart_job_ok:
  assumes "fork_ok os" "job_ok j" "restart_job os now j w = (j', n, w')"
  shows "job_ok j' \<and> j_label j' = j_label j"
proof (cases "j_state j = Waiting \<and> sint (j_restart_at_ms j) \<le> sint now")
  case True
  obtain rc msg j1 w1 where s: "launch_job_start os j 0 w = ((rc, msg), j1, w1)" by (metis prod.exhaust)
  have "job_ok j1 \<and> j_label j1 = j_label j" by (rule start_ok [OF assms(1,2) s])
  then show ?thesis
    using assms True s start_result [OF s]
    by (auto simp: restart_job_def job_ok_def launch_codes split: if_splits)
qed (use assms in \<open>auto simp: restart_job_def\<close>)

lemma pass_all:
  assumes "\<And>j w j' n w'. P j \<Longrightarrow> f j w = (j', n, w') \<Longrightarrow> P j' \<and> j_label j' = j_label j"
  shows "pass f js w = (js', n, w') \<Longrightarrow> \<forall>j \<in> set js. P j \<Longrightarrow>
     (\<forall>j \<in> set js'. P j) \<and> map j_label js' = map j_label js"
proof (induction js arbitrary: w js' n w')
  case (Cons j js)
  obtain j1 n1 w1 where 1: "f j w = (j1, n1, w1)" by (metis prod.exhaust)
  obtain js2 n2 w2 where 2: "pass f js w1 = (js2, n2, w2)" by (metis prod.exhaust)
  then show ?case using Cons 1 assms [of j w j1 n1 w1] by auto
qed simp

section \<open>Well-formed registries\<close>

definition jobs_ok :: "launch_registry \<Rightarrow> bool" where
  "jobs_ok reg =
     (distinct (map j_label (jobs reg)) \<and> (\<forall>j \<in> set (jobs reg). job_ok j) \<and>
      0 \<le> sint (default_throttle_ms reg))"

lemma jobs_ok_labels:
  "jobs_ok reg \<Longrightarrow> map j_label js = map j_label (jobs reg) \<Longrightarrow> \<forall>j \<in> set js. job_ok j \<Longrightarrow>
   jobs_ok (reg\<lparr>jobs := js\<rparr>)"
  by (simp add: jobs_ok_def)

lemma find_index_None: "find_index js l i = None \<longleftrightarrow> l \<notin> j_label ` set js"
  by (induction js arbitrary: i) auto

lemma find_index_Some:
  "find_index js l i = Some k \<Longrightarrow> \<exists>d. k = i + d \<and> d < length js \<and> j_label (js ! d) = l"
proof (induction js arbitrary: i)
  case (Cons j js)
  show ?case
  proof (cases "j_label j = l")
    case False
    with Cons obtain d where "k = i + 1 + d" "d < length js" "j_label (js ! d) = l" by fastforce
    then show ?thesis by (intro exI [of _ "Suc d"]) simp
  qed (use Cons.prems in auto)
qed simp

lemma find_index_append:
  "find_index js l i = None \<Longrightarrow> j_label j = l \<Longrightarrow> find_index (js @ [j]) l i = Some (i + length js)"
  by (induction js arbitrary: i) (auto split: if_splits)

lemma registry_find_Some:
  "launch_registry_find reg (Some l) = Some i \<Longrightarrow> i < length (jobs reg) \<and> j_label (jobs reg ! i) = l"
  using find_index_Some [of "jobs reg" l 0 i] by (auto simp: launch_registry_find_def)

lemma load_plist_result:
  "launch_registry_load_plist os h reg p n w = ((rc, msg), reg', w') \<Longrightarrow>
   (rc = LAUNCH_OK \<and> (\<exists>j. reg' = registry_append j reg \<and> job_ok j \<and> j_state j = Loaded \<and>
      j_label j \<notin> j_label ` set (jobs reg) \<and> p \<noteq> None)) \<or>
   (rc \<noteq> LAUNCH_OK \<and> reg' = reg)"
  by (auto simp: launch_registry_load_plist_def launch_registry_find_def find_index_None
      job_set_argv_def launch_codes job_from_plist_ok
      split: option.splits sum.splits prod.splits if_splits
      dest!: job_from_plist_error)

text \<open>What loading does to the system: the files of sockets are removed, and nothing else.\<close>

definition only_unlinks :: "'w os \<Rightarrow> 'w \<Rightarrow> 'w \<Rightarrow> bool" where
  "only_unlinks os w w' \<longleftrightarrow> (\<exists>paths. w' = fold (os_unlink os) paths w)"

lemma only_unlinks_refl [simp]: "only_unlinks os w w"
  unfolding only_unlinks_def by (rule exI [of _ "[]"]) simp

lemma only_unlinks_trans:
  "only_unlinks os w w1 \<Longrightarrow> only_unlinks os w1 w2 \<Longrightarrow> only_unlinks os w w2"
  unfolding only_unlinks_def by (metis fold_append comp_apply)

lemma free_sockets_unlinks:
  "\<forall>s \<in> set ss. s_fd s < 0 \<Longrightarrow> free_sockets os ss w = fold (os_unlink os) (map s_path ss) w"
  by (induction ss arbitrary: w) auto

lemma sockets_loop_closed:
  "\<forall>s \<in> set ss. s_fd s < 0 \<Longrightarrow>
   (case sockets_loop n ss items of Inl e \<Rightarrow> \<forall>s \<in> set (snd (snd e)). s_fd s < 0 | Inr ss' \<Rightarrow> \<forall>s \<in> set ss'. s_fd s < 0)"
  by (induction n ss items rule: sockets_loop.induct) (auto split: option.splits)

lemma job_set_sockets_closed:
  "job_set_sockets root n = Inl (rc, msg, ss) \<Longrightarrow> \<forall>s \<in> set ss. s_fd s < 0"
  "job_set_sockets root n = Inr ss \<Longrightarrow> \<forall>s \<in> set ss. s_fd s < 0"
  using sockets_loop_closed [of "[]" n]
  by (fastforce simp: job_set_sockets_def split: option.splits plist.splits sum.splits)+

lemma job_build_closed:
  "job_build d2i root path dflt n = Inl (rc, msg, ss) \<Longrightarrow> \<forall>s \<in> set ss. s_fd s < 0"
  "job_build d2i root path dflt n = Inr j \<Longrightarrow> \<forall>s \<in> set (j_sockets j). s_fd s < 0"
  using job_set_sockets_closed
  by (fastforce simp: job_build_def Let_def split: if_splits option.splits sum.splits prod.splits)+

lemma load_plist_world:
  assumes "launch_registry_load_plist os h reg p n w = (res, reg', w')"
  shows "only_unlinks os w w'"
proof -
  have "only_unlinks os w (free_sockets os ss w)" if "\<forall>s \<in> set ss. s_fd s < 0" for ss
    unfolding only_unlinks_def by (rule exI, rule free_sockets_unlinks [OF that])
  then show ?thesis
    using assms job_build_closed
    by (fastforce simp: launch_registry_load_plist_def job_from_plist_def job_free_def
        split: option.splits sum.splits prod.splits if_splits)
qed

lemma load_names_world:
  "load_names os h dir n nms (l, f, m, reg, w) = (l', f', m', reg', w') \<Longrightarrow> only_unlinks os w w'"
proof (induction nms arbitrary: l f m reg w)
  case (Cons nm nms)
  obtain rc e reg1 w1 where 1: "launch_registry_load_plist os h reg (Some (snprintf_s 1024 (dir @ ''/'' @ nm))) 256 w =
      ((rc, e), reg1, w1)" by (metis prod.exhaust)
  show ?case
    using Cons.IH [of _ _ _ reg1 w1] Cons.IH [of l f m reg w] Cons.prems 1 load_plist_world [OF 1]
    by (auto split: if_splits intro: only_unlinks_trans)
qed simp

lemma load_dir_world: "only_unlinks os w (snd (snd (launch_registry_load_dir os h reg d n w)))"
  using load_names_world
  by (fastforce simp: launch_registry_load_dir_def split: option.splits sum.splits prod.splits)

text \<open>The job that a file defines, and what a whole directory does.\<close>

definition job_file :: "host \<Rightarrow> i64 \<Rightarrow> string \<Rightarrow> launch_job option" where
  "job_file h throttle p =
     (case plist_parse_file (h_strtod h) (h_file h) (Some p) PARSE_ERR of
        Some (Inr root) \<Rightarrow>
          (case job_build (h_d2i h) root (Some p) throttle PARSE_ERR of Inl e \<Rightarrow> None | Inr j \<Rightarrow> Some j)
      | _ \<Rightarrow> None)"

definition name_path :: "string \<Rightarrow> string \<Rightarrow> string" where
  "name_path dir nm = snprintf_s 1024 (dir @ ''/'' @ nm)"

lemma load_plist_taken:
  assumes "job_file h (default_throttle_ms reg) p = Some j" "j_label j \<in> j_label ` set (jobs reg)"
  shows "snd (launch_registry_load_plist os h reg (Some p) n w) =
    (reg, fold (os_unlink os) (map s_path (j_sockets j)) w)"
proof -
  have "launch_registry_find reg (Some (j_label j)) \<noteq> None"
    using assms(2) by (auto simp: launch_registry_find_def find_index_None)
  moreover have "\<forall>s \<in> set (j_sockets j). s_fd s < 0"
    using assms(1) job_build_closed(2) by (fastforce simp: job_file_def split: option.splits sum.splits)
  note free_sockets_unlinks [OF this, of os w]
  ultimately show ?thesis
    using assms(1) by (auto simp: job_file_def launch_registry_load_plist_def job_from_plist_def job_free_def
        split: option.splits sum.splits)
qed

lemma load_plist_adds:
  assumes "launch_registry_load_plist os h reg p n w = (res, reg', w')"
  shows "\<exists>new. reg' = reg\<lparr>jobs := jobs reg @ new\<rparr> \<and>
    (\<forall>j \<in> set new. j_state j = Loaded \<and> j_label j \<notin> j_label ` set (jobs reg))"
proof -
  obtain rc msg where "res = (rc, msg)" by fastforce
  from load_plist_result [OF assms [unfolded this]] show ?thesis
  proof (elim disjE conjE exE)
    fix j
    assume "reg' = registry_append j reg" "j_state j = Loaded" "j_label j \<notin> j_label ` set (jobs reg)"
    then show ?thesis by (intro exI [of _ "[j]"]) (simp add: registry_append_def)
  qed (intro exI [of _ "[]"], simp)
qed

lemma load_names_adds:
  "load_names os h dir n nms (l, f, m, reg, w) = (l', f', m', reg', w') \<Longrightarrow>
   \<exists>new paths. reg' = reg\<lparr>jobs := jobs reg @ new\<rparr> \<and> w' = fold (os_unlink os) paths w \<and>
     (\<forall>j \<in> set new. j_state j = Loaded \<and> j_label j \<notin> j_label ` set (jobs reg)) \<and>
     (\<forall>nm \<in> set nms. \<forall>j. plist_suffix nm \<and> job_file h (default_throttle_ms reg) (name_path dir nm) = Some j \<and>
        j_label j \<in> j_label ` set (jobs reg) \<longrightarrow> s_path ` set (j_sockets j) \<subseteq> set paths)"
proof (induction nms arbitrary: l f m reg w)
  case Nil
  then show ?case by (intro exI [of _ "[]"]) simp
next
  case (Cons nm nms)
  show ?case
  proof (cases "plist_suffix nm")
    case False
    then have "load_names os h dir n nms (l, f, m, reg, w) = (l', f', m', reg', w')" using Cons.prems by simp
    from Cons.IH [OF this] False show ?thesis by auto
  next
    case True
    obtain rc e reg1 w1 where 1: "launch_registry_load_plist os h reg (Some (name_path dir nm)) 256 w =
        ((rc, e), reg1, w1)" by (metis prod.exhaust)
    obtain new1 where new1: "reg1 = reg\<lparr>jobs := jobs reg @ new1\<rparr>"
      "\<forall>j \<in> set new1. j_state j = Loaded \<and> j_label j \<notin> j_label ` set (jobs reg)"
      using load_plist_adds [OF 1] by blast
    obtain paths1 where paths1: "w1 = fold (os_unlink os) paths1 w"
      "\<And>j. job_file h (default_throttle_ms reg) (name_path dir nm) = Some j \<Longrightarrow>
         j_label j \<in> j_label ` set (jobs reg) \<Longrightarrow> s_path ` set (j_sockets j) \<subseteq> set paths1"
      using load_plist_world [OF 1] load_plist_taken [of h reg "name_path dir nm" _ os 256 w] 1
      by (cases "\<exists>j. job_file h (default_throttle_ms reg) (name_path dir nm) = Some j \<and>
          j_label j \<in> j_label ` set (jobs reg)") (auto simp: only_unlinks_def)
    have "\<exists>l1 f1 m1. load_names os h dir n nms (l1, f1, m1, reg1, w1) = (l', f', m', reg', w')"
      using Cons.prems True 1 by (auto simp: name_path_def split: if_splits)
    then obtain new2 paths2 where 2: "reg' = reg1\<lparr>jobs := jobs reg1 @ new2\<rparr>" "w' = fold (os_unlink os) paths2 w1"
      "\<forall>j \<in> set new2. j_state j = Loaded \<and> j_label j \<notin> j_label ` set (jobs reg1)"
      "\<forall>nm \<in> set nms. \<forall>j. plist_suffix nm \<and> job_file h (default_throttle_ms reg1) (name_path dir nm) = Some j \<and>
        j_label j \<in> j_label ` set (jobs reg1) \<longrightarrow> s_path ` set (j_sockets j) \<subseteq> set paths2"
      using Cons.IH by blast
    have "reg' = reg\<lparr>jobs := jobs reg @ (new1 @ new2)\<rparr>" "w' = fold (os_unlink os) (paths1 @ paths2) w"
      using 2(1,2) new1(1) paths1(1) by simp_all
    moreover have "\<forall>j \<in> set (new1 @ new2). j_state j = Loaded \<and> j_label j \<notin> j_label ` set (jobs reg)"
      using new1 2(3) by auto
    moreover have "s_path ` set (j_sockets j) \<subseteq> set (paths1 @ paths2)"
      if "nm' \<in> set (nm # nms)" "plist_suffix nm'" "j_label j \<in> j_label ` set (jobs reg)"
        "job_file h (default_throttle_ms reg) (name_path dir nm') = Some j" for nm' j
      using that 2(4) new1(1) paths1(2) [of j] by fastforce
    ultimately show ?thesis by blast
  qed
qed

lemma jobs_ok_append:
  "jobs_ok reg \<Longrightarrow> job_ok j \<Longrightarrow> j_label j \<notin> j_label ` set (jobs reg) \<Longrightarrow>
   jobs_ok (registry_append j reg)"
  by (simp add: jobs_ok_def registry_append_def)

lemma load_plist_ok: "jobs_ok reg \<Longrightarrow> jobs_ok (fst (snd (launch_registry_load_plist os h reg p n w)))"
  by (cases "launch_registry_load_plist os h reg p n w")
    (auto dest!: load_plist_result intro: jobs_ok_append)

lemma load_names_ok:
  "load_names os h dir n nms (l, f, m, reg, w) = (l', f', m', reg', w') \<Longrightarrow> jobs_ok reg \<Longrightarrow> jobs_ok reg'"
proof (induction nms arbitrary: l f m reg w)
  case (Cons nm nms)
  let ?p = "Some (snprintf_s 1024 (dir @ ''/'' @ nm))"
  obtain rc e reg1 w1 where 1: "launch_registry_load_plist os h reg ?p 256 w = ((rc, e), reg1, w1)"
    by (metis prod.exhaust)
  have "jobs_ok reg1" using load_plist_ok [OF Cons.prems(2), of os h ?p 256 w] 1 by simp
  then show ?case
    using Cons.IH Cons.prems 1 by (auto split: if_splits)
qed simp

lemma load_dir_ok: "jobs_ok reg \<Longrightarrow> jobs_ok (fst (snd (launch_registry_load_dir os h reg d n w)))"
  using load_names_ok
  by (auto simp: launch_registry_load_dir_def split: option.splits sum.splits prod.splits)

lemma pass_jobs_ok:
  assumes "jobs_ok reg" "pass f (jobs reg) w = (js, n, w')"
    and "\<And>j w j' n w'. job_ok j \<Longrightarrow> f j w = (j', n, w') \<Longrightarrow> job_ok j' \<and> j_label j' = j_label j"
  shows "jobs_ok (reg\<lparr>jobs := js\<rparr>)"
  using pass_all [of job_ok f "jobs reg" w js n w', OF assms(3) assms(2)] assms(1)
  by (intro jobs_ok_labels) (auto simp: jobs_ok_def)

lemma tick_labels:
  assumes "fork_ok os" "\<forall>j \<in> set (jobs reg). job_ok j" "launch_registry_tick os reg w = (c, reg', w')"
  shows "(\<forall>j \<in> set (jobs reg'). job_ok j) \<and> map j_label (jobs reg') = map j_label (jobs reg) \<and>
         default_throttle_ms reg' = default_throttle_ms reg"
proof -
  obtain js1 c1 w1 where 1: "pass (reap_job os) (jobs reg) w = (js1, c1, w1)" by (metis prod.exhaust)
  obtain now w2 where 2: "os_mono_ms os w1 = (now, w2)" by fastforce
  obtain js2 c2 w3 where 3: "pass (restart_job os now) js1 w2 = (js2, c2, w3)" by (metis prod.exhaust)
  have a: "(\<forall>j \<in> set js1. job_ok j) \<and> map j_label js1 = map j_label (jobs reg)"
    by (rule pass_all [OF _ 1 assms(2)]) (fastforce dest: reap_job_ok)
  then have "\<forall>j \<in> set js1. job_ok j" by simp
  then have "(\<forall>j \<in> set js2. job_ok j) \<and> map j_label js2 = map j_label js1"
    by (rule pass_all [OF _ 3, rotated]) (rule restart_job_ok [OF assms(1)])
  then show ?thesis using a assms(3) by (auto simp: launch_registry_tick_def 1 2 3)
qed

lemma tick_ok:
  "fork_ok os \<Longrightarrow> jobs_ok reg \<Longrightarrow> launch_registry_tick os reg w = (c, reg', w') \<Longrightarrow> jobs_ok reg'"
  using tick_labels [of os reg w c reg' w'] by (simp add: jobs_ok_def)

lemma start_all_ok:
  assumes "fork_ok os" "jobs_ok reg" "launch_registry_start_all os reg w = (n, reg', w')"
  shows "jobs_ok reg'"
proof -
  obtain js m w1 where 1: "pass (start_if_due os) (jobs reg) w = (js, m, w1)" by (metis prod.exhaust)
  have "jobs_ok (reg\<lparr>jobs := js\<rparr>)"
  proof (rule pass_jobs_ok [OF assms(2) 1])
    fix j w j' n w'
    assume j: "job_ok j" "start_if_due os j w = (j', n, w')"
    show "job_ok j' \<and> j_label j' = j_label j"
    proof (cases "j_run_at_load j \<and> j_state j = Loaded")
      case True
      obtain rc msg j1 w1 where s: "launch_job_start os j 0 w = ((rc, msg), j1, w1)"
        by (metis prod.exhaust)
      then show ?thesis using start_ok [OF assms(1) j(1) s] j True by (auto simp: start_if_due_def)
    qed (use j in \<open>auto simp: start_if_due_def\<close>)
  qed
  then show ?thesis using assms(3) by (simp add: launch_registry_start_all_def 1)
qed

lemma stop_jobs_ok:
  "stop_jobs os js t w = Some (js', n, w') \<Longrightarrow> \<forall>j \<in> set js. job_ok j \<Longrightarrow>
   (\<forall>j \<in> set js'. job_ok j \<and> j_state j \<noteq> Running) \<and> map j_label js' = map j_label js"
proof (induction js arbitrary: w js' n w')
  case (Cons j js)
  show ?case
  proof (cases "j_state j = Running")
    case True
    then obtain rc j1 w1 where s: "launch_job_stop os j t w = Some (rc, j1, w1)"
      using Cons.prems(1) by (auto split: option.splits)
    obtain js2 m w2 where 2: "stop_jobs os js t w1 = Some (js2, m, w2)" "js' = j1 # js2"
      using Cons.prems(1) True s by auto
    show ?thesis using Cons.IH [OF 2(1)] Cons.prems(2) stop_result [OF s] 2(2) by auto
  next
    case False
    then obtain js2 m w2 where 2: "stop_jobs os js t w = Some (js2, m, w2)" "js' = j # js2"
      using Cons.prems(1) by auto
    show ?thesis using Cons.IH [OF 2(1)] Cons.prems(2) False 2(2) by auto
  qed
qed simp

lemma stop_all_ok:
  "jobs_ok reg \<Longrightarrow> launch_registry_stop_all os reg t w = Some (n, reg', w') \<Longrightarrow>
   jobs_ok reg' \<and> (\<forall>j \<in> set (jobs reg'). j_state j \<noteq> Running)"
  using stop_jobs_ok [of os "jobs reg" t w] jobs_ok_labels
  by (fastforce simp: launch_registry_stop_all_def jobs_ok_def)

lemma remove_at_map: "map f (remove_at i xs) = remove_at i (map f xs)"
  by (simp add: remove_at_def take_map drop_map)

lemma remove_at_distinct:
  assumes "distinct xs" "i < length xs"
  shows "distinct (remove_at i xs) \<and> set (remove_at i xs) = set xs - {xs ! i}"
proof -
  have "xs = take i xs @ xs ! i # drop (Suc i) xs" using assms(2) by (simp add: id_take_nth_drop)
  then have "distinct (take i xs @ xs ! i # drop (Suc i) xs)" using assms(1) by simp
  moreover have "set xs = insert (xs ! i) (set (take i xs) \<union> set (drop (Suc i) xs))"
    by (subst \<open>xs = _\<close>) auto
  ultimately show ?thesis by (auto simp: remove_at_def)
qed

lemma remove_at_filter:
  assumes "distinct (map f xs)" "i < length xs"
  shows "remove_at i xs = filter (\<lambda>x. f x \<noteq> f (xs ! i)) xs"
proof -
  let ?P = "\<lambda>x. f x \<noteq> f (xs ! i)"
  have s: "xs = take i xs @ xs ! i # drop (Suc i) xs" using assms(2) by (simp add: id_take_nth_drop)
  then have "distinct (map f (take i xs @ xs ! i # drop (Suc i) xs))" using assms(1) by simp
  then have "\<forall>x \<in> set (take i xs). ?P x" "\<forall>x \<in> set (drop (Suc i) xs). ?P x"
    by (metis (no_types, lifting) disjoint_iff distinct_append image_eqI list.set_intros(1) list.set_map
        list.simps(9) map_append,
        metis (no_types, lifting) distinct.simps(2) distinct_append image_eqI list.set_map list.simps(9)
        map_append)
  then have "filter ?P (take i xs @ xs ! i # drop (Suc i) xs) = take i xs @ drop (Suc i) xs" by simp
  then show ?thesis using s by (simp add: remove_at_def)
qed

lemma remove_at_subset: "set (remove_at i xs) \<subseteq> set xs"
  by (auto simp: remove_at_def dest: in_set_takeD in_set_dropD)

lemma unload_result:
  assumes "launch_registry_unload os reg (Some l) w = Some (rc, reg', w')"
  shows "(rc = LAUNCH_ENOENT \<and> reg' = reg \<and> l \<notin> j_label ` set (jobs reg)) \<or>
         (rc = LAUNCH_OK \<and> (\<exists>i < length (jobs reg). j_label (jobs reg ! i) = l \<and>
            reg' = reg\<lparr>jobs := remove_at i (jobs reg)\<rparr>))"
  using assms find_index_None [of "jobs reg" l 0] find_index_Some [of "jobs reg" l 0]
  by (auto simp: launch_registry_unload_def Let_def split: option.splits)

lemma unload_ok:
  "jobs_ok reg \<Longrightarrow> launch_registry_unload os reg l w = Some (rc, reg', w') \<Longrightarrow> jobs_ok reg'"
proof (cases l)
  case (Some lab)
  assume ok: "jobs_ok reg" and u: "launch_registry_unload os reg l w = Some (rc, reg', w')"
  show ?thesis
  proof (cases "reg' = reg")
    case False
    then obtain i where i: "i < length (jobs reg)" "reg' = reg\<lparr>jobs := remove_at i (jobs reg)\<rparr>"
      using unload_result [OF u [unfolded Some]] by auto
    have "distinct (map j_label (remove_at i (jobs reg)))"
      using remove_at_distinct [of "map j_label (jobs reg)" i] ok i(1)
      by (simp add: remove_at_map jobs_ok_def)
    then show ?thesis
      using ok i(2) remove_at_subset [of i "jobs reg"] by (auto simp: jobs_ok_def)
  qed (use ok in simp)
qed (auto simp: launch_registry_unload_def)

lemma update_job_ok:
  "jobs_ok reg \<Longrightarrow> i < length (jobs reg) \<Longrightarrow> job_ok j \<Longrightarrow> j_label j = j_label (jobs reg ! i) \<Longrightarrow>
   jobs_ok (reg\<lparr>jobs := (jobs reg)[i := j]\<rparr>)"
proof (rule jobs_ok_labels)
  assume a: "jobs_ok reg" "i < length (jobs reg)" "job_ok j" "j_label j = j_label (jobs reg ! i)"
  show "jobs_ok reg" by (rule a)
  show "map j_label ((jobs reg)[i := j]) = map j_label (jobs reg)"
    using a(2,4) by (metis list_update_id map_update nth_map)
  show "\<forall>k \<in> set ((jobs reg)[i := j]). job_ok k"
    using a(1,3) set_update_subset_insert [of "jobs reg" i j] by (auto simp: jobs_ok_def)
qed

lemma set_throttle_ok: "jobs_ok reg \<Longrightarrow> jobs_ok (launch_registry_set_default_throttle reg ms)"
  by (simp add: jobs_ok_def launch_registry_set_default_throttle_def)

section \<open>Time in a tick\<close>

lemma socket_create_time:
  "clock_ok os time \<Longrightarrow> socket_create os s n w = (r, s', w') \<Longrightarrow> time w \<le> time w'"
proof -
  assume c: "clock_ok os time" and s: "socket_create os s n w = (r, s', w')"
  obtain k w1 where 1: "os_socket os w = (k, w1)" by fastforce
  obtain e w3 where 3: "os_bind_listen os (projr k) (s_path s) (os_unlink os (s_path s) w1) = (e, w3)"
    by fastforce
  have t: "time w \<le> time w1" "time w1 \<le> time w3" "time w3 \<le> time (os_close os (int (projr k)) w3)"
    by (rule clock_okD(7) [OF c 1], rule order_trans [OF clock_okD(8) [OF c] clock_okD(9) [OF c 3]],
        rule clock_okD(10) [OF c])
  show ?thesis
    using s t 1 3 by (auto simp: socket_create_def Let_def split: if_splits sum.splits option.splits)
qed

lemma sockets_create_time:
  "clock_ok os time \<Longrightarrow> sockets_create os ss n w = (r, ss', w') \<Longrightarrow> time w \<le> time w'"
proof (induction ss arbitrary: w r ss' w')
  case (Cons s ss)
  obtain rc msg s1 w1 where 1: "socket_create os s n w = ((rc, msg), s1, w1)" by (metis prod.exhaust)
  obtain r2 ss2 w2 where 2: "sockets_create os ss n w1 = (r2, ss2, w2)" by (metis prod.exhaust)
  show ?case
    using socket_create_time [OF Cons.prems(1) 1] Cons.IH [OF Cons.prems(1) 2] Cons.prems(2) 1 2
    by (auto split: if_splits)
qed simp

lemma start_time:
  "clock_ok os time \<Longrightarrow> launch_job_start os j n w = (r, j', w') \<Longrightarrow> time w \<le> time w'"
proof -
  assume c: "clock_ok os time" and s: "launch_job_start os j n w = (r, j', w')"
  obtain rc msg ss w1 where 1: "sockets_create os (j_sockets j) n w = ((rc, msg), ss, w1)"
    by (metis prod.exhaust)
  obtain f w2 where 2: "os_fork os w1 = (f, w2)" by fastforce
  have "time w \<le> time w1" "time w1 \<le> time w2"
    using sockets_create_time [OF c 1] clock_okD(6) [OF c 2] by auto
  then show ?thesis
    using s 1 2 by (cases f) (auto simp: launch_job_start_def Let_def split: if_splits)
qed

lemma after_exit_time:
  "clock_ok os time \<Longrightarrow> after_exit os j w = (j', w') \<Longrightarrow>
   time w \<le> time w' \<and>
   (j_state j' = Waiting \<longrightarrow>
     (\<exists>t0. sint t0 = reading (time w) \<and> j_restart_at_ms j' = t0 + j_throttle_ms j))"
  by (auto simp: after_exit_def split: if_splits prod.splits dest!: clock_okD(1))

lemma reap_time:
  assumes "clock_ok os time" "reap_job os j w = (j', n, w')"
  shows "time w \<le> time w' \<and>
    (j' = j \<or> j_state j = Running \<and> (j_state j' = Waiting \<or> j_state j' = Exited) \<and>
       j_throttle_ms j' = j_throttle_ms j \<and>
       (j_state j' = Waiting \<longrightarrow>
          (\<exists>t0. reading (time w) \<le> sint t0 \<and> sint t0 \<le> time w' \<and>
             j_restart_at_ms j' = t0 + j_throttle_ms j)))"
proof -
  obtain r w1 where 1: "os_waitpid os (j_pid j) w = (r, w1)" by fastforce
  have t1: "time w \<le> time w1" using clock_okD(4) [OF assms(1) 1] .
  have step: "time w \<le> time w' \<and> j_state j = Running \<and> (j_state j' = Waiting \<or> j_state j' = Exited) \<and>
       j_throttle_ms j' = j_throttle_ms j \<and>
       (j_state j' = Waiting \<longrightarrow>
          (\<exists>t0. reading (time w) \<le> sint t0 \<and> sint t0 \<le> time w' \<and>
             j_restart_at_ms j' = t0 + j_throttle_ms j))"
    if "after_exit os k w1 = (j', w')" "j_throttle_ms k = j_throttle_ms j" "j_state j = Running" for k
  proof -
    have a: "time w1 \<le> time w'" "j_throttle_ms j' = j_throttle_ms j" "j_state j' = Waiting \<or> j_state j' = Exited"
      using after_exit_time [OF assms(1) that(1)] after_exit_cases [OF that(1)] that(2)
      by (auto split: if_splits)
    have "reading (time w) \<le> reading (time w1)" "reading (time w1) \<le> time w'"
      using reading_mono [OF t1] order_trans [OF reading_le a(1)] by auto
    then have "\<exists>t0. reading (time w) \<le> sint t0 \<and> sint t0 \<le> time w' \<and>
        j_restart_at_ms j' = t0 + j_throttle_ms j" if "j_state j' = Waiting"
      using after_exit_time [OF assms(1) \<open>after_exit os k w1 = (j', w')\<close>] that
        \<open>j_throttle_ms k = j_throttle_ms j\<close> by auto
    then show ?thesis using a t1 that(3) by simp
  qed
  show ?thesis
  proof (cases "j_state j \<noteq> Running \<or> j_pid j \<le> 0")
    case False
    show ?thesis
    proof (cases r)
      case NoChild
      then obtain w2 where "after_exit os (j\<lparr>j_pid := -1\<rparr>) w1 = (j', w2)" "w' = w2"
        using assms(2) False 1 by (auto simp: reap_job_def split: prod.splits)
      then show ?thesis using step [of "j\<lparr>j_pid := -1\<rparr>"] False by auto
    next
      case (Reaped st)
      then obtain w2 where "after_exit os ((record_exit st j)\<lparr>j_pid := -1\<rparr>) w1 = (j', w2)" "w' = w2"
        using assms(2) False 1 by (auto simp: reap_job_def split: prod.splits)
      then show ?thesis using step [of "(record_exit st j)\<lparr>j_pid := -1\<rparr>"] False by auto
    qed (use assms(2) False 1 t1 in \<open>auto simp: reap_job_def\<close>)
  qed (use assms in \<open>auto simp: reap_job_def\<close>)
qed

section \<open>The tick, seen from one index\<close>

lemma pass_nth:
  "pass f js w = (js', n, w') \<Longrightarrow> i < length js \<Longrightarrow>
   length js' = length js \<and> (\<exists>w1 m w2. f (js ! i) w1 = (js' ! i, m, w2))"
proof (induction js arbitrary: i w js' n w')
  case (Cons j js)
  obtain j1 n1 w1 where 1: "f j w = (j1, n1, w1)" by (metis prod.exhaust)
  obtain js2 n2 w2 where 2: "pass f js w1 = (js2, n2, w2)" by (metis prod.exhaust)
  show ?case
  proof (cases i)
    case 0
    have "length js2 = length js" using Cons.IH [OF 2] 2 by (cases js) auto
    moreover have "js' = j1 # js2" using Cons.prems 1 2 by simp
    ultimately show ?thesis using 1 0 by simp blast
  next
    case (Suc k)
    then have "k < length js" using Cons.prems(2) by simp
    from Cons.IH [OF 2 this] have "length js2 = length js" "\<exists>w1 m w2. f (js ! k) w1 = (js2 ! k, m, w2)"
      by simp_all
    moreover have "js' = j1 # js2" using Cons.prems 1 2 by simp
    ultimately show ?thesis using Suc by simp
  qed
qed simp

lemma pass_length: "pass f js w = (js', n, w') \<Longrightarrow> length js' = length js"
  using pass_nth [of f js w js' n w' 0] by (cases js) auto

text \<open>The same with times.\<close>

lemma pass_nth_time:
  assumes "\<And>j w j' n w'. f j w = (j', n, w') \<Longrightarrow> time w \<le> (time w' :: int)"
  shows "pass f js w = (js', n, w') \<Longrightarrow>
   time w \<le> time w' \<and>
   (\<forall>i < length js. \<exists>w1 m w2. f (js ! i) w1 = (js' ! i, m, w2) \<and> time w \<le> time w1 \<and> time w2 \<le> time w')"
proof (induction js arbitrary: w js' n w')
  case (Cons j js)
  obtain j1 n1 w1 where 1: "f j w = (j1, n1, w1)" by (metis prod.exhaust)
  obtain js2 n2 w2 where 2: "pass f js w1 = (js2, n2, w2)" by (metis prod.exhaust)
  have eq: "js' = j1 # js2" "w' = w2" using Cons.prems 1 2 by auto
  have t: "time w \<le> time w1" using assms [OF 1] .
  from Cons.IH [OF 2] have r: "time w1 \<le> time w2"
    "\<And>i. i < length js \<Longrightarrow>
      \<exists>wa m wb. f (js ! i) wa = (js2 ! i, m, wb) \<and> time w1 \<le> time wa \<and> time wb \<le> time w2" by auto
  have "\<exists>wa m wb. f ((j # js) ! i) wa = (js' ! i, m, wb) \<and> time w \<le> time wa \<and> time wb \<le> time w'"
    if "i < length (j # js)" for i
  proof (cases i)
    case 0
    then show ?thesis using 1 eq r(1) by (intro exI [of _ w] exI [of _ n1] exI [of _ w1]) simp
  next
    case (Suc k)
    then have "k < length js" using that by simp
    from r(2) [OF this] obtain wa m wb where
      "f (js ! k) wa = (js2 ! k, m, wb)" "time w1 \<le> time wa" "time wb \<le> time w2" by blast
    then show ?thesis using Suc eq t by (intro exI [of _ wa] exI [of _ m] exI [of _ wb]) auto
  qed
  then show ?case using t r(1) eq by auto
qed simp

lemma restart_time:
  "clock_ok os time \<Longrightarrow> restart_job os now j w = (j', n, w') \<Longrightarrow> time w \<le> time w'"
proof -
  assume c: "clock_ok os time" and r: "restart_job os now j w = (j', n, w')"
  obtain rc msg j1 w1 where 1: "launch_job_start os j 0 w = ((rc, msg), j1, w1)" by (metis prod.exhaust)
  show ?thesis using start_time [OF c 1] r 1 by (auto simp: restart_job_def split: if_splits)
qed

lemma tick_nth:
  assumes "launch_registry_tick os reg w = (c, reg', w')" "i < length (jobs reg)"
  shows "length (jobs reg') = length (jobs reg) \<and>
         (\<exists>w1 n w2 j1 now w3 m w4. reap_job os (jobs reg ! i) w1 = (j1, n, w2) \<and>
            restart_job os now j1 w3 = (jobs reg' ! i, m, w4))"
proof -
  obtain js1 c1 v1 where 1: "pass (reap_job os) (jobs reg) w = (js1, c1, v1)" by (metis prod.exhaust)
  obtain now v2 where 2: "os_mono_ms os v1 = (now, v2)" by fastforce
  obtain js2 c2 v3 where 3: "pass (restart_job os now) js1 v2 = (js2, c2, v3)" by (metis prod.exhaust)
  have eq: "reg' = reg\<lparr>jobs := js2\<rparr>" using assms(1) by (simp add: launch_registry_tick_def 1 2 3)
  from pass_nth [OF 1 assms(2)] obtain w1 n w2 where
    a: "length js1 = length (jobs reg)" "reap_job os (jobs reg ! i) w1 = (js1 ! i, n, w2)" by blast
  have "i < length js1" using a(1) assms(2) by simp
  from pass_nth [OF 3 this] obtain w3 m w4 where
    b: "length js2 = length js1" "restart_job os now (js1 ! i) w3 = (js2 ! i, m, w4)" by blast
  have "length (jobs reg') = length (jobs reg)" "jobs reg' ! i = js2 ! i" using a b eq by simp_all
  then show ?thesis using a(2) b(2) by metis
qed

lemma tick_nth_time:
  assumes "clock_ok os time" "launch_registry_tick os reg w = (c, reg', w')" "i < length (jobs reg)"
  shows "time w \<le> time w' \<and>
         (\<exists>w1 n w2 j1 now w3 m w4. reap_job os (jobs reg ! i) w1 = (j1, n, w2) \<and>
            restart_job os now j1 w3 = (jobs reg' ! i, m, w4) \<and>
            time w \<le> time w1 \<and> reading (time w2) \<le> sint now \<and> sint now \<le> time w')"
proof -
  obtain js1 c1 v1 where 1: "pass (reap_job os) (jobs reg) w = (js1, c1, v1)" by (metis prod.exhaust)
  obtain now v2 where 2: "os_mono_ms os v1 = (now, v2)" by fastforce
  obtain js2 c2 v3 where 3: "pass (restart_job os now) js1 v2 = (js2, c2, v3)" by (metis prod.exhaust)
  have eq: "reg' = reg\<lparr>jobs := js2\<rparr>" "w' = v3"
    using assms(2) by (simp_all add: launch_registry_tick_def 1 2 3)
  have t1: "time w \<le> time v1" "\<exists>w1 m w2. reap_job os (jobs reg ! i) w1 = (js1 ! i, m, w2) \<and>
      time w \<le> time w1 \<and> time w2 \<le> time v1"
    using pass_nth_time [of "reap_job os" time, OF _ 1] reap_time [OF assms(1)] assms(3) by blast+
  have t2: "sint now = reading (time v1)" "time v1 \<le> time v2" using clock_okD(1) [OF assms(1) 2] by auto
  have "i < length js1" using pass_length [OF 1] assms(3) by simp
  then have t3: "time v2 \<le> time v3" "\<exists>w1 m w2. restart_job os now (js1 ! i) w1 = (js2 ! i, m, w2)"
    using pass_nth_time [of "restart_job os now" time, OF _ 3] restart_time [OF assms(1)] by blast+
  show ?thesis
  proof
    show "time w \<le> time w'" using t1(1) t2 t3(1) eq by simp
    show "\<exists>w1 n w2 j1 now w3 m w4. reap_job os (jobs reg ! i) w1 = (j1, n, w2) \<and>
            restart_job os now j1 w3 = (jobs reg' ! i, m, w4) \<and>
            time w \<le> time w1 \<and> reading (time w2) \<le> sint now \<and> sint now \<le> time w'"
    proof -
      obtain w1 m w2 where a: "reap_job os (jobs reg ! i) w1 = (js1 ! i, m, w2)" "time w \<le> time w1"
        "time w2 \<le> time v1" using t1(2) by blast
      obtain w3 m' w4 where b: "restart_job os now (js1 ! i) w3 = (js2 ! i, m', w4)" using t3(2) by blast
      have "reading (time w2) \<le> sint now" using reading_mono [OF a(3)] t2(1) by simp
      moreover have "sint now \<le> time w'" using reading_le [of "time v1"] t2 t3(1) eq(2) by simp
      moreover have "jobs reg' ! i = js2 ! i" using eq(1) by simp
      ultimately show ?thesis using a(1,2) b by metis
    qed
  qed
qed

lemma tick_time:
  assumes "clock_ok os time" "launch_registry_tick os reg w = (c, reg', w')"
  shows "time w \<le> time w'"
proof -
  obtain js1 c1 v1 where 1: "pass (reap_job os) (jobs reg) w = (js1, c1, v1)" by (metis prod.exhaust)
  obtain now v2 where 2: "os_mono_ms os v1 = (now, v2)" by fastforce
  obtain js2 c2 v3 where 3: "pass (restart_job os now) js1 v2 = (js2, c2, v3)" by (metis prod.exhaust)
  have "time w \<le> time v1"
    using pass_nth_time [of "reap_job os" time, OF _ 1] reap_time [OF assms(1)] by blast
  moreover have "time v1 \<le> time v2" using clock_okD(1) [OF assms(1) 2] by simp
  moreover have "time v2 \<le> time v3"
    using pass_nth_time [of "restart_job os now" time, OF _ 3] restart_time [OF assms(1)] by blast
  ultimately show ?thesis using assms(2) by (simp add: launch_registry_tick_def 1 2 3)
qed

text \<open>A job that is not running and not waiting is left alone.\<close>

lemma tick_settled:
  assumes "launch_registry_tick os reg w = (c, reg', w')" "i < length (jobs reg)"
    and "j_state (jobs reg ! i) \<noteq> Running" "j_state (jobs reg ! i) \<noteq> Waiting"
  shows "jobs reg' ! i = jobs reg ! i"
  using tick_nth [OF assms(1,2)] assms(3,4) by (auto simp: reap_job_def restart_job_def)

lemma stop_jobs_returns:
  assumes "clock_ok os time"
  shows "\<forall>j \<in> set js. job_ok j \<Longrightarrow> \<exists>js' w'. stop_jobs os js t w =
     Some (js', length (filter (\<lambda>j. j_state j = Running) js), w') \<and>
     list_all2 (\<lambda>j j'. if j_state j = Running then j_state j' = Stopped \<and> j_pid j' = -1 \<and>
        j_label j' = j_label j else j' = j) js js'"
proof (induction js arbitrary: w)
  case (Cons j js)
  show ?case
  proof (cases "j_state j = Running")
    case True
    obtain j1 w1 where s: "launch_job_stop os j t w = Some (LAUNCH_OK, j1, w1)"
      using stop_returns [OF assms] by blast
    have "job_ok j1 \<and> j_state j1 = Stopped \<and> j_label j1 = j_label j"
      using stop_result [OF s] Cons.prems by simp
    moreover obtain js' w' where "stop_jobs os js t w1 =
        Some (js', length (filter (\<lambda>j. j_state j = Running) js), w')"
      "list_all2 (\<lambda>j j'. if j_state j = Running then j_state j' = Stopped \<and> j_pid j' = -1 \<and>
        j_label j' = j_label j else j' = j) js js'" using Cons by fastforce
    ultimately show ?thesis using True s by (auto simp: job_ok_def)
  next
    case False
    obtain js' w' where "stop_jobs os js t w =
        Some (js', length (filter (\<lambda>j. j_state j = Running) js), w')"
      "list_all2 (\<lambda>j j'. if j_state j = Running then j_state j' = Stopped \<and> j_pid j' = -1 \<and>
        j_label j' = j_label j else j' = j) js js'" using Cons by fastforce
    then show ?thesis using False by auto
  qed
qed simp

end
