(* ===== verification/Launch_Claims.thy ===== *)
theory Launch_Claims
  imports Launch_Props Plist_Render
begin

text \<open>
  The properties of the supervisor in \<^verbatim>\<open>src/src/darwin-compat/launchd/launch_job.c\<close>: what a tick
  does to a job that exits, how long it waits to start it again, that stopping ends, what loading
  and unloading change, and the two sides of socket activation.
\<close>

section \<open>Sequences of ticks\<close>

fun ticks :: "'w os \<Rightarrow> nat \<Rightarrow> launch_registry \<Rightarrow> 'w \<Rightarrow> launch_registry \<times> 'w" where
  "ticks os 0 reg w = (reg, w)"
| "ticks os (Suc n) reg w =
     (case launch_registry_tick os reg w of (c, reg1, w1) \<Rightarrow> ticks os n reg1 w1)"

text \<open>A property of one job, its index and the times of a tick, carried through a sequence of ticks.\<close>

lemma ticks_nth:
  assumes "\<And>reg w c reg' w'. i < length (jobs reg) \<Longrightarrow> P (jobs reg ! i) \<Longrightarrow>
      launch_registry_tick os reg w = (c, reg', w') \<Longrightarrow> P (jobs reg' ! i)"
  shows "ticks os n reg w = (reg', w') \<Longrightarrow> i < length (jobs reg) \<Longrightarrow> P (jobs reg ! i) \<Longrightarrow>
         P (jobs reg' ! i) \<and> length (jobs reg') = length (jobs reg)"
proof (induction n arbitrary: reg w)
  case (Suc n)
  obtain c reg1 w1 where t: "launch_registry_tick os reg w = (c, reg1, w1)" by (metis prod.exhaust)
  have l: "length (jobs reg1) = length (jobs reg)" using tick_nth [OF t Suc.prems(2)] by simp
  have "P (jobs reg1 ! i)" using assms [OF Suc.prems(2,3) t] .
  then show ?case using Suc.IH [of reg1 w1] Suc.prems t l by simp
qed simp

lemma ticks_time:
  assumes "clock_ok os time"
  shows "ticks os n reg w = (reg', w') \<Longrightarrow> i < length (jobs reg) \<Longrightarrow> time w \<le> time w'"
proof (induction n arbitrary: reg w)
  case (Suc n)
  obtain c reg1 w1 where t: "launch_registry_tick os reg w = (c, reg1, w1)" by (metis prod.exhaust)
  have "time w \<le> time w1" using tick_nth_time [OF assms t Suc.prems(2)] by simp
  moreover have "length (jobs reg1) = length (jobs reg)" using tick_nth [OF t Suc.prems(2)] by simp
  ultimately show ?case using Suc.IH [of reg1 w1] Suc.prems t by simp
qed simp

section \<open>A concrete operating system\<close>

text \<open>For the witnesses: the world is the time in milliseconds, every wait answers the same, sleeping
  takes its time and everything else none.\<close>

definition demo_os :: "wait_result \<Rightarrow> nat os" where
  "demo_os r =
     \<lparr>os_mono_ms = (\<lambda>t. (word_of_int (reading (int t)), t)),
      os_usleep = (\<lambda>n t. t + n div 1000 + 1),
      os_kill = (\<lambda>p s t. t),
      os_waitpid = (\<lambda>p t. (r, t)),
      os_waitpid_block = (\<lambda>p t. t),
      os_fork = (\<lambda>t. (Inr 41, t)),
      os_socket = (\<lambda>t. (Inr 5, t)),
      os_unlink = (\<lambda>p t. t),
      os_bind_listen = (\<lambda>f p t. (None, t)),
      os_close = (\<lambda>f t. t),
      os_environ = (\<lambda>t. [])\<rparr>"

lemma sint_word_of_reading: "0 \<le> t \<Longrightarrow> sint (word_of_int (reading t) :: i64) = reading t"
  by (simp add: int_word_sint reading_def)

lemma demo_os_clock: "clock_ok (demo_os r) int"
  by (simp add: clock_ok_def demo_os_def sint_word_of_reading)

lemma demo_os_fork: "fork_ok (demo_os r)"
  by (simp add: fork_ok_def demo_os_def)

definition demo_job :: "keepalive \<Rightarrow> job_state \<Rightarrow> int \<Rightarrow> i64 \<Rightarrow> launch_job" where
  "demo_job ka st p restart_at =
     \<lparr>j_label = ''job'', j_plist_path = None, j_argv = [''/bin/job''], j_working_dir = None,
      j_stdin = None, j_stdout = None, j_stderr = None, j_env = [], j_run_at_load = True,
      j_keepalive = ka, j_throttle_ms = 1000, j_sockets = [], j_pid = p, j_state = st,
      j_last_exit = 0, j_signaled = False, j_start_count = 1, j_restart_at_ms = restart_at\<rparr>"

definition demo_registry :: "launch_job \<Rightarrow> launch_registry" where
  "demo_registry j = \<lparr>jobs = [j], default_throttle_ms = 10000\<rparr>"

lemma demo_os_waitpid [simp]: "os_waitpid (demo_os r) p w = (r, w)"
  by (simp add: demo_os_def)

lemma demo_job_simps [simp]:
  "j_label (demo_job ka st p r) = ''job''" "j_argv (demo_job ka st p r) = [''/bin/job'']"
  "j_keepalive (demo_job ka st p r) = ka" "j_state (demo_job ka st p r) = st"
  "j_pid (demo_job ka st p r) = p" "j_restart_at_ms (demo_job ka st p r) = r"
  "j_throttle_ms (demo_job ka st p r) = 1000" "j_start_count (demo_job ka st p r) = 1"
  "j_run_at_load (demo_job ka st p r)" "j_sockets (demo_job ka st p r) = []"
  "j_env (demo_job ka st p r) = []"
  by (simp_all add: demo_job_def)

lemma demo_registry_simps [simp]:
  "jobs (demo_registry j) = [j]" "default_throttle_ms (demo_registry j) = 10000"
  by (simp_all add: demo_registry_def)

lemma demo_registry_ok: "job_ok j \<Longrightarrow> jobs_ok (demo_registry j)"
  by (simp add: jobs_ok_def)

lemmas demo_simps = demo_os_def demo_job_def demo_registry_def

section \<open>Exits and restarts\<close>

lemma restart_keeps_exit:
  assumes "restart_job os now j w = (j', n, w')"
  shows "j_last_exit j' = j_last_exit j \<and> j_signaled j' = j_signaled j \<and> j_keepalive j' = j_keepalive j \<and>
         (j' = j \<or> j_state j = Waiting \<and>
            (j_state j' = Running \<and> j_start_count j' = j_start_count j + 1 \<or>
             j_state j' = Failed \<and> j_start_count j' = j_start_count j))"
proof (cases "j_state j = Waiting \<and> sint (j_restart_at_ms j) \<le> sint now")
  case True
  obtain rc msg j1 w1 where s: "launch_job_start os j 0 w = ((rc, msg), j1, w1)" by (metis prod.exhaust)
  show ?thesis
    using assms True s start_result [OF s] by (auto simp: restart_job_def split: if_splits)
qed (use assms in \<open>auto simp: restart_job_def\<close>)

lemma reap_reaped:
  assumes "reap_job os j w = (j', n, w')" "j_state j = Running" "0 < j_pid j"
    and "\<And>w. fst (os_waitpid os (j_pid j) w) = Reaped st"
  shows "j_last_exit j' = (case st of ExitCode c \<Rightarrow> int c | KilledBy s \<Rightarrow> - int s) \<and>
         j_signaled j' = (case st of ExitCode c \<Rightarrow> False | KilledBy s \<Rightarrow> True) \<and>
         j_start_count j' = j_start_count j \<and>
         j_state j' = (if should_restart (j_keepalive j) (st = ExitCode 0) then Waiting else Exited)"
proof -
  obtain w1 where 1: "os_waitpid os (j_pid j) w = (Reaped st, w1)" using assms(4) by (metis prod.collapse)
  obtain w2 where 2: "after_exit os ((record_exit st j)\<lparr>j_pid := -1\<rparr>) w1 = (j', w2)"
    using assms 1 by (auto simp: reap_job_def split: prod.splits)
  have clean: "(\<not> j_signaled (record_exit st j) \<and> j_last_exit (record_exit st j) = 0) = (st = ExitCode 0)"
    "j_last_exit (record_exit st j) = (case st of ExitCode c \<Rightarrow> int c | KilledBy s \<Rightarrow> - int s)"
    "j_signaled (record_exit st j) = (case st of ExitCode c \<Rightarrow> False | KilledBy s \<Rightarrow> True)"
    by (cases st; simp add: record_exit_def)+
  show ?thesis using after_exit_cases [OF 2] clean by (simp split: if_splits)
qed



section \<open>The throttle\<close>

lemma sint_plus_fits:
  assumes "- (2 ^ 63) \<le> sint a + sint b" "sint a + sint b < 2 ^ 63"
  shows "sint (a + b :: i64) = sint a + sint b"
proof -
  have "a + b = word_of_int (sint a + sint b)" by simp
  also have "sint \<dots> = sint a + sint b" using assms by (simp add: int_word_sint del: of_int_add)
  finally show ?thesis .
qed

text \<open>One tick of a job that has not been restarted since a time when it was not waiting.\<close>

lemma tick_throttled:
  assumes "clock_ok os time" "launch_registry_tick os reg w = (c, reg', w')" "i < length (jobs reg)"
    and "t0 \<le> time w" "time w' < t0 + sint T" "time w' + sint T < 2 ^ 63" "0 \<le> sint T"
    and "j_throttle_ms (jobs reg ! i) = T" "j_start_count (jobs reg ! i) = n"
    and "j_state (jobs reg ! i) = Waiting \<longrightarrow> t0 + sint T \<le> sint (j_restart_at_ms (jobs reg ! i))"
  shows "j_throttle_ms (jobs reg' ! i) = T \<and> j_start_count (jobs reg' ! i) = n \<and>
     (j_state (jobs reg' ! i) = Waiting \<longrightarrow> t0 + sint T \<le> sint (j_restart_at_ms (jobs reg' ! i)))"
proof -
  obtain w1 m w2 j1 now w3 m2 w4 where t: "reap_job os (jobs reg ! i) w1 = (j1, m, w2)"
    "restart_job os now j1 w3 = (jobs reg' ! i, m2, w4)" "time w \<le> time w1" "reading (time w2) \<le> sint now"
    "sint now \<le> time w'" using tick_nth_time [OF assms(1-3)] by blast
  have "time w2 < 2 ^ 63 \<and> time w2 \<le> time w'"
    using t(4,5) assms(4-7) tick_nth_time [OF assms(1-3)]
    by (auto simp: reading_def min_def split: if_splits)
  note late = this
  have r: "time w1 \<le> time w2" "j_throttle_ms j1 = T" "j_start_count j1 = n"
    using reap_time [OF assms(1) t(1)] assms(8,9) t(1)
    by (auto simp: reap_job_def split: if_splits prod.splits wait_result.splits dest!: after_exit_cases)
  have wt: "t0 + sint T \<le> sint (j_restart_at_ms j1)" if "j_state j1 = Waiting"
  proof (cases "j1 = jobs reg ! i")
    case True
    then show ?thesis using assms(10) that by simp
  next
    case False
    then have "\<exists>s. reading (time w1) \<le> sint s \<and> sint s \<le> time w2 \<and> j_restart_at_ms j1 = s + T"
      using reap_time [OF assms(1) t(1)] \<open>j_state j1 = Waiting\<close> assms(8) by simp
    then obtain s where s: "reading (time w1) \<le> sint s" "sint s \<le> time w2" "j_restart_at_ms j1 = s + T"
      by blast
    have "sint s + sint T < 2 ^ 63" "- (2 ^ 63) \<le> sint s"
      using s(2) late assms(6) sint_range_size [of s] by (auto simp: word_size)
    then have "sint (s + T) = sint s + sint T"
      using assms(7) by (intro sint_plus_fits) auto
    moreover have "reading (time w1) = time w1" using r(1) late by (simp add: reading_id)
    ultimately show ?thesis using s(1,3) t(3) assms(4) by simp
  qed
  have "jobs reg' ! i = j1"
    using t(2,5) wt assms(5) by (auto simp: restart_job_def split: if_splits)
  then show ?thesis using r wt by simp
qed

lemma ticks_throttled:
  assumes "clock_ok os time"
  shows "ticks os k reg w = (reg', w') \<Longrightarrow> i < length (jobs reg) \<Longrightarrow>
     t0 \<le> time w \<Longrightarrow> time w' < t0 + sint T \<Longrightarrow> time w' + sint T < 2 ^ 63 \<Longrightarrow> 0 \<le> sint T \<Longrightarrow>
     j_throttle_ms (jobs reg ! i) = T \<Longrightarrow> j_start_count (jobs reg ! i) = n \<Longrightarrow>
     (j_state (jobs reg ! i) = Waiting \<longrightarrow> t0 + sint T \<le> sint (j_restart_at_ms (jobs reg ! i))) \<Longrightarrow>
     j_start_count (jobs reg' ! i) = n"
proof (induction k arbitrary: reg w)
  case (Suc k)
  obtain c reg1 w1 where t: "launch_registry_tick os reg w = (c, reg1, w1)" by (metis prod.exhaust)
  have r: "ticks os k reg1 w1 = (reg', w')" using Suc.prems(1) t by simp
  have l: "i < length (jobs reg1)" using tick_nth [OF t Suc.prems(2)] Suc.prems(2) by simp
  have w1: "time w \<le> time w1" "time w1 \<le> time w'"
    using tick_nth_time [OF assms t Suc.prems(2)] ticks_time [OF assms r l] by auto
  then have b: "time w1 < t0 + sint T" "time w1 + sint T < 2 ^ 63" "t0 \<le> time w1"
    using Suc.prems(3-5) by linarith+
  from tick_throttled [OF assms t Suc.prems(2,3) b(1,2) Suc.prems(6-9)]
  show ?case using Suc.IH [OF r l b(3) Suc.prems(4-6)] by blast
qed simp

text \<open>C21: The throttle holds.  From a moment when a job is running, and for as long as its throttle
  interval, no number of ticks starts it again, however often it exits.  (The sum of the time and the
  interval has to fit into 64 bits; \<open>job_throttle\<close> can wrap.)\<close>

theorem throttle_respected:
  assumes "clock_ok os time" "ticks os k reg w = (reg', w')" "i < length (jobs reg)"
    and "j_state (jobs reg ! i) = Running" "0 \<le> sint (j_throttle_ms (jobs reg ! i))"
    and "time w' < time w + sint (j_throttle_ms (jobs reg ! i))"
    and "time w' + sint (j_throttle_ms (jobs reg ! i)) < 2 ^ 63"
  shows "j_start_count (jobs reg' ! i) = j_start_count (jobs reg ! i)"
  using ticks_throttled [OF assms(1-3) order_refl assms(6,7,5) refl refl] assms(4) by simp

lemma demo_ticks:
  "ticks (demo_os (Reaped (ExitCode 1))) 3 (demo_registry (demo_job Always Running 7 0)) 50 =
     (demo_registry ((demo_job Always Waiting (-1) 1050)\<lparr>j_last_exit := 1\<rparr>), 50)"
  by (simp add: demo_simps numeral_3_eq_3 launch_registry_tick_def reap_job_def restart_job_def
      record_exit_def after_exit_def should_restart_def reading_def)

theorem throttle_respected_witness:
  "j_start_count (jobs (fst (ticks (demo_os (Reaped (ExitCode 1))) 3
     (demo_registry (demo_job Always Running 7 0)) 50)) ! 0) = 1"
  using throttle_respected [OF demo_os_clock demo_ticks, of 0] unfolding demo_ticks by simp

lemma restart_due:
  assumes "restart_job os now j w = (j', n, w')" "j_state j = Waiting"
  shows "if sint (j_restart_at_ms j) \<le> sint now
         then j_state j' = Running \<and> j_start_count j' = j_start_count j + 1 \<or> j_state j' = Failed
         else j' = j"
proof -
  obtain rc msg j1 w1 where s: "launch_job_start os j 0 w = ((rc, msg), j1, w1)" by (metis prod.exhaust)
  show ?thesis
    using assms s start_result [OF s] by (auto simp: restart_job_def split: if_splits)
qed

text \<open>C22: A waiting job is started by the first tick at or after its restart time, and by none
  before: such a tick leaves it running with one more start (or failed), an earlier one leaves it as
  it is.\<close>

theorem waiting_job_restarts:
  assumes "clock_ok os time" "launch_registry_tick os reg w = (c, reg', w')" "i < length (jobs reg)"
    and "j_state (jobs reg ! i) = Waiting" "time w' < 2 ^ 63"
  shows "(sint (j_restart_at_ms (jobs reg ! i)) \<le> time w \<longrightarrow>
            j_state (jobs reg' ! i) = Failed \<or>
            j_state (jobs reg' ! i) = Running \<and>
              j_start_count (jobs reg' ! i) = j_start_count (jobs reg ! i) + 1) \<and>
         (time w' < sint (j_restart_at_ms (jobs reg ! i)) \<longrightarrow> jobs reg' ! i = jobs reg ! i)"
proof -
  obtain w1 m w2 j1 now w3 m2 w4 where t: "reap_job os (jobs reg ! i) w1 = (j1, m, w2)"
    "restart_job os now j1 w3 = (jobs reg' ! i, m2, w4)" "time w \<le> time w1" "reading (time w2) \<le> sint now"
    "sint now \<le> time w'" using tick_nth_time [OF assms(1-3)] by blast
  have j1: "j1 = jobs reg ! i" using t(1) assms(4) by (simp add: reap_job_def)
  have "time w1 \<le> time w2" using reap_time [OF assms(1) t(1)] by simp
  then have "reading (time w) \<le> sint now" using reading_mono [of "time w" "time w2"] t(3,4) by linarith
  moreover have "time w \<le> time w'" using tick_nth_time [OF assms(1-3)] by simp
  ultimately have "time w \<le> sint now" using assms(5) by (simp add: reading_id)
  then show ?thesis using restart_due [OF t(2)] assms(4) t(5) j1 by (auto split: if_splits)
qed

lemma demo_tick_time:
  "snd (snd (launch_registry_tick (demo_os r) (demo_registry (demo_job ka Waiting (-1) t)) w)) = w"
  by (simp add: demo_simps launch_registry_tick_def reap_job_def restart_job_def launch_job_start_def
      launch_codes)

theorem waiting_job_restarts_witness:
  "j_state (jobs (fst (snd (launch_registry_tick (demo_os StillAlive)
      (demo_registry (demo_job Always Waiting (-1) 1050)) 1050))) ! 0) \<in> {Failed, Running}"
proof -
  obtain c reg' w' where t: "launch_registry_tick (demo_os StillAlive)
      (demo_registry (demo_job Always Waiting (-1) 1050)) 1050 = (c, reg', w')" by (metis prod.exhaust)
  then have "w' = 1050"
    using demo_tick_time [of StillAlive Always 1050 1050] by simp
  then show ?thesis using waiting_job_restarts [OF demo_os_clock t, of 0] t by auto
qed

text \<open>A job that has exited for good, was stopped, has failed or was never started stays exactly
  as it is under any number of ticks: only a command starts it again.\<close>

lemma settled_jobs_stay:
  assumes "ticks os n reg w = (reg', w')" "i < length (jobs reg)"
    and "j_state (jobs reg ! i) \<in> {Loaded, Exited, Stopped, Failed}"
  shows "jobs reg' ! i = jobs reg ! i"
proof -
  have "jobs reg2 ! i = jobs reg ! i"
    if "i < length (jobs reg1)" "jobs reg1 ! i = jobs reg ! i"
      "launch_registry_tick os reg1 w1 = (c, reg2, w2)" for reg1 w1 c reg2 w2
    using tick_settled [OF that(3,1)] that(2) assms(3) by auto
  from ticks_nth [of i "\<lambda>j. j = jobs reg ! i", OF this assms(1,2)] show ?thesis by simp
qed

section \<open>Stopping and unloading\<close>

text \<open>C23: Stopping a job ends, even if the child ignores \<^verbatim>\<open>SIGTERM\<close>, as long as the clock advances; the
  job is then stopped, has no pid and no pending restart, and keeps everything else but its exit.\<close>

theorem stop_ends:
  assumes "clock_ok os time" "job_ok j"
  shows "\<exists>j' w'. launch_job_stop os j timeout w = Some (LAUNCH_OK, j', w') \<and>
     j' = j\<lparr>j_pid := -1, j_state := Stopped, j_restart_at_ms := 0, j_last_exit := j_last_exit j',
            j_signaled := j_signaled j'\<rparr>"
proof -
  obtain j' w' where s: "launch_job_stop os j timeout w = Some (LAUNCH_OK, j', w')"
    using stop_returns [OF assms(1)] by blast
  have "j' = j\<lparr>j_pid := -1, j_state := Stopped, j_restart_at_ms := 0, j_last_exit := j_last_exit j',
            j_signaled := j_signaled j'\<rparr>"
    using stop_shape [OF assms(2) s] .
  with s show ?thesis by blast
qed

theorem stop_ends_witness:
  "\<exists>j' w'. launch_job_stop (demo_os StillAlive) (demo_job Always Running 7 0) 100 50 =
     Some (LAUNCH_OK, j', w') \<and> j_state j' = Stopped \<and> j_pid j' = -1"
proof -
  have "job_ok (demo_job Always Running 7 0)" by (simp add: job_ok_def)
  from stop_ends [OF demo_os_clock this, of StillAlive 100 50] show ?thesis
    by (metis (no_types, lifting) launch_job.select_convs(13,14) launch_job.surjective
        launch_job.update_convs(13-18))
qed

text \<open>C24: Unloading ends, and removes the job with the label and no other: the remaining jobs stay in
  order and unchanged, and the label is free.  Without such a job it is an error and no change.\<close>

theorem unload_removes_job:
  assumes "clock_ok os time" "jobs_ok reg"
  shows "\<exists>reg' w'. launch_registry_unload os reg (Some l) w =
       Some (if launch_registry_find reg (Some l) = None then LAUNCH_ENOENT else LAUNCH_OK, reg', w') \<and>
     jobs reg' = filter (\<lambda>j. j_label j \<noteq> l) (jobs reg) \<and>
     launch_registry_find reg' (Some l) = None"
proof -
  obtain rc reg' w' where u: "launch_registry_unload os reg (Some l) w = Some (rc, reg', w')"
    using unload_returns [OF assms(1)] by blast
  have "rc = (if launch_registry_find reg (Some l) = None then LAUNCH_ENOENT else LAUNCH_OK) \<and>
        jobs reg' = filter (\<lambda>j. j_label j \<noteq> l) (jobs reg)"
    using unload_result [OF u]
  proof
    assume a: "rc = LAUNCH_ENOENT \<and> reg' = reg \<and> l \<notin> j_label ` set (jobs reg)"
    moreover have "filter (\<lambda>j. j_label j \<noteq> l) (jobs reg) = jobs reg"
      using a by (intro filter_True) auto
    ultimately show ?thesis by (simp add: launch_registry_find_def find_index_None)
  next
    assume "rc = LAUNCH_OK \<and> (\<exists>i < length (jobs reg). j_label (jobs reg ! i) = l \<and>
            reg' = reg\<lparr>jobs := remove_at i (jobs reg)\<rparr>)"
    then obtain i where i: "rc = LAUNCH_OK" "i < length (jobs reg)" "j_label (jobs reg ! i) = l"
      "jobs reg' = remove_at i (jobs reg)" by auto
    have "launch_registry_find reg (Some l) \<noteq> None"
      using i(2,3) nth_mem by (auto simp: launch_registry_find_def find_index_None)
    moreover have "jobs reg' = filter (\<lambda>j. j_label j \<noteq> l) (jobs reg)"
      using remove_at_filter [of j_label "jobs reg" i] assms(2) i by (simp add: jobs_ok_def)
    ultimately show ?thesis using i(1) by auto
  qed
  moreover have "launch_registry_find reg' (Some l) = None"
    using calculation by (auto simp: launch_registry_find_def find_index_None)
  ultimately show ?thesis using u by blast
qed

theorem unload_removes_job_witness:
  "\<exists>reg' w'. launch_registry_unload (demo_os StillAlive) (demo_registry (demo_job Always Running 7 0))
       (Some ''job'') 50 = Some (LAUNCH_OK, reg', w') \<and> jobs reg' = []"
proof -
  have "jobs_ok (demo_registry (demo_job Always Running 7 0))"
    by (rule demo_registry_ok) (simp add: job_ok_def)
  from unload_removes_job [OF demo_os_clock this, of StillAlive "''job''" 50]
  show ?thesis by (auto simp: launch_registry_find_def)
qed

section \<open>Loading\<close>

text \<open>The throttle of a job is its \<^verbatim>\<open>ThrottleInterval\<close> in milliseconds, computed in 64 bits without a
  check: exact while it fits, and \<open>2 ^ 61\<close> seconds wrap to no throttle at all.\<close>

lemma throttle_wraps:
  "sint (job_throttle d2i (PDict [(''ThrottleInterval'', PInteger v)]) dflt) =
     max 0 ((sint v * 1000 + 2 ^ 63) mod 2 ^ 64 - 2 ^ 63) \<and>
   job_throttle d2i (PDict [(''ThrottleInterval'', PInteger (2 ^ 61))]) dflt = 0"
proof -
  have "v * 1000 = word_of_int (sint v * 1000)" by simp
  then have "sint (v * 1000) = (sint v * 1000 + 2 ^ 63) mod 2 ^ 64 - 2 ^ 63"
    using int_word_sint [of "sint v * 1000", where ?'a = 64] by simp
  then show ?thesis by (auto simp: job_throttle_def Let_def max_def)
qed

lemma argv_loop_strings:
  "argv_loop b i (map PString as) argv = Inr (argv @ (if b \<and> i = 0 then List.tl as else as))"
proof (induction as arbitrary: i argv)
  case (Cons a as)
  show ?case using Cons [of "Suc i" argv] Cons [of "Suc i" "argv @ [a]"] by auto
qed simp

text \<open>The documented form of a socket in a job file.\<close>

definition socket_entry :: "string \<times> string \<Rightarrow> string \<times> plist" where
  "socket_entry s = (fst s, PDict [(''SockPathName'', PString (snd s))])"

lemma sockets_loop_entries:
  "sockets_loop n ss (map socket_entry socks) =
     Inr (ss @ map (\<lambda>(nm, path). \<lparr>s_name = nm, s_path = path, s_fd = -1\<rparr>) socks)"
  by (induction socks arbitrary: ss)
    (auto simp: socket_entry_def plist_dict_get_string_def plist_type_codes)

text \<open>The job of a file in the documented form.\<close>

lemma documented_job:
  assumes "plist_ok (h_strtod h) rs (PDict items)" "all_space ws"
    and "h_file h p = Contents (render_document rs ws (PDict items) @ trailing)"
    and "plist_dict_get (Some (PDict items)) ''Label'' = Some (PString label)" "label \<noteq> []"
    and "plist_dict_get (Some (PDict items)) ''ProgramArguments'' = Some (PArray (map PString args))"
    and "args \<noteq> []" "plist_dict_get (Some (PDict items)) ''Sockets'' = Some (PDict (map socket_entry socks))"
  obtains j where "job_file h d p = Some j" "j_label j = label" "j_state j = Loaded" "j_plist_path j = Some p"
     "j_argv j = (case plist_dict_get_string (Some (PDict items)) ''Program'' None of
                   None \<Rightarrow> args | Some program \<Rightarrow> program # List.tl args)"
     "j_env j = job_set_env (PDict items)"
     "j_sockets j = map (\<lambda>(nm, path). \<lparr>s_name = nm, s_path = path, s_fd = -1\<rparr>) socks"
     "j_run_at_load j = plist_dict_get_bool (Some (PDict items)) ''RunAtLoad'' False"
     "j_keepalive j = parse_keepalive (plist_dict_get (Some (PDict items)) ''KeepAlive'')"
proof -
  let ?root = "PDict items"
  let ?prog = "plist_dict_get_string (Some ?root) ''Program'' None"
  have parse: "plist_parse_file (h_strtod h) (h_file h) (Some p) PARSE_ERR = Some (Inr ?root)"
    using assms(1-3) by (simp add: plist_parse_file_def plist_parse_string_def parse_document_render)
  have argv: "job_set_argv ?root PARSE_ERR =
      Inr (case ?prog of None \<Rightarrow> args | Some program \<Rightarrow> program # List.tl args)"
    using assms(6,7) by (cases ?prog) (simp_all add: job_set_argv_def argv_loop_strings del: plist_dict_get.simps)
  have "job_set_sockets ?root PARSE_ERR = Inr (map (\<lambda>(nm, path). \<lparr>s_name = nm, s_path = path, s_fd = -1\<rparr>) socks)"
    using assms(8) by (simp add: job_set_sockets_def sockets_loop_entries del: plist_dict_get.simps)
  then show ?thesis
    using assms(4,5) argv parse that
    by (simp add: job_file_def job_build_def Let_def plist_dict_get_string_def del: plist_dict_get.simps)
qed

lemma load_job_file:
  assumes "job_file h (default_throttle_ms reg) p = Some j" "launch_registry_find reg (Some (j_label j)) = None"
  shows "launch_registry_load_plist os h reg (Some p) n w = ((LAUNCH_OK, []), reg\<lparr>jobs := jobs reg @ [j]\<rparr>, w)"
  using assms
  by (auto simp: job_file_def launch_registry_load_plist_def job_from_plist_def registry_append_def
      split: option.splits sum.splits)

lemma load_job_file_again:
  assumes "job_file h (default_throttle_ms reg) p = Some j" "launch_registry_find reg (Some (j_label j)) \<noteq> None"
  shows "fst (fst (launch_registry_load_plist os h reg (Some p) n w)) = LAUNCH_EEXIST"
  using assms
  by (auto simp: job_file_def launch_registry_load_plist_def job_from_plist_def split: option.splits sum.splits)


definition demo_items :: "(string \<times> plist) list" where
  "demo_items = [(''Label'', PString ''web''),
     (''ProgramArguments'', PArray (map PString [''/bin/web'', ''-d''])), (''RunAtLoad'', PBool True),
     (''Sockets'', PDict [socket_entry (''http'', ''/run/web'')])]"

definition demo_host :: host where
  "demo_host = \<lparr>h_strtod = (\<lambda>_. 0), h_d2i = (\<lambda>_. 0),
     h_file = (\<lambda>p. Contents (render_document (\<lambda>_. ''0'') [CHR '' ''] (PDict demo_items))),
     h_dir = (\<lambda>d. Inr [''web.plist''])\<rparr>"

lemma demo_job_file:
  obtains j where "job_file demo_host d p = Some j" "j_label j = ''web''" "s_path ` set (j_sockets j) = {''/run/web''}"
proof -
  have 1: "plist_ok (h_strtod demo_host) (\<lambda>_. ''0'') (PDict demo_items)" "all_space [CHR '' '']"
    by (simp_all add: demo_items_def socket_entry_def all_space_def c_isspace_def)
  have 2: "h_file demo_host p = Contents (render_document (\<lambda>_. ''0'') [CHR '' ''] (PDict demo_items) @ [])"
    by (simp add: demo_host_def)
  have 3: "plist_dict_get (Some (PDict demo_items)) ''Label'' = Some (PString ''web'')" "''web'' \<noteq> []"
    "plist_dict_get (Some (PDict demo_items)) ''ProgramArguments'' =
       Some (PArray (map PString [''/bin/web'', ''-d'']))" "[''/bin/web'', ''-d''] \<noteq> []"
    "plist_dict_get (Some (PDict demo_items)) ''Sockets'' = Some (PDict (map socket_entry [(''http'', ''/run/web'')]))"
    by (simp_all add: demo_items_def)
  show ?thesis
  proof (rule documented_job [OF 1 2 3, of d])
    fix j
    assume j: "job_file demo_host d p = Some j" "j_label j = ''web''"
      "j_sockets j = map (\<lambda>(nm, path). \<lparr>s_name = nm, s_path = path, s_fd = -1\<rparr>) [(''http'', ''/run/web'')]"
    show thesis by (rule that [OF j(1,2)]) (simp add: j(3))
  qed
qed


end
