(* ===== verification/Launch_Memory_Claims.thy ===== *)
theory Launch_Memory_Claims
  imports Launch_Memory_Refine Launch_Claims
begin

text \<open>
  The property of the loading of job files: no access outside a block and no double free, whatever
  allocations fail, and what can be lost.
\<close>

section \<open>Files and directories with enough memory\<close>

lemma sockets_loop_code: "sockets_loop n ss items = Inl (rc, msg, ss') \<Longrightarrow> rc = LAUNCH_EPARSE"
  by (induction n ss items arbitrary: rc msg ss' rule: sockets_loop.induct)
    (auto split: option.splits if_splits)

lemma job_from_plist_code:
  "job_from_plist os d2i root path thr n w = (Inl (rc, msg), w') \<Longrightarrow> rc \<noteq> LAUNCH_ENOMEM"
  by (auto simp: job_from_plist_def job_build_def job_set_sockets_def job_set_argv_def Let_def launch_codes
      dest!: sockets_loop_code split: if_splits option.splits sum.splits plist.splits)

lemma load_plist_plenty:
  assumes "launch_registry_load_plist_m os h plenty reg path n w m = Some ((rc, msg), reg', w', m')"
  shows "launch_registry_load_plist os h (registry_of reg) path n w = ((rc, msg), registry_of reg', w')"
proof (cases path)
  case None
  then show ?thesis using assms by (auto simp: launch_registry_load_plist_m_def launch_registry_load_plist_def)
next
  case (Some p)
  obtain res m1 where f: "plist_parse_file_m (h_strtod h) plenty (h_file h) path PARSE_ERR m = Some (res, m1)"
    using assms Some by (auto simp: launch_registry_load_plist_m_def split: option.splits)
  note pf = parse_file_m_refines [OF f]
  show ?thesis
  proof (cases res)
    case (Inl e)
    then show ?thesis using assms Some f pf
      by (auto simp: launch_registry_load_plist_m_def launch_registry_load_plist_def)
  next
    case (Inr root)
    obtain built w1 m2 where b: "job_from_plist_m os (h_d2i h) plenty (erase root) path (hr_throttle reg)
        PARSE_ERR w m1 = Some (built, w1, m2)"
      using assms Some f Inr by (auto simp: launch_registry_load_plist_m_def split: option.splits)
    note pj = job_from_plist_plenty [OF b]
    obtain m3 where m3: "plist_free root m2 = Some m3"
      using assms Some f Inr b by (auto simp: launch_registry_load_plist_m_def split: option.splits)
    have pure: "launch_registry_load_plist os h (registry_of reg) path n w =
        (case built of
           Inl (rc, msg) \<Rightarrow> ((rc, seterr n (p @ '': '' @ msg)), registry_of reg, w1)
         | Inr j \<Rightarrow>
             if has_label reg (snd (hj_label j)) then
               ((LAUNCH_EEXIST, seterr n (p @ '': label '' @ snd (hj_label j) @ '' is already loaded'')),
                registry_of reg, free_sockets os (job_sockets j) w1)
             else ((LAUNCH_OK, []), registry_append (job_of j) (registry_of reg), w1))"
    proof -
      have "default_throttle_ms (registry_of reg) = hr_throttle reg" by (simp add: registry_of_def)
      moreover have "job_free os (job_of j) w1 = free_sockets os (job_sockets j) w1"
        and "j_label (job_of j) = snd (hj_label j)" for j
        by (simp_all add: job_free_def job_of_def)
      ultimately show ?thesis using Some Inr pf pj
        by (simp add: launch_registry_load_plist_def has_label_find split: sum.split)
    qed
    show ?thesis
    proof (cases built)
      case (Inl e)
      then show ?thesis using assms Some f Inr b m3 pure
        by (cases e) (auto simp: launch_registry_load_plist_m_def)
    next
      case job: (Inr j)
      show ?thesis
      proof (cases "has_label reg (snd (hj_label j))")
        case True
        then show ?thesis using assms Some f Inr b m3 pure job
          by (auto simp: launch_registry_load_plist_m_def job_free_m_def)
      next
        case False
        obtain rc1 reg1 m4 where a: "registry_append_m plenty reg j m3 = Some (rc1, reg1, m4)"
          using assms Some f Inr b m3 job False
          by (auto simp: launch_registry_load_plist_m_def split: option.splits)
        from registry_append_plenty [OF a] show ?thesis
          using assms Some f Inr b m3 pure job False a by (simp add: launch_registry_load_plist_m_def)
      qed
    qed
  qed
qed

lemma load_plist_code:
  "launch_registry_load_plist os h reg path n w = ((rc, msg), reg', w') \<Longrightarrow> rc \<noteq> LAUNCH_ENOMEM"
  by (auto simp: launch_registry_load_plist_def launch_codes dest: job_from_plist_code
      split: option.splits sum.splits prod.splits if_splits)

lemma load_names_plenty:
  assumes "owned m R (reg_blk reg)" "reg_ok reg"
  shows "\<exists>loaded' failed' msg' reg' w' m'.
     load_names_m os h plenty dir n nms (loaded, failed, msg, reg, w) m =
       Some ((loaded', failed', msg', reg', w'), m') \<and>
     owned m' R (reg_blk reg') \<and>
     load_names os h dir n nms (loaded, failed, msg, registry_of reg, w) =
       (loaded', failed', msg', registry_of reg', w')"
  using assms
proof (induction nms arbitrary: loaded failed msg reg w m)
  case Nil
  then show ?case by simp
next
  case (Cons nm nms)
  let ?p = "Some (snprintf_s 1024 (dir @ ''/'' @ nm))"
  from load_plist_safe [OF Cons.prems, of os h plenty ?p 256 w] obtain rc e reg1 w1 m1 L where s:
    "launch_registry_load_plist_m os h plenty reg ?p 256 w m = Some ((rc, e), reg1, w1, m1)"
    "reg_ok reg1" "lost rc L" "owned m1 (R + L) (reg_blk reg1)"
    unfolding load_safe_def by blast
  note p = load_plist_plenty [OF s(1)]
  have "L = {#}" using s(3) load_plist_code [OF p] by (simp add: lost_def)
  then have "owned m1 R (reg_blk reg1)" using s(4) by simp
  note ih = Cons.IH [OF this s(2)]
  show ?case
  proof (cases "plist_suffix nm")
    case False
    then show ?thesis using Cons by simp
  next
    case True
    show ?thesis
    proof (cases "rc = LAUNCH_OK")
      case ok: True
      then show ?thesis using True s(1) p ih [of "loaded + 1" failed msg w1] by simp
    next
      case False
      then show ?thesis using True s(1) p ih [of loaded "failed + 1" "seterr n e" w1] by simp
    qed
  qed
qed

lemma load_dir_plenty:
  assumes "owned m R (reg_blk reg)" "reg_ok reg"
    and "launch_registry_load_dir_m os h plenty reg dir n w m = Some (res, reg', w', m')"
  shows "owned m' R (reg_blk reg') \<and>
     launch_registry_load_dir os h (registry_of reg) dir n w = (res, registry_of reg', w')"
proof (cases "\<exists>d nms. dir = Some d \<and> h_dir h d = Inr nms")
  case False
  then show ?thesis using assms(1,3)
    by (auto simp: launch_registry_load_dir_m_def launch_registry_load_dir_def split: option.splits sum.splits)
next
  case True
  then obtain d nms where d: "dir = Some d" "h_dir h d = Inr nms" by blast
  from load_names_plenty [OF assms(1,2), of os h d n nms 0 0 "[]" w] show ?thesis
    using d assms(3) by (auto simp: launch_registry_load_dir_m_def launch_registry_load_dir_def)
qed

lemma load_dir_run:
  assumes "owned m R (reg_blk reg)" "reg_ok reg"
  obtains loaded failed msg reg' w' m' L where
    "launch_registry_load_dir_m os h ok reg dir n w m = Some ((loaded, failed, msg), reg', w', m')"
    "owned m' (R + L) (reg_blk reg')" "size L \<le> failed"
    "ok = plenty \<Longrightarrow> L = {#} \<and>
       launch_registry_load_dir os h (registry_of reg) dir n w = ((loaded, failed, msg), registry_of reg', w')"
proof -
  from load_dir_safe [OF assms, of os h ok dir n w] obtain loaded failed msg reg' w' m' L where
    l: "launch_registry_load_dir_m os h ok reg dir n w m = Some ((loaded, failed, msg), reg', w', m')"
    "owned m' (R + L) (reg_blk reg')" "size L \<le> failed" by blast
  show ?thesis
  proof (cases "ok = plenty")
    case True
    from load_dir_plenty [OF assms l(1) [unfolded True]] show ?thesis
      using that [of loaded failed msg reg' w' m' "{#}"] l(1) by simp
  next
    case False
    then show ?thesis using that [OF l] by blast
  qed
qed

section \<open>The end\<close>

lemma free_jobs_world:
  "free_jobs_m os js w m = Some (w', m') \<Longrightarrow> w' = fold (job_free os) (map job_of js) w"
proof (induction js arbitrary: w m)
  case (Cons j js)
  then show ?case
    by (auto simp: job_free_m_def job_free_def job_of_def split: Option.bind_splits)
qed simp

lemma stop_loaded: "(\<And>j. j \<in> set js \<Longrightarrow> j_state j = Loaded) \<Longrightarrow> stop_jobs os js t w = Some (js, 0, w)"
  by (induction js) auto

lemma registry_free_world:
  assumes "registry_free_m os reg w m = Some (w', m')"
  shows "launch_registry_free os (Some (registry_of reg)) w = Some w'"
proof -
  obtain w1 m1 where "free_jobs_m os (hr_jobs reg) w m = Some (w1, m1)" "w' = w1"
    using assms by (auto simp: registry_free_m_def split: Option.bind_splits)
  then have "w' = fold (job_free os) (map job_of (hr_jobs reg)) w" by (simp add: free_jobs_world)
  moreover have "stop_jobs os (map job_of (hr_jobs reg)) 2000 w = Some (map job_of (hr_jobs reg), 0, w)"
    by (rule stop_loaded) (auto simp: job_of_def)
  ultimately show ?thesis
    by (simp add: launch_registry_free_def launch_registry_stop_all_def registry_of_def)
qed

section \<open>A lost block\<close>

text \<open>The name of a socket is lost when its path finds no memory: the socket is not counted yet.\<close>

lemma socket_name_lost:
  assumes "ok (requests m)" "\<not> ok (Suc (requests m))" "length (hj_sockets j) < cap"
  shows "sockets_loop_m ok n cap ((nm, PDict [(''SockPathName'', PString p)]) # items) j m =
     Some ((LAUNCH_ENOMEM, []), j, m\<lparr>live := insert (Suc (requests m)) (live m), requests := Suc (Suc (requests m))\<rparr>)"
  using assms by (simp add: dup_string_def malloc_def Let_def plist_dict_get_string_def)

text \<open>C39: The loading of job files owns its memory.  Whatever allocations fail and whatever the files of the
  directory hold, creating a registry, loading the directory and freeing the registry returns without a wrong
  access or a double free; nothing else is allocated at the end than before, but for at most one block for each
  file that was reported as failed; the sockets of every job loaded are removed.  If no allocation fails,
  nothing is lost, and the result is that of the loading without memory.\<close>

theorem job_files_own_memory:
  assumes "mem_ok m"
  shows "case launch_registry_create_m ok m of
     (None, m1) \<Rightarrow> live m1 = live m
   | (Some reg, m1) \<Rightarrow>
       (\<exists>loaded failed msg reg' w' m' w'' m'' L.
          launch_registry_load_dir_m os h ok reg dir n w m1 = Some ((loaded, failed, msg), reg', w', m') \<and>
          registry_free_m os reg' w' m' = Some (w'', m'') \<and>
          launch_registry_free os (Some (registry_of reg')) w' = Some w'' \<and>
          mset_set (live m'') = mset_set (live m) + L \<and> size L \<le> failed \<and>
          (ok = (\<lambda>_. True) \<longrightarrow> L = {#} \<and>
             launch_registry_load_dir os h launch_registry_create dir n w =
               ((loaded, failed, msg), registry_of reg', w')))"
proof -
  let ?R = "mset_set (live m)"
  obtain a m1 where a: "malloc ok m = (a, m1)" by fastforce
  have o: "owned m1 ?R (blk a)" using malloc_owned [OF a mem_ok_owned [OF assms]] by simp
  show ?thesis
  proof (cases "a = 0")
    case True
    then have "owned m1 ?R {#}" using o by simp
    then show ?thesis using a True assms owned_all by (simp add: launch_registry_create_m_def mem_ok_def)
  next
    case False
    define reg where "reg = \<lparr>hr_addr = a, hr_array = 0, hr_cap = 0, hr_jobs = [], hr_throttle = 10000 :: i64\<rparr>"
    have reg: "owned m1 ?R (reg_blk reg)" "reg_ok reg" "registry_of reg = launch_registry_create"
      using o by (simp_all add: reg_def reg_blk_def reg_ok_def registry_of_def launch_registry_create_def)
    from load_dir_run [OF reg(1,2), of os h ok dir n w] obtain loaded failed msg reg' w' m' L where
      l: "launch_registry_load_dir_m os h ok reg dir n w m1 = Some ((loaded, failed, msg), reg', w', m')"
      and K: "owned m' (?R + L) (reg_blk reg')" "size L \<le> failed"
      "ok = (\<lambda>_. True) \<Longrightarrow> L = {#} \<and>
         launch_registry_load_dir os h launch_registry_create dir n w = ((loaded, failed, msg), registry_of reg', w')"
      unfolding reg(3) by blast
    from registry_free_owned [OF K(1)] obtain w'' m'' where
      f: "registry_free_m os reg' w' m' = Some (w'', m'')" "owned m'' (?R + L) {#}" .
    have "mset_set (live m'') = ?R + L" using f(2) by (simp add: owned_def)
    moreover have "launch_registry_create_m ok m = (Some reg, m1)"
      using a False by (simp add: launch_registry_create_m_def reg_def)
    ultimately show ?thesis
      using l f(1) registry_free_world [OF f(1)] K(2,3) by simp
  qed
qed

lemma demo_load_dir:
  "\<exists>j. launch_registry_load_dir os demo_host launch_registry_create (Some d) n w =
     ((1, 0, []), launch_registry_create\<lparr>jobs := [j]\<rparr>, w) \<and> j_label j = ''web''"
proof -
  let ?p = "snprintf_s 1024 (d @ ''/'' @ ''web.plist'')"
  obtain j where j: "job_file demo_host (default_throttle_ms launch_registry_create) ?p = Some j" "j_label j = ''web''"
    by (rule demo_job_file)
  have "launch_registry_find launch_registry_create (Some (j_label j)) = None"
    by (simp add: launch_registry_find_def launch_registry_create_def)
  from load_job_file [OF j(1) this, of os 256 w]
  have "launch_registry_load_plist os demo_host launch_registry_create (Some ?p) 256 w =
      ((LAUNCH_OK, []), launch_registry_create\<lparr>jobs := [j]\<rparr>, w)"
    by (simp add: launch_registry_create_def)
  moreover have "plist_suffix ''web.plist''" by (simp add: plist_suffix_def)
  moreover have "h_dir demo_host d = Inr [''web.plist'']" by (simp add: demo_host_def)
  ultimately show ?thesis using j(2) by (intro exI [of _ j]) (simp add: launch_registry_load_dir_def)
qed

theorem job_files_own_memory_witness:
  "\<exists>reg m1 reg' w' m' w'' m''.
     launch_registry_create_m (\<lambda>_. True) \<lparr>live = {}, requests = 0\<rparr> = (Some reg, m1) \<and>
     launch_registry_load_dir_m (demo_os StillAlive) demo_host (\<lambda>_. True) reg (Some ''/d'') 64 50 m1 =
       Some ((1, 0, []), reg', w', m') \<and>
     map j_label (jobs (registry_of reg')) = [''web''] \<and>
     registry_free_m (demo_os StillAlive) reg' w' m' = Some (w'', m'') \<and> mset_set (live m'') = {#}"
proof -
  let ?m = "\<lparr>live = {}, requests = 0\<rparr> :: mem"
  have m: "mem_ok ?m" by (simp add: mem_ok_def)
  obtain reg m1 where c: "launch_registry_create_m (\<lambda>_. True) ?m = (Some reg, m1)"
    by (simp add: launch_registry_create_m_def malloc_def Let_def)
  from demo_load_dir [of "demo_os StillAlive" "''/d''" 64 50] obtain j where
    j: "launch_registry_load_dir (demo_os StillAlive) demo_host launch_registry_create (Some ''/d'') 64 50 =
      ((1, 0, []), launch_registry_create\<lparr>jobs := [j]\<rparr>, 50)" "j_label j = ''web''" by blast
  from job_files_own_memory [OF m, of "demo_os StillAlive" demo_host "\<lambda>_. True" "Some ''/d''" 64 50]
  obtain loaded failed msg reg' w' m' w'' m'' L where
    l: "launch_registry_load_dir_m (demo_os StillAlive) demo_host (\<lambda>_. True) reg (Some ''/d'') 64 50 m1 =
      Some ((loaded, failed, msg), reg', w', m')"
    and f: "registry_free_m (demo_os StillAlive) reg' w' m' = Some (w'', m'')"
    and L: "mset_set (live m'') = mset_set (live ?m) + L" "L = {#}"
    and p: "launch_registry_load_dir (demo_os StillAlive) demo_host launch_registry_create (Some ''/d'') 64 50 =
      ((loaded, failed, msg), registry_of reg', w')"
    unfolding c by auto
  have "loaded = 1" "failed = 0" "msg = []" and r: "registry_of reg' = launch_registry_create\<lparr>jobs := [j]\<rparr>"
    using j(1) p by simp_all
  moreover have "map j_label (jobs (registry_of reg')) = [''web'']" unfolding r by (simp add: j(2))
  ultimately show ?thesis using c l f L by fastforce
qed

end
