(* ===== verification/Xpc_Object.thy ===== *)
theory Xpc_Object
  imports Interfaces "HOL-Library.AList"
begin

text \<open>
  Model of the message dictionaries of \<^verbatim>\<open>src/src/darwin-compat/shims/xpc_shim.c\<close>: creation and
  reference counts, setters, getters, removal and iteration.

  The singly linked list of entries (\<^verbatim>\<open>head\<close>, \<^verbatim>\<open>tail\<close>, \<^verbatim>\<open>next\<close>) is the list of its
  elements in order, and \<^verbatim>\<open>count\<close> is its length.  An object argument of \<open>None\<close> is a
  \<^verbatim>\<open>NULL\<close> pointer, and so is a key of \<open>None\<close>.  Each operation holds the object's lock for
  its whole effect, so it is one function; allocation is taken to succeed.
\<close>

section \<open>Codes\<close>

definition CATBSD_XPC_SUCCESS :: int where "CATBSD_XPC_SUCCESS = 0"
definition CATBSD_XPC_EINVAL :: int where "CATBSD_XPC_EINVAL = -1"
definition CATBSD_XPC_ENOMEM :: int where "CATBSD_XPC_ENOMEM = -2"
definition CATBSD_XPC_EIO :: int where "CATBSD_XPC_EIO = -3"
definition CATBSD_XPC_ETIMEOUT :: int where "CATBSD_XPC_ETIMEOUT = -4"
definition CATBSD_XPC_ECLOSED :: int where "CATBSD_XPC_ECLOSED = -5"
definition CATBSD_XPC_EPROTO :: int where "CATBSD_XPC_EPROTO = -6"
definition CATBSD_XPC_EEXIST :: int where "CATBSD_XPC_EEXIST = -7"
definition CATBSD_XPC_ENOENT :: int where "CATBSD_XPC_ENOENT = -8"

lemmas xpc_codes = CATBSD_XPC_SUCCESS_def CATBSD_XPC_EINVAL_def CATBSD_XPC_ENOMEM_def
  CATBSD_XPC_EIO_def CATBSD_XPC_ETIMEOUT_def CATBSD_XPC_ECLOSED_def CATBSD_XPC_EPROTO_def
  CATBSD_XPC_EEXIST_def CATBSD_XPC_ENOENT_def

definition CATBSD_XPC_MAX_MESSAGE :: nat where "CATBSD_XPC_MAX_MESSAGE = 1048576"

definition catbsd_xpc_strerror :: "int \<Rightarrow> string" where
  "catbsd_xpc_strerror err =
     (if err = CATBSD_XPC_SUCCESS then ''Success''
      else if err = CATBSD_XPC_EINVAL then ''Invalid argument''
      else if err = CATBSD_XPC_ENOMEM then ''Out of memory''
      else if err = CATBSD_XPC_EIO then ''I/O error''
      else if err = CATBSD_XPC_ETIMEOUT then ''Operation timed out''
      else if err = CATBSD_XPC_ECLOSED then ''Connection closed''
      else if err = CATBSD_XPC_EPROTO then ''Protocol error''
      else if err = CATBSD_XPC_EEXIST then ''Service name already in use''
      else if err = CATBSD_XPC_ENOENT then ''No such service''
      else ''Unknown error'')"

section \<open>Objects\<close>

text \<open>The tagged union of an entry.  Strings and data are their bytes, without the NUL the code
  puts after them.\<close>

datatype xpc_value =
    XBool bool
  | XInt64 i64
  | XUint64 u64
  | XDouble double
  | XString "byte list"
  | XData "byte list"

fun xpc_type :: "xpc_value \<Rightarrow> nat" where
  "xpc_type (XBool _) = 1"
| "xpc_type (XInt64 _) = 2"
| "xpc_type (XUint64 _) = 3"
| "xpc_type (XDouble _) = 4"
| "xpc_type (XString _) = 5"
| "xpc_type (XData _) = 6"

type_synonym xpc_entries = "(string \<times> xpc_value) list"

record xpc_object =
  refcount :: int
  entries :: xpc_entries
  msg_id :: u64
  is_reply :: bool

definition catbsd_xpc_dictionary_create :: xpc_object where
  "catbsd_xpc_dictionary_create = \<lparr>refcount = 1, entries = [], msg_id = 0, is_reply = False\<rparr>"

definition catbsd_xpc_retain :: "xpc_object option \<Rightarrow> xpc_object option" where
  "catbsd_xpc_retain obj = map_option (\<lambda>d. d\<lparr>refcount := refcount d + 1\<rparr>) obj"

text \<open>The result is \<open>None\<close> once the object has been freed.\<close>

definition catbsd_xpc_release :: "xpc_object option \<Rightarrow> xpc_object option" where
  "catbsd_xpc_release obj =
     (case obj of
        None \<Rightarrow> None
      | Some d \<Rightarrow>
          (let n = refcount d - 1 in if n \<le> 0 then None else Some (d\<lparr>refcount := n\<rparr>)))"

section \<open>Entries\<close>

fun entry_find :: "xpc_entries \<Rightarrow> string \<Rightarrow> xpc_value option" where
  "entry_find [] key = None"
| "entry_find ((k, v) # es) key = (if k = key then Some v else entry_find es key)"

text \<open>\<^verbatim>\<open>entry_reset\<close> followed by storing the value: in place if the key is present, else a new
  entry at the tail.\<close>

fun entry_put :: "string \<Rightarrow> xpc_value \<Rightarrow> xpc_entries \<Rightarrow> xpc_entries" where
  "entry_put key v [] = [(key, v)]"
| "entry_put key v ((k, w) # es) =
     (if k = key then (k, v) # es else (k, w) # entry_put key v es)"

text \<open>The unlinking loop of \<^verbatim>\<open>catbsd_xpc_dictionary_remove\<close>.\<close>

fun entry_remove :: "string \<Rightarrow> xpc_entries \<Rightarrow> xpc_entries" where
  "entry_remove key [] = []"
| "entry_remove key ((k, w) # es) = (if k = key then es else (k, w) # entry_remove key es)"

section \<open>Setters\<close>

definition valid_key :: "string option \<Rightarrow> bool" where
  "valid_key key = (case key of None \<Rightarrow> False | Some k \<Rightarrow> k \<noteq> [] \<and> length k \<le> 65535)"

definition put_entry :: "xpc_object \<Rightarrow> string \<Rightarrow> xpc_value \<Rightarrow> xpc_object" where
  "put_entry d key v = d\<lparr>entries := entry_put key v (entries d)\<rparr>"

text \<open>The shared shape of the scalar setters: \<^verbatim>\<open>XPC_SET_PROLOGUE\<close>, then the store.\<close>

definition set_scalar ::
  "xpc_object option \<Rightarrow> string option \<Rightarrow> xpc_value \<Rightarrow> int \<times> xpc_object option" where
  "set_scalar d key v =
     (case d of
        None \<Rightarrow> (CATBSD_XPC_EINVAL, None)
      | Some obj \<Rightarrow>
          if \<not> valid_key key then (CATBSD_XPC_EINVAL, d)
          else (CATBSD_XPC_SUCCESS, Some (put_entry obj (the key) v)))"

definition catbsd_xpc_dictionary_set_bool ::
  "xpc_object option \<Rightarrow> string option \<Rightarrow> int \<Rightarrow> int \<times> xpc_object option" where
  "catbsd_xpc_dictionary_set_bool d key value = set_scalar d key (XBool (value \<noteq> 0))"

definition catbsd_xpc_dictionary_set_int64 ::
  "xpc_object option \<Rightarrow> string option \<Rightarrow> i64 \<Rightarrow> int \<times> xpc_object option" where
  "catbsd_xpc_dictionary_set_int64 d key value = set_scalar d key (XInt64 value)"

definition catbsd_xpc_dictionary_set_uint64 ::
  "xpc_object option \<Rightarrow> string option \<Rightarrow> u64 \<Rightarrow> int \<times> xpc_object option" where
  "catbsd_xpc_dictionary_set_uint64 d key value = set_scalar d key (XUint64 value)"

definition catbsd_xpc_dictionary_set_double ::
  "xpc_object option \<Rightarrow> string option \<Rightarrow> double \<Rightarrow> int \<times> xpc_object option" where
  "catbsd_xpc_dictionary_set_double d key value = set_scalar d key (XDouble value)"

text \<open>\<^verbatim>\<open>dictionary_set_bytes\<close> does not check the key; its callers do, except the deserializer.\<close>

definition dictionary_set_bytes ::
  "xpc_object \<Rightarrow> string \<Rightarrow> (byte list \<Rightarrow> xpc_value) \<Rightarrow> byte list \<Rightarrow> int \<times> xpc_object" where
  "dictionary_set_bytes d key con bytes =
     (if CATBSD_XPC_MAX_MESSAGE < length bytes then (CATBSD_XPC_EINVAL, d)
      else (CATBSD_XPC_SUCCESS, put_entry d key (con bytes)))"

definition catbsd_xpc_dictionary_set_string ::
  "xpc_object option \<Rightarrow> string option \<Rightarrow> string option \<Rightarrow> int \<times> xpc_object option" where
  "catbsd_xpc_dictionary_set_string d key value =
     (case d of
        None \<Rightarrow> (CATBSD_XPC_EINVAL, None)
      | Some obj \<Rightarrow>
          if \<not> valid_key key then (CATBSD_XPC_EINVAL, d)
          else case value of
                 None \<Rightarrow> (CATBSD_XPC_EINVAL, d)
               | Some s \<Rightarrow>
                   map_prod id Some
                     (dictionary_set_bytes obj (the key) XString (to_bytes (c_str s))))"

definition catbsd_xpc_dictionary_set_data ::
  "xpc_object option \<Rightarrow> string option \<Rightarrow> byte list option \<Rightarrow> nat \<Rightarrow> int \<times> xpc_object option" where
  "catbsd_xpc_dictionary_set_data d key bytes len =
     (case d of
        None \<Rightarrow> (CATBSD_XPC_EINVAL, None)
      | Some obj \<Rightarrow>
          if \<not> valid_key key then (CATBSD_XPC_EINVAL, d)
          else if bytes = None \<and> 0 < len then (CATBSD_XPC_EINVAL, d)
          else map_prod id Some
                 (dictionary_set_bytes obj (the key) XData
                    (case bytes of None \<Rightarrow> [] | Some bs \<Rightarrow> take len bs)))"

section \<open>Getters\<close>

text \<open>\<^verbatim>\<open>XPC_GET_SCALAR\<close>: the code, and the new value of \<^verbatim>\<open>*out\<close> (\<open>None\<close>: untouched).\<close>

definition get_scalar ::
  "xpc_object option \<Rightarrow> string option \<Rightarrow> (xpc_value \<Rightarrow> 'a option) \<Rightarrow> int \<times> 'a option" where
  "get_scalar d key field =
     (case (d, key) of
        (Some obj, Some k) \<Rightarrow>
          (case entry_find (entries obj) k of
             None \<Rightarrow> (CATBSD_XPC_EINVAL, None)
           | Some v \<Rightarrow>
               (case field v of
                  None \<Rightarrow> (CATBSD_XPC_EINVAL, None)
                | Some x \<Rightarrow> (CATBSD_XPC_SUCCESS, Some x)))
      | _ \<Rightarrow> (CATBSD_XPC_EINVAL, None))"

fun as_bool :: "xpc_value \<Rightarrow> bool option" where
  "as_bool (XBool b) = Some b" | "as_bool _ = None"
fun as_int64 :: "xpc_value \<Rightarrow> i64 option" where
  "as_int64 (XInt64 i) = Some i" | "as_int64 _ = None"
fun as_uint64 :: "xpc_value \<Rightarrow> u64 option" where
  "as_uint64 (XUint64 u) = Some u" | "as_uint64 _ = None"
fun as_double :: "xpc_value \<Rightarrow> double option" where
  "as_double (XDouble x) = Some x" | "as_double _ = None"
fun as_string :: "xpc_value \<Rightarrow> byte list option" where
  "as_string (XString bs) = Some bs" | "as_string _ = None"
fun as_data :: "xpc_value \<Rightarrow> byte list option" where
  "as_data (XData bs) = Some bs" | "as_data _ = None"

definition catbsd_xpc_dictionary_get_bool :: "xpc_object option \<Rightarrow> string option \<Rightarrow> int \<times> bool option"
  where "catbsd_xpc_dictionary_get_bool d key = get_scalar d key as_bool"
definition catbsd_xpc_dictionary_get_int64 :: "xpc_object option \<Rightarrow> string option \<Rightarrow> int \<times> i64 option"
  where "catbsd_xpc_dictionary_get_int64 d key = get_scalar d key as_int64"
definition catbsd_xpc_dictionary_get_uint64 :: "xpc_object option \<Rightarrow> string option \<Rightarrow> int \<times> u64 option"
  where "catbsd_xpc_dictionary_get_uint64 d key = get_scalar d key as_uint64"
definition catbsd_xpc_dictionary_get_double :: "xpc_object option \<Rightarrow> string option \<Rightarrow> int \<times> double option"
  where "catbsd_xpc_dictionary_get_double d key = get_scalar d key as_double"

text \<open>The borrowed pointer is read as a C string by its users, hence \<open>c_str\<close>.\<close>

definition catbsd_xpc_dictionary_get_string ::
  "xpc_object option \<Rightarrow> string option \<Rightarrow> string option" where
  "catbsd_xpc_dictionary_get_string d key =
     map_option (\<lambda>bs. c_str (of_bytes bs)) (snd (get_scalar d key as_string))"

definition catbsd_xpc_dictionary_get_data ::
  "xpc_object option \<Rightarrow> string option \<Rightarrow> byte list option" where
  "catbsd_xpc_dictionary_get_data d key = snd (get_scalar d key as_data)"

definition catbsd_xpc_dictionary_get_type :: "xpc_object option \<Rightarrow> string option \<Rightarrow> nat" where
  "catbsd_xpc_dictionary_get_type d key =
     (case (d, key) of
        (Some obj, Some k) \<Rightarrow>
          (case entry_find (entries obj) k of None \<Rightarrow> 0 | Some v \<Rightarrow> xpc_type v)
      | _ \<Rightarrow> 0)"

definition catbsd_xpc_dictionary_count :: "xpc_object option \<Rightarrow> nat" where
  "catbsd_xpc_dictionary_count d = (case d of None \<Rightarrow> 0 | Some obj \<Rightarrow> length (entries obj))"

definition catbsd_xpc_dictionary_remove ::
  "xpc_object option \<Rightarrow> string option \<Rightarrow> int \<times> xpc_object option" where
  "catbsd_xpc_dictionary_remove d key =
     (case (d, key) of
        (Some obj, Some k) \<Rightarrow>
          (if entry_find (entries obj) k = None then (CATBSD_XPC_EINVAL, d)
           else (CATBSD_XPC_SUCCESS, Some (obj\<lparr>entries := entry_remove k (entries obj)\<rparr>)))
      | _ \<Rightarrow> (CATBSD_XPC_EINVAL, d))"

text \<open>The iteration over the snapshot of keys and types; the callback works on a context.\<close>

fun apply_loop ::
  "(string \<Rightarrow> nat \<Rightarrow> 'c \<Rightarrow> int \<times> 'c) \<Rightarrow> (string \<times> nat) list \<Rightarrow> int \<Rightarrow> 'c \<Rightarrow> int \<times> 'c" where
  "apply_loop fn [] rc ctx = (rc, ctx)"
| "apply_loop fn ((k, t) # snap) rc ctx =
     (if rc = 0 then (let (rc', ctx') = fn k t ctx in apply_loop fn snap rc' ctx')
      else apply_loop fn snap rc ctx)"

definition catbsd_xpc_dictionary_apply ::
  "xpc_object option \<Rightarrow> (string \<Rightarrow> nat \<Rightarrow> 'c \<Rightarrow> int \<times> 'c) option \<Rightarrow> 'c \<Rightarrow> int \<times> 'c" where
  "catbsd_xpc_dictionary_apply d fn ctx =
     (case (d, fn) of
        (Some obj, Some f) \<Rightarrow> apply_loop f (map (\<lambda>(k, v). (k, xpc_type v)) (entries obj)) 0 ctx
      | _ \<Rightarrow> (CATBSD_XPC_EINVAL, ctx))"

definition catbsd_xpc_message_get_id :: "xpc_object option \<Rightarrow> u64" where
  "catbsd_xpc_message_get_id msg = (case msg of None \<Rightarrow> 0 | Some d \<Rightarrow> msg_id d)"

definition catbsd_xpc_message_is_reply :: "xpc_object option \<Rightarrow> bool" where
  "catbsd_xpc_message_is_reply msg = (case msg of None \<Rightarrow> False | Some d \<Rightarrow> is_reply d)"

section \<open>The entry list is a keyed store\<close>

definition keys_ok :: "xpc_entries \<Rightarrow> bool" where
  "keys_ok es = distinct (map fst es)"

lemma entry_find_map_of: "entry_find es = map_of es"
  by (rule ext) (induction es; auto)

lemma entry_put_update: "entry_put k v es = AList.update k v es"
  by (induction es) auto

lemma entry_remove_absent: "entry_find es k = None \<Longrightarrow> entry_remove k es = es"
  by (induction es) (auto split: if_splits)

lemma entry_remove_delete: "distinct (map fst es) \<Longrightarrow> entry_remove k es = AList.delete k es"
  by (induction es) (auto split: if_splits)

interpretation entry_store: removable_store entry_find entry_put keys_ok entry_remove
  by unfold_locales
    (simp_all add: keys_ok_def entry_find_map_of entry_put_update entry_remove_delete
      update_conv' delete_conv' distinct_update distinct_delete)

lemma entry_put_fresh: "k \<notin> fst ` set es \<Longrightarrow> entry_put k v es = es @ [(k, v)]"
  by (induction es) auto

text \<open>Replacing keeps the position of the key; a new key goes to the end.\<close>

lemma keys_entry_put:
  "map fst (entry_put k v es) = (if k \<in> fst ` set es then map fst es else map fst es @ [k])"
  by (induction es) (auto split: if_splits)

lemma length_entry_put:
  "length (entry_put k v es) = length es + (if entry_find es k = None then 1 else 0)"
  by (induction es) (auto split: if_splits)

lemma length_entry_remove:
  "length es = length (entry_remove k es) + (if entry_find es k = None then 0 else 1)"
  by (induction es) (auto split: if_splits)

lemma set_entry_put: "set (entry_put k v es) \<subseteq> insert (k, v) (set es)"
  by (induction es) (auto split: if_splits)

lemma set_entry_put_self: "(k, v) \<in> set (entry_put k v es)"
  by (induction es) auto

lemma set_entry_remove: "set (entry_remove k es) \<subseteq> set es"
  by (induction es) (auto split: if_splits)

section \<open>Well-formed objects\<close>

text \<open>What every entry satisfies: the key is a C string that fits its 16-bit length field, and a
  string or data value is at most one message long.\<close>

definition entry_ok :: "string \<times> xpc_value \<Rightarrow> bool" where
  "entry_ok e =
     (nul_free (fst e) \<and> length (fst e) \<le> 65535 \<and>
      (case snd e of XString bs \<Rightarrow> length bs \<le> CATBSD_XPC_MAX_MESSAGE
         | XData bs \<Rightarrow> length bs \<le> CATBSD_XPC_MAX_MESSAGE | _ \<Rightarrow> True))"

definition object_ok :: "xpc_object \<Rightarrow> bool" where
  "object_ok d = (keys_ok (entries d) \<and> (\<forall>e \<in> set (entries d). entry_ok e))"

lemma object_ok_create: "object_ok (catbsd_xpc_dictionary_create \<lparr>msg_id := i, is_reply := r\<rparr>)"
  by (simp add: object_ok_def catbsd_xpc_dictionary_create_def keys_ok_def)

lemma object_ok_put:
  "object_ok d \<Longrightarrow> entry_ok (k, v) \<Longrightarrow> object_ok (put_entry d k v)"
  using set_entry_put [of k v "entries d"] entry_store.ok_insert [of "entries d" k v]
  by (auto simp: object_ok_def put_entry_def)

text \<open>The setters all end in \<open>put_entry\<close> or leave the object alone.\<close>

definition c_key :: "string option \<Rightarrow> bool" where
  "c_key key = (case key of None \<Rightarrow> True | Some k \<Rightarrow> nul_free k)"

lemma set_scalar_ok:
  "object_ok d \<Longrightarrow> c_key key \<Longrightarrow> (\<And>k. key = Some k \<Longrightarrow> length k \<le> 65535 \<Longrightarrow> entry_ok (k, v)) \<Longrightarrow>
   set_scalar (Some d) key v = (rc, Some d') \<Longrightarrow> object_ok d'"
  by (auto simp: set_scalar_def valid_key_def intro!: object_ok_put split: if_splits option.splits)

lemma set_bytes_ok:
  "object_ok d \<Longrightarrow> nul_free k \<Longrightarrow> length k \<le> 65535 \<Longrightarrow> con = XString \<or> con = XData \<Longrightarrow>
   dictionary_set_bytes d k con bs = (rc, d') \<Longrightarrow> object_ok d'"
  by (auto simp: dictionary_set_bytes_def entry_ok_def intro!: object_ok_put split: if_splits)

end
