(* ===== verification/Xpc_Wire.thy ===== *)
theory Xpc_Wire
  imports Xpc_Object
begin

text \<open>
  The wire format of \<^verbatim>\<open>src/src/darwin-compat/shims/xpc_shim.c\<close>: the little-endian integer
  codecs, \<^verbatim>\<open>catbsd_xpc_serialize\<close> and \<^verbatim>\<open>catbsd_xpc_deserialize\<close>.

  Every read of the parser goes through \<open>read_at\<close>, which fails outside the buffer; such a
  failure is the result \<open>DFault\<close>, so that memory safety is the theorem that the parser never
  returns it.
\<close>

section \<open>Little-endian integers\<close>

text \<open>\<open>byte_at k v\<close> is \<^verbatim>\<open>(unsigned char)((v >> k) & 0xFF)\<close> and \<open>at_byte k b\<close> is
  \<^verbatim>\<open>(uintN_t)b << k\<close>.\<close>

definition byte_at :: "nat \<Rightarrow> 'a::len word \<Rightarrow> byte" where
  "byte_at k v = ucast (drop_bit k v AND 0xFF)"

definition at_byte :: "nat \<Rightarrow> byte \<Rightarrow> 'a::len word" where
  "at_byte k b = push_bit k (ucast b)"

definition put_u8 :: "byte \<Rightarrow> byte list" where
  "put_u8 v = [v]"

definition put_u16 :: "u16 \<Rightarrow> byte list" where
  "put_u16 v = [byte_at 0 v, byte_at 8 v]"

definition put_u32 :: "u32 \<Rightarrow> byte list" where
  "put_u32 v = [byte_at 0 v, byte_at 8 v, byte_at 16 v, byte_at 24 v]"

definition put_u64 :: "u64 \<Rightarrow> byte list" where
  "put_u64 v = map (\<lambda>i. byte_at (8 * i) v) [0..<8]"

definition get_u8 :: "byte list \<Rightarrow> byte" where
  "get_u8 p = p ! 0"

definition get_u16 :: "byte list \<Rightarrow> u16" where
  "get_u16 p = at_byte 0 (p ! 0) OR at_byte 8 (p ! 1)"

definition get_u32 :: "byte list \<Rightarrow> u32" where
  "get_u32 p =
     at_byte 0 (p ! 0) OR at_byte 8 (p ! 1) OR at_byte 16 (p ! 2) OR at_byte 24 (p ! 3)"

definition get_u64 :: "byte list \<Rightarrow> u64" where
  "get_u64 p = fold (\<lambda>i v. v OR at_byte (8 * i) (p ! i)) [0..<8] 0"

lemma bit_byte_at: "bit (byte_at k v) n \<longleftrightarrow> n < 8 \<and> bit v (k + n)"
proof -
  have eq: "(255 :: 'a word) = mask 8" by (simp add: mask_eq_exp_minus_1)
  show ?thesis
    unfolding byte_at_def eq
    by (auto simp: bit_simps dest: bit_imp_le_length)
qed

lemma bit_at_byte:
  "bit (at_byte k (byte_at k v) :: 'a::len word) n \<longleftrightarrow>
     k \<le> n \<and> n < k + 8 \<and> bit (v :: 'a word) n"
  by (auto simp: at_byte_def bit_byte_at bit_simps dest: bit_imp_le_length)

lemma length_put [simp]:
  "length (put_u8 b) = 1" "length (put_u16 h) = 2" "length (put_u32 w) = 4" "length (put_u64 q) = 8"
  by (simp_all add: put_u8_def put_u16_def put_u32_def put_u64_def)

lemmas byte_bits = bit_at_byte bit_or_iff

lemma get_put_u16: "get_u16 (put_u16 v @ r) = v"
  by (rule bit_word_eqI) (simp add: get_u16_def put_u16_def byte_bits, linarith)

lemma get_put_u32: "get_u32 (put_u32 v @ r) = v"
  by (rule bit_word_eqI) (simp add: get_u32_def put_u32_def byte_bits, linarith)

lemma upt_8: "[0..<8] = [0, 1, 2, 3, 4, 5, 6, 7 :: nat]"
  by (simp add: upt_rec)

lemma get_put_u64: "get_u64 (put_u64 v @ r) = v"
  by (rule bit_word_eqI) (simp add: get_u64_def put_u64_def upt_8 byte_bits, linarith)

interpretation u8: codec put_u8 get_u8 1
  by unfold_locales (simp_all add: put_u8_def get_u8_def)

interpretation u16: codec put_u16 get_u16 2
  by unfold_locales (simp_all add: get_put_u16)

interpretation u32: codec put_u32 get_u32 4
  by unfold_locales (simp_all add: get_put_u32)

interpretation u64: codec put_u64 get_u64 8
  by unfold_locales (simp_all add: get_put_u64)

section \<open>Serialization\<close>

definition XPC_HEADER_SIZE :: nat where "XPC_HEADER_SIZE = 24"

text \<open>The magic \<^verbatim>\<open>CXP1\<close>.\<close>

definition XPC_MAGIC :: "byte list" where "XPC_MAGIC = [0x43, 0x58, 0x50, 0x31]"

definition XPC_FLAG_REPLY :: u32 where "XPC_FLAG_REPLY = 1"

definition value_size :: "xpc_value \<Rightarrow> nat" where
  "value_size v =
     (case v of
        XBool _ \<Rightarrow> 1 | XInt64 _ \<Rightarrow> 8 | XUint64 _ \<Rightarrow> 8 | XDouble _ \<Rightarrow> 8
      | XString bs \<Rightarrow> 4 + length bs | XData bs \<Rightarrow> 4 + length bs)"

text \<open>A key is stored as a C string, so \<^verbatim>\<open>strlen(e->key)\<close> is its length.\<close>

fun payload_size :: "xpc_entries \<Rightarrow> nat" where
  "payload_size [] = 0"
| "payload_size ((k, v) # es) = 2 + length k + 1 + value_size v + payload_size es"

definition put_value :: "xpc_value \<Rightarrow> byte list" where
  "put_value v =
     (case v of
        XBool b \<Rightarrow> put_u8 (if b then 1 else 0)
      | XInt64 i \<Rightarrow> put_u64 i
      | XUint64 u \<Rightarrow> put_u64 u
      | XDouble bits \<Rightarrow> put_u64 bits
      | XString bs \<Rightarrow> put_u32 (of_nat (length bs)) @ bs
      | XData bs \<Rightarrow> put_u32 (of_nat (length bs)) @ bs)"

definition put_pair :: "string \<Rightarrow> xpc_value \<Rightarrow> byte list" where
  "put_pair k v =
     put_u16 (of_nat (length k)) @ to_bytes k @ put_u8 (of_nat (xpc_type v)) @ put_value v"

fun put_entries :: "xpc_entries \<Rightarrow> byte list" where
  "put_entries [] = []"
| "put_entries ((k, v) # es) = put_pair k v @ put_entries es"

definition put_header :: "xpc_object \<Rightarrow> nat \<Rightarrow> byte list" where
  "put_header d payload =
     XPC_MAGIC @ put_u32 (of_nat payload) @ put_u64 (msg_id d) @
     put_u32 (if is_reply d then XPC_FLAG_REPLY else 0) @ put_u32 (of_nat (length (entries d)))"

text \<open>The return code and the frame; the two output pointers are taken to be non-\<^verbatim>\<open>NULL\<close>.\<close>

definition catbsd_xpc_serialize :: "xpc_object option \<Rightarrow> int \<times> byte list option" where
  "catbsd_xpc_serialize obj =
     (case obj of
        None \<Rightarrow> (CATBSD_XPC_EINVAL, None)
      | Some d \<Rightarrow>
          (let payload = payload_size (entries d) in
           if CATBSD_XPC_MAX_MESSAGE < XPC_HEADER_SIZE + payload then (CATBSD_XPC_EPROTO, None)
           else (CATBSD_XPC_SUCCESS, Some (put_header d payload @ put_entries (entries d)))))"

section \<open>Deserialization\<close>

datatype 'a dres = DFault | DBad | DOk 'a

fun dbind :: "'a dres \<Rightarrow> ('a \<Rightarrow> 'b dres) \<Rightarrow> 'b dres" where
  "dbind DFault f = DFault"
| "dbind DBad f = DBad"
| "dbind (DOk x) f = f x"

text \<open>A read at an offset, and a bounds check of the code.\<close>

definition dread :: "nat \<Rightarrow> (byte list \<Rightarrow> 'a) \<Rightarrow> byte list \<Rightarrow> nat \<Rightarrow> 'a dres" where
  "dread w dec p off = (case read_at w dec p off of None \<Rightarrow> DFault | Some x \<Rightarrow> DOk x)"

definition dguard :: "bool \<Rightarrow> 'a dres \<Rightarrow> 'a dres" where
  "dguard ok r = (if ok then r else DBad)"

definition dset :: "int \<times> xpc_object option \<Rightarrow> nat \<Rightarrow> (xpc_object \<times> nat) dres" where
  "dset r off =
     (case r of (rc, obj) \<Rightarrow>
        if rc \<noteq> CATBSD_XPC_SUCCESS then DBad
        else (case obj of None \<Rightarrow> DBad | Some d \<Rightarrow> DOk (d, off)))"

text \<open>The body of the type switch.  \<open>p\<close> is the buffer from the payload on; the result is the
  object and the offset of the next entry.\<close>

definition get_value ::
  "byte list \<Rightarrow> nat \<Rightarrow> string \<Rightarrow> nat \<Rightarrow> xpc_object \<Rightarrow> nat \<Rightarrow> (xpc_object \<times> nat) dres" where
  "get_value p payload key type d off =
     (if type = 1 then
        dguard (off + 1 \<le> payload)
          (dbind (dread 1 get_u8 p off)
             (\<lambda>b. dset (catbsd_xpc_dictionary_set_bool (Some d) (Some key) (int (unat b))) (off + 1)))
      else if type = 2 then
        dguard (off + 8 \<le> payload)
          (dbind (dread 8 get_u64 p off)
             (\<lambda>i. dset (catbsd_xpc_dictionary_set_int64 (Some d) (Some key) i) (off + 8)))
      else if type = 3 then
        dguard (off + 8 \<le> payload)
          (dbind (dread 8 get_u64 p off)
             (\<lambda>u. dset (catbsd_xpc_dictionary_set_uint64 (Some d) (Some key) u) (off + 8)))
      else if type = 4 then
        dguard (off + 8 \<le> payload)
          (dbind (dread 8 get_u64 p off)
             (\<lambda>bits. dset (catbsd_xpc_dictionary_set_double (Some d) (Some key) bits) (off + 8)))
      else if type = 5 \<or> type = 6 then
        dguard (off + 4 \<le> payload)
          (dbind (dread 4 get_u32 p off)
             (\<lambda>vlen. dguard (unat vlen \<le> payload - (off + 4))
                (dbind (dread (unat vlen) (take (unat vlen)) p (off + 4))
                   (\<lambda>bytes.
                      dset (map_prod id Some
                              (dictionary_set_bytes d key (if type = 5 then XString else XData) bytes))
                        (off + 4 + unat vlen)))))
      else DBad)"

text \<open>One iteration of the entry loop.  The key buffer is NUL-terminated and used as a C string.\<close>

definition get_entry ::
  "byte list \<Rightarrow> nat \<Rightarrow> xpc_object \<Rightarrow> nat \<Rightarrow> (xpc_object \<times> nat) dres" where
  "get_entry p payload d off =
     dguard (off + 2 \<le> payload)
       (dbind (dread 2 get_u16 p off)
          (\<lambda>klen. dguard (off + 2 + unat klen + 1 \<le> payload \<and> klen \<noteq> 0)
             (dbind (dread (unat klen) (take (unat klen)) p (off + 2))
                (\<lambda>key. dbind (dread 1 get_u8 p (off + 2 + unat klen))
                   (\<lambda>type. get_value p payload (c_str (of_bytes key)) (unat type) d
                               (off + 2 + unat klen + 1))))))"

fun get_entries ::
  "nat \<Rightarrow> byte list \<Rightarrow> nat \<Rightarrow> xpc_object \<Rightarrow> nat \<Rightarrow> xpc_object dres" where
  "get_entries 0 p payload d off = DOk d"
| "get_entries (Suc count) p payload d off =
     dbind (get_entry p payload d off) (\<lambda>(d', off'). get_entries count p payload d' off')"

text \<open>\<open>len\<close> is the length the caller claims; the bytes there are to be read are those of \<open>buf\<close>.\<close>

definition catbsd_xpc_deserialize :: "byte list option \<Rightarrow> nat \<Rightarrow> xpc_object dres" where
  "catbsd_xpc_deserialize buf len =
     (case buf of
        None \<Rightarrow> DBad
      | Some p \<Rightarrow>
          dguard (XPC_HEADER_SIZE \<le> len)
            (dbind (dread 4 (take 4) p 0)
               (\<lambda>magic. dguard (magic = XPC_MAGIC)
                  (dbind (dread 4 get_u32 p 4)
                     (\<lambda>payload. dguard (unat payload + XPC_HEADER_SIZE \<le> len)
                        (dbind (dread 4 get_u32 p 20)
                           (\<lambda>count. dbind (dread 8 get_u64 p 8)
                              (\<lambda>id. dbind (dread 4 get_u32 p 16)
                                 (\<lambda>flags.
                                    get_entries (unat count) (drop XPC_HEADER_SIZE p) (unat payload)
                                      (catbsd_xpc_dictionary_create
                                         \<lparr>msg_id := id, is_reply := (flags AND XPC_FLAG_REPLY \<noteq> 0)\<rparr>)
                                      0))))))))) "

section \<open>The parser stays inside its buffer and builds well-formed objects\<close>

definition dsafe :: "('a \<Rightarrow> bool) \<Rightarrow> 'a dres \<Rightarrow> bool" where
  "dsafe P r = (case r of DFault \<Rightarrow> False | DBad \<Rightarrow> True | DOk x \<Rightarrow> P x)"

lemma dsafe_simps [simp]: "\<not> dsafe P DFault" "dsafe P DBad" "dsafe P (DOk x) = P x"
  by (simp_all add: dsafe_def)

lemma dsafe_bind: "dsafe P r \<Longrightarrow> (\<And>x. P x \<Longrightarrow> dsafe Q (f x)) \<Longrightarrow> dsafe Q (dbind r f)"
  by (cases r) auto

lemma dsafe_mono: "dsafe P r \<Longrightarrow> (\<And>x. P x \<Longrightarrow> Q x) \<Longrightarrow> dsafe Q r"
  by (cases r) auto

lemma dsafe_guard: "(ok \<Longrightarrow> dsafe P r) \<Longrightarrow> dsafe P (dguard ok r)"
  by (simp add: dguard_def)

lemma dsafe_read: "off + w \<le> length p \<Longrightarrow> P (dec (drop off p)) \<Longrightarrow> dsafe P (dread w dec p off)"
  by (simp add: dread_def read_at_def)

lemma dsafe_read_bind:
  "off + w \<le> length p \<Longrightarrow> dsafe Q (f (dec (drop off p))) \<Longrightarrow> dsafe Q (dbind (dread w dec p off) f)"
  by (simp add: dread_def read_at_def)

text \<open>Two facts at once: no fault, and the next offset and object are good.\<close>

definition entry_post :: "nat \<Rightarrow> nat \<Rightarrow> xpc_object \<times> nat \<Rightarrow> bool" where
  "entry_post payload off r = (object_ok (fst r) \<and> off \<le> snd r \<and> snd r \<le> payload)"

lemma dset_safe:
  "(\<And>rc d'. r = (rc, Some d') \<Longrightarrow> object_ok d') \<Longrightarrow> off \<le> off' \<Longrightarrow> off' \<le> payload \<Longrightarrow>
   dsafe (entry_post payload off) (dset r off')"
  by (auto simp: dset_def entry_post_def split: prod.splits option.splits)

lemma scalar_entry_ok:
  "nul_free k \<Longrightarrow> length k \<le> 65535 \<Longrightarrow> (\<forall>bs. v \<noteq> XString bs \<and> v \<noteq> XData bs) \<Longrightarrow> entry_ok (k, v)"
  by (auto simp: entry_ok_def split: xpc_value.splits)

lemma set_scalar_object_ok:
  "object_ok d \<Longrightarrow> nul_free k \<Longrightarrow> (\<forall>bs. v \<noteq> XString bs \<and> v \<noteq> XData bs) \<Longrightarrow>
   set_scalar (Some d) (Some k) v = (rc, Some d') \<Longrightarrow> object_ok d'"
  by (rule set_scalar_ok [of d "Some k" v]) (auto simp: c_key_def scalar_entry_ok)

lemmas setter_defs = catbsd_xpc_dictionary_set_bool_def catbsd_xpc_dictionary_set_int64_def
  catbsd_xpc_dictionary_set_uint64_def catbsd_xpc_dictionary_set_double_def

lemma scalar_branch_safe:
  assumes "payload \<le> length p" "object_ok d" "nul_free key"
    and "\<And>x bs. con x \<noteq> XString bs \<and> con x \<noteq> XData bs"
  shows "dsafe (entry_post payload off)
           (dguard (off + w \<le> payload)
              (dbind (dread w dec p off)
                 (\<lambda>x. dset (set_scalar (Some d) (Some key) (con x)) (off + w))))"
proof (rule dsafe_guard)
  assume "off + w \<le> payload"
  then show "dsafe (entry_post payload off)
      (dbind (dread w dec p off) (\<lambda>x. dset (set_scalar (Some d) (Some key) (con x)) (off + w)))"
    using assms by (intro dsafe_read_bind dset_safe) (auto intro: set_scalar_object_ok)
qed

lemma bytes_branch_safe:
  assumes "payload \<le> length p" "object_ok d" "nul_free key" "length key \<le> 65535"
    and "con = XString \<or> con = XData"
  shows "dsafe (entry_post payload off)
          (dguard (off + 4 \<le> payload)
             (dbind (dread 4 get_u32 p off)
               (\<lambda>vlen. dguard (unat vlen \<le> payload - (off + 4))
                  (dbind (dread (unat vlen) (take (unat vlen)) p (off + 4))
                     (\<lambda>bytes. dset (map_prod id Some (dictionary_set_bytes d key con bytes))
                                (off + 4 + unat vlen))))))"
proof (rule dsafe_guard, rule dsafe_read_bind)
  assume le: "off + 4 \<le> payload"
  then show "off + 4 \<le> length p" using assms by simp
  let ?n = "unat (get_u32 (drop off p))"
  show "dsafe (entry_post payload off)
          (dguard (?n \<le> payload - (off + 4))
             (dbind (dread ?n (take ?n) p (off + 4))
               (\<lambda>bytes. dset (map_prod id Some (dictionary_set_bytes d key con bytes)) (off + 4 + ?n))))"
  proof (rule dsafe_guard, rule dsafe_read_bind)
    assume "?n \<le> payload - (off + 4)"
    then show "off + 4 + ?n \<le> length p" using le assms by simp
    show "dsafe (entry_post payload off)
            (dset (map_prod id Some (dictionary_set_bytes d key con (take ?n (drop (off + 4) p))))
               (off + 4 + ?n))"
    proof (rule dset_safe)
      show "off + 4 + ?n \<le> payload" using \<open>?n \<le> payload - (off + 4)\<close> le by simp
    next
      fix rc d'
      assume "map_prod id Some (dictionary_set_bytes d key con (take ?n (drop (off + 4) p))) =
        (rc, Some d')"
      then have "dictionary_set_bytes d key con (take ?n (drop (off + 4) p)) = (rc, d')"
        by (cases "dictionary_set_bytes d key con (take ?n (drop (off + 4) p))") simp
      then show "object_ok d'" using assms set_bytes_ok by blast
    qed simp
  qed
qed

lemma get_value_safe:
  assumes "payload \<le> length p" "object_ok d" "nul_free key" "length key \<le> 65535"
  shows "dsafe (entry_post payload off) (get_value p payload key type d off)"
proof -
  note scalar = scalar_branch_safe [OF assms(1-3)]
  consider "type = 1" | "type = 2" | "type = 3" | "type = 4" | "type = 5 \<or> type = 6"
    | "type = 0 \<or> 6 < type" by linarith
  then show ?thesis
  proof cases
    case 1
    then show ?thesis
      using scalar [of "\<lambda>b :: byte. XBool (int (unat b) \<noteq> 0)" off 1 get_u8]
      by (simp add: get_value_def setter_defs)
  next
    case 5
    then show ?thesis
      using bytes_branch_safe [OF assms, of "if type = 5 then XString else XData" off]
      by (auto simp: get_value_def)
  qed (auto simp: get_value_def setter_defs intro: scalar)
qed

lemma c_str_of_take: "length (c_str (of_bytes (take n bs))) \<le> n"
  by (rule order_trans [OF c_str_length]) (simp add: of_bytes_def)

lemma u16_bound: "unat (w :: u16) \<le> 65535"
proof -
  have "unat w < 2 ^ LENGTH(16)" by (rule unsigned_less)
  then show ?thesis by simp
qed

lemma get_entry_safe:
  assumes "payload \<le> length p" "object_ok d"
  shows "dsafe (entry_post payload off) (get_entry p payload d off)"
  unfolding get_entry_def
proof (rule dsafe_guard, rule dsafe_read_bind)
  assume "off + 2 \<le> payload"
  then show "off + 2 \<le> length p" using assms by simp
  let ?k = "get_u16 (drop off p)"
  let ?key = "take (unat ?k) (drop (off + 2) p)"
  show "dsafe (entry_post payload off)
     (dguard (off + 2 + unat ?k + 1 \<le> payload \<and> ?k \<noteq> 0)
       (dbind (dread (unat ?k) (take (unat ?k)) p (off + 2))
          (\<lambda>key. dbind (dread 1 get_u8 p (off + 2 + unat ?k))
             (\<lambda>type. get_value p payload (c_str (of_bytes key)) (unat type) d
                         (off + 2 + unat ?k + 1)))))"
  proof (rule dsafe_guard, rule dsafe_read_bind)
    assume le: "off + 2 + unat ?k + 1 \<le> payload \<and> ?k \<noteq> 0"
    then show "off + 2 + unat ?k \<le> length p" using assms by simp
    show "dsafe (entry_post payload off)
       (dbind (dread 1 get_u8 p (off + 2 + unat ?k))
          (\<lambda>type. get_value p payload (c_str (of_bytes ?key)) (unat type) d
                      (off + 2 + unat ?k + 1)))"
    proof (rule dsafe_read_bind)
      show "off + 2 + unat ?k + 1 \<le> length p" using le assms by simp
      have "length (c_str (of_bytes ?key)) \<le> 65535"
        using c_str_of_take [of "unat ?k" "drop (off + 2) p"] u16_bound [of ?k] by linarith
      then have "dsafe (entry_post payload (off + 2 + unat ?k + 1))
          (get_value p payload (c_str (of_bytes ?key)) type d (off + 2 + unat ?k + 1))" for type
        by (intro get_value_safe) (use assms in auto)
      then show "dsafe (entry_post payload off)
          (get_value p payload (c_str (of_bytes ?key))
             (unat (get_u8 (drop (off + 2 + unat ?k) p))) d (off + 2 + unat ?k + 1))"
        by (rule dsafe_mono) (auto simp: entry_post_def)
    qed
  qed
qed


lemma get_entries_safe:
  "payload \<le> length p \<Longrightarrow> object_ok d \<Longrightarrow> dsafe object_ok (get_entries n p payload d off)"
proof (induction n arbitrary: d off)
  case (Suc n)
  show ?case
    unfolding get_entries.simps
    by (rule dsafe_bind [OF get_entry_safe [OF Suc.prems]])
      (use Suc in \<open>auto simp: entry_post_def split: prod.splits\<close>)
qed simp

lemma deserialize_safe:
  assumes "len \<le> length p"
  shows "dsafe object_ok (catbsd_xpc_deserialize (Some p) len)"
proof -
  have "dsafe object_ok
      (get_entries n (drop XPC_HEADER_SIZE p) payload
        (catbsd_xpc_dictionary_create \<lparr>msg_id := i, is_reply := r\<rparr>) 0)"
    if "payload + XPC_HEADER_SIZE \<le> len" for n payload i r
    using that assms by (intro get_entries_safe object_ok_create) (simp add: XPC_HEADER_SIZE_def)
  then show ?thesis
    unfolding catbsd_xpc_deserialize_def option.case
    using assms
    by (intro dsafe_guard dsafe_read_bind) (simp_all add: XPC_HEADER_SIZE_def)
qed

section \<open>Round trip\<close>

text \<open>What a dictionary built with the setters satisfies, the size limit of a frame included.\<close>

definition pair_ok :: "string \<times> xpc_value \<Rightarrow> bool" where
  "pair_ok e = (entry_ok e \<and> fst e \<noteq> [])"

definition wire_ok :: "xpc_object \<Rightarrow> bool" where
  "wire_ok d =
     (keys_ok (entries d) \<and> (\<forall>e \<in> set (entries d). pair_ok e) \<and>
      XPC_HEADER_SIZE + payload_size (entries d) \<le> CATBSD_XPC_MAX_MESSAGE)"

lemma dread_enc:
  "off = length pre \<Longrightarrow> dread 1 get_u8 (pre @ put_u8 b @ post) off = DOk b"
  "off = length pre \<Longrightarrow> dread 2 get_u16 (pre @ put_u16 h @ post) off = DOk h"
  "off = length pre \<Longrightarrow> dread 4 get_u32 (pre @ put_u32 w @ post) off = DOk w"
  "off = length pre \<Longrightarrow> dread 8 get_u64 (pre @ put_u64 q @ post) off = DOk q"
  "off = length pre \<Longrightarrow> n = length bs \<Longrightarrow> dread n (take n) (pre @ bs @ post) off = DOk bs"
  by (simp_all only: dread_def u8.read_at_enc_offset u16.read_at_enc_offset
      u32.read_at_enc_offset u64.read_at_enc_offset option.case)
    (simp add: read_at_def)

lemma length_put_value [simp]: "length (put_value v) = value_size v"
  by (cases v) (simp_all add: put_value_def value_size_def)

lemma length_put_pair [simp]: "length (put_pair k v) = 2 + length k + 1 + value_size v"
  by (simp add: put_pair_def to_bytes_def)

lemma length_put_entries [simp]: "length (put_entries es) = payload_size es"
  by (induction es rule: put_entries.induct) simp_all

lemma unat_of_nat_u32: "n \<le> CATBSD_XPC_MAX_MESSAGE \<Longrightarrow> unat (of_nat n :: u32) = n"
  by (simp add: unat_of_nat CATBSD_XPC_MAX_MESSAGE_def)

lemma unat_of_nat_u16: "n \<le> 65535 \<Longrightarrow> unat (of_nat n :: u16) = n"
  by (simp add: unat_of_nat)

lemma set_scalar_valid:
  "k \<noteq> [] \<Longrightarrow> length k \<le> 65535 \<Longrightarrow>
   dset (set_scalar (Some d) (Some k) v) off = DOk (put_entry d k v, off)"
  by (simp add: set_scalar_def valid_key_def dset_def)

lemma set_bytes_valid:
  "length bs \<le> CATBSD_XPC_MAX_MESSAGE \<Longrightarrow>
   dset (map_prod id Some (dictionary_set_bytes d k con bs)) off = DOk (put_entry d k (con bs), off)"
  by (simp add: dictionary_set_bytes_def dset_def)

lemma get_value_put:
  assumes "pair_ok (k, v)" and "off = length pre" and "off + value_size v \<le> payload"
  shows "get_value (pre @ put_value v @ post) payload k (xpc_type v) d off =
           DOk (put_entry d k v, off + value_size v)"
proof -
  have k: "k \<noteq> []" "length k \<le> 65535" using assms(1) by (auto simp: pair_ok_def entry_ok_def)
  have bytes: "get_value (pre @ (put_u32 (of_nat (length bs)) @ bs) @ post) payload k t d off =
      DOk (put_entry d k (con bs), off + (4 + length bs))"
    if "length bs \<le> CATBSD_XPC_MAX_MESSAGE" "off + (4 + length bs) \<le> payload"
      and "t = 5 \<and> con = XString \<or> t = 6 \<and> con = XData" for bs t con
  proof -
    have "dread 4 get_u32 (pre @ put_u32 (of_nat (length bs)) @ bs @ post) off =
        DOk (of_nat (length bs))"
      by (rule dread_enc) (rule assms(2))
    moreover have "dread (length bs) (take (length bs))
        ((pre @ put_u32 (of_nat (length bs))) @ bs @ post) (off + 4) = DOk bs"
      by (rule dread_enc) (simp_all add: assms(2))
    ultimately show ?thesis
      using that by (auto simp: get_value_def dguard_def unat_of_nat_u32 set_bytes_valid add.assoc)
  qed
  show ?thesis
  proof (cases v)
    case (XBool b)
    then show ?thesis
      using assms(2,3) k dread_enc(1) [of off pre "if b then 1 else 0" post]
      by (simp add: get_value_def put_value_def value_size_def dguard_def setter_defs
          set_scalar_valid)
  next
    case (XString bs)
    then show ?thesis
      using bytes [of bs 5 XString] assms by (simp add: put_value_def value_size_def pair_ok_def entry_ok_def)
  next
    case (XData bs)
    then show ?thesis
      using bytes [of bs 6 XData] assms by (simp add: put_value_def value_size_def pair_ok_def entry_ok_def)
  qed (use assms k dread_enc(4) [of off pre _ post] in
      \<open>simp_all add: get_value_def put_value_def value_size_def dguard_def setter_defs
         set_scalar_valid pair_ok_def entry_ok_def\<close>)
qed

lemma get_entry_put:
  assumes "pair_ok (k, v)" and "off = length pre" and "off + length (put_pair k v) \<le> payload"
  shows "get_entry (pre @ put_pair k v @ post) payload d off =
           DOk (put_entry d k v, off + length (put_pair k v))"
proof -
  have k: "k \<noteq> []" "length k \<le> 65535" "nul_free k"
    using assms(1) by (auto simp: pair_ok_def entry_ok_def)
  let ?p = "pre @ put_pair k v @ post" and ?n = "of_nat (length k) :: u16"
  have n: "unat ?n = length k" using k by (simp add: unat_of_nat_u16)
  have "?n \<noteq> 0"
  proof
    assume "?n = 0"
    then have "unat ?n = 0" by simp
    with n k show False by simp
  qed
  have p1: "?p = pre @ put_u16 ?n @ (to_bytes k @ put_u8 (of_nat (xpc_type v)) @ put_value v @ post)"
    and p2: "?p = (pre @ put_u16 ?n) @ to_bytes k @ (put_u8 (of_nat (xpc_type v)) @ put_value v @ post)"
    and p3: "?p = (pre @ put_u16 ?n @ to_bytes k) @ put_u8 (of_nat (xpc_type v)) @ (put_value v @ post)"
    and p4: "?p = (pre @ put_u16 ?n @ to_bytes k @ put_u8 (of_nat (xpc_type v))) @ put_value v @ post"
    by (simp_all add: put_pair_def)
  have 1: "dread 2 get_u16 ?p off = DOk ?n"
    unfolding p1 by (rule dread_enc) (rule assms(2))
  have 2: "dread (length k) (take (length k)) ?p (off + 2) = DOk (to_bytes k)"
    unfolding p2 by (rule dread_enc) (simp_all add: assms(2) to_bytes_def)
  have 3: "dread 1 get_u8 ?p (off + 2 + length k) = DOk (of_nat (xpc_type v))"
    unfolding p3 by (rule dread_enc) (simp add: assms(2) to_bytes_def)
  have t: "unat (of_nat (xpc_type v) :: byte) = xpc_type v" by (cases v) simp_all
  have 4: "get_value ?p payload k (xpc_type v) d (off + 2 + length k + 1) =
      DOk (put_entry d k v, off + 2 + length k + 1 + value_size v)"
    unfolding p4
    by (rule get_value_put [OF assms(1)]) (use assms(2,3) in \<open>simp_all add: to_bytes_def\<close>)
  have 5: "dguard (off + 2 + unat ?n + 1 \<le> payload \<and> ?n \<noteq> 0) r = r" "dguard (off + 2 \<le> payload) r = r"
    for r :: "(xpc_object \<times> nat) dres"
    using assms(3) \<open>?n \<noteq> 0\<close> by (simp_all add: dguard_def n)
  have 6: "c_str (of_bytes (to_bytes k)) = k" using k by simp
  show ?thesis
    unfolding get_entry_def 1 dbind.simps 5 unfolding n 2 3 dbind.simps 6 t 4 length_put_pair
    by (simp only: add.assoc)
qed

lemma get_entries_put:
  assumes "\<forall>e \<in> set es. pair_ok e" and "distinct (map fst (entries d @ es))"
    and "length pre + payload_size es \<le> payload"
  shows "get_entries (length es) (pre @ put_entries es @ post) payload d (length pre) =
           DOk (d\<lparr>entries := entries d @ es\<rparr>)"
  using assms
proof (induction es arbitrary: d pre)
  case (Cons e es)
  obtain k v where e: "e = (k, v)" by (cases e)
  have fresh: "put_entry d k v = d\<lparr>entries := entries d @ [(k, v)]\<rparr>"
    using Cons.prems(2) by (auto simp: e put_entry_def intro!: arg_cong [OF entry_put_fresh])
  have "get_entry (pre @ put_pair k v @ put_entries es @ post) payload d (length pre) =
      DOk (put_entry d k v, length (pre @ put_pair k v))"
    using get_entry_put [of k v "length pre" pre payload "put_entries es @ post" d] Cons.prems
    by (simp add: e)
  moreover have "get_entries (length es) ((pre @ put_pair k v) @ put_entries es @ post) payload
      (put_entry d k v) (length (pre @ put_pair k v)) = DOk (d\<lparr>entries := entries d @ e # es\<rparr>)"
    using Cons.IH [of "put_entry d k v" "pre @ put_pair k v"] Cons.prems
    by (simp add: e fresh)
  ultimately show ?case by (simp add: e)
qed simp

lemma length_es_le: "length es \<le> payload_size es"
  by (induction es rule: payload_size.induct) auto

text \<open>The five reads of the header.\<close>

lemma header_reads:
  fixes d :: xpc_object
  assumes "buf = put_header d n @ rest"
  shows "dread 4 (take 4) buf 0 = DOk XPC_MAGIC"
    and "dread 4 get_u32 buf 4 = DOk (of_nat n)"
    and "dread 8 get_u64 buf 8 = DOk (msg_id d)"
    and "dread 4 get_u32 buf 16 = DOk (if is_reply d then XPC_FLAG_REPLY else 0)"
    and "dread 4 get_u32 buf 20 = DOk (of_nat (length (entries d)))"
    and "drop XPC_HEADER_SIZE buf = rest"
proof -
  let ?n = "put_u32 (of_nat n)" and ?i = "put_u64 (msg_id d)"
    and ?f = "put_u32 (if is_reply d then XPC_FLAG_REPLY else 0)"
    and ?c = "put_u32 (of_nat (length (entries d)))"
  have m: "length XPC_MAGIC = 4" by (simp add: XPC_MAGIC_def)
  have 0: "buf = [] @ XPC_MAGIC @ (?n @ ?i @ ?f @ ?c @ rest)"
    and 4: "buf = XPC_MAGIC @ ?n @ (?i @ ?f @ ?c @ rest)"
    and 8: "buf = (XPC_MAGIC @ ?n) @ ?i @ (?f @ ?c @ rest)"
    and 16: "buf = (XPC_MAGIC @ ?n @ ?i) @ ?f @ (?c @ rest)"
    and 20: "buf = (XPC_MAGIC @ ?n @ ?i @ ?f) @ ?c @ rest"
    by (simp_all add: assms put_header_def)
  show "dread 4 (take 4) buf 0 = DOk XPC_MAGIC" unfolding 0 by (rule dread_enc) (simp_all add: m)
  show "dread 4 get_u32 buf 4 = DOk (of_nat n)" unfolding 4 by (rule dread_enc) (simp add: m)
  show "dread 8 get_u64 buf 8 = DOk (msg_id d)" unfolding 8 by (rule dread_enc) (simp add: m)
  show "dread 4 get_u32 buf 16 = DOk (if is_reply d then XPC_FLAG_REPLY else 0)"
    unfolding 16 by (rule dread_enc) (simp add: m)
  show "dread 4 get_u32 buf 20 = DOk (of_nat (length (entries d)))"
    unfolding 20 by (rule dread_enc) (simp add: m)
  show "drop XPC_HEADER_SIZE buf = rest"
    unfolding 20 by (simp add: m XPC_HEADER_SIZE_def)
qed

lemma serialize_ok:
  "wire_ok d \<Longrightarrow>
   catbsd_xpc_serialize (Some d) =
     (CATBSD_XPC_SUCCESS, Some (put_header d (payload_size (entries d)) @ put_entries (entries d)))"
  by (simp add: catbsd_xpc_serialize_def wire_ok_def Let_def)

lemma length_put_header [simp]: "length (put_header d n) = XPC_HEADER_SIZE"
  by (simp add: put_header_def XPC_MAGIC_def XPC_HEADER_SIZE_def)

lemma deserialize_frame:
  assumes "wire_ok d"
    and "buf = put_header d (payload_size (entries d)) @ put_entries (entries d) @ extra"
  shows "catbsd_xpc_deserialize (Some buf) (length buf) = DOk (d\<lparr>refcount := 1\<rparr>)"
proof -
  let ?es = "entries d"
  have size: "payload_size ?es \<le> CATBSD_XPC_MAX_MESSAGE"
    using assms(1) by (auto simp: wire_ok_def)
  then have n: "unat (of_nat (payload_size ?es) :: u32) = payload_size ?es"
    "unat (of_nat (length ?es) :: u32) = length ?es"
    using length_es_le [of ?es] by (simp_all add: unat_of_nat_u32)
  have len: "length buf = XPC_HEADER_SIZE + payload_size ?es + length extra"
    by (simp add: assms(2))
  let ?d0 = "catbsd_xpc_dictionary_create\<lparr>msg_id := msg_id d, is_reply := is_reply d\<rparr>"
  have es: "get_entries (length ?es) (put_entries ?es @ extra) (payload_size ?es) ?d0 0 =
      DOk (?d0\<lparr>entries := ?es\<rparr>)"
    using get_entries_put [of ?es ?d0 "[]" "payload_size ?es" extra] assms(1)
    by (simp add: wire_ok_def keys_ok_def catbsd_xpc_dictionary_create_def)
  have flag: "((if is_reply d then XPC_FLAG_REPLY else 0) AND XPC_FLAG_REPLY \<noteq> 0) = is_reply d"
    by (simp add: XPC_FLAG_REPLY_def)
  have d: "?d0\<lparr>entries := ?es\<rparr> = d\<lparr>refcount := 1\<rparr>"
    by (simp add: catbsd_xpc_dictionary_create_def)
  have guards: "dguard (XPC_HEADER_SIZE \<le> length buf) r = r"
    "dguard (payload_size ?es + XPC_HEADER_SIZE \<le> length buf) r = r"
    "dguard (XPC_MAGIC = XPC_MAGIC) r = r" for r :: "xpc_object dres"
    by (simp_all add: dguard_def len)
  show ?thesis
    unfolding catbsd_xpc_deserialize_def option.case header_reads [OF assms(2)] dbind.simps n
      guards flag es d ..
qed

end
