(* ===== verification/Xpc_Describe.thy ===== *)
theory Xpc_Describe
  imports Xpc_Wire
begin

text \<open>
  \<^verbatim>\<open>catbsd_xpc_copy_description\<close> of \<^verbatim>\<open>xpc_shim.c\<close>, with its two buffers, and the dictionary
  API as a machine whose operations keep every dictionary transmissible.
\<close>

section \<open>Descriptions\<close>

text \<open>\<^verbatim>\<open>fmt_g\<close> is the \<^verbatim>\<open>%g\<close> conversion of the C library.\<close>

definition describe_entry :: "(double \<Rightarrow> string) \<Rightarrow> string \<times> xpc_value \<Rightarrow> string" where
  "describe_entry fmt_g e =
     ''  '' @ fst e @ '' => '' @
     (case snd e of
        XBool b \<Rightarrow> ''bool '' @ (if b then ''true'' else ''false'')
      | XInt64 i \<Rightarrow> ''int64 '' @ dec_int (sint i)
      | XUint64 u \<Rightarrow> ''uint64 '' @ dec_nat (unat u)
      | XDouble x \<Rightarrow> ''double '' @ fmt_g x
      | XString bs \<Rightarrow> ''string '' @ [CHR 0x22] @ take 200 (c_str (of_bytes bs)) @ [CHR 0x22]
      | XData bs \<Rightarrow> ''data ('' @ dec_nat (length bs) @ '' bytes)'') @ [CHR 0x0A]"

text \<open>The doubling of \<^verbatim>\<open>cap\<close>.\<close>

function grow_cap :: "nat \<Rightarrow> nat \<Rightarrow> nat" where
  "grow_cap cap need = (if cap = 0 \<or> need \<le> cap then cap else grow_cap (2 * cap) need)"
  by pat_completeness auto
termination by (relation "measure (\<lambda>(cap, need). need - cap)") auto

declare grow_cap.simps [simp del]

text \<open>\<open>line\<close> is the 512-byte buffer: \<^verbatim>\<open>snprintf\<close> returns the length the text would have, and that
  many bytes and the NUL are copied from it.\<close>

definition DESCRIBE_LINE :: nat where "DESCRIBE_LINE = 512"

fun describe_loop ::
  "(double \<Rightarrow> string) \<Rightarrow> xpc_entries \<Rightarrow> nat \<Rightarrow> string \<Rightarrow> string dres" where
  "describe_loop fmt_g [] cap out = DOk out"
| "describe_loop fmt_g (e # es) cap out =
     (let text = describe_entry fmt_g e;
          n = length text;
          line = snprintf_s DESCRIBE_LINE text @ [CHR 0x00];
          cap' = grow_cap cap (length out + n + 1) in
      if DESCRIBE_LINE < n + 1 then DFault
      else if cap' < length out + n + 1 then DFault
      else describe_loop fmt_g es cap' (out @ take n line))"

definition catbsd_xpc_copy_description ::
  "(double \<Rightarrow> string) \<Rightarrow> xpc_object option \<Rightarrow> string dres" where
  "catbsd_xpc_copy_description fmt_g obj =
     (case obj of
        None \<Rightarrow> DOk ''<null>''
      | Some d \<Rightarrow>
          describe_loop fmt_g (entries d) 256
            (''<xpc dictionary: '' @ dec_nat (length (entries d)) @ '' entries>'' @ [CHR 0x0A]))"

lemma grow_cap_enough: "0 < cap \<Longrightarrow> need \<le> grow_cap cap need"
proof (induction cap need rule: grow_cap.induct)
  case (1 cap need)
  then show ?case by (cases "need \<le> cap") (auto simp: grow_cap.simps [of cap need])
qed

lemma grow_cap_pos: "0 < cap \<Longrightarrow> 0 < grow_cap cap need"
proof (induction cap need rule: grow_cap.induct)
  case (1 cap need)
  then show ?case by (cases "need \<le> cap") (auto simp: grow_cap.simps [of cap need])
qed

lemma describe_loop_result:
  "0 < cap \<Longrightarrow>
   describe_loop fmt_g es cap out =
     (if \<forall>e \<in> set es. length (describe_entry fmt_g e) < DESCRIBE_LINE
      then DOk (out @ concat (map (describe_entry fmt_g) es)) else DFault)"
proof (induction es arbitrary: cap out)
  case (Cons e es)
  let ?need = "length out + length (describe_entry fmt_g e) + 1"
  have "?need \<le> grow_cap cap ?need" "0 < grow_cap cap ?need"
    using Cons.prems by (simp_all only: grow_cap_enough grow_cap_pos)
  then show ?case
    using Cons.IH [of "grow_cap cap ?need" "out @ describe_entry fmt_g e"]
    by (auto simp: Let_def not_less)
qed simp

lemma copy_description_result:
  "catbsd_xpc_copy_description fmt_g (Some d) =
     (if \<forall>e \<in> set (entries d). length (describe_entry fmt_g e) < DESCRIBE_LINE
      then DOk (''<xpc dictionary: '' @ dec_nat (length (entries d)) @ '' entries>'' @ [CHR 0x0A] @
             concat (map (describe_entry fmt_g) (entries d)))
      else DFault)"
  by (simp add: catbsd_xpc_copy_description_def describe_loop_result)

lemma describe_entry_short:
  assumes "entry_ok e" "length (fst e) \<le> 255" "\<And>x. length (fmt_g x) \<le> 32"
  shows "length (describe_entry fmt_g e) < DESCRIBE_LINE"
proof -
  have dat: "length (dec_nat n) \<le> 7" if "n \<le> CATBSD_XPC_MAX_MESSAGE" for n
  proof -
    have "n < 10 ^ Suc 6" using that by (simp add: CATBSD_XPC_MAX_MESSAGE_def)
    then show ?thesis using dec_nat_length by fastforce
  qed
  show ?thesis
  proof (cases "snd e")
    case (XInt64 i)
    then show ?thesis using assms(2) dec_int_i64 [of i]
      by (simp add: describe_entry_def DESCRIBE_LINE_def)
  next
    case (XUint64 u)
    then show ?thesis using assms(2) dec_nat_u64 [of u]
      by (simp add: describe_entry_def DESCRIBE_LINE_def)
  next
    case (XDouble x)
    then show ?thesis using assms(2) assms(3) [of x]
      by (simp add: describe_entry_def DESCRIBE_LINE_def)
  next
    case (XData bs)
    then show ?thesis using assms(1,2) dat [of "length bs"]
      by (simp add: describe_entry_def DESCRIBE_LINE_def entry_ok_def)
  qed (use assms(2) in \<open>simp_all add: describe_entry_def DESCRIBE_LINE_def\<close>)
qed

section \<open>The dictionary API as a machine\<close>

text \<open>A call of a client; a key argument is a C string, so it is what precedes its NUL.\<close>

datatype dict_op =
    SetBool string int
  | SetInt64 string i64
  | SetUint64 string u64
  | SetDouble string double
  | SetString string string
  | SetData string "byte list"
  | Remove string

fun dict_call :: "dict_op \<Rightarrow> xpc_object option \<Rightarrow> int \<times> xpc_object option" where
  "dict_call (SetBool k b) d = catbsd_xpc_dictionary_set_bool d (Some (c_str k)) b"
| "dict_call (SetInt64 k i) d = catbsd_xpc_dictionary_set_int64 d (Some (c_str k)) i"
| "dict_call (SetUint64 k u) d = catbsd_xpc_dictionary_set_uint64 d (Some (c_str k)) u"
| "dict_call (SetDouble k x) d = catbsd_xpc_dictionary_set_double d (Some (c_str k)) x"
| "dict_call (SetString k s) d = catbsd_xpc_dictionary_set_string d (Some (c_str k)) (Some s)"
| "dict_call (SetData k bs) d =
     catbsd_xpc_dictionary_set_data d (Some (c_str k)) (Some bs) (length bs)"
| "dict_call (Remove k) d = catbsd_xpc_dictionary_remove d (Some (c_str k))"

definition dict_step :: "xpc_object option \<Rightarrow> dict_op \<Rightarrow> xpc_object option" where
  "dict_step d oper = snd (dict_call oper d)"

definition api_ok :: "xpc_object option \<Rightarrow> bool" where
  "api_ok obj =
     (case obj of None \<Rightarrow> False
      | Some d \<Rightarrow> keys_ok (entries d) \<and> (\<forall>e \<in> set (entries d). pair_ok e))"

lemma api_ok_put:
  "api_ok (Some d) \<Longrightarrow> pair_ok (k, v) \<Longrightarrow> api_ok (Some (put_entry d k v))"
  using set_entry_put [of k v "entries d"] entry_store.ok_insert [of "entries d" k v]
  by (auto simp: api_ok_def put_entry_def)

lemma api_ok_set_scalar:
  "api_ok d \<Longrightarrow> nul_free k \<Longrightarrow> (\<forall>bs. v \<noteq> XString bs \<and> v \<noteq> XData bs) \<Longrightarrow>
   api_ok (snd (set_scalar d (Some k) v))"
  by (cases d)
    (auto simp: set_scalar_def valid_key_def pair_ok_def scalar_entry_ok intro!: api_ok_put)

lemma api_ok_set_bytes:
  "api_ok (Some d) \<Longrightarrow> nul_free k \<Longrightarrow> valid_key (Some k) \<Longrightarrow> con = XString \<or> con = XData \<Longrightarrow>
   api_ok (Some (snd (dictionary_set_bytes d k con bs)))"
  by (auto simp: dictionary_set_bytes_def valid_key_def pair_ok_def entry_ok_def
      intro!: api_ok_put)

lemma api_ok_remove:
  "api_ok (Some d) \<Longrightarrow> api_ok (Some (d\<lparr>entries := entry_remove k (entries d)\<rparr>))"
  using set_entry_remove [of k "entries d"] entry_store.ok_remove [of "entries d" k]
  by (auto simp: api_ok_def)

lemma api_ok_step: "api_ok d \<Longrightarrow> api_ok (dict_step d oper)"
  by (cases oper; cases d)
    (auto simp: dict_step_def setter_defs catbsd_xpc_dictionary_set_string_def
      catbsd_xpc_dictionary_set_data_def catbsd_xpc_dictionary_remove_def
      intro!: api_ok_set_scalar api_ok_remove api_ok_set_bytes split: option.splits)

interpretation dict_machine: invariant_machine dict_step api_ok
  by unfold_locales (rule api_ok_step)

end
