(* ===== verification/Xpc_Io.thy ===== *)
theory Xpc_Io
  imports Xpc_Describe
begin

text \<open>
  The socket layer of \<^verbatim>\<open>xpc_shim.c\<close>: deadlines, \<^verbatim>\<open>io_write_full\<close>, \<^verbatim>\<open>io_read_full\<close> and
  \<^verbatim>\<open>frame_read\<close>.

  What the kernel answers is a list of events, one per system call: the model quantifies over
  these lists.  A call that finds no event left blocks for ever, which is the result \<open>None\<close>.
  Data is delivered as a stream: \<^verbatim>\<open>recv\<close> takes at most what it asked for from the chunk that is
  there and leaves the rest of the chunk for the next call.
\<close>

section \<open>Deadlines\<close>

text \<open>A clock reading is a pair of seconds and nanoseconds; an inactive deadline is \<open>None\<close>.\<close>

type_synonym timespec = "int \<times> int"

definition deadline_set :: "timespec \<Rightarrow> int \<Rightarrow> timespec option" where
  "deadline_set now timeout_ms =
     (if timeout_ms < 0 then None
      else let sec = fst now + timeout_ms div 1000;
               nsec = snd now + timeout_ms mod 1000 * 1000000
           in if 1000000000 \<le> nsec then Some (sec + 1, nsec - 1000000000) else Some (sec, nsec))"

text \<open>C division truncates towards zero.\<close>

definition c_quot :: "int \<Rightarrow> int \<Rightarrow> int" where
  "c_quot a b = sgn a * sgn b * (\<bar>a\<bar> div \<bar>b\<bar>)"

definition deadline_remaining_ms :: "timespec option \<Rightarrow> timespec \<Rightarrow> int" where
  "deadline_remaining_ms dl now =
     (case dl of
        None \<Rightarrow> -1
      | Some at \<Rightarrow>
          let ms = (fst at - fst now) * 1000 + c_quot (snd at - snd now) 1000000
          in if ms \<le> 0 then -2 else if 2147483647 < ms then 2147483647 else ms)"

section \<open>Writing\<close>

datatype tx_event = TxIntr | TxPipe | TxError | TxSent nat

text \<open>The return code, the bytes that were sent and the events that are left.  \<open>TxSent n\<close> accepts
  at most \<open>n\<close> of the bytes offered.\<close>

fun io_write_full :: "byte list \<Rightarrow> tx_event list \<Rightarrow> (int \<times> byte list \<times> tx_event list) option" where
  "io_write_full [] evs = Some (CATBSD_XPC_SUCCESS, [], evs)"
| "io_write_full buf [] = None"
| "io_write_full buf (TxIntr # evs) = io_write_full buf evs"
| "io_write_full buf (TxPipe # evs) = Some (CATBSD_XPC_ECLOSED, [], evs)"
| "io_write_full buf (TxError # evs) = Some (CATBSD_XPC_EIO, [], evs)"
| "io_write_full buf (TxSent n # evs) =
     (if n = 0 then Some (CATBSD_XPC_ECLOSED, [], evs)
      else map_option (\<lambda>(rc, sent, evs'). (rc, take n buf @ sent, evs'))
             (io_write_full (drop n buf) evs))"

section \<open>Reading\<close>

datatype rx_event =
    PollIntr | PollError | PollTimeout | RecvIntr | RecvReset | RecvError | RecvEof
  | RecvData "byte list"

text \<open>\<open>PollTimeout\<close> stands for both ways a deadline ends a wait: \<^verbatim>\<open>poll\<close> returned 0, or the
  deadline was over before the call.\<close>

function io_read_full ::
  "nat \<Rightarrow> rx_event list \<Rightarrow> (int \<times> byte list \<times> rx_event list) option" where
  "io_read_full need evs =
     (if need = 0 then Some (CATBSD_XPC_SUCCESS, [], evs)
      else case evs of
        [] \<Rightarrow> None
      | ev # evs' \<Rightarrow>
          (case ev of
             PollIntr \<Rightarrow> io_read_full need evs'
           | PollError \<Rightarrow> Some (CATBSD_XPC_EIO, [], evs')
           | PollTimeout \<Rightarrow> Some (CATBSD_XPC_ETIMEOUT, [], evs')
           | RecvIntr \<Rightarrow> io_read_full need evs'
           | RecvReset \<Rightarrow> Some (CATBSD_XPC_ECLOSED, [], evs')
           | RecvError \<Rightarrow> Some (CATBSD_XPC_EIO, [], evs')
           | RecvEof \<Rightarrow> Some (CATBSD_XPC_ECLOSED, [], evs')
           | RecvData bs \<Rightarrow>
               if bs = [] then Some (CATBSD_XPC_ECLOSED, [], evs')
               else if length bs \<le> need then
                 map_option (\<lambda>(rc, got, rest). (rc, bs @ got, rest))
                   (io_read_full (need - length bs) evs')
               else Some (CATBSD_XPC_SUCCESS, take need bs, RecvData (drop need bs) # evs')))"
  by pat_completeness auto
termination by (relation "measure (\<lambda>(need, evs). length evs)") auto

declare io_read_full.simps [simp del]

lemma io_read_full_0 [simp]: "io_read_full 0 evs = Some (CATBSD_XPC_SUCCESS, [], evs)"
  by (simp add: io_read_full.simps)

lemma io_read_full_Nil: "0 < need \<Longrightarrow> io_read_full need [] = None"
  by (simp add: io_read_full.simps)

lemma io_read_full_intr [simp]:
  "0 < need \<Longrightarrow> io_read_full need (PollIntr # evs) = io_read_full need evs"
  "0 < need \<Longrightarrow> io_read_full need (RecvIntr # evs) = io_read_full need evs"
  by (simp_all add: io_read_full.simps [of need "_ # _"])

lemma io_read_full_data:
  "0 < need \<Longrightarrow> bs \<noteq> [] \<Longrightarrow> io_read_full need (RecvData bs # evs) =
     (if length bs \<le> need then
        map_option (\<lambda>(rc, got, rest). (rc, bs @ got, rest)) (io_read_full (need - length bs) evs)
      else Some (CATBSD_XPC_SUCCESS, take need bs, RecvData (drop need bs) # evs))"
  by (simp add: io_read_full.simps [of need "_ # _"])

text \<open>The return code, the dictionary and the events left.  The two reads of a frame share one
  deadline.  \<open>CATBSD_XPC_ENOMEM\<close> does not occur, as allocation succeeds.\<close>

definition frame_read ::
  "rx_event list \<Rightarrow> (int \<times> xpc_object option \<times> rx_event list) option" where
  "frame_read evs =
     (case io_read_full XPC_HEADER_SIZE evs of
        None \<Rightarrow> None
      | Some (rc, header, evs') \<Rightarrow>
          if rc \<noteq> CATBSD_XPC_SUCCESS then Some (rc, None, evs')
          else if take 4 header \<noteq> XPC_MAGIC then Some (CATBSD_XPC_EPROTO, None, evs')
          else
            let payload = unat (get_u32 (drop 4 header)) in
            if CATBSD_XPC_MAX_MESSAGE < payload + XPC_HEADER_SIZE
            then Some (CATBSD_XPC_EPROTO, None, evs')
            else
              (case io_read_full payload evs' of
                 None \<Rightarrow> None
               | Some (rc2, body, evs'') \<Rightarrow>
                   if rc2 \<noteq> CATBSD_XPC_SUCCESS then Some (rc2, None, evs'')
                   else
                     (case catbsd_xpc_deserialize (Some (header @ body)) (XPC_HEADER_SIZE + payload) of
                        DOk obj \<Rightarrow> Some (CATBSD_XPC_SUCCESS, Some obj, evs'')
                      | _ \<Rightarrow> Some (CATBSD_XPC_EPROTO, None, evs''))))"

section \<open>Facts\<close>

lemma scale_le: "x * 1000000 \<le> t * 1000000 + 999999 \<Longrightarrow> x \<le> t" for x t :: int
  by simp

lemma deadline_bounds:
  assumes "0 \<le> snd now" "snd now < 1000000000" "0 \<le> snd now'" "snd now' < 1000000000"
    and "fst now < fst now' \<or> fst now = fst now' \<and> snd now \<le> snd now'"
    and "0 \<le> t" "deadline_remaining_ms (deadline_set now t) now' \<noteq> -2"
  shows "0 < deadline_remaining_ms (deadline_set now t) now'"
    and "deadline_remaining_ms (deadline_set now t) now' \<le> t"
proof -
  obtain s n s' n' where now: "now = (s, n)" "now' = (s', n')" by (metis surj_pair)
  obtain a where at: "deadline_set now t = Some a" using assms(6)
    by (cases "deadline_set now t") (auto simp: deadline_set_def Let_def split: if_splits)
  have sum: "fst a * 1000000000 + snd a = s * 1000000000 + n + t * 1000000"
  proof -
    have "t * 1000000 = (t div 1000) * 1000000000 + (t mod 1000) * 1000000"
      using div_mult_mod_eq [of t 1000] by linarith
    then show ?thesis
      using assms(6) at by (auto simp: deadline_set_def Let_def now split: if_splits)
  qed
  let ?d = "snd a - n'"
  have quot: "c_quot ?d 1000000 * 1000000 \<le> ?d + 999999"
    by (auto simp: c_quot_def sgn_if)
  have ord: "s * 1000000000 + n \<le> s' * 1000000000 + n'"
    using assms(1-5) by (auto simp: now)
  show "0 < deadline_remaining_ms (deadline_set now t) now'"
    using assms(7) by (auto simp: at deadline_remaining_ms_def Let_def split: if_splits)
  have "((fst a - s') * 1000 + c_quot ?d 1000000) * 1000000 \<le> t * 1000000 + 999999"
    using sum quot ord by (simp add: algebra_simps)
  then have "(fst a - s') * 1000 + c_quot ?d 1000000 \<le> t"
    by (rule scale_le)
  then show "deadline_remaining_ms (deadline_set now t) now' \<le> t"
    using assms(6) by (auto simp: now at [unfolded now] deadline_remaining_ms_def Let_def)
qed

text \<open>What was sent is a prefix of the buffer, and all of it when the code says so.\<close>

lemma io_write_full_prefix:
  "io_write_full buf evs = Some (rc, sent, evs') \<Longrightarrow>
   (\<exists>rest. buf = sent @ rest) \<and> (rc = CATBSD_XPC_SUCCESS \<longrightarrow> sent = buf) \<and>
   (rc = CATBSD_XPC_SUCCESS \<or> rc = CATBSD_XPC_ECLOSED \<or> rc = CATBSD_XPC_EIO)"
proof (induction buf evs arbitrary: rc sent evs' rule: io_write_full.induct)
  case (6 b bs n evs)
  let ?buf = "b # bs"
  show ?case
  proof (cases "n = 0")
    case False
    then obtain sent' where s: "io_write_full (drop n ?buf) evs = Some (rc, sent', evs')"
      "sent = take n ?buf @ sent'"
      using "6.prems" by (auto split: if_splits)
    from "6.IH" [OF False this(1)] obtain rest where "drop n ?buf = sent' @ rest"
      "rc = CATBSD_XPC_SUCCESS \<longrightarrow> sent' = drop n ?buf"
      "rc = CATBSD_XPC_SUCCESS \<or> rc = CATBSD_XPC_ECLOSED \<or> rc = CATBSD_XPC_EIO" by blast
    then show ?thesis using s(2) append_take_drop_id [of n ?buf] by (metis append.assoc)
  qed (use "6.prems" in \<open>auto simp: xpc_codes\<close>)
qed (auto simp: xpc_codes)

text \<open>Kernels that deliver data and interruptions, but no failure.\<close>

fun clean_event :: "rx_event \<Rightarrow> bool" where
  "clean_event PollIntr = True"
| "clean_event RecvIntr = True"
| "clean_event (RecvData bs) = (bs \<noteq> [])"
| "clean_event _ = False"

definition clean :: "rx_event list \<Rightarrow> bool" where
  "clean evs = (\<forall>e \<in> set evs. clean_event e)"

fun event_bytes :: "rx_event \<Rightarrow> byte list" where
  "event_bytes (RecvData bs) = bs"
| "event_bytes _ = []"

definition stream :: "rx_event list \<Rightarrow> byte list" where
  "stream evs = concat (map event_bytes evs)"

lemma clean_simps [simp]: "clean []" "clean (e # evs) = (clean_event e \<and> clean evs)"
  by (simp_all add: clean_def)

lemma stream_simps [simp]: "stream [] = []" "stream (e # evs) = event_bytes e @ stream evs"
  by (simp_all add: stream_def)

text \<open>However the bytes are cut into chunks, a read returns the next \<open>need\<close> of them.\<close>

lemma io_read_full_clean:
  "clean evs \<Longrightarrow> need \<le> length (stream evs) \<Longrightarrow>
   \<exists>evs'. io_read_full need evs = Some (CATBSD_XPC_SUCCESS, take need (stream evs), evs') \<and>
     stream evs' = drop need (stream evs) \<and> clean evs'"
proof (induction evs arbitrary: need)
  case (Cons e evs)
  show ?case
  proof (cases "need = 0")
    case False
    then have pos: "0 < need" by simp
    show ?thesis
    proof (cases e)
      case (RecvData bs)
      then have bs: "bs \<noteq> []" using Cons.prems by simp
      show ?thesis
      proof (cases "length bs \<le> need")
        case True
        then have "need - length bs \<le> length (stream evs)"
          using Cons.prems RecvData by simp
        with Cons.IH [of "need - length bs"] Cons.prems RecvData obtain evs' where
          "io_read_full (need - length bs) evs =
             Some (CATBSD_XPC_SUCCESS, take (need - length bs) (stream evs), evs')"
          "stream evs' = drop (need - length bs) (stream evs)" "clean evs'" by auto
        then show ?thesis using RecvData True pos bs by (auto simp: io_read_full_data)
      next
        case False
        then show ?thesis using RecvData pos bs Cons.prems by (auto simp: io_read_full_data)
      qed
    qed (use Cons pos in auto)
  qed (use Cons.prems in auto)
qed simp

definition frame :: "xpc_object \<Rightarrow> byte list" where
  "frame d = put_header d (payload_size (entries d)) @ put_entries (entries d)"

lemma serialize_frame:
  "wire_ok d \<Longrightarrow> catbsd_xpc_serialize (Some d) = (CATBSD_XPC_SUCCESS, Some (frame d))"
  by (simp add: serialize_ok frame_def)

lemma serialize_success:
  "catbsd_xpc_serialize (Some d) = (rc, Some buf) \<Longrightarrow> buf = frame d"
  by (auto simp: catbsd_xpc_serialize_def frame_def Let_def split: if_splits)

lemma take_drop_split: "n + m \<le> length xs \<Longrightarrow> take n xs @ take m (drop n xs) = take (n + m) xs"
  by (simp add: take_add)

lemma frame_read_frame:
  assumes "clean evs" "stream evs = frame d @ rest" "wire_ok d"
  shows "\<exists>evs'. frame_read evs = Some (CATBSD_XPC_SUCCESS, Some (d\<lparr>refcount := 1\<rparr>), evs') \<and>
           stream evs' = rest \<and> clean evs'"
proof -
  let ?n = "payload_size (entries d)"
  let ?h = "put_header d ?n" and ?b = "put_entries (entries d)"
  have size: "?n \<le> CATBSD_XPC_MAX_MESSAGE" "?n + XPC_HEADER_SIZE \<le> CATBSD_XPC_MAX_MESSAGE"
    using assms(3) by (auto simp: wire_ok_def)
  from io_read_full_clean [OF assms(1), of XPC_HEADER_SIZE] obtain e1 where e1:
    "io_read_full XPC_HEADER_SIZE evs = Some (CATBSD_XPC_SUCCESS, ?h, e1)"
    "stream e1 = ?b @ rest" "clean e1"
    by (auto simp: assms(2) frame_def)
  from io_read_full_clean [OF e1(3), of ?n] obtain e2 where e2:
    "io_read_full ?n e1 = Some (CATBSD_XPC_SUCCESS, ?b, e2)" "stream e2 = rest" "clean e2"
    by (auto simp: e1(2))
  have magic: "take 4 ?h = XPC_MAGIC"
    by (simp add: put_header_def XPC_MAGIC_def)
  have len: "unat (get_u32 (drop 4 ?h)) = ?n"
    using get_put_u32 size(1)
    by (simp add: put_header_def XPC_MAGIC_def unat_of_nat_u32)
  have "catbsd_xpc_deserialize (Some (?h @ ?b)) (XPC_HEADER_SIZE + ?n) = DOk (d\<lparr>refcount := 1\<rparr>)"
    using deserialize_frame [OF assms(3), of "?h @ ?b" "[]"] by simp
  then have "frame_read evs = Some (CATBSD_XPC_SUCCESS, Some (d\<lparr>refcount := 1\<rparr>), e2)"
    using e1(1) e2(1) size(2) by (simp add: frame_read_def magic len Let_def)
  then show ?thesis using e2 by blast
qed

end
