(* ===== verification/Xpc_Connection.thy ===== *)
theory Xpc_Connection
  imports Xpc_Io
begin

text \<open>
  Connections of \<^verbatim>\<open>xpc_shim.c\<close>: the pending queue, sending, replying, receiving, the
  synchronous call, the reader thread, and cancellation.

  One connection is seen from one thread here; \<^verbatim>\<open>Xpc_Threads\<close> interleaves two callers.  Mutexes
  therefore do not appear.  A connection argument of \<open>None\<close> is \<^verbatim>\<open>NULL\<close>.
\<close>

section \<open>State\<close>

record xpc_connection =
  fd :: int
  is_listener :: bool
  name :: "string option"
  path :: "string option"
  lock_path :: "string option"
  lock_fd :: int
  next_id :: u64
  last_error :: int
  cancelled :: bool
  resumed :: bool
  queue :: "xpc_object list"
  handler :: "nat option"

definition conn_alloc :: "int \<Rightarrow> string option \<Rightarrow> xpc_connection" where
  "conn_alloc f nm =
     \<lparr>fd = f, is_listener = False, name = nm, path = None, lock_path = None, lock_fd = -1,
      next_id = 1, last_error = 0, cancelled = False, resumed = False, queue = [],
      handler = None\<rparr>"

definition set_err :: "xpc_connection \<Rightarrow> int \<Rightarrow> xpc_connection" where
  "set_err c err = c\<lparr>last_error := err\<rparr>"

section \<open>The pending queue\<close>

definition queue_push :: "xpc_object \<Rightarrow> xpc_object list \<Rightarrow> xpc_object list" where
  "queue_push obj q = q @ [obj]"

fun queue_pop :: "xpc_object list \<Rightarrow> xpc_object option \<times> xpc_object list" where
  "queue_pop [] = (None, [])"
| "queue_pop (obj # q) = (Some obj, q)"

fun queue_take_reply :: "u64 \<Rightarrow> xpc_object list \<Rightarrow> xpc_object option \<times> xpc_object list" where
  "queue_take_reply mid [] = (None, [])"
| "queue_take_reply mid (obj # q) =
     (if is_reply obj \<and> msg_id obj = mid then (Some obj, q)
      else (let (r, q') = queue_take_reply mid q in (r, obj # q')))"

interpretation pending: fifo queue_push queue_pop id
  by unfold_locales (simp_all add: queue_push_def)

section \<open>Sending\<close>

text \<open>The code, the message as stamped, the bytes put on the wire and the events left.\<close>

definition send_locked ::
  "xpc_object \<Rightarrow> u64 \<Rightarrow> bool \<Rightarrow> tx_event list \<Rightarrow>
   (int \<times> xpc_object \<times> byte list \<times> tx_event list) option" where
  "send_locked msg mid reply evs =
     (let msg' = msg\<lparr>msg_id := mid, is_reply := reply\<rparr> in
      case catbsd_xpc_serialize (Some msg') of
        (rc, None) \<Rightarrow> Some (rc, msg', [], evs)
      | (rc, Some buf) \<Rightarrow>
          map_option (\<lambda>(rc, sent, evs'). (rc, msg', sent, evs')) (io_write_full buf evs))"

definition fail_unless_ok :: "int \<Rightarrow> xpc_connection \<Rightarrow> xpc_connection" where
  "fail_unless_ok rc c = (if rc \<noteq> CATBSD_XPC_SUCCESS then c\<lparr>last_error := rc\<rparr> else c)"

definition catbsd_xpc_connection_send_message ::
  "xpc_connection \<Rightarrow> xpc_object \<Rightarrow> tx_event list \<Rightarrow>
   (int \<times> xpc_connection \<times> xpc_object \<times> byte list \<times> tx_event list) option" where
  "catbsd_xpc_connection_send_message c msg evs =
     (if is_listener c then Some (CATBSD_XPC_EINVAL, c, msg, [], evs)
      else if cancelled c then Some (CATBSD_XPC_ECLOSED, c, msg, [], evs)
      else
        map_option
          (\<lambda>(rc, msg', sent, evs').
             (rc, fail_unless_ok rc (c\<lparr>next_id := next_id c + 1\<rparr>), msg', sent, evs'))
          (send_locked msg (next_id c) False evs))"

definition catbsd_xpc_connection_reply ::
  "xpc_connection \<Rightarrow> xpc_object \<Rightarrow> xpc_object \<Rightarrow> tx_event list \<Rightarrow>
   (int \<times> xpc_connection \<times> xpc_object \<times> byte list \<times> tx_event list) option" where
  "catbsd_xpc_connection_reply c request reply evs =
     (if is_listener c then Some (CATBSD_XPC_EINVAL, c, reply, [], evs)
      else if cancelled c then Some (CATBSD_XPC_ECLOSED, c, reply, [], evs)
      else
        map_option
          (\<lambda>(rc, reply', sent, evs'). (rc, fail_unless_ok rc c, reply', sent, evs'))
          (send_locked reply (catbsd_xpc_message_get_id (Some request)) True evs))"

section \<open>Receiving\<close>

text \<open>The second look at the queue, after the read lock, sees the same queue when no other thread
  runs.\<close>

definition catbsd_xpc_connection_receive_message ::
  "xpc_connection \<Rightarrow> rx_event list \<Rightarrow>
   (int \<times> xpc_connection \<times> xpc_object option \<times> rx_event list) option" where
  "catbsd_xpc_connection_receive_message c evs =
     (if is_listener c then Some (CATBSD_XPC_EINVAL, c, None, evs)
      else if resumed c then Some (CATBSD_XPC_EINVAL, c, None, evs)
      else
        (case queue_pop (queue c) of
           (Some obj, q) \<Rightarrow> Some (CATBSD_XPC_SUCCESS, c\<lparr>queue := q\<rparr>, Some obj, evs)
         | (None, q) \<Rightarrow>
             map_option
               (\<lambda>(rc, obj, evs').
                  if rc \<noteq> CATBSD_XPC_SUCCESS then (rc, set_err c rc, None, evs')
                  else (CATBSD_XPC_SUCCESS, c, obj, evs'))
               (frame_read evs)))"

text \<open>Every event list has a weight that a completed frame lowers, so the reply loop ends.\<close>

definition rx_weight :: "rx_event list \<Rightarrow> nat" where
  "rx_weight evs = (\<Sum>e \<leftarrow> evs. Suc (length (event_bytes e)))"

lemma rx_weight_Cons [simp]: "rx_weight (e # evs) = Suc (length (event_bytes e)) + rx_weight evs"
  by (simp add: rx_weight_def)

lemma io_read_full_weight:
  "io_read_full need evs = Some (rc, got, evs') \<Longrightarrow>
   rx_weight evs' \<le> rx_weight evs \<and> (0 < need \<longrightarrow> rx_weight evs' < rx_weight evs)"
proof (induction evs arbitrary: need got)
  case Nil
  then show ?case by (simp add: io_read_full.simps split: if_splits)
next
  case (Cons e evs)
  show ?case
  proof (cases "need = 0")
    case False
    show ?thesis
    proof (cases e)
      case (RecvData bs)
      show ?thesis
      proof (cases "bs = [] \<or> length bs \<le> need")
        case True
        then show ?thesis
          using Cons.prems Cons.IH [of "need - length bs"] RecvData False
          by (fastforce simp: io_read_full.simps [of need "_ # _"] split: if_splits)
      next
        case False
        then show ?thesis
          using Cons.prems RecvData \<open>need \<noteq> 0\<close>
          by (auto simp: io_read_full.simps [of need "_ # _"])
      qed
    qed (use Cons False in \<open>fastforce simp: io_read_full.simps [of need "_ # _"]\<close>)+
  qed (use Cons.prems in simp)
qed

lemma frame_read_weight:
  "frame_read evs = Some (rc, obj, evs') \<Longrightarrow> rx_weight evs' < rx_weight evs"
proof -
  assume f: "frame_read evs = Some (rc, obj, evs')"
  then obtain rc1 h e1 where r: "io_read_full XPC_HEADER_SIZE evs = Some (rc1, h, e1)"
    by (auto simp: frame_read_def split: option.splits)
  have 1: "rx_weight e1 < rx_weight evs"
    using io_read_full_weight [OF r] by (simp add: XPC_HEADER_SIZE_def)
  have "evs' = e1 \<or> (\<exists>n rc2 b. io_read_full n e1 = Some (rc2, b, evs'))"
    using f r by (auto simp: frame_read_def Let_def split: option.splits if_splits dres.splits)
  then have "rx_weight evs' \<le> rx_weight e1"
    using io_read_full_weight by blast
  with 1 show ?thesis by simp
qed

text \<open>The loop after the request has been sent: a reply that is queued, or frames read until the
  reply comes, the others being queued.\<close>

function await_reply ::
  "u64 \<Rightarrow> xpc_connection \<Rightarrow> rx_event list \<Rightarrow>
   (int \<times> xpc_connection \<times> xpc_object option \<times> rx_event list) option" where
  "await_reply mid c evs =
     (case queue_take_reply mid (queue c) of
        (Some obj, q) \<Rightarrow> Some (CATBSD_XPC_SUCCESS, c\<lparr>queue := q\<rparr>, Some obj, evs)
      | (None, q) \<Rightarrow>
          (case frame_read evs of
             None \<Rightarrow> None
           | Some (rc, obj, evs') \<Rightarrow>
               if rc \<noteq> CATBSD_XPC_SUCCESS then Some (rc, set_err c rc, None, evs')
               else
                 (case obj of
                    None \<Rightarrow> None
                  | Some m \<Rightarrow>
                      if is_reply m \<and> msg_id m = mid
                      then Some (CATBSD_XPC_SUCCESS, c, Some m, evs')
                      else await_reply mid (c\<lparr>queue := queue_push m (queue c)\<rparr>) evs')))"
  by pat_completeness auto
termination
  by (relation "measure (\<lambda>(mid, c, evs). rx_weight evs)") (auto dest: frame_read_weight)

declare await_reply.simps [simp del]

definition catbsd_xpc_connection_send_message_with_reply_sync ::
  "xpc_connection \<Rightarrow> xpc_object \<Rightarrow> tx_event list \<Rightarrow> rx_event list \<Rightarrow>
   (int \<times> xpc_connection \<times> xpc_object option \<times> byte list \<times> rx_event list) option" where
  "catbsd_xpc_connection_send_message_with_reply_sync c msg txs rxs =
     (if is_listener c then Some (CATBSD_XPC_EINVAL, c, None, [], rxs)
      else if cancelled c then Some (CATBSD_XPC_ECLOSED, c, None, [], rxs)
      else if resumed c then Some (CATBSD_XPC_EINVAL, c, None, [], rxs)
      else
        let mid = next_id c; c' = c\<lparr>next_id := next_id c + 1\<rparr> in
        (case send_locked msg mid False txs of
           None \<Rightarrow> None
         | Some (rc, msg', sent, txs') \<Rightarrow>
             if rc \<noteq> CATBSD_XPC_SUCCESS then Some (rc, set_err c' rc, None, sent, rxs)
             else
               map_option (\<lambda>(rc, c'', reply, rxs'). (rc, c'', reply, sent, rxs'))
                 (await_reply mid c' rxs)))"

section \<open>Event delivery\<close>

text \<open>The calls of the handler: \<open>Some m\<close> for a message, \<open>None\<close> for the end of the stream.  The
  second component is the connection when the thread has returned, \<open>None\<close> while it blocks.
  \<open>cancelled_at\<close> is what the thread finds in \<^verbatim>\<open>cancelled\<close> when its last read fails.\<close>

function reader_thread ::
  "bool \<Rightarrow> xpc_connection \<Rightarrow> rx_event list \<Rightarrow> xpc_object option list \<times> xpc_connection option" where
  "reader_thread cancelled_at c evs =
     (case frame_read evs of
        None \<Rightarrow> ([], None)
      | Some (rc, obj, evs') \<Rightarrow>
          if rc \<noteq> CATBSD_XPC_SUCCESS
          then (if \<not> cancelled_at \<and> handler c \<noteq> None then [None] else [], Some (set_err c rc))
          else
            (let (calls, r) = reader_thread cancelled_at c evs' in
             (if handler c \<noteq> None then obj # calls else calls, r)))"
  by pat_completeness auto
termination
  by (relation "measure (\<lambda>(x, c, evs). rx_weight evs)") (auto dest: frame_read_weight)

declare reader_thread.simps [simp del]

definition catbsd_xpc_connection_set_event_handler ::
  "xpc_connection option \<Rightarrow> nat option \<Rightarrow> int \<times> xpc_connection option" where
  "catbsd_xpc_connection_set_event_handler conn h =
     (case conn of
        None \<Rightarrow> (CATBSD_XPC_EINVAL, None)
      | Some c \<Rightarrow>
          if is_listener c then (CATBSD_XPC_EINVAL, conn)
          else if resumed c then (CATBSD_XPC_EINVAL, conn)
          else (CATBSD_XPC_SUCCESS, Some (c\<lparr>handler := h\<rparr>)))"

text \<open>\<open>created\<close>: \<^verbatim>\<open>pthread_create\<close> succeeds.\<close>

definition catbsd_xpc_connection_resume ::
  "bool \<Rightarrow> xpc_connection option \<Rightarrow> int \<times> xpc_connection option" where
  "catbsd_xpc_connection_resume created conn =
     (case conn of
        None \<Rightarrow> (CATBSD_XPC_EINVAL, None)
      | Some c \<Rightarrow>
          if is_listener c then (CATBSD_XPC_EINVAL, conn)
          else if resumed c \<or> cancelled c then (CATBSD_XPC_EINVAL, conn)
          else if \<not> created then (CATBSD_XPC_EIO, conn)
          else (CATBSD_XPC_SUCCESS, Some (c\<lparr>resumed := True\<rparr>)))"

section \<open>System calls as a trace\<close>

datatype os_act =
    ActSocket int
  | ActOpen string int
  | ActFlock int
  | ActBind string
  | ActListen
  | ActConnect string
  | ActShutdown int
  | ActJoin
  | ActUnlink string
  | ActClose int

definition catbsd_xpc_connection_cancel ::
  "xpc_connection option \<Rightarrow> xpc_connection option \<times> os_act list" where
  "catbsd_xpc_connection_cancel conn =
     (case conn of
        None \<Rightarrow> (None, [])
      | Some c \<Rightarrow>
          if cancelled c then (conn, [])
          else
            (Some (c\<lparr>cancelled := True, resumed := False,
                     fd := (if 0 \<le> fd c then -1 else fd c),
                     lock_fd := (if 0 \<le> lock_fd c then -1 else lock_fd c)\<rparr>),
             (if 0 \<le> fd c then [ActShutdown (fd c)] else []) @
             (if resumed c then [ActJoin] else []) @
             (if 0 \<le> fd c then [ActClose (fd c)] else []) @
             (case path c of None \<Rightarrow> [] | Some p \<Rightarrow> [ActUnlink p]) @
             (if 0 \<le> lock_fd c
              then (case lock_path c of None \<Rightarrow> [] | Some p \<Rightarrow> [ActUnlink p]) @
                   [ActClose (lock_fd c)]
              else [])))"

text \<open>The queued messages are released one by one; the second component lists what is left of each.\<close>

definition catbsd_xpc_connection_release ::
  "xpc_connection option \<Rightarrow> os_act list \<times> xpc_object option list" where
  "catbsd_xpc_connection_release conn =
     (case conn of
        None \<Rightarrow> ([], [])
      | Some c \<Rightarrow>
          (snd (catbsd_xpc_connection_cancel conn),
           map (\<lambda>m. catbsd_xpc_release (Some m)) (queue c)))"

definition catbsd_xpc_connection_get_fd :: "xpc_connection option \<Rightarrow> int" where
  "catbsd_xpc_connection_get_fd conn = (case conn of None \<Rightarrow> -1 | Some c \<Rightarrow> fd c)"

definition catbsd_xpc_connection_last_error :: "xpc_connection option \<Rightarrow> int" where
  "catbsd_xpc_connection_last_error conn =
     (case conn of None \<Rightarrow> CATBSD_XPC_EINVAL | Some c \<Rightarrow> last_error c)"

definition catbsd_xpc_connection_get_name :: "xpc_connection option \<Rightarrow> string option" where
  "catbsd_xpc_connection_get_name conn = (case conn of None \<Rightarrow> None | Some c \<Rightarrow> name c)"

section \<open>Names and paths\<close>

text \<open>What \<^verbatim>\<open>resolve_path\<close> asks the system: \<^verbatim>\<open>CATBSD_XPC_RUNTIME_DIR\<close>, the user id, and whether
  the directory exists after \<^verbatim>\<open>mkdir\<close>.  \<open>outlen\<close> is the size of the result buffer.\<close>

record path_env =
  runtime_dir :: "string option"
  uid :: nat
  mkdir_ok :: "string \<Rightarrow> bool"

definition resolve_path :: "path_env \<Rightarrow> string option \<Rightarrow> nat \<Rightarrow> int \<times> string option" where
  "resolve_path env nm outlen =
     (case nm of
        None \<Rightarrow> (CATBSD_XPC_EINVAL, None)
      | Some s \<Rightarrow>
          if s = [] then (CATBSD_XPC_EINVAL, None)
          else if hd s = CHR ''/'' then
            (if outlen \<le> length s then (CATBSD_XPC_EINVAL, None) else (CATBSD_XPC_SUCCESS, Some s))
          else if CHR ''/'' \<in> set s \<or> s = ''..'' then (CATBSD_XPC_EINVAL, None)
          else
            let dir = (case runtime_dir env of
                         None \<Rightarrow> snprintf_s 256 (''/tmp/catbsd-xpc-'' @ dec_nat (uid env))
                       | Some d \<Rightarrow>
                           if d = [] then snprintf_s 256 (''/tmp/catbsd-xpc-'' @ dec_nat (uid env))
                           else d);
                out = dir @ ''/'' @ s
            in if \<not> mkdir_ok env dir then (CATBSD_XPC_EIO, None)
               else if outlen \<le> length out then (CATBSD_XPC_EINVAL, None)
               else (CATBSD_XPC_SUCCESS, Some out))"

text \<open>The answers of the system to the calls of \<^verbatim>\<open>create_listener\<close>, \<^verbatim>\<open>create\<close> and \<^verbatim>\<open>accept\<close>.\<close>

datatype os_result = OsOk | OsWouldBlock | OsAddrInUse | OsNoEnt | OsConnRefused | OsFail

record socket_os =
  os_socket :: int
  os_open :: int
  os_flock :: os_result
  os_bind :: os_result
  os_bind_again :: os_result
  os_listen :: os_result
  os_connect :: os_result

definition SUN_PATH :: nat where "SUN_PATH = 104"

text \<open>The connection or the error, and the calls made, in order.\<close>

definition catbsd_xpc_connection_create_listener ::
  "path_env \<Rightarrow> socket_os \<Rightarrow> string option \<Rightarrow> xpc_connection option \<times> int \<times> os_act list" where
  "catbsd_xpc_connection_create_listener env os nm =
     (case resolve_path env nm SUN_PATH of
        (rc, None) \<Rightarrow> (None, rc, [])
      | (rc, Some p) \<Rightarrow>
          let f = os_socket os; l = os_open os;
              lockpath = snprintf_s (SUN_PATH + 8) (p @ ''.lock'');
              opened = [ActSocket f, ActOpen lockpath l];
              locked = opened @ [ActFlock l, ActBind p];
              rebound = locked @ [ActUnlink p, ActBind p];
              bound = (if os_bind os = OsOk then locked else rebound);
              undo = [ActClose l, ActClose f]
          in
          if f < 0 then (None, CATBSD_XPC_EIO, [])
          else if l < 0 then (None, CATBSD_XPC_EIO, [ActSocket f, ActClose f])
          else if os_flock os \<noteq> OsOk then
            (None, if os_flock os = OsWouldBlock then CATBSD_XPC_EEXIST else CATBSD_XPC_EIO,
             opened @ undo)
          else if os_bind os \<noteq> OsOk \<and> os_bind os \<noteq> OsAddrInUse then
            (None, CATBSD_XPC_EIO, locked @ undo)
          else if os_bind os = OsAddrInUse \<and> os_bind_again os \<noteq> OsOk then
            (None, CATBSD_XPC_EIO, rebound @ undo)
          else if os_listen os \<noteq> OsOk then
            (None, CATBSD_XPC_EIO, bound @ [ActListen, ActUnlink p] @ undo)
          else
            (Some ((conn_alloc f nm)
               \<lparr>is_listener := True, path := Some p, lock_path := Some lockpath, lock_fd := l\<rparr>),
             CATBSD_XPC_SUCCESS, bound @ [ActListen]))"

definition catbsd_xpc_connection_create ::
  "path_env \<Rightarrow> socket_os \<Rightarrow> string option \<Rightarrow> xpc_connection option \<times> int \<times> os_act list" where
  "catbsd_xpc_connection_create env os nm =
     (case resolve_path env nm SUN_PATH of
        (rc, None) \<Rightarrow> (None, rc, [])
      | (rc, Some p) \<Rightarrow>
          let f = os_socket os in
          if f < 0 then (None, CATBSD_XPC_EIO, [])
          else if os_connect os \<noteq> OsOk then
            (None,
             if os_connect os = OsNoEnt \<or> os_connect os = OsConnRefused then CATBSD_XPC_ENOENT
             else CATBSD_XPC_EIO,
             [ActSocket f, ActConnect p, ActClose f])
          else (Some (conn_alloc f nm), CATBSD_XPC_SUCCESS, [ActSocket f, ActConnect p]))"

text \<open>One event per \<^verbatim>\<open>poll\<close>/\<^verbatim>\<open>accept\<close> pair.  The deadline is looked at before each \<^verbatim>\<open>poll\<close>: \<open>clk k\<close> is
  the \<open>k\<close>th reading of the monotonic clock, the reading 0 being the one that sets the deadline.\<close>

datatype accept_event =
    AcceptPollIntr | AcceptPollError | AcceptTimeout | AcceptAgain | AcceptError | AcceptPeer int

fun accept_loop ::
  "timespec option \<Rightarrow> (nat \<Rightarrow> timespec) \<Rightarrow> nat \<Rightarrow> accept_event list \<Rightarrow> (int \<times> int) option" where
  "accept_loop dl clk k [] =
     (if deadline_remaining_ms dl (clk k) = -2 then Some (CATBSD_XPC_ETIMEOUT, -1) else None)"
| "accept_loop dl clk k (ev # evs) =
     (if deadline_remaining_ms dl (clk k) = -2 then Some (CATBSD_XPC_ETIMEOUT, -1)
      else case ev of
        AcceptPollIntr \<Rightarrow> accept_loop dl clk (k + 1) evs
      | AcceptPollError \<Rightarrow> Some (CATBSD_XPC_EIO, -1)
      | AcceptTimeout \<Rightarrow> Some (CATBSD_XPC_ETIMEOUT, -1)
      | AcceptAgain \<Rightarrow> accept_loop dl clk (k + 1) evs
      | AcceptError \<Rightarrow> Some (CATBSD_XPC_EIO, -1)
      | AcceptPeer peer \<Rightarrow> Some (CATBSD_XPC_SUCCESS, peer))"

definition catbsd_xpc_connection_accept ::
  "xpc_connection option \<Rightarrow> int \<Rightarrow> (nat \<Rightarrow> timespec) \<Rightarrow> accept_event list \<Rightarrow>
   (xpc_connection option \<times> int) option" where
  "catbsd_xpc_connection_accept listener timeout_ms clk evs =
     (case listener of
        None \<Rightarrow> Some (None, CATBSD_XPC_EINVAL)
      | Some l \<Rightarrow>
          if \<not> is_listener l then Some (None, CATBSD_XPC_EINVAL)
          else
            map_option
              (\<lambda>(rc, peer).
                 if rc = CATBSD_XPC_SUCCESS then (Some (conn_alloc peer (name l)), rc)
                 else (None, rc))
              (accept_loop (deadline_set (clk 0) timeout_ms) clk 1 evs))"

text \<open>A monotonic clock never reads less than at the start.\<close>

definition clock_monotonic :: "(nat \<Rightarrow> timespec) \<Rightarrow> bool" where
  "clock_monotonic clk =
     (\<forall>k. 0 \<le> snd (clk k) \<and> snd (clk k) < 1000000000 \<and>
          (fst (clk 0) < fst (clk k) \<or> fst (clk 0) = fst (clk k) \<and> snd (clk 0) \<le> snd (clk k)))"

lemma deadline_zero_over:
  assumes "clock_monotonic clk"
  shows "deadline_remaining_ms (deadline_set (clk 0) 0) (clk k) = -2"
proof (rule ccontr)
  assume n: "deadline_remaining_ms (deadline_set (clk 0) 0) (clk k) \<noteq> -2"
  have c: "0 \<le> snd (clk 0)" "snd (clk 0) < 1000000000" "0 \<le> snd (clk k)" "snd (clk k) < 1000000000"
    "fst (clk 0) < fst (clk k) \<or> fst (clk 0) = fst (clk k) \<and> snd (clk 0) \<le> snd (clk k)"
    using assms unfolding clock_monotonic_def by blast+
  from deadline_bounds [OF c _ n] show False by simp
qed

lemma accept_zero_never:
  assumes "clock_monotonic clk"
  shows "accept_loop (deadline_set (clk 0) 0) clk k evs = Some (CATBSD_XPC_ETIMEOUT, -1)"
  using deadline_zero_over [OF assms, of k] by (cases evs) simp_all

section \<open>The queue keeps unrelated messages in order\<close>

definition answers :: "u64 \<Rightarrow> xpc_object \<Rightarrow> bool" where
  "answers mid m = (is_reply m \<and> msg_id m = mid)"

lemma queue_take_reply_None:
  "queue_take_reply mid q = (None, q') \<longleftrightarrow> q' = q \<and> (\<forall>m \<in> set q. \<not> answers mid m)"
proof (induction q arbitrary: q')
  case (Cons m q)
  then show ?case
    using Cons.IH [of q] Cons.IH [of "snd (queue_take_reply mid q)"]
    by (cases "queue_take_reply mid q") (auto simp: answers_def)
qed auto

lemma queue_take_reply_Some:
  "queue_take_reply mid q = (Some m, q') \<Longrightarrow>
   answers mid m \<and> (\<exists>xs ys. q = xs @ m # ys \<and> q' = xs @ ys \<and> (\<forall>x \<in> set xs. \<not> answers mid x))"
proof (induction q arbitrary: q')
  case (Cons a q)
  show ?case
  proof (cases "answers mid a")
    case True
    then have "a = m" "a # q = [] @ m # q'" "q' = [] @ q'"
      using Cons.prems by (auto simp: answers_def)
    with True show ?thesis by (metis empty_iff empty_set)
  next
    case False
    then obtain q1 where q1: "queue_take_reply mid q = (Some m, q1)" "q' = a # q1"
      using Cons.prems by (auto simp: answers_def split: prod.splits if_splits)
    from Cons.IH [OF q1(1)] obtain xs ys where "answers mid m" "q = xs @ m # ys" "q1 = xs @ ys"
      "\<forall>x \<in> set xs. \<not> answers mid x" by blast
    then show ?thesis using q1(2) False by (intro conjI exI [of _ "a # xs"] exI [of _ ys]) auto
  qed
qed simp

section \<open>Messages over a clean stream\<close>

text \<open>A message as its receiver holds it.\<close>

definition received :: "xpc_object \<Rightarrow> xpc_object" where
  "received d = d\<lparr>refcount := 1\<rparr>"

lemma received_simps [simp]:
  "msg_id (received d) = msg_id d" "is_reply (received d) = is_reply d"
  "entries (received d) = entries d" "answers mid (received d) = answers mid d"
  by (simp_all add: received_def answers_def)

lemma wire_ok_stamp [simp]:
  "wire_ok (d\<lparr>msg_id := i, is_reply := r\<rparr>) = wire_ok d" "wire_ok (received d) = wire_ok d"
  by (simp_all add: wire_ok_def)

lemma frame_read_received:
  "clean evs \<Longrightarrow> stream evs = frame d @ rest \<Longrightarrow> wire_ok d \<Longrightarrow>
   \<exists>evs'. frame_read evs = Some (CATBSD_XPC_SUCCESS, Some (received d), evs') \<and>
     stream evs' = rest \<and> clean evs'"
  unfolding received_def by (rule frame_read_frame)

lemma await_reply_clean:
  assumes "clean evs" "stream evs = concat (map frame others) @ frame reply @ rest"
    and "\<forall>d \<in> set others. wire_ok d \<and> \<not> answers mid d" "wire_ok reply" "answers mid reply"
    and "\<forall>d \<in> set (queue c). \<not> answers mid d"
  shows "\<exists>evs'. await_reply mid c evs =
           Some (CATBSD_XPC_SUCCESS, c\<lparr>queue := queue c @ map received others\<rparr>,
                 Some (received reply), evs') \<and> stream evs' = rest \<and> clean evs'"
  using assms
proof (induction others arbitrary: c evs)
  case Nil
  have none: "queue_take_reply mid (queue c) = (None, queue c)"
    using Nil.prems by (simp add: queue_take_reply_None)
  from frame_read_received [of evs reply rest] Nil.prems obtain evs' where
    "frame_read evs = Some (CATBSD_XPC_SUCCESS, Some (received reply), evs')"
    "stream evs' = rest" "clean evs'" by auto
  then show ?case
    using none Nil.prems by (simp add: await_reply.simps [of mid c evs] answers_def)
next
  case (Cons d others)
  have none: "queue_take_reply mid (queue c) = (None, queue c)"
    using Cons.prems by (simp add: queue_take_reply_None)
  from frame_read_received [of evs d "concat (map frame others) @ frame reply @ rest"] Cons.prems
  obtain e1 where e1: "frame_read evs = Some (CATBSD_XPC_SUCCESS, Some (received d), e1)"
    "stream e1 = concat (map frame others) @ frame reply @ rest" "clean e1" by auto
  let ?c = "c\<lparr>queue := queue_push (received d) (queue c)\<rparr>"
  from Cons.IH [OF e1(3,2), of ?c] Cons.prems obtain evs' where
    "await_reply mid ?c e1 =
       Some (CATBSD_XPC_SUCCESS, ?c\<lparr>queue := queue ?c @ map received others\<rparr>,
             Some (received reply), evs')" "stream evs' = rest" "clean evs'"
    by (auto simp: queue_push_def)
  then show ?case
    using none e1(1) Cons.prems
    by (auto simp: await_reply.simps [of mid c evs] answers_def queue_push_def)
qed

text \<open>Whatever the kernel does, a reply that is returned answers the request, and the queue only
  grows at its end, or loses the reply.\<close>

lemma await_reply_matches:
  "await_reply mid c evs = Some (rc, c', reply, evs') \<Longrightarrow>
   (rc = CATBSD_XPC_SUCCESS \<longrightarrow> (\<exists>m. reply = Some m \<and> answers mid m)) \<and>
   (rc \<noteq> CATBSD_XPC_SUCCESS \<longrightarrow> reply = None \<and> last_error c' = rc)"
proof (induction mid c evs rule: await_reply.induct)
  case (1 mid c evs)
  obtain r q where t: "queue_take_reply mid (queue c) = (r, q)" by fastforce
  show ?case
  proof (cases r)
    case (Some m)
    then show ?thesis
      using "1.prems" t queue_take_reply_Some
      by (fastforce simp: await_reply.simps [of mid c evs])
  next
    case None
    then obtain rc1 obj e1 where f: "frame_read evs = Some (rc1, obj, e1)"
      using "1.prems" t by (auto simp: await_reply.simps [of mid c evs] split: option.splits)
    show ?thesis
    proof (cases "rc1 = CATBSD_XPC_SUCCESS \<and> (\<exists>m. obj = Some m \<and> \<not> answers mid m)")
      case True
      then obtain m where m: "obj = Some m" "\<not> answers mid m" "rc1 = CATBSD_XPC_SUCCESS" by blast
      show ?thesis
        using "1.IH" [OF t [symmetric] None f refl refl _ m(1)] "1.prems" t None f m
        by (auto simp: await_reply.simps [of mid c evs] answers_def)
    next
      case False
      then show ?thesis
        using "1.prems" t None f
        by (auto simp: await_reply.simps [of mid c evs] answers_def set_err_def
            split: option.splits if_splits)
    qed
  qed
qed

end
