(* ===== verification/Xpc_Delivery.thy ===== *)
theory Xpc_Delivery
  imports Xpc_Connection
begin

text \<open>
  Sequences of calls on the two ends of a connection, and what they deliver: messages arrive
  complete, in order and with the ids they were sent with, however the kernel cuts the stream.
\<close>

section \<open>Repeated calls\<close>

text \<open>Each message of the list is sent in turn; the codes, the connection after the calls and all the
  bytes that went out.\<close>

fun send_many ::
  "xpc_connection \<Rightarrow> xpc_object list \<Rightarrow> tx_event list \<Rightarrow>
   (int list \<times> xpc_connection \<times> byte list) option" where
  "send_many c [] evs = Some ([], c, [])"
| "send_many c (d # ds) evs =
     (case catbsd_xpc_connection_send_message c d evs of
        None \<Rightarrow> None
      | Some (rc, c', d', sent, evs') \<Rightarrow>
          map_option (\<lambda>(rcs, c'', more_evs). (rc # rcs, c'', sent @ more_evs)) (send_many c' ds evs'))"

fun receive_many ::
  "nat \<Rightarrow> xpc_connection \<Rightarrow> rx_event list \<Rightarrow> (int \<times> xpc_object option) list option" where
  "receive_many 0 c evs = Some []"
| "receive_many (Suc n) c evs =
     (case catbsd_xpc_connection_receive_message c evs of
        None \<Rightarrow> None
      | Some (rc, c', obj, evs') \<Rightarrow>
          map_option (\<lambda>rest. (rc, obj) # rest) (receive_many n c' evs'))"

text \<open>The ids the connection gives to a sequence of messages.\<close>

fun stamped :: "u64 \<Rightarrow> xpc_object list \<Rightarrow> xpc_object list" where
  "stamped i [] = []"
| "stamped i (d # ds) = d\<lparr>msg_id := i, is_reply := False\<rparr> # stamped (i + 1) ds"

section \<open>Sending\<close>

lemma send_locked_success:
  "send_locked d i r evs = Some (rc, d', sent, evs') \<Longrightarrow> rc = CATBSD_XPC_SUCCESS \<Longrightarrow>
   d' = d\<lparr>msg_id := i, is_reply := r\<rparr> \<and> sent = frame d'"
  by (auto simp: send_locked_def Let_def serialize_success catbsd_xpc_serialize_def frame_def
      xpc_codes dest: io_write_full_prefix [THEN conjunct2, THEN conjunct1]
      split: if_splits)

lemma send_many_bytes:
  "send_many c ds evs = Some (rcs, c', sent) \<Longrightarrow> \<forall>rc \<in> set rcs. rc = CATBSD_XPC_SUCCESS \<Longrightarrow>
   sent = concat (map frame (stamped (next_id c) ds))"
proof (induction ds arbitrary: c evs rcs sent)
  case (Cons d ds)
  obtain rc c1 d1 s1 e1 where 1: "catbsd_xpc_connection_send_message c d evs = Some (rc, c1, d1, s1, e1)"
    using Cons.prems(1) by (auto split: option.splits)
  then obtain rcs2 s2 where 2: "send_many c1 ds e1 = Some (rcs2, c', s2)"
    "rcs = rc # rcs2" "sent = s1 @ s2"
    using Cons.prems(1) by auto
  have rc: "rc = CATBSD_XPC_SUCCESS" using 2 Cons.prems(2) by simp
  then have "s1 = frame (d\<lparr>msg_id := next_id c, is_reply := False\<rparr>)" "next_id c1 = next_id c + 1"
    using 1 send_locked_success
    by (fastforce simp: catbsd_xpc_connection_send_message_def fail_unless_ok_def xpc_codes
        split: if_splits)+
  then show ?case using Cons.IH [OF 2(1)] 2 Cons.prems(2) by simp
qed simp

lemma length_send_many: "send_many c ds evs = Some (rcs, c', sent) \<Longrightarrow> length rcs = length ds"
  by (induction ds arbitrary: c evs rcs sent) (fastforce split: option.splits)+

section \<open>Receiving\<close>

lemma receive_many_clean:
  assumes "clean evs" "stream evs = concat (map frame ds) @ rest" "\<forall>d \<in> set ds. wire_ok d"
    and "\<not> is_listener c" "\<not> resumed c"
  shows "receive_many (length (queue c) + length ds) c evs =
           Some (map (\<lambda>d. (CATBSD_XPC_SUCCESS, Some d)) (queue c @ map received ds))"
  using assms
proof (induction "queue c" arbitrary: c)
  case Nil
  then have q: "queue c = []" by simp
  from Nil.prems q show ?case
  proof (induction ds arbitrary: evs)
    case (Cons d ds)
    from frame_read_received [of evs d "concat (map frame ds) @ rest"] Cons.prems obtain e1 where
      "frame_read evs = Some (CATBSD_XPC_SUCCESS, Some (received d), e1)"
      "stream e1 = concat (map frame ds) @ rest" "clean e1" by auto
    then show ?case
      using Cons.IH [of e1] Cons.prems
      by (simp add: catbsd_xpc_connection_receive_message_def)
  qed simp
next
  case (Cons m q)
  then show ?case
    using Cons.hyps(1) [of "c\<lparr>queue := q\<rparr>"] Cons.hyps(2) [symmetric]
    by (simp add: catbsd_xpc_connection_receive_message_def)
qed

lemma wire_ok_stamped: "\<forall>d \<in> set ds. wire_ok d \<Longrightarrow> \<forall>d \<in> set (stamped i ds). wire_ok d"
  by (induction ds arbitrary: i) auto

lemma length_stamped [simp]: "length (stamped i ds) = length ds"
  by (induction ds arbitrary: i) auto

lemma delivery:
  assumes "send_many s ds txs = Some (rcs, s', sent)"
    and "\<forall>rc \<in> set rcs. rc = CATBSD_XPC_SUCCESS" "\<forall>d \<in> set ds. wire_ok d"
    and "clean rxs" "stream rxs = sent"
    and "\<not> is_listener r" "\<not> resumed r" "queue r = []"
  shows "receive_many (length ds) r rxs =
           Some (map (\<lambda>d. (CATBSD_XPC_SUCCESS, Some (received d))) (stamped (next_id s) ds))"
  using receive_many_clean [of rxs "stamped (next_id s) ds" "[]" r] assms
    send_many_bytes [OF assms(1,2)] wire_ok_stamped [OF assms(3)]
  by (simp add: comp_def)

section \<open>The reader thread\<close>

lemma io_read_full_append:
  "io_read_full need evs = Some (CATBSD_XPC_SUCCESS, got, evs') \<Longrightarrow>
   io_read_full need (evs @ more_evs) = Some (CATBSD_XPC_SUCCESS, got, evs' @ more_evs)"
proof (induction evs arbitrary: need got)
  case Nil
  then show ?case by (cases "need = 0") (auto simp: io_read_full_Nil)
next
  case (Cons e evs)
  show ?case
  proof (cases "need = 0")
    case False
    then show ?thesis
      using Cons
      by (cases e) (fastforce simp: io_read_full.simps [of need "_ # _"] xpc_codes split: if_splits)+
  qed (use Cons.prems in auto)
qed

lemma frame_read_append:
  "frame_read evs = Some (CATBSD_XPC_SUCCESS, obj, evs') \<Longrightarrow>
   frame_read (evs @ more_evs) = Some (CATBSD_XPC_SUCCESS, obj, evs' @ more_evs)"
proof -
  assume f: "frame_read evs = Some (CATBSD_XPC_SUCCESS, obj, evs')"
  then obtain h e1 where 1: "io_read_full XPC_HEADER_SIZE evs = Some (CATBSD_XPC_SUCCESS, h, e1)"
    by (auto simp: frame_read_def split: option.splits if_splits)
  let ?n = "unat (get_u32 (drop 4 h))"
  obtain b where 2: "io_read_full ?n e1 = Some (CATBSD_XPC_SUCCESS, b, evs')"
    using f 1
    by (auto simp: frame_read_def Let_def xpc_codes split: option.splits if_splits dres.splits)
  show ?thesis
    using f 1 2 io_read_full_append [OF 1, of more_evs] io_read_full_append [OF 2, of more_evs]
    by (auto simp: frame_read_def Let_def xpc_codes split: if_splits dres.splits)
qed

lemma io_read_full_clean_eof:
  "clean evs \<Longrightarrow> length (stream evs) < need \<Longrightarrow>
   \<exists>evs' got. io_read_full need (evs @ RecvEof # more_evs) = Some (CATBSD_XPC_ECLOSED, got, evs')"
proof (induction evs arbitrary: need)
  case Nil
  then show ?case by (simp add: io_read_full.simps [of need "_ # _"])
next
  case (Cons e evs)
  show ?case
  proof (cases e)
    case (RecvData bs)
    then have "length (stream evs) < need - length bs" "length bs \<le> need" "bs \<noteq> []" "0 < need"
      using Cons.prems by auto
    with Cons.IH [of "need - length bs"] Cons.prems RecvData show ?thesis
      by (auto simp: io_read_full_data)
  qed (use Cons in auto)
qed

text \<open>Over a clean stream of whole frames that then ends, the handler sees every message in order
  and then, unless the connection was cancelled, the end once.\<close>

lemma reader_thread_clean:
  assumes "clean evs" "stream evs = concat (map frame ds)" "\<forall>d \<in> set ds. wire_ok d"
    and "handler c = Some h"
  shows "reader_thread x c (evs @ [RecvEof]) =
           (map (\<lambda>d. Some (received d)) ds @ (if x then [] else [None]),
            Some (c\<lparr>last_error := CATBSD_XPC_ECLOSED\<rparr>))"
  using assms
proof (induction ds arbitrary: evs)
  case Nil
  then obtain evs' got where
    "io_read_full XPC_HEADER_SIZE (evs @ [RecvEof]) = Some (CATBSD_XPC_ECLOSED, got, evs')"
    using io_read_full_clean_eof [of evs XPC_HEADER_SIZE "[]"] by (auto simp: XPC_HEADER_SIZE_def)
  then have "frame_read (evs @ [RecvEof]) = Some (CATBSD_XPC_ECLOSED, None, evs')"
    by (simp add: frame_read_def xpc_codes)
  then show ?case
    using Nil by (simp add: reader_thread.simps [of x c "evs @ _"] set_err_def xpc_codes)
next
  case (Cons d ds)
  from frame_read_received [of evs d "concat (map frame ds)"] Cons.prems obtain e1 where
    e1: "frame_read evs = Some (CATBSD_XPC_SUCCESS, Some (received d), e1)"
    "stream e1 = concat (map frame ds)" "clean e1" by auto
  show ?case
    using frame_read_append [OF e1(1), of "[RecvEof]"] Cons.IH [OF e1(3,2)] Cons.prems
    by (simp add: reader_thread.simps [of x c "evs @ _"] split: prod.splits)
qed

end
