(* ===== verification/Xpc_Threads.thy ===== *)
theory Xpc_Threads
  imports Xpc_Connection "HOL-Library.Multiset"
begin

text \<open>
  Interleavings of \<^verbatim>\<open>xpc_shim.c\<close>: several threads in
  \<^verbatim>\<open>catbsd_xpc_connection_send_message_with_reply_sync\<close> on one connection, and several processes
  in \<^verbatim>\<open>create_listener\<close> and \<^verbatim>\<open>cancel\<close> for one service name.  Both are step relations whose
  steps are the code's critical sections and system calls.
\<close>

section \<open>Threads waiting for replies\<close>

datatype sync_pc =
    Check
  | WantRead
  | Reading
  | Have xpc_object
  | Finished xpc_object

text \<open>\<open>wire\<close> holds the messages the peer has sent and nobody has read; \<open>reader\<close> is the holder of
  \<^verbatim>\<open>read_lock\<close>.\<close>

record sync_state =
  pending :: "xpc_object list"
  wire :: "xpc_object list"
  reader :: "nat option"
  pc :: "nat \<Rightarrow> sync_pc"

definition goto :: "nat \<Rightarrow> sync_pc \<Rightarrow> sync_state \<Rightarrow> sync_state" where
  "goto t p s = s\<lparr>pc := (pc s)(t := p)\<rparr>"

text \<open>The callers are the threads below \<open>n\<close>; thread \<open>t\<close> waits for the reply to \<open>want t\<close>.\<close>

inductive sync_step :: "(nat \<Rightarrow> u64) \<Rightarrow> nat \<Rightarrow> sync_state \<Rightarrow> sync_state \<Rightarrow> bool" for want n where
  check_hit: "t < n \<Longrightarrow> pc s t = Check \<Longrightarrow>
    queue_take_reply (want t) (pending s) = (Some m, q) \<Longrightarrow>
    sync_step want n s (goto t (Finished m) (s\<lparr>pending := q\<rparr>))"
| check_miss: "t < n \<Longrightarrow> pc s t = Check \<Longrightarrow>
    queue_take_reply (want t) (pending s) = (None, q) \<Longrightarrow>
    sync_step want n s (goto t WantRead s)"
| acquire: "t < n \<Longrightarrow> pc s t = WantRead \<Longrightarrow> reader s = None \<Longrightarrow>
    sync_step want n s (goto t Reading (s\<lparr>reader := Some t\<rparr>))"
| read: "t < n \<Longrightarrow> pc s t = Reading \<Longrightarrow> wire s = m # ms \<Longrightarrow>
    sync_step want n s (goto t (Have m) (s\<lparr>wire := ms, reader := None\<rparr>))"
| own_reply: "t < n \<Longrightarrow> pc s t = Have m \<Longrightarrow> answers (want t) m \<Longrightarrow>
    sync_step want n s (goto t (Finished m) s)"
| keep: "t < n \<Longrightarrow> pc s t = Have m \<Longrightarrow> \<not> answers (want t) m \<Longrightarrow>
    sync_step want n s (goto t Check (s\<lparr>pending := queue_push m (pending s)\<rparr>))"

inductive_cases sync_stepE: "sync_step want n s s'"

definition sync_start :: "xpc_object list \<Rightarrow> xpc_object list \<Rightarrow> sync_state" where
  "sync_start q w = \<lparr>pending = q, wire = w, reader = None, pc = (\<lambda>t. Check)\<rparr>"

definition in_hand :: "sync_pc \<Rightarrow> xpc_object multiset" where
  "in_hand p = (case p of Have m \<Rightarrow> {#m#} | Finished m \<Rightarrow> {#m#} | _ \<Rightarrow> {#})"

definition all_messages :: "nat \<Rightarrow> sync_state \<Rightarrow> xpc_object multiset" where
  "all_messages n s = mset (pending s) + mset (wire s) + (\<Sum>t \<in> {..<n}. in_hand (pc s t))"

definition sync_ok :: "(nat \<Rightarrow> u64) \<Rightarrow> sync_state \<Rightarrow> bool" where
  "sync_ok want s =
     ((\<forall>t. pc s t = Reading \<longleftrightarrow> reader s = Some t) \<and>
      (\<forall>t m. pc s t = Finished m \<longrightarrow> answers (want t) m))"

lemma goto_simps [simp]:
  "pc (goto t p s) = (pc s)(t := p)" "pending (goto t p s) = pending s"
  "wire (goto t p s) = wire s" "reader (goto t p s) = reader s"
  by (simp_all add: goto_def)

lemma sync_ok_start: "sync_ok want (sync_start q w)"
  by (simp add: sync_ok_def sync_start_def)

lemma reading_spec: "\<forall>u. (f u = r) = (t = u) \<Longrightarrow> f t = r"
  by simp

lemma sync_ok_step [step_inv]: "sync_step want n s s' \<Longrightarrow> sync_ok want s \<Longrightarrow> sync_ok want s'"
  by (erule sync_stepE; auto simp: sync_ok_def dest!: queue_take_reply_Some; drule reading_spec; simp)

lemma in_hand_update:
  "t < n \<Longrightarrow>
   (\<Sum>u \<in> {..<n}. in_hand (((pc s)(t := p)) u)) + in_hand (pc s t) =
   (\<Sum>u \<in> {..<n}. in_hand (pc s u)) + in_hand p"
proof -
  assume t: "t < n"
  have "(\<Sum>u \<in> {..<n} - {t}. in_hand (((pc s)(t := p)) u)) = (\<Sum>u \<in> {..<n} - {t}. in_hand (pc s u))"
    by (rule sum.cong) auto
  then show ?thesis
    using t sum.remove [of "{..<n}" t "\<lambda>u. in_hand (pc s u)"]
      sum.remove [of "{..<n}" t "\<lambda>u. in_hand (((pc s)(t := p)) u)"]
    by (simp add: ac_simps)
qed

lemma all_messages_step: "sync_step want n s s' \<Longrightarrow> all_messages n s' = all_messages n s"
proof (erule sync_stepE)
  fix t m q
  assume "s' = goto t (Finished m) (s\<lparr>pending := q\<rparr>)" "t < n" "pc s t = Check"
    and "queue_take_reply (want t) (pending s) = (Some m, q)"
  then show ?thesis
    using in_hand_update [of t n s "Finished m"]
    by (auto simp: all_messages_def in_hand_def dest!: queue_take_reply_Some)
next
  fix t q
  assume "s' = goto t WantRead s" "t < n" "pc s t = Check"
  then show ?thesis
    using in_hand_update [of t n s WantRead] by (simp add: all_messages_def in_hand_def)
next
  fix t
  assume "s' = goto t Reading (s\<lparr>reader := Some t\<rparr>)" "t < n" "pc s t = WantRead"
  then show ?thesis
    using in_hand_update [of t n s Reading] by (simp add: all_messages_def in_hand_def)
next
  fix t m ms
  assume "s' = goto t (Have m) (s\<lparr>wire := ms, reader := None\<rparr>)" "t < n" "pc s t = Reading"
    "wire s = m # ms"
  then show ?thesis
    using in_hand_update [of t n s "Have m"] by (simp add: all_messages_def in_hand_def)
next
  fix t m
  assume "s' = goto t (Finished m) s" "t < n" "pc s t = Have m"
  then show ?thesis
    using in_hand_update [of t n s "Finished m"] by (simp add: all_messages_def in_hand_def)
next
  fix t m
  assume "s' = goto t Check (s\<lparr>pending := queue_push m (pending s)\<rparr>)" "t < n" "pc s t = Have m"
  then show ?thesis
    using in_hand_update [of t n s Check]
    by (simp add: all_messages_def in_hand_def queue_push_def)
qed

lemma sync_run:
  "(sync_step want n)\<^sup>*\<^sup>* (sync_start q w) s \<Longrightarrow>
   sync_ok want s \<and> all_messages n s = mset q + mset w"
proof (induction rule: rtranclp_induct)
  case base
  have "(\<Sum>t \<in> {..<n}. in_hand (pc (sync_start q w) t)) = {#}"
    by (simp add: sync_start_def in_hand_def)
  then show ?case by (simp add: sync_ok_start all_messages_def) (simp add: sync_start_def)
next
  case (step s1 s2)
  then show ?case using sync_ok_step all_messages_step by metis
qed

text \<open>The lost wake-up: thread 1 leaves its check before its reply is queued, and reads without
  checking again.\<close>

definition reply_to :: "u64 \<Rightarrow> xpc_object" where
  "reply_to i = catbsd_xpc_dictionary_create\<lparr>msg_id := i, is_reply := True\<rparr>"

definition two_callers :: "nat \<Rightarrow> u64" where
  "two_callers t = of_nat (Suc t)"

definition lost_state :: sync_state where
  "lost_state =
     \<lparr>pending = [reply_to 2], wire = [], reader = Some 1,
      pc = (\<lambda>t. Check)(0 := WantRead, 1 := Reading)\<rparr>"

lemma lost_state_reachable:
  "(sync_step two_callers 2)\<^sup>*\<^sup>* (sync_start [] [reply_to 2]) lost_state"
proof -
  let ?s0 = "sync_start [] [reply_to 2]"
  let ?s1 = "goto 0 WantRead ?s0"
  let ?s2 = "goto 1 WantRead ?s1"
  let ?s3 = "goto 0 Reading (?s2\<lparr>reader := Some 0\<rparr>)"
  let ?s4 = "goto 0 (Have (reply_to 2)) (?s3\<lparr>wire := [], reader := None\<rparr>)"
  let ?s5 = "goto 0 Check (?s4\<lparr>pending := queue_push (reply_to 2) (pending ?s4)\<rparr>)"
  let ?s6 = "goto 1 Reading (?s5\<lparr>reader := Some 1\<rparr>)"
  let ?s7 = "goto 0 WantRead ?s6"
  note start = sync_start_def
  have no: "queue_take_reply (two_callers 0) [reply_to 2] = (None, [reply_to 2])"
    "\<not> answers (two_callers 0) (reply_to 2)"
    by (simp_all add: two_callers_def reply_to_def answers_def)
  have "sync_step two_callers 2 ?s0 ?s1"
    by (rule check_miss [where q = "[]"]) (simp_all add: start)
  moreover have "sync_step two_callers 2 ?s1 ?s2"
    by (rule check_miss [where q = "[]"]) (simp_all add: start)
  moreover have "sync_step two_callers 2 ?s2 ?s3" by (rule acquire) (simp_all add: start)
  moreover have "sync_step two_callers 2 ?s3 ?s4" by (rule read) (simp_all add: start)
  moreover have "sync_step two_callers 2 ?s4 ?s5" by (rule keep) (simp_all add: start no)
  moreover have "sync_step two_callers 2 ?s5 ?s6" by (rule acquire) (simp_all add: start)
  moreover have "sync_step two_callers 2 ?s6 ?s7"
    by (rule check_miss [where q = "[reply_to 2]"]) (simp_all add: start queue_push_def two_callers_def reply_to_def)
  moreover have "?s7 = lost_state"
    by (simp add: goto_def start lost_state_def queue_push_def fun_eq_iff)
  ultimately show ?thesis by (simp only: converse_rtranclp_into_rtranclp rtranclp.rtrancl_refl)
qed

lemma lost_state_stuck: "\<not> sync_step two_callers 2 lost_state s'"
proof
  have at: "pc lost_state 0 = WantRead" "pc lost_state (Suc 0) = Reading" "wire lost_state = []"
    "reader lost_state = Some 1" by (simp_all add: lost_state_def)
  have two: "t = 0 \<or> t = Suc 0" if "t < 2" for t :: nat using that by linarith
  assume "sync_step two_callers 2 lost_state s'"
  then show False by (rule sync_stepE) (use at two in \<open>fastforce+\<close>)
qed

end
