(* ===== verification/Xpc_Listener.thy ===== *)
theory Xpc_Listener
  imports Xpc_Connection
begin

text \<open>
  Processes that create and cancel listeners for one service name (\<^verbatim>\<open>create_listener\<close> and
  \<^verbatim>\<open>cancel\<close> of \<^verbatim>\<open>xpc_shim.c\<close>), interleaved at their system calls.  The lock file is a path that
  leads to an inode; \<^verbatim>\<open>flock\<close> locks the inode that was opened.  The socket path leads to the
  process that bound it last.  A process may also crash, which drops its lock and leaves both
  paths behind.
\<close>

section \<open>The protocol\<close>

datatype listener_pc =
    Idle
  | Opened nat
  | Locked nat
  | Unlinked nat
  | Serving nat
  | Closing nat
  | Releasing nat

record name_state =
  lock_inode :: "nat option"
  fresh :: nat
  owner :: "nat \<Rightarrow> nat option"
  bound :: "nat option"
  at :: "nat \<Rightarrow> listener_pc"

definition go :: "nat \<Rightarrow> listener_pc \<Rightarrow> name_state \<Rightarrow> name_state" where
  "go p l s = s\<lparr>at := (at s)(p := l)\<rparr>"

definition drop_lock :: "nat \<Rightarrow> name_state \<Rightarrow> name_state" where
  "drop_lock p s = s\<lparr>owner := (\<lambda>i. if owner s i = Some p then None else owner s i)\<rparr>"

text \<open>\<open>open\<close> creates the file if the path is free.  \<open>bind_busy\<close> is \<^verbatim>\<open>EADDRINUSE\<close> followed by
  \<^verbatim>\<open>unlink(path)\<close>; \<open>bind\<close> is the first or second \<^verbatim>\<open>bind\<close>, with \<^verbatim>\<open>listen\<close>.\<close>

inductive create_step :: "name_state \<Rightarrow> name_state \<Rightarrow> bool" where
  open_new: "at s p = Idle \<Longrightarrow> lock_inode s = None \<Longrightarrow>
    create_step s (go p (Opened (fresh s)) (s\<lparr>lock_inode := Some (fresh s), fresh := Suc (fresh s)\<rparr>))"
| open_old: "at s p = Idle \<Longrightarrow> lock_inode s = Some i \<Longrightarrow> create_step s (go p (Opened i) s)"
| flock: "at s p = Opened i \<Longrightarrow> owner s i = None \<Longrightarrow>
    create_step s (go p (Locked i) (s\<lparr>owner := (owner s)(i := Some p)\<rparr>))"
| flock_busy: "at s p = Opened i \<Longrightarrow> owner s i = Some q \<Longrightarrow> create_step s (go p Idle s)"
| bind: "at s p = Locked i \<or> at s p = Unlinked i \<Longrightarrow> bound s = None \<Longrightarrow>
    create_step s (go p (Serving i) (s\<lparr>bound := Some p\<rparr>))"
| bind_busy: "at s p = Locked i \<Longrightarrow> bound s = Some q \<Longrightarrow>
    create_step s (go p (Unlinked i) (s\<lparr>bound := None\<rparr>))"
| bind_fail: "at s p = Unlinked i \<Longrightarrow> bound s = Some q \<Longrightarrow>
    create_step s (go p Idle (drop_lock p s))"
| crash: "create_step s (go p Idle (drop_lock p s))"

text \<open>\<^verbatim>\<open>cancel\<close>: unlink the socket, unlink the lock file, close the lock.\<close>

inductive cancel_step :: "name_state \<Rightarrow> name_state \<Rightarrow> bool" where
  unlink_socket: "at s p = Serving i \<Longrightarrow> cancel_step s (go p (Closing i) (s\<lparr>bound := None\<rparr>))"
| unlink_lock: "at s p = Closing i \<Longrightarrow> cancel_step s (go p (Releasing i) (s\<lparr>lock_inode := None\<rparr>))"
| close_lock: "at s p = Releasing i \<Longrightarrow> cancel_step s (go p Idle (drop_lock p s))"

inductive_cases create_stepE: "create_step s s'"
inductive_cases cancel_stepE: "cancel_step s s'"

definition name_start :: name_state where
  "name_start = \<lparr>lock_inode = None, fresh = 0, owner = (\<lambda>i. None), bound = None, at = (\<lambda>p. Idle)\<rparr>"

lemma go_simps [simp]:
  "at (go p l s) = (at s)(p := l)" "lock_inode (go p l s) = lock_inode s"
  "fresh (go p l s) = fresh s" "owner (go p l s) = owner s" "bound (go p l s) = bound s"
  by (simp_all add: go_def)

lemma drop_lock_simps [simp]:
  "at (drop_lock p s) = at s" "lock_inode (drop_lock p s) = lock_inode s"
  "fresh (drop_lock p s) = fresh s" "bound (drop_lock p s) = bound s"
  "owner (drop_lock p s) i = (if owner s i = Some p then None else owner s i)"
  by (simp_all add: drop_lock_def)

section \<open>Without cancellation the name has one owner\<close>

definition holds :: "listener_pc \<Rightarrow> nat \<Rightarrow> bool" where
  "holds l i = (l = Locked i \<or> l = Unlinked i \<or> l = Serving i)"

lemma holds_simps [simp]:
  "holds Idle i = False" "holds (Opened j) i = False" "holds (Closing j) i = False"
  "holds (Releasing j) i = False" "holds (Locked j) i = (i = j)" "holds (Unlinked j) i = (i = j)"
  "holds (Serving j) i = (i = j)"
  by (auto simp: holds_def)

text \<open>There is one lock inode, whoever is past \<^verbatim>\<open>flock\<close> owns it, and a serving process is the one
  bound.\<close>

definition proc_ok :: "name_state \<Rightarrow> nat \<Rightarrow> bool" where
  "proc_ok s p =
     (case at s p of
        Idle \<Rightarrow> True
      | Opened i \<Rightarrow> lock_inode s = Some i
      | Locked i \<Rightarrow> lock_inode s = Some i \<and> owner s i = Some p
      | Unlinked i \<Rightarrow> lock_inode s = Some i \<and> owner s i = Some p \<and> bound s = None
      | Serving i \<Rightarrow> lock_inode s = Some i \<and> owner s i = Some p \<and> bound s = Some p
      | Closing i \<Rightarrow> False
      | Releasing i \<Rightarrow> False)"

definition owners_ok :: "name_state \<Rightarrow> bool" where
  "owners_ok s = (\<forall>i p. owner s i = Some p \<longrightarrow> holds (at s p) i)"

definition name_ok :: "name_state \<Rightarrow> bool" where
  "name_ok s = ((\<forall>p. proc_ok s p) \<and> owners_ok s)"

lemma name_ok_start: "name_ok name_start"
  by (simp add: name_ok_def proc_ok_def owners_ok_def name_start_def)

lemma name_okD: "name_ok s \<Longrightarrow> holds (at s p) i \<Longrightarrow> lock_inode s = Some i \<and> owner s i = Some p"
  unfolding name_ok_def by (auto simp: proc_ok_def dest!: spec [of _ p] split: listener_pc.splits)

lemma name_ok_sole: "name_ok s \<Longrightarrow> holds (at s p) i \<Longrightarrow> holds (at s q) j \<Longrightarrow> p = q \<and> i = j"
  by (metis name_okD option.inject)

text \<open>Preservation, seen from one process \<open>q\<close>.\<close>

lemma proc_ok_step: "create_step s s' \<Longrightarrow> name_ok s \<Longrightarrow> proc_ok s' q"
proof (erule create_stepE)
  fix p
  assume s: "s' = go p (Opened (fresh s)) (s\<lparr>lock_inode := Some (fresh s), fresh := Suc (fresh s)\<rparr>)"
    "lock_inode s = None" "name_ok s"
  then have "proc_ok s q" by (simp add: name_ok_def)
  with s show ?thesis by (cases "at s q") (auto simp: proc_ok_def)
next
  fix p i
  assume s: "s' = go p (Opened i) s" "lock_inode s = Some i" "name_ok s"
  then have "proc_ok s q" by (simp add: name_ok_def)
  with s show ?thesis by (cases "at s q") (auto simp: proc_ok_def)
next
  fix p i
  assume s: "s' = go p (Locked i) (s\<lparr>owner := (owner s)(i \<mapsto> p)\<rparr>)" "at s p = Opened i"
    "owner s i = None" "name_ok s"
  then have "proc_ok s q" "proc_ok s p" by (simp_all add: name_ok_def)
  with s show ?thesis by (cases "at s q") (auto simp: proc_ok_def)
next
  fix p i
  assume s: "s' = go p (Serving i) (s\<lparr>bound := Some p\<rparr>)" "at s p = Locked i \<or> at s p = Unlinked i"
    "bound s = None" "name_ok s"
  then have ok: "proc_ok s q" "proc_ok s p" and p: "holds (at s p) i" by (auto simp: name_ok_def)
  show ?thesis
    using s ok name_ok_sole [OF s(4) p, of q] by (cases "at s q") (auto simp: proc_ok_def)
next
  fix p i r
  assume s: "s' = go p (Unlinked i) (s\<lparr>bound := None\<rparr>)" "at s p = Locked i" "name_ok s"
  then have ok: "proc_ok s q" "proc_ok s p" and p: "holds (at s p) i" by (auto simp: name_ok_def)
  show ?thesis
    using s ok name_ok_sole [OF s(3) p, of q] by (cases "at s q") (auto simp: proc_ok_def)
next
  fix p
  assume s: "s' = go p Idle (drop_lock p s)" "name_ok s"
  then have "proc_ok s q" by (simp add: name_ok_def)
  with s show ?thesis by (cases "at s q") (auto simp: proc_ok_def)
next
  fix p i r
  assume s: "s' = go p Idle (drop_lock p s)" "name_ok s"
  then have "proc_ok s q" by (simp add: name_ok_def)
  with s show ?thesis by (cases "at s q") (auto simp: proc_ok_def)
next
  fix p i r
  assume s: "s' = go p Idle s" "name_ok s"
  then have "proc_ok s q" by (simp add: name_ok_def)
  with s show ?thesis by (cases "at s q") (auto simp: proc_ok_def)
qed

lemma owners_ok_step: "create_step s s' \<Longrightarrow> owners_ok s \<Longrightarrow> owners_ok s'"
proof -
  assume step: "create_step s s'" and "owners_ok s"
  then have own: "holds (at s q) i" if "owner s i = Some q" for i q
    using that by (simp add: owners_ok_def)
  have "holds (at s' q) i" if "owner s' i = Some q" for i q
    using step by (cases rule: create_step.cases)
      (use that own [of i q] in \<open>auto split: if_splits\<close>)
  then show ?thesis by (simp add: owners_ok_def)
qed

lemma name_ok_step [step_inv]: "create_step s s' \<Longrightarrow> name_ok s \<Longrightarrow> name_ok s'"
  using proc_ok_step owners_ok_step by (metis name_ok_def)

lemma name_run: "create_step\<^sup>*\<^sup>* name_start s \<Longrightarrow> name_ok s"
  by (induction rule: rtranclp_induct) (auto intro: name_ok_start name_ok_step)

section \<open>With cancellation it can have two\<close>

definition name_step :: "name_state \<Rightarrow> name_state \<Rightarrow> bool" where
  "name_step s s' = (create_step s s' \<or> cancel_step s s')"

lemma name_step_create: "create_step s s' \<Longrightarrow> name_step s s'"
  and name_step_cancel: "cancel_step s s' \<Longrightarrow> name_step s s'"
  by (simp_all add: name_step_def)

text \<open>Process 0 serves; 1 opens the lock file; 0 cancels; 1 locks the unlinked file and serves; 2
  creates a new lock file, takes the bound socket for a corpse, and serves.\<close>

definition stolen_state :: name_state where
  "stolen_state =
     \<lparr>lock_inode = Some 1, fresh = 2, owner = (\<lambda>i. None)(0 := Some 1, 1 := Some 2),
      bound = Some 2, at = (\<lambda>p. Idle)(1 := Serving 0, 2 := Serving 1)\<rparr>"

lemma stolen_state_reachable: "name_step\<^sup>*\<^sup>* name_start stolen_state"
proof -
  let ?s1 = "go 0 (Opened 0) (name_start\<lparr>lock_inode := Some 0, fresh := Suc 0\<rparr>)"
  let ?s2 = "go 0 (Locked 0) (?s1\<lparr>owner := (owner ?s1)(0 := Some 0)\<rparr>)"
  let ?s3 = "go 0 (Serving 0) (?s2\<lparr>bound := Some 0\<rparr>)"
  let ?s4 = "go 1 (Opened 0) ?s3"
  let ?s5 = "go 0 (Closing 0) (?s4\<lparr>bound := None\<rparr>)"
  let ?s6 = "go 0 (Releasing 0) (?s5\<lparr>lock_inode := None\<rparr>)"
  let ?s7 = "go 0 Idle (drop_lock 0 ?s6)"
  let ?s8 = "go 1 (Locked 0) (?s7\<lparr>owner := (owner ?s7)(0 := Some 1)\<rparr>)"
  let ?s9 = "go 1 (Serving 0) (?s8\<lparr>bound := Some 1\<rparr>)"
  let ?s10 = "go 2 (Opened 1) (?s9\<lparr>lock_inode := Some 1, fresh := Suc 1\<rparr>)"
  let ?s11 = "go 2 (Locked 1) (?s10\<lparr>owner := (owner ?s10)(1 := Some 2)\<rparr>)"
  let ?s12 = "go 2 (Unlinked 1) (?s11\<lparr>bound := None\<rparr>)"
  let ?s13 = "go 2 (Serving 1) (?s12\<lparr>bound := Some 2\<rparr>)"
  note start = name_start_def
  have "name_step name_start ?s1"
    using create_step.open_new [of name_start 0] by (simp add: start name_step_create)
  moreover have "name_step ?s1 ?s2" by (intro name_step_create flock) (simp_all add: start)
  moreover have "name_step ?s2 ?s3" by (intro name_step_create bind) (simp_all add: start)
  moreover have "name_step ?s3 ?s4" by (intro name_step_create open_old) (simp_all add: start)
  moreover have "name_step ?s4 ?s5" by (intro name_step_cancel unlink_socket) (simp_all add: start)
  moreover have "name_step ?s5 ?s6" by (intro name_step_cancel unlink_lock) (simp_all add: start)
  moreover have "name_step ?s6 ?s7" by (intro name_step_cancel close_lock) (simp_all add: start)
  moreover have "name_step ?s7 ?s8" by (intro name_step_create flock) (simp_all add: start)
  moreover have "name_step ?s8 ?s9" by (intro name_step_create bind) (simp_all add: start)
  moreover have "name_step ?s9 ?s10"
    using create_step.open_new [of ?s9 2] by (simp add: start name_step_create)
  moreover have "name_step ?s10 ?s11" by (intro name_step_create flock) (simp_all add: start)
  moreover have "name_step ?s11 ?s12" by (intro name_step_create bind_busy) (simp_all add: start)
  moreover have "name_step ?s12 ?s13" by (intro name_step_create bind) (simp_all add: start)
  moreover have "?s13 = stolen_state"
    by (simp add: go_def drop_lock_def start stolen_state_def fun_eq_iff)
  ultimately show ?thesis by (simp only: converse_rtranclp_into_rtranclp rtranclp.rtrancl_refl)
qed

end
