(* ===== verification/Xpc_Claims.thy ===== *)
theory Xpc_Claims
  imports Xpc_Delivery Xpc_Threads Xpc_Listener
begin

text \<open>What the messaging library of \<^verbatim>\<open>xpc_shim.c\<close> promises, and where it falls short.\<close>

text \<open>C5: End-to-end delivery.  Whatever a connection reports as sent over any kernel reaches a
  receiver complete, in order, with the ids of the sender and with equal content, however the
  bytes are cut into pieces and however often the calls are interrupted.\<close>

theorem messages_delivered_in_order:
  assumes "send_many s ds txs = Some (rcs, s', sent)" "\<forall>rc \<in> set rcs. rc = CATBSD_XPC_SUCCESS"
    and "\<forall>d \<in> set ds. wire_ok d" "clean rxs" "stream rxs = sent"
    and "\<not> is_listener r" "\<not> resumed r" "queue r = []"
  shows "receive_many (length ds) r rxs =
           Some (map (\<lambda>d. (CATBSD_XPC_SUCCESS, Some (received d))) (stamped (next_id s) ds))"
  using assms by (rule delivery)

definition ping :: xpc_object where
  "ping = catbsd_xpc_dictionary_create\<lparr>entries := [(''op'', XString [0x70, 0x69]), (''n'', XInt64 5)]\<rparr>"

lemma ping_ok: "wire_ok ping"
  by (simp add: wire_ok_def ping_def catbsd_xpc_dictionary_create_def keys_ok_def pair_ok_def
      entry_ok_def CATBSD_XPC_MAX_MESSAGE_def XPC_HEADER_SIZE_def value_size_def)

lemma ping_frame:
  "frame (ping\<lparr>msg_id := 1, is_reply := False\<rparr>) =
     [0x43, 0x58, 0x50, 0x31, 23, 0, 0, 0, 1, 0, 0, 0, 0, 0, 0, 0, 0, 0, 0, 0, 2, 0, 0, 0,
      2, 0, 0x6F, 0x70, 5, 2, 0, 0, 0, 0x70, 0x69, 1, 0, 0x6E, 2, 5, 0, 0, 0, 0, 0, 0, 0]"
  by code_simp

lemma ping_sent:
  "send_many (conn_alloc 3 None) [ping] [TxSent 10, TxIntr, TxSent 100] =
     Some ([CATBSD_XPC_SUCCESS], (conn_alloc 3 None)\<lparr>next_id := 2\<rparr>,
           frame (ping\<lparr>msg_id := 1, is_reply := False\<rparr>))"
  by (simp add: catbsd_xpc_connection_send_message_def send_locked_def Let_def serialize_frame
      ping_ok ping_frame conn_alloc_def fail_unless_ok_def)

theorem messages_delivered_in_order_witness:
  "receive_many 1 (conn_alloc 4 None)
     [RecvData (take 7 (frame (ping\<lparr>msg_id := 1, is_reply := False\<rparr>))), RecvIntr,
      RecvData (drop 7 (frame (ping\<lparr>msg_id := 1, is_reply := False\<rparr>)))] =
   Some [(CATBSD_XPC_SUCCESS, Some (received (ping\<lparr>msg_id := 1, is_reply := False\<rparr>)))]"
  using messages_delivered_in_order [OF ping_sent, of
      "[RecvData (take 7 (frame (ping\<lparr>msg_id := 1, is_reply := False\<rparr>))), RecvIntr,
        RecvData (drop 7 (frame (ping\<lparr>msg_id := 1, is_reply := False\<rparr>)))]" "conn_alloc 4 None"]
  by (simp add: ping_ok ping_frame conn_alloc_def)

text \<open>C6: The frame parser is safe on hostile input.  For any bytes and any claimed length within
  them it reads nothing outside the buffer, and an object it does return has distinct keys, keys
  that are C strings of at most 65535 characters, and values no longer than a message.\<close>

theorem deserialize_memory_safe:
  assumes "len \<le> length p"
  shows "catbsd_xpc_deserialize (Some p) len \<noteq> DFault \<and>
         (\<forall>d. catbsd_xpc_deserialize (Some p) len = DOk d \<longrightarrow> object_ok d)"
  using deserialize_safe [OF assms] by (auto simp: dsafe_def split: dres.splits)

theorem deserialize_memory_safe_witness:
  "catbsd_xpc_deserialize (Some [0x43, 0x58, 0x50, 0x31, 0xFF, 0xFF, 0xFF, 0xFF]) 8 \<noteq> DFault"
  using deserialize_memory_safe [of 8 "[0x43, 0x58, 0x50, 0x31, 0xFF, 0xFF, 0xFF, 0xFF]"] by simp

lemma api_ok_created: "api_ok (Some (catbsd_xpc_dictionary_create))"
  by (simp add: api_ok_def catbsd_xpc_dictionary_create_def keys_ok_def)

lemma api_built_ok: "api_ok (foldl dict_step (Some catbsd_xpc_dictionary_create) calls)"
  by (rule dict_machine.inv_run) (rule api_ok_created)

text \<open>C7: Every dictionary a client can build with the API, from any calls with any arguments,
  either is refused by the serializer for its size alone, or is serialized to a frame that parses
  back to the same entries, id and reply flag, even with other bytes behind it.\<close>

theorem api_built_round_trip:
  assumes "foldl dict_step (Some catbsd_xpc_dictionary_create) calls = Some d"
  shows "(CATBSD_XPC_MAX_MESSAGE < XPC_HEADER_SIZE + payload_size (entries d) \<and>
            catbsd_xpc_serialize (Some d) = (CATBSD_XPC_EPROTO, None)) \<or>
         (\<exists>buf. catbsd_xpc_serialize (Some d) = (CATBSD_XPC_SUCCESS, Some buf) \<and>
            length buf = XPC_HEADER_SIZE + payload_size (entries d) \<and>
            catbsd_xpc_deserialize (Some (buf @ extra)) (length buf + length extra) =
              DOk (d\<lparr>refcount := 1\<rparr>))"
proof (cases "CATBSD_XPC_MAX_MESSAGE < XPC_HEADER_SIZE + payload_size (entries d)")
  case True
  then show ?thesis by (simp add: catbsd_xpc_serialize_def Let_def)
next
  case False
  then have ok: "wire_ok d"
    using api_built_ok [of calls] by (simp add: assms api_ok_def wire_ok_def)
  have len: "length (frame d) = XPC_HEADER_SIZE + payload_size (entries d)"
    by (simp add: frame_def)
  have "catbsd_xpc_deserialize (Some (frame d @ extra)) (length (frame d @ extra)) =
      DOk (d\<lparr>refcount := 1\<rparr>)"
    by (rule deserialize_frame [OF ok, where extra = extra]) (simp add: frame_def)
  then show ?thesis using serialize_frame [OF ok] len by auto
qed

theorem api_built_round_trip_witness:
  "\<exists>buf. catbsd_xpc_serialize (Some catbsd_xpc_dictionary_create) = (CATBSD_XPC_SUCCESS, Some buf) \<and>
     catbsd_xpc_deserialize (Some (buf @ [7])) (length buf + 1) =
       DOk (catbsd_xpc_dictionary_create\<lparr>refcount := 1\<rparr>)"
proof -
  have "foldl dict_step (Some catbsd_xpc_dictionary_create) [] = Some catbsd_xpc_dictionary_create"
    by simp
  from api_built_round_trip [OF this, of "[7]"] show ?thesis
    by (auto simp: catbsd_xpc_dictionary_create_def CATBSD_XPC_MAX_MESSAGE_def XPC_HEADER_SIZE_def)
qed

text \<open>C8: The synchronous call returns the reply to its own request and keeps the other traffic.
  If the request went out and the peer sends any other messages before the answer, in any chunks,
  the call returns that answer, and the others are queued behind what was queued before, in order.\<close>

theorem sync_call_matches_reply:
  assumes "\<not> is_listener c" "\<not> cancelled c" "\<not> resumed c"
    and "send_locked msg (next_id c) False txs = Some (CATBSD_XPC_SUCCESS, msg', sent, txs')"
    and "clean rxs" "stream rxs = concat (map frame others) @ frame reply @ rest"
    and "\<forall>d \<in> set others. wire_ok d \<and> \<not> answers (next_id c) d"
    and "wire_ok reply" "answers (next_id c) reply" "\<forall>d \<in> set (queue c). \<not> answers (next_id c) d"
  shows "\<exists>rxs'. catbsd_xpc_connection_send_message_with_reply_sync c msg txs rxs =
           Some (CATBSD_XPC_SUCCESS,
                 c\<lparr>next_id := next_id c + 1, queue := queue c @ map received others\<rparr>,
                 Some (received reply), sent, rxs') \<and> stream rxs' = rest"
  using await_reply_clean [OF assms(5-9), of "c\<lparr>next_id := next_id c + 1\<rparr>"] assms(1-4,10)
  by (auto simp: catbsd_xpc_connection_send_message_with_reply_sync_def Let_def)

theorem sync_call_matches_reply_witness:
  "\<exists>rxs'. catbsd_xpc_connection_send_message_with_reply_sync (conn_alloc 3 None) ping [TxSent 100]
       [RecvData (frame (ping\<lparr>msg_id := 9, is_reply := False\<rparr>) @
          frame (ping\<lparr>msg_id := 1, is_reply := True\<rparr>))] =
     Some (CATBSD_XPC_SUCCESS,
           (conn_alloc 3 None)\<lparr>next_id := 1 + 1,
              queue := [] @ map received [ping\<lparr>msg_id := 9, is_reply := False\<rparr>]\<rparr>,
           Some (received (ping\<lparr>msg_id := 1, is_reply := True\<rparr>)),
           frame (ping\<lparr>msg_id := 1, is_reply := False\<rparr>), rxs') \<and> stream rxs' = []"
proof -
  let ?c = "conn_alloc 3 None"
  have sent: "send_locked ping (next_id ?c) False [TxSent 100] =
      Some (CATBSD_XPC_SUCCESS, ping\<lparr>msg_id := 1, is_reply := False\<rparr>,
            frame (ping\<lparr>msg_id := 1, is_reply := False\<rparr>), [])"
    by (simp add: send_locked_def Let_def serialize_frame ping_ok ping_frame conn_alloc_def)
  have ne: "frame d \<noteq> []" for d :: xpc_object
    by (simp add: frame_def put_header_def XPC_MAGIC_def)
  show ?thesis
    using sync_call_matches_reply [OF _ _ _ sent, of
        "[RecvData (frame (ping\<lparr>msg_id := 9, is_reply := False\<rparr>) @
            frame (ping\<lparr>msg_id := 1, is_reply := True\<rparr>))]"
        "[ping\<lparr>msg_id := 9, is_reply := False\<rparr>]" "ping\<lparr>msg_id := 1, is_reply := True\<rparr>" "[]"]
    by (simp add: conn_alloc_def ping_ok answers_def ne)
qed



text \<open>C10: But a reply can be left lying.  Two threads call; the reply to the second arrives and is
  read by the first, which queues it after the second has checked the queue; the second then
  reads the socket without checking again.  No step is possible any more although its reply is in
  the queue (\<^verbatim>\<open>receive_message\<close> does check again after taking the read lock).\<close>

theorem sync_call_lost_wakeup:
  "\<exists>s. (sync_step two_callers 2)\<^sup>*\<^sup>* (sync_start [] [reply_to 2]) s \<and>
     pc s 1 = Reading \<and> (\<exists>m \<in> set (pending s). answers (two_callers 1) m) \<and>
     (\<forall>s'. \<not> sync_step two_callers 2 s s')"
proof -
  have "pc lost_state 1 = Reading" "\<exists>m \<in> set (pending lost_state). answers (two_callers 1) m"
    by (simp_all add: lost_state_def answers_def reply_to_def two_callers_def)
  then show ?thesis using lost_state_reachable lost_state_stuck by blast
qed

text \<open>C11: As long as listeners end by crashing only, a name has one owner: however processes
  interleave in \<^verbatim>\<open>create_listener\<close>, at most one is past the lock, and a serving process is the one
  the socket path leads to.\<close>

theorem listener_exclusive:
  assumes "create_step\<^sup>*\<^sup>* name_start s"
  shows "(\<forall>p q i j. holds (at s p) i \<and> holds (at s q) j \<longrightarrow> p = q) \<and>
         (\<forall>p i. at s p = Serving i \<longrightarrow> bound s = Some p)"
proof -
  have ok: "name_ok s" using assms by (rule name_run)
  have "bound s = Some p" if "at s p = Serving i" for p i
    using ok that by (auto simp: name_ok_def proc_ok_def dest!: spec [of _ p])
  then show ?thesis using name_ok_sole [OF ok] by blast
qed

text \<open>Process 3 creates the lock file, locks it and binds the socket.\<close>

theorem listener_exclusive_witness:
  "bound (go 3 (Serving 0) (go 3 (Locked 0) (go 3 (Opened 0)
       (name_start\<lparr>lock_inode := Some 0, fresh := Suc 0\<rparr>)\<lparr>owner := (\<lambda>i. None)(0 := Some 3)\<rparr>)
       \<lparr>bound := Some 3\<rparr>)) = Some 3"
proof -
  let ?s1 = "go 3 (Opened 0) (name_start\<lparr>lock_inode := Some 0, fresh := Suc 0\<rparr>)"
  let ?s2 = "go 3 (Locked 0) (?s1\<lparr>owner := (\<lambda>i. None)(0 := Some 3)\<rparr>)"
  let ?s3 = "go 3 (Serving 0) (?s2\<lparr>bound := Some 3\<rparr>)"
  have "create_step name_start ?s1" using open_new [of name_start 3] by (simp add: name_start_def)
  moreover have "create_step ?s1 ?s2"
    using flock [of ?s1 3 0] by (simp add: name_start_def)
  moreover have "create_step ?s2 ?s3" by (rule bind) (simp_all add: name_start_def)
  ultimately have "create_step\<^sup>*\<^sup>* name_start ?s3"
    by (simp only: converse_rtranclp_into_rtranclp rtranclp.rtrancl_refl)
  from listener_exclusive [OF this] have "\<And>p i. at ?s3 p = Serving i \<Longrightarrow> bound ?s3 = Some p" by blast
  from this [of 3 0] show ?thesis by simp
qed

text \<open>C12: With \<^verbatim>\<open>cancel\<close> it can have two.  A process that opened the lock file before it is
  unlinked locks the unlinked file and serves; a third creates a new lock file, takes the bound
  socket for a corpse, unlinks it and serves too.  The comment in \<^verbatim>\<open>cancel\<close> says its order of
  unlinking and closing prevents this.\<close>

theorem listener_name_stolen:
  "\<exists>s. name_step\<^sup>*\<^sup>* name_start s \<and> at s 1 = Serving 0 \<and> at s 2 = Serving 1 \<and> bound s = Some 2"
proof -
  have "at stolen_state 1 = Serving 0" "at stolen_state 2 = Serving 1" "bound stolen_state = Some 2"
    by (simp_all add: stolen_state_def)
  then show ?thesis using stolen_state_reachable by blast
qed



text \<open>What a trace of system calls opens and closes, and whether it unlinks before it locks.\<close>

fun opened_fds :: "os_act list \<Rightarrow> int list" where
  "opened_fds [] = []"
| "opened_fds (ActSocket f # acts) = f # opened_fds acts"
| "opened_fds (ActOpen p f # acts) = f # opened_fds acts"
| "opened_fds (_ # acts) = opened_fds acts"

fun closed_fds :: "os_act list \<Rightarrow> int list" where
  "closed_fds [] = []"
| "closed_fds (ActClose f # acts) = f # closed_fds acts"
| "closed_fds (_ # acts) = closed_fds acts"

fun unlinks_unlocked :: "os_act list \<Rightarrow> bool" where
  "unlinks_unlocked [] = False"
| "unlinks_unlocked (ActFlock f # acts) = False"
| "unlinks_unlocked (ActUnlink p # acts) = True"
| "unlinks_unlocked (_ # acts) = unlinks_unlocked acts"

text \<open>C14: A listener leaks nothing and touches the socket path only as its owner.  Whatever the
  system answers, the descriptors opened by \<^verbatim>\<open>create_listener\<close> are closed, once each, by itself if
  it fails and by \<^verbatim>\<open>cancel\<close> if not; nothing is unlinked before the lock is held; a second cancel
  does nothing.\<close>

theorem listener_resources:
  assumes "catbsd_xpc_connection_create_listener env os nm = (conn, rc, acts)"
    and "catbsd_xpc_connection_cancel conn = (conn', acts')"
  shows "mset (opened_fds acts) = mset (closed_fds (acts @ acts')) \<and>
         \<not> unlinks_unlocked acts \<and> catbsd_xpc_connection_cancel conn' = (conn', [])"
proof (cases "resolve_path env nm SUN_PATH")
  case (Pair e p)
  have idem: "catbsd_xpc_connection_cancel conn' = (conn', [])"
    using assms(2) by (auto simp: catbsd_xpc_connection_cancel_def split: option.splits if_splits)
  show ?thesis
  proof (cases conn)
    case None
    then show ?thesis
      using assms Pair idem
      by (cases p)
        (auto simp: catbsd_xpc_connection_create_listener_def catbsd_xpc_connection_cancel_def
          Let_def split: if_splits)
  next
    case (Some c)
    then obtain q where p: "p = Some q"
      using assms(1) Pair by (cases p) (auto simp: catbsd_xpc_connection_create_listener_def)
    have ok: "0 \<le> os_socket os" "0 \<le> os_open os"
      using assms(1) Some by (auto simp: Pair p catbsd_xpc_connection_create_listener_def Let_def
          split: if_splits)
    show ?thesis
      using assms Some idem ok
      by (auto simp: Pair p catbsd_xpc_connection_create_listener_def
          catbsd_xpc_connection_cancel_def conn_alloc_def Let_def split: if_splits)
  qed
qed

theorem listener_resources_witness:
  "\<exists>conn acts acts'.
     catbsd_xpc_connection_create_listener \<lparr>runtime_dir = None, uid = 0, mkdir_ok = (\<lambda>_. True)\<rparr>
       \<lparr>os_socket = 3, os_open = 4, os_flock = OsOk, os_bind = OsAddrInUse, os_bind_again = OsOk,
        os_listen = OsOk, os_connect = OsOk\<rparr> (Some ''/tmp/s'') = (Some conn, 0, acts) \<and>
     catbsd_xpc_connection_cancel (Some conn) = (Some (conn\<lparr>cancelled := True, resumed := False,
       fd := -1, lock_fd := -1\<rparr>), acts') \<and>
     mset (opened_fds acts) = mset (closed_fds (acts @ acts'))"
proof -
  let ?conn = "(conn_alloc 3 (Some ''/tmp/s''))\<lparr>is_listener := True, path := Some ''/tmp/s'',
    lock_path := Some ''/tmp/s.lock'', lock_fd := 4\<rparr>"
  let ?acts = "[ActSocket 3, ActOpen ''/tmp/s.lock'' 4, ActFlock 4, ActBind ''/tmp/s'',
    ActUnlink ''/tmp/s'', ActBind ''/tmp/s'', ActListen]"
  have c: "catbsd_xpc_connection_create_listener
       \<lparr>runtime_dir = None, uid = 0, mkdir_ok = (\<lambda>_. True)\<rparr>
       \<lparr>os_socket = 3, os_open = 4, os_flock = OsOk, os_bind = OsAddrInUse, os_bind_again = OsOk,
        os_listen = OsOk, os_connect = OsOk\<rparr> (Some ''/tmp/s'') = (Some ?conn, 0, ?acts)"
    by (simp add: catbsd_xpc_connection_create_listener_def resolve_path_def SUN_PATH_def Let_def
        snprintf_s_def xpc_codes)
  have d: "catbsd_xpc_connection_cancel (Some ?conn) =
      (Some (?conn\<lparr>cancelled := True, resumed := False, fd := -1, lock_fd := -1\<rparr>),
       [ActShutdown 3, ActClose 3, ActUnlink ''/tmp/s'', ActUnlink ''/tmp/s.lock'', ActClose 4])"
    by (simp add: catbsd_xpc_connection_cancel_def conn_alloc_def)
  show ?thesis using listener_resources [OF c d] c d by blast
qed

text \<open>C15: The reader thread of a resumed connection hands every message of the stream to the
  handler, once and in order, whatever the chunks, and reports the end of the stream once, unless
  the connection was cancelled.\<close>

theorem reader_delivers_all:
  assumes "clean evs" "stream evs = concat (map frame ds)" "\<forall>d \<in> set ds. wire_ok d"
    and "handler c = Some h"
  shows "reader_thread cancelled_at c (evs @ [RecvEof]) =
           (map (\<lambda>d. Some (received d)) ds @ (if cancelled_at then [] else [None]),
            Some (c\<lparr>last_error := CATBSD_XPC_ECLOSED\<rparr>))"
  using assms by (rule reader_thread_clean)

theorem reader_delivers_all_witness:
  "reader_thread False ((conn_alloc 3 None)\<lparr>handler := Some 1\<rparr>)
     ([RecvData (take 3 (frame ping)), RecvData (drop 3 (frame ping) @ frame ping)] @ [RecvEof]) =
   (map (\<lambda>d. Some (received d)) [ping, ping] @ (if False then [] else [None]),
    Some ((conn_alloc 3 None)\<lparr>handler := Some 1, last_error := CATBSD_XPC_ECLOSED\<rparr>))"
proof -
  have "length (frame ping) = 47" by code_simp
  then have "take 3 (frame ping) \<noteq> []" "drop 3 (frame ping) \<noteq> []" by auto
  then show ?thesis
    using reader_delivers_all [of
        "[RecvData (take 3 (frame ping)), RecvData (drop 3 (frame ping) @ frame ping)]"
        "[ping, ping]" "(conn_alloc 3 None)\<lparr>handler := Some 1\<rparr>" 1 False] ping_ok
    by simp
qed

end
