(* ===== verification/Xpc_Memory.thy ===== *)
theory Xpc_Memory
  imports Xpc_Describe C_Memory
begin

text \<open>
  The message dictionaries of \<^verbatim>\<open>src/src/darwin-compat/shims/xpc_shim.c\<close> once more, as the code has them: a
  list of entries linked by pointers, with a pointer to the last, in memory whose allocations may fail (theory
  \<open>C_Memory\<close>).

  An access to an entry that is not there, or a second \<^verbatim>\<open>free\<close>, has the result \<open>None\<close>.
\<close>

section \<open>Entries in memory\<close>

text \<open>An entry: its key and the bytes of a string or of data are blocks of their own.  \<open>xn_value\<close> is the type
  with the scalar, or with the bytes.\<close>

record xnode =
  xn_key :: text_block
  xn_bytes :: nat
  xn_value :: xpc_value
  xn_next :: nat

record hdict =
  hd_addr :: nat
  hd_head :: nat
  hd_tail :: nat
  hd_count :: nat
  hd_refcount :: int
  hd_msg_id :: u64
  hd_is_reply :: bool

record xheap =
  xh_mem :: mem
  xh_nodes :: "nat \<Rightarrow> xnode option"

definition entry_free_m :: "nat \<Rightarrow> xheap \<Rightarrow> xheap option" where
  "entry_free_m p h =
     (case xh_nodes h p of
        None \<Rightarrow> None
      | Some e \<Rightarrow>
          map_option (\<lambda>m. h\<lparr>xh_mem := m, xh_nodes := (xh_nodes h)(p := None)\<rparr>)
            (both (free_text (xn_key e)) (both (free (xn_bytes e)) (free p)) (xh_mem h)))"

section \<open>Objects\<close>

definition catbsd_xpc_dictionary_create_m :: "alloc_plan \<Rightarrow> xheap \<Rightarrow> hdict option \<times> xheap" where
  "catbsd_xpc_dictionary_create_m ok h =
     (case malloc ok (xh_mem h) of
        (a, m) \<Rightarrow>
          (if a = 0 then None
           else Some \<lparr>hd_addr = a, hd_head = 0, hd_tail = 0, hd_count = 0, hd_refcount = 1, hd_msg_id = 0,
                  hd_is_reply = False\<rparr>,
           h\<lparr>xh_mem := m\<rparr>))"

partial_function (option) free_chain :: "nat \<Rightarrow> xheap \<Rightarrow> xheap option" where
  "free_chain e h =
     (if e = 0 then Some h
      else Option.bind (xh_nodes h e) (\<lambda>x. Option.bind (entry_free_m e h) (free_chain (xn_next x))))"

text \<open>The object that is left, if any.\<close>

definition catbsd_xpc_release_m :: "hdict option \<Rightarrow> xheap \<Rightarrow> (hdict option \<times> xheap) option" where
  "catbsd_xpc_release_m obj h =
     (case obj of
        None \<Rightarrow> Some (None, h)
      | Some d \<Rightarrow>
          (let n = hd_refcount d - 1 in
           if n \<le> 0 then
             Option.bind (free_chain (hd_head d) h) (\<lambda>h1.
               map_option (\<lambda>m. (None, h1\<lparr>xh_mem := m\<rparr>)) (free (hd_addr d) (xh_mem h1)))
           else Some (Some (d\<lparr>hd_refcount := n\<rparr>), h)))"

section \<open>Setters\<close>

text \<open>0 if there is no such entry.\<close>

partial_function (option) entry_find_m :: "(nat \<Rightarrow> xnode option) \<Rightarrow> string \<Rightarrow> nat \<Rightarrow> nat option" where
  "entry_find_m ns key e =
     (if e = 0 then Some 0
      else Option.bind (ns e) (\<lambda>x. if snd (xn_key x) = key then Some e else entry_find_m ns key (xn_next x)))"

text \<open>\<open>slot\<close> is the empty slot of the type.  The address is 0 if there was no memory.\<close>

definition entry_reset_m ::
  "alloc_plan \<Rightarrow> hdict \<Rightarrow> string \<Rightarrow> xpc_value \<Rightarrow> xheap \<Rightarrow> (nat \<times> hdict \<times> xheap) option" where
  "entry_reset_m ok d key slot h =
     (case entry_find_m (xh_nodes h) key (hd_head d) of
        None \<Rightarrow> None
      | Some p \<Rightarrow>
          if p \<noteq> 0 then
            Option.bind (xh_nodes h p) (\<lambda>e.
              map_option
                (\<lambda>m. (p, d, h\<lparr>xh_mem := m, xh_nodes := (xh_nodes h)(p \<mapsto> e\<lparr>xn_bytes := 0, xn_value := slot\<rparr>)\<rparr>))
                (free (xn_bytes e) (xh_mem h)))
          else
            (case malloc ok (xh_mem h) of
               (e, m1) \<Rightarrow>
                 if e = 0 then Some (0, d, h\<lparr>xh_mem := m1\<rparr>)
                 else
                   (case dup_string ok key m1 of
                      (t, m2) \<Rightarrow>
                        if fst t = 0 then map_option (\<lambda>m. (0, d, h\<lparr>xh_mem := m\<rparr>)) (free e m2)
                        else
                          let ns = (xh_nodes h)(e \<mapsto> \<lparr>xn_key = t, xn_bytes = 0, xn_value = slot, xn_next = 0\<rparr>) in
                          if hd_tail d \<noteq> 0 then
                            Option.bind (ns (hd_tail d)) (\<lambda>l.
                              Some (e, d\<lparr>hd_tail := e, hd_count := hd_count d + 1\<rparr>,
                                h\<lparr>xh_mem := m2, xh_nodes := ns(hd_tail d \<mapsto> l\<lparr>xn_next := e\<rparr>)\<rparr>))
                          else
                            Some (e, d\<lparr>hd_head := e, hd_tail := e, hd_count := hd_count d + 1\<rparr>,
                              h\<lparr>xh_mem := m2, xh_nodes := ns\<rparr>))))"

text \<open>What a setter writes into the entry: the bytes it has copied, if any, and the value.\<close>

definition store_entry :: "nat \<Rightarrow> nat \<Rightarrow> xpc_value \<Rightarrow> xheap \<Rightarrow> xheap option" where
  "store_entry p bytes v h =
     Option.bind (xh_nodes h p) (\<lambda>e.
       Some (h\<lparr>xh_nodes := (xh_nodes h)(p \<mapsto> e\<lparr>xn_bytes := bytes, xn_value := v\<rparr>)\<rparr>))"

fun empty_slot :: "xpc_value \<Rightarrow> xpc_value" where
  "empty_slot (XBool _) = XBool False"
| "empty_slot (XInt64 _) = XInt64 0"
| "empty_slot (XUint64 _) = XUint64 0"
| "empty_slot (XDouble _) = XDouble 0"
| "empty_slot (XString _) = XString []"
| "empty_slot (XData _) = XData []"

type_synonym dict_result = "(int \<times> hdict option \<times> xheap) option"

definition set_scalar_m ::
  "alloc_plan \<Rightarrow> hdict option \<Rightarrow> string option \<Rightarrow> xpc_value \<Rightarrow> xheap \<Rightarrow> dict_result" where
  "set_scalar_m ok obj key v h =
     (case obj of
        None \<Rightarrow> Some (CATBSD_XPC_EINVAL, None, h)
      | Some d \<Rightarrow>
          if \<not> valid_key key then Some (CATBSD_XPC_EINVAL, obj, h)
          else
            (case entry_reset_m ok d (the key) (empty_slot v) h of
               None \<Rightarrow> None
             | Some (p, d1, h1) \<Rightarrow>
                 if p \<noteq> 0 then map_option (\<lambda>h2. (CATBSD_XPC_SUCCESS, Some d1, h2)) (store_entry p 0 v h1)
                 else Some (CATBSD_XPC_ENOMEM, Some d1, h1)))"

definition dictionary_set_bytes_m ::
  "alloc_plan \<Rightarrow> hdict \<Rightarrow> string \<Rightarrow> (byte list \<Rightarrow> xpc_value) \<Rightarrow> byte list \<Rightarrow> xheap \<Rightarrow> dict_result" where
  "dictionary_set_bytes_m ok d key con bytes h =
     (if CATBSD_XPC_MAX_MESSAGE < length bytes then Some (CATBSD_XPC_EINVAL, Some d, h)
      else
        (case malloc ok (xh_mem h) of
           (c, m1) \<Rightarrow>
             if c = 0 then Some (CATBSD_XPC_ENOMEM, Some d, h\<lparr>xh_mem := m1\<rparr>)
             else
               (case entry_reset_m ok d key (con []) (h\<lparr>xh_mem := m1\<rparr>) of
                  None \<Rightarrow> None
                | Some (p, d1, h1) \<Rightarrow>
                    if p = 0 then
                      map_option (\<lambda>m. (CATBSD_XPC_ENOMEM, Some d1, h1\<lparr>xh_mem := m\<rparr>)) (free c (xh_mem h1))
                    else
                      map_option (\<lambda>h2. (CATBSD_XPC_SUCCESS, Some d1, h2)) (store_entry p c (con bytes) h1))))"

definition catbsd_xpc_dictionary_set_string_m ::
  "alloc_plan \<Rightarrow> hdict option \<Rightarrow> string option \<Rightarrow> string option \<Rightarrow> xheap \<Rightarrow> dict_result" where
  "catbsd_xpc_dictionary_set_string_m ok obj key value h =
     (case obj of
        None \<Rightarrow> Some (CATBSD_XPC_EINVAL, None, h)
      | Some d \<Rightarrow>
          if \<not> valid_key key then Some (CATBSD_XPC_EINVAL, obj, h)
          else
            (case value of
               None \<Rightarrow> Some (CATBSD_XPC_EINVAL, obj, h)
             | Some s \<Rightarrow> dictionary_set_bytes_m ok d (the key) XString (to_bytes (c_str s)) h))"

definition catbsd_xpc_dictionary_set_data_m ::
  "alloc_plan \<Rightarrow> hdict option \<Rightarrow> string option \<Rightarrow> byte list option \<Rightarrow> nat \<Rightarrow> xheap \<Rightarrow> dict_result" where
  "catbsd_xpc_dictionary_set_data_m ok obj key bytes len h =
     (case obj of
        None \<Rightarrow> Some (CATBSD_XPC_EINVAL, None, h)
      | Some d \<Rightarrow>
          if \<not> valid_key key then Some (CATBSD_XPC_EINVAL, obj, h)
          else if bytes = None \<and> 0 < len then Some (CATBSD_XPC_EINVAL, obj, h)
          else
            dictionary_set_bytes_m ok d (the key) XData
              (case bytes of None \<Rightarrow> [] | Some bs \<Rightarrow> take len bs) h)"

section \<open>Removal\<close>

text \<open>The pointer that leads to the entry, and the entry: 0 in the first place is \<^verbatim>\<open>&d->head\<close>, any other
  address the field \<^verbatim>\<open>next\<close> there; 0 in the second is no entry.\<close>

partial_function (option) find_prev ::
  "(nat \<Rightarrow> xnode option) \<Rightarrow> string \<Rightarrow> nat \<Rightarrow> nat \<Rightarrow> (nat \<times> nat) option" where
  "find_prev ns key prev e =
     (if e = 0 then Some (prev, 0)
      else Option.bind (ns e) (\<lambda>x. if snd (xn_key x) = key then Some (prev, e) else find_prev ns key e (xn_next x)))"

text \<open>The walk to the new last entry.\<close>

partial_function (option) find_tail :: "(nat \<Rightarrow> xnode option) \<Rightarrow> nat \<Rightarrow> nat \<Rightarrow> nat option" where
  "find_tail ns t scan =
     (if scan = 0 then Some t else Option.bind (ns scan) (\<lambda>x. find_tail ns scan (xn_next x)))"

definition unlink_entry :: "nat \<Rightarrow> nat \<Rightarrow> hdict \<Rightarrow> (nat \<Rightarrow> xnode option) \<Rightarrow> (hdict \<times> (nat \<Rightarrow> xnode option)) option" where
  "unlink_entry prev to d ns =
     (if prev = 0 then Some (d\<lparr>hd_head := to\<rparr>, ns)
      else Option.bind (ns prev) (\<lambda>y. Some (d, ns(prev \<mapsto> y\<lparr>xn_next := to\<rparr>))))"

definition catbsd_xpc_dictionary_remove_m :: "hdict option \<Rightarrow> string option \<Rightarrow> xheap \<Rightarrow> dict_result" where
  "catbsd_xpc_dictionary_remove_m obj key h =
     (case (obj, key) of
        (Some d, Some k) \<Rightarrow>
          Option.bind (find_prev (xh_nodes h) k 0 (hd_head d)) (\<lambda>(prev, e).
            if e = 0 then Some (CATBSD_XPC_EINVAL, obj, h)
            else
              Option.bind (xh_nodes h e) (\<lambda>x.
              Option.bind (unlink_entry prev (xn_next x) d (xh_nodes h)) (\<lambda>(d1, ns).
              Option.bind
                (if hd_tail d1 = e then map_option (\<lambda>t. d1\<lparr>hd_tail := t\<rparr>) (find_tail ns 0 (hd_head d1)) else Some d1)
                (\<lambda>d2. map_option (\<lambda>h2. (CATBSD_XPC_SUCCESS, Some (d2\<lparr>hd_count := hd_count d2 - 1\<rparr>), h2))
                        (entry_free_m e (h\<lparr>xh_nodes := ns\<rparr>))))))
      | _ \<Rightarrow> Some (CATBSD_XPC_EINVAL, obj, h))"

section \<open>The API\<close>

fun dict_call_m :: "alloc_plan \<Rightarrow> dict_op \<Rightarrow> hdict option \<Rightarrow> xheap \<Rightarrow> dict_result" where
  "dict_call_m ok (SetBool k b) d h = set_scalar_m ok d (Some (c_str k)) (XBool (b \<noteq> 0)) h"
| "dict_call_m ok (SetInt64 k i) d h = set_scalar_m ok d (Some (c_str k)) (XInt64 i) h"
| "dict_call_m ok (SetUint64 k u) d h = set_scalar_m ok d (Some (c_str k)) (XUint64 u) h"
| "dict_call_m ok (SetDouble k x) d h = set_scalar_m ok d (Some (c_str k)) (XDouble x) h"
| "dict_call_m ok (SetString k s) d h = catbsd_xpc_dictionary_set_string_m ok d (Some (c_str k)) (Some s) h"
| "dict_call_m ok (SetData k bs) d h =
     catbsd_xpc_dictionary_set_data_m ok d (Some (c_str k)) (Some bs) (length bs) h"
| "dict_call_m ok (Remove k) d h = catbsd_xpc_dictionary_remove_m d (Some (c_str k)) h"

text \<open>Calls one after the other, with their codes.\<close>

fun dict_calls_m ::
  "alloc_plan \<Rightarrow> dict_op list \<Rightarrow> hdict option \<Rightarrow> xheap \<Rightarrow> (int list \<times> hdict option \<times> xheap) option" where
  "dict_calls_m ok [] d h = Some ([], d, h)"
| "dict_calls_m ok (oper # opers) d h =
     Option.bind (dict_call_m ok oper d h) (\<lambda>(rc, d1, h1).
       map_option (\<lambda>(rcs, d2, h2). (rc # rcs, d2, h2)) (dict_calls_m ok opers d1 h1))"

section \<open>Reading\<close>

partial_function (option) entries_from :: "(nat \<Rightarrow> xnode option) \<Rightarrow> nat \<Rightarrow> xpc_entries option" where
  "entries_from ns e =
     (if e = 0 then Some []
      else
        Option.bind (ns e) (\<lambda>x.
          Option.bind (entries_from ns (xn_next x)) (\<lambda>es. Some ((snd (xn_key x), xn_value x) # es))))"

text \<open>What a reader sees of a dictionary.\<close>

definition object_at :: "xheap \<Rightarrow> hdict \<Rightarrow> xpc_object option" where
  "object_at h d =
     map_option (\<lambda>es. \<lparr>refcount = hd_refcount d, entries = es, msg_id = hd_msg_id d, is_reply = hd_is_reply d\<rparr>)
       (entries_from (xh_nodes h) (hd_head d))"

text \<open>The code, the block of the frame, and the frame.\<close>

definition catbsd_xpc_serialize_m ::
  "alloc_plan \<Rightarrow> hdict option \<Rightarrow> xheap \<Rightarrow> (int \<times> nat \<times> byte list \<times> xheap) option" where
  "catbsd_xpc_serialize_m ok obj h =
     (case obj of
        None \<Rightarrow> Some (CATBSD_XPC_EINVAL, 0, [], h)
      | Some d \<Rightarrow>
          Option.bind (object_at h d) (\<lambda>x.
            let payload = payload_size (entries x) in
            if CATBSD_XPC_MAX_MESSAGE < XPC_HEADER_SIZE + payload then Some (CATBSD_XPC_EPROTO, 0, [], h)
            else
              (case malloc ok (xh_mem h) of
                 (p, m) \<Rightarrow>
                   if p = 0 then Some (CATBSD_XPC_ENOMEM, 0, [], h\<lparr>xh_mem := m\<rparr>)
                   else Some (CATBSD_XPC_SUCCESS, p, put_header x payload @ put_entries (entries x), h\<lparr>xh_mem := m\<rparr>))))"

text \<open>The snapshot: for each place of the arrays the copy of the key and the type.  A copy that fails is \<^verbatim>\<open>NULL\<close>,
  and so are the places that are not reached.\<close>

fun snapshot_m ::
  "alloc_plan \<Rightarrow> (nat \<Rightarrow> xnode option) \<Rightarrow> nat \<Rightarrow> nat \<Rightarrow> mem \<Rightarrow> ((text_block \<times> nat) list \<times> mem) option" where
  "snapshot_m ok ns 0 e m = Some ([], m)"
| "snapshot_m ok ns (Suc n) e m =
     (if e = 0 then Some (replicate (Suc n) ((0, []), 0), m)
      else
        Option.bind (ns e) (\<lambda>x.
          case dup_string ok (snd (xn_key x)) m of
            (t, m1) \<Rightarrow>
              map_option (\<lambda>(snap, m2). ((t, xpc_type (xn_value x)) # snap, m2)) (snapshot_m ok ns n (xn_next x) m1)))"

fun apply_keys_m ::
  "(string \<Rightarrow> nat \<Rightarrow> 'c \<Rightarrow> int \<times> 'c) \<Rightarrow> (text_block \<times> nat) list \<Rightarrow> int \<Rightarrow> 'c \<Rightarrow> mem \<Rightarrow> (int \<times> 'c \<times> mem) option" where
  "apply_keys_m fn [] rc ctx m = Some (rc, ctx, m)"
| "apply_keys_m fn ((t, ty) # snap) rc ctx m =
     (case (if rc = 0 \<and> fst t \<noteq> 0 then fn (snd t) ty ctx else (rc, ctx)) of
        (rc1, ctx1) \<Rightarrow> Option.bind (free_text t m) (apply_keys_m fn snap rc1 ctx1))"

text \<open>The callback works on a context of its own.\<close>

definition catbsd_xpc_dictionary_apply_m ::
  "alloc_plan \<Rightarrow> hdict option \<Rightarrow> (string \<Rightarrow> nat \<Rightarrow> 'c \<Rightarrow> int \<times> 'c) option \<Rightarrow> 'c \<Rightarrow> xheap \<Rightarrow>
   (int \<times> 'c \<times> xheap) option" where
  "catbsd_xpc_dictionary_apply_m ok obj fn ctx h =
     (case (obj, fn) of
        (Some d, Some f) \<Rightarrow>
          (case (if 0 < hd_count d then malloc ok (xh_mem h) else (0, xh_mem h)) of (keys, m1) \<Rightarrow>
           case (if 0 < hd_count d then malloc ok m1 else (0, m1)) of (types, m2) \<Rightarrow>
             if 0 < hd_count d \<and> (keys = 0 \<or> types = 0) then
               map_option (\<lambda>m. (CATBSD_XPC_ENOMEM, ctx, h\<lparr>xh_mem := m\<rparr>)) (both (free keys) (free types) m2)
             else
               Option.bind (snapshot_m ok (xh_nodes h) (hd_count d) (hd_head d) m2) (\<lambda>(snap, m3).
               Option.bind (apply_keys_m f snap 0 ctx m3) (\<lambda>(rc, ctx1, m4).
                 map_option (\<lambda>m. (rc, ctx1, h\<lparr>xh_mem := m\<rparr>)) (both (free keys) (free types) m4))))
      | _ \<Rightarrow> Some (CATBSD_XPC_EINVAL, ctx, h))"

section \<open>Deserialization\<close>

text \<open>The value of an entry and the offset behind it; the switch of \<open>get_value\<close> without the setters.\<close>

definition value_at :: "byte list \<Rightarrow> nat \<Rightarrow> nat \<Rightarrow> nat \<Rightarrow> (xpc_value \<times> nat) dres" where
  "value_at p payload type off =
     (if type = 1 then
        dguard (off + 1 \<le> payload) (dbind (dread 1 get_u8 p off) (\<lambda>b. DOk (XBool (int (unat b) \<noteq> 0), off + 1)))
      else if type = 2 then
        dguard (off + 8 \<le> payload) (dbind (dread 8 get_u64 p off) (\<lambda>i. DOk (XInt64 i, off + 8)))
      else if type = 3 then
        dguard (off + 8 \<le> payload) (dbind (dread 8 get_u64 p off) (\<lambda>u. DOk (XUint64 u, off + 8)))
      else if type = 4 then
        dguard (off + 8 \<le> payload) (dbind (dread 8 get_u64 p off) (\<lambda>bits. DOk (XDouble bits, off + 8)))
      else if type = 5 \<or> type = 6 then
        dguard (off + 4 \<le> payload)
          (dbind (dread 4 get_u32 p off)
             (\<lambda>vlen. dguard (unat vlen \<le> payload - (off + 4))
                (dbind (dread (unat vlen) (take (unat vlen)) p (off + 4))
                   (\<lambda>bytes. DOk ((if type = 5 then XString else XData) bytes, off + 4 + unat vlen)))))
      else DBad)"

definition entry_at :: "byte list \<Rightarrow> nat \<Rightarrow> nat \<Rightarrow> (string \<times> xpc_value \<times> nat) dres" where
  "entry_at p payload off =
     dguard (off + 2 \<le> payload)
       (dbind (dread 2 get_u16 p off)
          (\<lambda>klen. dguard (off + 2 + unat klen + 1 \<le> payload \<and> klen \<noteq> 0)
             (dbind (dread (unat klen) (take (unat klen)) p (off + 2))
                (\<lambda>key. dbind (dread 1 get_u8 p (off + 2 + unat klen))
                   (\<lambda>type. dbind (value_at p payload (unat type) (off + 2 + unat klen + 1))
                      (\<lambda>(v, off'). DOk (c_str (of_bytes key), v, off')))))))"

text \<open>The payload and its length, the number of entries, the id and the flags.\<close>

definition header_at :: "byte list option \<Rightarrow> nat \<Rightarrow> (byte list \<times> nat \<times> nat \<times> u64 \<times> bool) dres" where
  "header_at buf len =
     (case buf of
        None \<Rightarrow> DBad
      | Some p \<Rightarrow>
          dguard (XPC_HEADER_SIZE \<le> len)
            (dbind (dread 4 (take 4) p 0)
               (\<lambda>magic. dguard (magic = XPC_MAGIC)
                  (dbind (dread 4 get_u32 p 4)
                     (\<lambda>payload. dguard (unat payload + XPC_HEADER_SIZE \<le> len)
                        (dbind (dread 4 get_u32 p 20)
                           (\<lambda>total. dbind (dread 8 get_u64 p 8)
                              (\<lambda>id. dbind (dread 4 get_u32 p 16)
                                 (\<lambda>flags.
                                    DOk (drop XPC_HEADER_SIZE p, unat payload, unat total, id,
                                      flags AND XPC_FLAG_REPLY \<noteq> 0))))))))))"

text \<open>The byte setter does not check the key.\<close>

definition set_value_m :: "alloc_plan \<Rightarrow> hdict \<Rightarrow> string \<Rightarrow> xpc_value \<Rightarrow> xheap \<Rightarrow> dict_result" where
  "set_value_m ok d key v h =
     (case v of
        XString bs \<Rightarrow> dictionary_set_bytes_m ok d key XString bs h
      | XData bs \<Rightarrow> dictionary_set_bytes_m ok d key XData bs h
      | _ \<Rightarrow> set_scalar_m ok (Some d) (Some key) v h)"

text \<open>Whether all entries were read, and the dictionary.\<close>

fun get_entries_m ::
  "alloc_plan \<Rightarrow> nat \<Rightarrow> byte list \<Rightarrow> nat \<Rightarrow> hdict \<Rightarrow> nat \<Rightarrow> xheap \<Rightarrow> (bool \<times> hdict \<times> xheap) option" where
  "get_entries_m ok 0 p payload d off h = Some (True, d, h)"
| "get_entries_m ok (Suc n) p payload d off h =
     (case entry_at p payload off of
        DFault \<Rightarrow> None
      | DBad \<Rightarrow> Some (False, d, h)
      | DOk (key, v, off') \<Rightarrow>
          Option.bind (set_value_m ok d key v h) (\<lambda>(rc, obj, h1).
            Option.bind obj (\<lambda>d1.
              if rc \<noteq> CATBSD_XPC_SUCCESS then Some (False, d1, h1)
              else get_entries_m ok n p payload d1 off' h1)))"

definition catbsd_xpc_deserialize_m ::
  "alloc_plan \<Rightarrow> byte list option \<Rightarrow> nat \<Rightarrow> xheap \<Rightarrow> (hdict option \<times> xheap) option" where
  "catbsd_xpc_deserialize_m ok buf len h =
     (case header_at buf len of
        DFault \<Rightarrow> None
      | DBad \<Rightarrow> Some (None, h)
      | DOk (p, payload, n, mid, reply) \<Rightarrow>
          (case catbsd_xpc_dictionary_create_m ok h of
             (None, h1) \<Rightarrow> Some (None, h1)
           | (Some d, h1) \<Rightarrow>
               Option.bind (get_entries_m ok n p payload (d\<lparr>hd_msg_id := mid, hd_is_reply := reply\<rparr>) 0 h1)
                 (\<lambda>(good, d1, h2). if good then Some (Some d1, h2) else catbsd_xpc_release_m (Some d1) h2)))"

section \<open>Descriptions\<close>

text \<open>The block and the text.  A text that cannot grow is returned as it is.\<close>

fun describe_loop_m ::
  "alloc_plan \<Rightarrow> (double \<Rightarrow> string) \<Rightarrow> xpc_entries \<Rightarrow> nat \<Rightarrow> text_block \<Rightarrow> mem \<Rightarrow> (text_block \<times> mem) option" where
  "describe_loop_m ok fmt_g [] cap out m = Some (out, m)"
| "describe_loop_m ok fmt_g (e # es) cap out m =
     (let text = describe_entry fmt_g e;
          n = length text;
          line = snprintf_s DESCRIBE_LINE text @ [CHR 0x00];
          need = length (snd out) + n + 1;
          append = (\<lambda>p cap m.
            if cap < need \<or> DESCRIBE_LINE < n + 1 then None
            else describe_loop_m ok fmt_g es cap (p, snd out @ take n line) m)
      in if cap < need then
           (case realloc ok (fst out) m of
              None \<Rightarrow> None
            | Some (p, m1) \<Rightarrow> if p = 0 then Some (out, m1) else append p (grow_cap cap need) m1)
         else append (fst out) cap m)"

definition catbsd_xpc_copy_description_m ::
  "alloc_plan \<Rightarrow> (double \<Rightarrow> string) \<Rightarrow> hdict option \<Rightarrow> xheap \<Rightarrow> (text_block \<times> xheap) option" where
  "catbsd_xpc_copy_description_m ok fmt_g obj h =
     (case obj of
        None \<Rightarrow> (case dup_string ok ''<null>'' (xh_mem h) of (t, m) \<Rightarrow> Some (t, h\<lparr>xh_mem := m\<rparr>))
      | Some d \<Rightarrow>
          Option.bind (object_at h d) (\<lambda>x.
            case malloc ok (xh_mem h) of
              (p, m) \<Rightarrow>
                if p = 0 then Some ((0, []), h\<lparr>xh_mem := m\<rparr>)
                else
                  map_option (\<lambda>(t, m1). (t, h\<lparr>xh_mem := m1\<rparr>))
                    (describe_loop_m ok fmt_g (entries x) 256
                       (p, ''<xpc dictionary: '' @ dec_nat (hd_count d) @ '' entries>'' @ [CHR 0x0A]) m)))"

end
