(* ===== verification/Xpc_Memory_Props.thy ===== *)
theory Xpc_Memory_Props
  imports Xpc_Memory
begin

text \<open>
  The linked list of a dictionary is its list of entries (theory \<open>Xpc_Object\<close>), and its blocks are its own:
  what finding, adding, overwriting and removing an entry do to both.
\<close>

section \<open>Chains\<close>

text \<open>The entries from one address up to another, with the addresses of the entries.\<close>

fun chain :: "(nat \<Rightarrow> xnode option) \<Rightarrow> nat \<Rightarrow> nat list \<Rightarrow> xpc_entries \<Rightarrow> nat \<Rightarrow> bool" where
  "chain ns p [] es q \<longleftrightarrow> es = [] \<and> p = q"
| "chain ns p (a # as) es q \<longleftrightarrow>
     p = a \<and> a \<noteq> 0 \<and>
     (\<exists>x es'. ns a = Some x \<and> fst (xn_key x) \<noteq> 0 \<and> es = (snd (xn_key x), xn_value x) # es' \<and>
        chain ns (xn_next x) as es' q)"

definition node_blk :: "(nat \<Rightarrow> xnode option) \<Rightarrow> nat \<Rightarrow> nat multiset" where
  "node_blk ns a =
     (case ns a of None \<Rightarrow> {#} | Some x \<Rightarrow> text_blk (xn_key x) + (blk (xn_bytes x) + blk a))"

fun chain_blk :: "(nat \<Rightarrow> xnode option) \<Rightarrow> nat list \<Rightarrow> nat multiset" where
  "chain_blk ns [] = {#}"
| "chain_blk ns (a # as) = node_blk ns a + chain_blk ns as"

lemma chain_append:
  "chain ns p (as @ bs) es q \<longleftrightarrow> (\<exists>es1 es2 r. es = es1 @ es2 \<and> chain ns p as es1 r \<and> chain ns r bs es2 q)"
proof (induction as arbitrary: p es)
  case (Cons a as)
  show ?case
  proof
    assume "chain ns p ((a # as) @ bs) es q"
    then obtain x es' where x: "p = a" "a \<noteq> 0" "ns a = Some x" "fst (xn_key x) \<noteq> 0"
      "es = (snd (xn_key x), xn_value x) # es'" "chain ns (xn_next x) (as @ bs) es' q" by auto
    then obtain es1 es2 r where "es' = es1 @ es2" "chain ns (xn_next x) as es1 r" "chain ns r bs es2 q"
      using Cons.IH by blast
    with x show "\<exists>es1 es2 r. es = es1 @ es2 \<and> chain ns p (a # as) es1 r \<and> chain ns r bs es2 q"
      by (intro exI [of _ "(snd (xn_key x), xn_value x) # es1"] exI [of _ es2] exI [of _ r]) simp
  next
    assume "\<exists>es1 es2 r. es = es1 @ es2 \<and> chain ns p (a # as) es1 r \<and> chain ns r bs es2 q"
    then show "chain ns p ((a # as) @ bs) es q" using Cons.IH by fastforce
  qed
qed auto

lemma chain_upd [simp]: "a \<notin> set as \<Longrightarrow> chain (ns(a := z)) p as es q = chain ns p as es q"
  by (induction as arbitrary: p es) auto

lemma node_blk_upd [simp]: "b \<noteq> a \<Longrightarrow> node_blk (ns(a := z)) b = node_blk ns b"
  by (simp add: node_blk_def)

lemma chain_blk_upd [simp]: "a \<notin> set as \<Longrightarrow> chain_blk (ns(a := z)) as = chain_blk ns as"
  by (induction as) auto

lemma chain_blk_append [simp]: "chain_blk ns (as @ bs) = chain_blk ns as + chain_blk ns bs"
  by (induction as) (simp_all add: ac_simps)

lemma chain_in_blk: "chain ns p as es q \<Longrightarrow> a \<in> set as \<Longrightarrow> a \<in># chain_blk ns as"
  by (induction as arbitrary: p es) (auto simp: node_blk_def)

lemma chain_node: "chain ns p as es q \<Longrightarrow> a \<in> set as \<Longrightarrow> a \<noteq> 0 \<and> (\<exists>x. ns a = Some x)"
  by (induction as arbitrary: p es) auto

lemma chain_length: "chain ns p as es q \<Longrightarrow> length as = length es"
  by (induction as arbitrary: p es) auto

text \<open>Blocks that are owned apart from each other are not the same.\<close>

lemma owned_apart: "owned m R (B + C) \<Longrightarrow> a \<in># B \<Longrightarrow> a \<notin># C"
proof
  assume o: "owned m R (B + C)" and a: "a \<in># B" "a \<in># C"
  have "count (mset_set (live m)) a \<le> 1" by (simp add: count_mset_set')
  moreover have "1 \<le> count B a" "1 \<le> count C a" using a by (simp_all add: count_greater_eq_one_iff)
  then have "1 < count (R + (B + C)) a" unfolding count_union by linarith
  ultimately show False using o by (simp add: owned_def)
qed

lemma chain_start: "chain ns p as es 0 \<Longrightarrow> p = (if as = [] then 0 else hd as)"
  by (cases as) auto

section \<open>Finding\<close>

text \<open>A list of entries at an entry with the key.\<close>

lemma chain_find:
  assumes "chain ns p as es 0"
  obtains (absent) "entry_find_m ns key p = Some 0" "key \<notin> fst ` set es"
        "\<And>prev. find_prev ns key prev p = Some (if as = [] then prev else last as, 0)"
    | (present) as1 a as2 es1 v es2 x where "as = as1 @ a # as2" "es = es1 @ (key, v) # es2" "key \<notin> fst ` set es1"
        "chain ns p as1 es1 a" "a \<noteq> 0" "ns a = Some x" "fst (xn_key x) \<noteq> 0" "snd (xn_key x) = key" "xn_value x = v"
        "chain ns (xn_next x) as2 es2 0" "entry_find_m ns key p = Some a"
        "\<And>prev. find_prev ns key prev p = Some (if as1 = [] then prev else last as1, a)"
  using assms
proof (induction as arbitrary: p es thesis)
  case Nil
  then show ?case by (simp add: entry_find_m.simps find_prev.simps)
next
  case (Cons a as)
  from Cons.prems(3) obtain x es' where x: "p = a" "a \<noteq> 0" "ns a = Some x" "fst (xn_key x) \<noteq> 0"
    "es = (snd (xn_key x), xn_value x) # es'" "chain ns (xn_next x) as es' 0" by auto
  show ?case
  proof (cases "snd (xn_key x) = key")
    case True
    show ?thesis
      by (rule Cons.prems(2) [of "[]" a as "[]" "xn_value x" es' x])
        (use x True in \<open>simp_all add: entry_find_m.simps [of ns key a] find_prev.simps [of ns key _ a]\<close>)
  next
    case False
    show ?thesis
    proof (rule Cons.IH [OF _ _ x(6)])
      assume "entry_find_m ns key (xn_next x) = Some 0" "key \<notin> fst ` set es'"
        "\<And>prev. find_prev ns key prev (xn_next x) = Some (if as = [] then prev else last as, 0)"
      then show thesis using Cons.prems(1) x False
        by (simp add: entry_find_m.simps [of ns key a] find_prev.simps [of ns key _ a])
    next
      fix as1 b as2 es1 v es2 y
      assume y: "as = as1 @ b # as2" "es' = es1 @ (key, v) # es2" "key \<notin> fst ` set es1"
        "chain ns (xn_next x) as1 es1 b" "b \<noteq> 0" "ns b = Some y" "fst (xn_key y) \<noteq> 0" "snd (xn_key y) = key"
        "xn_value y = v" "chain ns (xn_next y) as2 es2 0" "entry_find_m ns key (xn_next x) = Some b"
        "\<And>prev. find_prev ns key prev (xn_next x) = Some (if as1 = [] then prev else last as1, b)"
      show thesis
        by (rule Cons.prems(2) [of "a # as1" b as2 "(snd (xn_key x), xn_value x) # es1" v es2 y])
          (use x y False in \<open>simp_all add: entry_find_m.simps [of ns key a] find_prev.simps [of ns key _ a]\<close>)
    qed
  qed
qed

lemma entry_put_split: "key \<notin> fst ` set es1 \<Longrightarrow> entry_put key v (es1 @ (key, w) # es2) = es1 @ (key, v) # es2"
  by (induction es1) auto

lemma entry_remove_split: "key \<notin> fst ` set es1 \<Longrightarrow> entry_remove key (es1 @ (key, w) # es2) = es1 @ es2"
  by (induction es1) auto

lemma entry_find_split: "key \<notin> fst ` set es1 \<Longrightarrow> entry_find (es1 @ (key, w) # es2) key = Some w"
  by (induction es1) auto

lemma entry_find_absent: "key \<notin> fst ` set es \<Longrightarrow> entry_find es key = None"
  by (induction es) auto

section \<open>Dictionaries\<close>

text \<open>A dictionary in memory has these entries; the last is where its pointer says, their number is right, and
  its blocks are its own.\<close>

definition dict_is :: "nat multiset \<Rightarrow> xheap \<Rightarrow> hdict \<Rightarrow> xpc_entries \<Rightarrow> bool" where
  "dict_is R h d es \<longleftrightarrow>
     (\<exists>as. chain (xh_nodes h) (hd_head d) as es 0 \<and> distinct as \<and> hd_tail d = (if as = [] then 0 else last as) \<and>
        hd_count d = length as \<and> owned (xh_mem h) R (chain_blk (xh_nodes h) as + blk (hd_addr d)))"

text \<open>The same, with an entry whose slot is empty.\<close>

definition dict_at ::
  "nat multiset \<Rightarrow> xheap \<Rightarrow> hdict \<Rightarrow> nat \<Rightarrow> string \<Rightarrow> xpc_entries \<Rightarrow> xpc_entries \<Rightarrow> bool" where
  "dict_at R h d p key es1 es2 \<longleftrightarrow>
     (\<exists>as1 as2 x. chain (xh_nodes h) (hd_head d) as1 es1 p \<and> p \<noteq> 0 \<and> xh_nodes h p = Some x \<and>
        fst (xn_key x) \<noteq> 0 \<and> snd (xn_key x) = key \<and> xn_bytes x = 0 \<and>
        chain (xh_nodes h) (xn_next x) as2 es2 0 \<and> distinct (as1 @ p # as2) \<and>
        hd_tail d = last (as1 @ p # as2) \<and> hd_count d = length (as1 @ p # as2) \<and>
        owned (xh_mem h) R (chain_blk (xh_nodes h) (as1 @ p # as2) + blk (hd_addr d)))"

definition same_object :: "hdict \<Rightarrow> hdict \<Rightarrow> bool" where
  "same_object d d' \<longleftrightarrow>
     hd_addr d' = hd_addr d \<and> hd_refcount d' = hd_refcount d \<and> hd_msg_id d' = hd_msg_id d \<and>
     hd_is_reply d' = hd_is_reply d"

lemma same_object_refl [simp]: "same_object d d"
  by (simp add: same_object_def)

lemma dict_is_malloc:
  assumes "dict_is R h d es" "malloc ok (xh_mem h) = (c, m)"
  shows "dict_is (R + blk c) (h\<lparr>xh_mem := m\<rparr>) d es"
proof -
  have "owned m (R + blk c) B" if "owned (xh_mem h) R B" for B
    using malloc_owned [OF assms(2) that] by (simp add: owned_def ac_simps)
  moreover from assms(1) obtain as where "chain (xh_nodes h) (hd_head d) as es 0" "distinct as"
    "hd_tail d = (if as = [] then 0 else last as)" "hd_count d = length as"
    "owned (xh_mem h) R (chain_blk (xh_nodes h) as + blk (hd_addr d))"
    unfolding dict_is_def by blast
  ultimately show ?thesis unfolding dict_is_def by (intro exI [of _ as]) simp
qed

lemma dict_is_free:
  assumes "dict_is (R + blk c) h d es"
  obtains m where "free c (xh_mem h) = Some m" "dict_is R (h\<lparr>xh_mem := m\<rparr>) d es"
proof -
  from assms obtain as where as: "chain (xh_nodes h) (hd_head d) as es 0" "distinct as"
    "hd_tail d = (if as = [] then 0 else last as)" "hd_count d = length as"
    "owned (xh_mem h) (R + blk c) (chain_blk (xh_nodes h) as + blk (hd_addr d))"
    unfolding dict_is_def by blast
  have "owned (xh_mem h) R (blk c + (chain_blk (xh_nodes h) as + blk (hd_addr d)))"
    using as(5) by (simp add: owned_def ac_simps)
  from free_owned [OF this] obtain m where
    "free c (xh_mem h) = Some m" "owned m R (chain_blk (xh_nodes h) as + blk (hd_addr d))" .
  then show ?thesis using as that unfolding dict_is_def by auto
qed

lemma store_entry_ok:
  assumes "dict_at (R + blk c) h d p key es1 es2"
  obtains h' where "store_entry p c v h = Some h'" "dict_is R h' d (es1 @ (key, v) # es2)"
proof -
  from assms obtain as1 as2 x where at: "chain (xh_nodes h) (hd_head d) as1 es1 p" "p \<noteq> 0" "xh_nodes h p = Some x"
    "fst (xn_key x) \<noteq> 0" "snd (xn_key x) = key" "xn_bytes x = 0" "chain (xh_nodes h) (xn_next x) as2 es2 0"
    "distinct (as1 @ p # as2)" "hd_tail d = last (as1 @ p # as2)" "hd_count d = length (as1 @ p # as2)"
    "owned (xh_mem h) (R + blk c) (chain_blk (xh_nodes h) (as1 @ p # as2) + blk (hd_addr d))"
    unfolding dict_at_def by blast
  let ?ns = "(xh_nodes h)(p \<mapsto> x\<lparr>xn_bytes := c, xn_value := v\<rparr>)"
  let ?h = "h\<lparr>xh_nodes := ?ns\<rparr>"
  have "store_entry p c v h = Some ?h" using at(3) by (simp add: store_entry_def)
  moreover have "chain ?ns (hd_head d) (as1 @ p # as2) (es1 @ (key, v) # es2) 0"
    unfolding chain_append using at
    by (intro exI [of _ es1] exI [of _ "(key, v) # es2"] exI [of _ p]) simp
  moreover have "owned (xh_mem h) R (chain_blk ?ns (as1 @ p # as2) + blk (hd_addr d))"
    using at(3,6,8,11) by (simp add: node_blk_def owned_def ac_simps)
  ultimately show ?thesis using that at(8-10) unfolding dict_is_def by fastforce
qed

lemma entry_reset_present:
  assumes d: "dict_is R h d es" and "key \<in> fst ` set es"
  obtains p h' es1 es2 where "entry_reset_m ok d key slot h = Some (p, d, h')" "p \<noteq> 0"
    "dict_at R h' d p key es1 es2" "\<And>v. entry_put key v es = es1 @ (key, v) # es2"
proof -
  from d obtain as where as: "chain (xh_nodes h) (hd_head d) as es 0" "distinct as"
    "hd_tail d = (if as = [] then 0 else last as)" "hd_count d = length as"
    "owned (xh_mem h) R (chain_blk (xh_nodes h) as + blk (hd_addr d))"
    unfolding dict_is_def by blast
  show ?thesis
    using as(1)
  proof (cases rule: chain_find [where key = key])
    case absent
    then show ?thesis using assms(2) by blast
  next
    case (present as1 a as2 es1 v es2 x)
    have "owned (xh_mem h) R (blk (xn_bytes x) + (chain_blk (xh_nodes h) as1 + (text_blk (xn_key x) +
        (blk a + (chain_blk (xh_nodes h) as2 + blk (hd_addr d))))))"
      using as(5) present(1,6) by (simp add: node_blk_def ac_simps)
    from free_owned [OF this] obtain m where m: "free (xn_bytes x) (xh_mem h) = Some m"
      "owned m R (chain_blk (xh_nodes h) as1 + (text_blk (xn_key x) +
        (blk a + (chain_blk (xh_nodes h) as2 + blk (hd_addr d)))))" .
    let ?x = "x\<lparr>xn_bytes := 0, xn_value := slot\<rparr>"
    let ?h = "h\<lparr>xh_mem := m, xh_nodes := (xh_nodes h)(a \<mapsto> ?x)\<rparr>"
    have run: "entry_reset_m ok d key slot h = Some (a, d, ?h)"
      using present(5,6,11) m(1) by (simp add: entry_reset_m_def)
    have apart: "a \<notin> set as1" "a \<notin> set as2" "distinct (as1 @ a # as2)" using as(2) present(1) by auto
    have "owned m R (chain_blk (xh_nodes ?h) (as1 @ a # as2) + blk (hd_addr d))"
      using m(2) apart(1,2) by (simp add: node_blk_def ac_simps)
    moreover have "chain (xh_nodes ?h) (hd_head d) as1 es1 a" "chain (xh_nodes ?h) (xn_next ?x) as2 es2 0"
      using present(4,10) apart by simp_all
    ultimately have "dict_at R ?h d a key es1 es2"
      unfolding dict_at_def using present(1,5,7,8) as(3,4) apart(3)
      by (intro exI [of _ as1] exI [of _ as2] exI [of _ ?x]) simp
    then show ?thesis using that [OF run present(5)] entry_put_split [OF present(3)] present(2) by simp
  qed
qed

lemma last_split: "as \<noteq> [] \<Longrightarrow> \<exists>bs. as = bs @ [last as]"
  by (metis append_butlast_last_id)

text \<open>A new entry goes behind the last.\<close>

lemma dict_link:
  assumes "dict_is R h d es" "e \<noteq> 0" "fst t \<noteq> 0" "h' = h\<lparr>xh_mem := m\<rparr>"
    and "\<And>B. owned (xh_mem h) R B \<Longrightarrow> owned m R (text_blk t + (blk e + B))"
    and ns: "ns = (xh_nodes h)(e \<mapsto> y)" "xn_key y = t" "xn_bytes y = 0" "xn_next y = 0"
  shows "if hd_tail d = 0
     then dict_at R (h'\<lparr>xh_nodes := ns\<rparr>) (d\<lparr>hd_head := e, hd_tail := e, hd_count := hd_count d + 1\<rparr>) e (snd t) es []
     else \<exists>l. ns (hd_tail d) = Some l \<and>
       dict_at R (h'\<lparr>xh_nodes := ns(hd_tail d \<mapsto> l\<lparr>xn_next := e\<rparr>)\<rparr>) (d\<lparr>hd_tail := e, hd_count := hd_count d + 1\<rparr>)
         e (snd t) es []"
proof -
  from assms(1) obtain as where as: "chain (xh_nodes h) (hd_head d) as es 0" "distinct as"
    "hd_tail d = (if as = [] then 0 else last as)" "hd_count d = length as"
    "owned (xh_mem h) R (chain_blk (xh_nodes h) as + blk (hd_addr d))"
    unfolding dict_is_def by blast
  have o: "owned m R (text_blk t + (blk e + (chain_blk (xh_nodes h) as + blk (hd_addr d))))" using assms(5) as(5) .
  then have "owned m (R + text_blk t) (blk e + (chain_blk (xh_nodes h) as + blk (hd_addr d)))"
    by (simp add: owned_def ac_simps)
  from owned_apart [OF this, of e] chain_in_blk [OF as(1), of e] assms(2) have e: "e \<notin> set as" by auto
  have nsb: "node_blk ns e = text_blk t + blk e" by (simp add: ns node_blk_def)
  show ?thesis
  proof (cases "as = []")
    case True
    then have "es = []" using as(1) by simp
    have "owned m R (chain_blk ns [e] + blk (hd_addr d))" using o True nsb by (simp add: ac_simps)
    then show ?thesis using as(3,4) True assms(2,3,4) \<open>es = []\<close> unfolding dict_at_def
      by (simp add: ns exI [of _ "[]"])
  next
    case False
    then obtain bs l where bs: "as = bs @ [l]" using last_split by blast
    from as(1) obtain es1 x where x: "chain (xh_nodes h) (hd_head d) bs es1 l" "l \<noteq> 0" "xh_nodes h l = Some x"
      "fst (xn_key x) \<noteq> 0" "es = es1 @ [(snd (xn_key x), xn_value x)]" "xn_next x = 0"
      unfolding bs chain_append by auto
    have ne: "l \<noteq> e" "l \<notin> set bs" "e \<notin> set bs" using e as(2) bs by auto
    let ?ns = "ns(l \<mapsto> x\<lparr>xn_next := e\<rparr>)"
    have l: "ns l = Some x" using x(3) ne by (simp add: ns)
    have c: "chain ?ns (hd_head d) as es e"
      unfolding bs chain_append using x ne
      by (intro exI [of _ es1] exI [of _ "[(snd (xn_key x), xn_value x)]"] exI [of _ l]) (simp add: ns)
    have "node_blk ?ns l = node_blk (xh_nodes h) l" using x(3) by (simp add: node_blk_def)
    moreover have "node_blk ?ns e = text_blk t + blk e" using ne nsb by simp
    ultimately have b: "chain_blk ?ns (as @ [e]) = text_blk t + (blk e + chain_blk (xh_nodes h) as)"
      using ne by (simp add: bs ns ac_simps)
    have "?ns e = Some y" using ne by (simp add: ns)
    moreover have "owned m R (chain_blk ?ns (as @ [e]) + blk (hd_addr d))"
      unfolding b using o by (simp add: ac_simps)
    ultimately have "dict_at R (h'\<lparr>xh_nodes := ?ns\<rparr>) (d\<lparr>hd_tail := e, hd_count := hd_count d + 1\<rparr>) e (snd t) es []"
      unfolding dict_at_def using c e as(2,4) assms(2-4) ns(2-4) False
      by (intro exI [of _ as] exI [of _ "[]"] exI [of _ y]) simp
    moreover have "hd_tail d = l" using as(3) bs by simp
    ultimately show ?thesis using l x(2) by simp
  qed
qed

lemma entry_reset_absent:
  assumes d: "dict_is R h d es" and k: "key \<notin> fst ` set es"
  obtains (failed) h' where "entry_reset_m ok d key slot h = Some (0, d, h')" "dict_is R h' d es" "ok \<noteq> plenty"
    | (added) p d' h' where "entry_reset_m ok d key slot h = Some (p, d', h')" "p \<noteq> 0" "same_object d d'"
        "dict_at R h' d' p key es []"
proof -
  have f: "entry_find_m (xh_nodes h) key (hd_head d) = Some 0"
  proof -
    from d obtain as where "chain (xh_nodes h) (hd_head d) as es 0" unfolding dict_is_def by blast
    then show ?thesis by (cases rule: chain_find [where key = key]) (use k in auto)
  qed
  obtain e m1 where e: "malloc ok (xh_mem h) = (e, m1)" by fastforce
  note d1 = dict_is_malloc [OF d e]
  show ?thesis
  proof (cases "e = 0")
    case True
    then show ?thesis using d1 f e malloc_plenty [of "xh_mem h" e m1]
      by (intro failed [of "h\<lparr>xh_mem := m1\<rparr>"]) (auto simp: entry_reset_m_def)
  next
    case False
    obtain t m2 where t: "dup_string ok key m1 = (t, m2)" by fastforce
    then obtain q where q: "malloc ok m1 = (q, m2)" "t = (q, if q = 0 then [] else key)"
      by (auto simp: dup_string_def split: prod.splits)
    show ?thesis
    proof (cases "q = 0")
      case True
      have "dict_is (R + blk e + blk q) ((h\<lparr>xh_mem := m1\<rparr>)\<lparr>xh_mem := m2\<rparr>) d es"
        by (rule dict_is_malloc [OF d1, where ok = ok]) (simp add: q(1))
      then have "dict_is (R + blk e) (h\<lparr>xh_mem := m2\<rparr>) d es" using True by simp
      then obtain m3 where "free e m2 = Some m3" "dict_is R (h\<lparr>xh_mem := m3\<rparr>) d es"
        by (rule dict_is_free) simp
      moreover have "ok \<noteq> plenty" using True q(1) malloc_plenty by blast
      ultimately show ?thesis using f e False t q True
        by (intro failed [of "h\<lparr>xh_mem := m3\<rparr>"]) (simp_all add: entry_reset_m_def)
    next
      case tq: False
      have own: "owned m2 R (text_blk t + (blk e + B))" if "owned (xh_mem h) R B" for B
        using malloc_owned [OF q(1) malloc_owned [OF e that]] tq by (simp add: text_blk_def q(2))
      let ?x = "\<lparr>xn_key = t, xn_bytes = 0, xn_value = slot, xn_next = 0\<rparr>"
      let ?ns = "(xh_nodes h)(e \<mapsto> ?x)"
      have tf: "snd t = key" "fst t \<noteq> 0" using q(2) tq by simp_all
      have link: "if hd_tail d = 0
        then dict_at R (h\<lparr>xh_mem := m2, xh_nodes := ?ns\<rparr>)
          (d\<lparr>hd_head := e, hd_tail := e, hd_count := hd_count d + 1\<rparr>) e key es []
        else \<exists>l. ?ns (hd_tail d) = Some l \<and>
          dict_at R (h\<lparr>xh_mem := m2, xh_nodes := ?ns(hd_tail d \<mapsto> l\<lparr>xn_next := e\<rparr>)\<rparr>)
            (d\<lparr>hd_tail := e, hd_count := hd_count d + 1\<rparr>) e key es []"
        unfolding tf(1) [symmetric] by (rule dict_link [OF d False tf(2) refl own refl]) simp_all
      show ?thesis
      proof (cases "hd_tail d = 0")
        case True
        then show ?thesis using link f e False t tf
          by (intro added [of e "d\<lparr>hd_head := e, hd_tail := e, hd_count := hd_count d + 1\<rparr>"])
            (simp_all add: entry_reset_m_def Let_def same_object_def)
      next
        case tail: False
        then obtain l where
          "?ns (hd_tail d) = Some l"
          "dict_at R (h\<lparr>xh_mem := m2, xh_nodes := ?ns(hd_tail d \<mapsto> l\<lparr>xn_next := e\<rparr>)\<rparr>) (d\<lparr>hd_tail := e, hd_count := hd_count d + 1\<rparr>) e key es []"
          using link by auto
        then show ?thesis using f e False t tf tail
          by (intro added [of e "d\<lparr>hd_tail := e, hd_count := hd_count d + 1\<rparr>"])
            (simp_all add: entry_reset_m_def Let_def same_object_def)
      qed
    qed
  qed
qed

end
