(* ===== verification/Xpc_Memory_Safe.thy ===== *)
theory Xpc_Memory_Safe
  imports Xpc_Memory_Props
begin

text \<open>
  Every call on a dictionary in memory does what the call of theory \<open>Xpc_Object\<close> does, or reports that there is
  no memory and changes nothing; and it keeps to the blocks of the dictionary.
\<close>

section \<open>Creation\<close>

lemma create_owned:
  assumes "catbsd_xpc_dictionary_create_m ok h = (obj, h')" "owned (xh_mem h) R {#}"
  shows "case obj of
       None \<Rightarrow> owned (xh_mem h') R {#} \<and> ok \<noteq> plenty
     | Some d \<Rightarrow> dict_is R h' d [] \<and> hd_refcount d = 1 \<and> hd_msg_id d = 0 \<and> \<not> hd_is_reply d"
proof -
  obtain a m where a: "malloc ok (xh_mem h) = (a, m)" by fastforce
  have o: "owned m R (blk a)" using malloc_owned [OF a assms(2)] by simp
  show ?thesis
  proof (cases "a = 0")
    case True
    then show ?thesis using a o assms(1) malloc_plenty by (auto simp: catbsd_xpc_dictionary_create_m_def)
  next
    case False
    then show ?thesis using a o assms(1)
      by (auto simp: catbsd_xpc_dictionary_create_m_def dict_is_def intro!: exI [of _ "[]"])
  qed
qed

section \<open>Setters\<close>

definition object_of :: "hdict \<Rightarrow> xpc_entries \<Rightarrow> xpc_object" where
  "object_of d es =
     \<lparr>refcount = hd_refcount d, entries = es, msg_id = hd_msg_id d, is_reply = hd_is_reply d\<rparr>"

text \<open>The call has the result of the call without memory, or changes nothing.\<close>

definition follows ::
  "alloc_plan \<Rightarrow> nat multiset \<Rightarrow> hdict \<Rightarrow> xpc_entries \<Rightarrow> int \<times> xpc_object option \<Rightarrow> dict_result \<Rightarrow> bool" where
  "follows ok R d es pure x \<longleftrightarrow>
     (\<exists>rc d' h' es'. x = Some (rc, Some d', h') \<and> same_object d d' \<and> dict_is R h' d' es' \<and>
        (if rc = CATBSD_XPC_ENOMEM then es' = es \<and> ok \<noteq> plenty else pure = (rc, Some (object_of d' es'))))"

lemma follows_same:
  "dict_is R h d es \<Longrightarrow> pure = (rc, Some (object_of d es)) \<Longrightarrow> rc \<noteq> CATBSD_XPC_ENOMEM \<Longrightarrow>
   follows ok R d es pure (Some (rc, Some d, h))"
  unfolding follows_def by (intro exI conjI refl) auto

lemma follows_failed:
  "dict_is R h d es \<Longrightarrow> ok \<noteq> plenty \<Longrightarrow> follows ok R d es pure (Some (CATBSD_XPC_ENOMEM, Some d, h))"
  unfolding follows_def by (intro exI conjI refl) auto

lemma object_of_same: "same_object d d' \<Longrightarrow> object_of d' es = object_of d es"
  by (simp add: same_object_def object_of_def)

lemma follows_put:
  assumes "same_object d d'" "dict_is R h' d' (entry_put key v es)"
  shows "follows ok R d es (CATBSD_XPC_SUCCESS, Some (put_entry (object_of d es) key v))
     (Some (CATBSD_XPC_SUCCESS, Some d', h'))"
proof -
  have "put_entry (object_of d es) key v = object_of d' (entry_put key v es)"
    using object_of_same [OF assms(1)] by (simp add: put_entry_def object_of_def)
  then show ?thesis using assms unfolding follows_def
    by (intro exI conjI refl) (auto simp: xpc_codes)
qed

lemma entry_reset_ok:
  assumes "dict_is R h d es"
  obtains (failed) h' where "entry_reset_m ok d key slot h = Some (0, d, h')" "dict_is R h' d es" "ok \<noteq> plenty"
    | (slot) p d' h' es1 es2 where "entry_reset_m ok d key slot h = Some (p, d', h')" "p \<noteq> 0" "same_object d d'"
        "dict_at R h' d' p key es1 es2" "\<And>v. entry_put key v es = es1 @ (key, v) # es2"
proof (cases "key \<in> fst ` set es")
  case True
  from entry_reset_present [OF assms True, of ok slot] obtain p h' es1 es2 where
    "entry_reset_m ok d key slot h = Some (p, d, h')" "p \<noteq> 0" "dict_at R h' d p key es1 es2"
    "\<And>v. entry_put key v es = es1 @ (key, v) # es2" by blast
  then show ?thesis using slot [of p d h' es1 es2] by simp
next
  case False
  show ?thesis
  proof (rule entry_reset_absent [OF assms False, of ok slot])
    fix h' assume "entry_reset_m ok d key slot h = Some (0, d, h')" "dict_is R h' d es" "ok \<noteq> plenty"
    then show thesis by (rule failed)
  next
    fix p d' h' assume "entry_reset_m ok d key slot h = Some (p, d', h')" "p \<noteq> 0" "same_object d d'"
      "dict_at R h' d' p key es []"
    then show thesis using slot [of p d' h' es "[]"] entry_put_fresh [OF False] by simp
  qed
qed

lemma set_scalar_follows:
  assumes "dict_is R h d es"
  shows "follows ok R d es (set_scalar (Some (object_of d es)) key v) (set_scalar_m ok (Some d) key v h)"
proof (cases "valid_key key")
  case False
  then show ?thesis using assms
    by (simp add: set_scalar_def set_scalar_m_def follows_same xpc_codes)
next
  case True
  show ?thesis
    using assms
  proof (cases rule: entry_reset_ok [where ok = ok and key = "the key" and slot = "empty_slot v"])
    case (failed h')
    then show ?thesis using True by (simp add: set_scalar_m_def follows_failed)
  next
    case (slot p d' h' es1 es2)
    have "dict_at (R + blk 0) h' d' p (the key) es1 es2" using slot(4) by simp
    then obtain h'' where "store_entry p 0 v h' = Some h''" "dict_is R h'' d' (es1 @ (the key, v) # es2)"
      by (rule store_entry_ok)
    then show ?thesis using True slot follows_put [OF slot(3), of R h'' "the key" v es ok]
      by (simp add: set_scalar_m_def set_scalar_def)
  qed
qed

lemma set_bytes_follows:
  assumes "dict_is R h d es"
  shows "follows ok R d es (map_prod id Some (dictionary_set_bytes (object_of d es) key con bytes))
     (dictionary_set_bytes_m ok d key con bytes h)"
proof (cases "CATBSD_XPC_MAX_MESSAGE < length bytes")
  case True
  then show ?thesis using assms
    by (simp add: dictionary_set_bytes_def dictionary_set_bytes_m_def follows_same xpc_codes)
next
  case False
  obtain c m1 where c: "malloc ok (xh_mem h) = (c, m1)" by fastforce
  note d1 = dict_is_malloc [OF assms c]
  show ?thesis
  proof (cases "c = 0")
    case True
    then have "ok \<noteq> plenty" using c malloc_plenty by blast
    moreover have "dict_is R (h\<lparr>xh_mem := m1\<rparr>) d es" using d1 True by simp
    ultimately show ?thesis using False c True by (simp add: dictionary_set_bytes_m_def follows_failed)
  next
    case some: False
    show ?thesis
      using d1
    proof (cases rule: entry_reset_ok [where ok = ok and key = key and slot = "con []"])
      case (failed h')
      from failed(2) obtain m where "free c (xh_mem h') = Some m" "dict_is R (h'\<lparr>xh_mem := m\<rparr>) d es"
        by (rule dict_is_free)
      then show ?thesis using False c some failed(1,3) by (simp add: dictionary_set_bytes_m_def follows_failed)
    next
      case (slot p d' h' es1 es2)
      from slot(4) obtain h'' where "store_entry p c (con bytes) h' = Some h''"
        "dict_is R h'' d' (es1 @ (key, con bytes) # es2)" by (rule store_entry_ok)
      then show ?thesis using False c some slot follows_put [OF slot(3), of R h'' key "con bytes" es ok]
        by (simp add: dictionary_set_bytes_m_def dictionary_set_bytes_def)
    qed
  qed
qed

section \<open>Removal\<close>

lemma find_tail_chain: "chain ns p as es 0 \<Longrightarrow> find_tail ns t p = Some (if as = [] then t else last as)"
proof (induction as arbitrary: p es t)
  case Nil
  then show ?case by (simp add: find_tail.simps)
next
  case (Cons a as)
  then show ?case by (auto simp: find_tail.simps [of ns t a])
qed

lemma unlink_ok:
  assumes "chain ns (hd_head d) as1 es1 a" "chain ns to as2 es2 0" "distinct (as1 @ a # as2)"
  obtains d1 ns1 where "unlink_entry (if as1 = [] then 0 else last as1) to d ns = Some (d1, ns1)"
    "chain ns1 (hd_head d1) (as1 @ as2) (es1 @ es2) 0" "ns1 a = ns a"
    "chain_blk ns1 (as1 @ as2) = chain_blk ns (as1 @ as2)" "same_object d d1" "hd_tail d1 = hd_tail d"
    "hd_count d1 = hd_count d"
proof (cases "as1 = []")
  case True
  then show ?thesis using assms that [of "d\<lparr>hd_head := to\<rparr>" ns]
    by (simp add: unlink_entry_def same_object_def)
next
  case False
  then obtain bs l where bs: "as1 = bs @ [l]" using last_split by blast
  from assms(1) obtain es0 x where x: "chain ns (hd_head d) bs es0 l" "l \<noteq> 0" "ns l = Some x"
    "fst (xn_key x) \<noteq> 0" "es1 = es0 @ [(snd (xn_key x), xn_value x)]"
    unfolding bs chain_append by auto
  have ne: "l \<noteq> a" "l \<notin> set bs" "l \<notin> set as2" using assms(3) bs by auto
  let ?ns = "ns(l \<mapsto> x\<lparr>xn_next := to\<rparr>)"
  have "chain ?ns (hd_head d) as1 es1 to"
    unfolding bs chain_append using x ne(2)
    by (intro exI [of _ es0] exI [of _ "[(snd (xn_key x), xn_value x)]"] exI [of _ l]) simp
  moreover have "chain ?ns to as2 es2 0" using assms(2) ne(3) by simp
  ultimately have "chain ?ns (hd_head d) (as1 @ as2) (es1 @ es2) 0" unfolding chain_append by blast
  moreover have "node_blk ?ns l = node_blk ns l" using x(3) by (simp add: node_blk_def)
  then have "chain_blk ?ns (as1 @ as2) = chain_blk ns (as1 @ as2)" using ne by (simp add: bs)
  moreover have "unlink_entry (last as1) to d ns = Some (d, ?ns)" using x(2,3) bs by (simp add: unlink_entry_def)
  ultimately show ?thesis using that [of d ?ns] False ne(1) by simp
qed

lemma entry_free_ok:
  assumes "xh_nodes h a = Some x" "owned (xh_mem h) R (node_blk (xh_nodes h) a + B)"
  obtains m where "entry_free_m a h = Some (h\<lparr>xh_mem := m, xh_nodes := (xh_nodes h)(a := None)\<rparr>)" "owned m R B"
proof -
  have "frees (text_blk (xn_key x) + (blk (xn_bytes x) + blk a))
      (both (free_text (xn_key x)) (both (free (xn_bytes x)) (free a)))" by (intro owns)
  moreover have "owned (xh_mem h) R ((text_blk (xn_key x) + (blk (xn_bytes x) + blk a)) + B)"
    using assms by (simp add: node_blk_def)
  ultimately obtain m where "both (free_text (xn_key x)) (both (free (xn_bytes x)) (free a)) (xh_mem h) = Some m"
    "owned m R B" by (rule frees_frame)
  then show ?thesis using assms(1) that by (simp add: entry_free_m_def)
qed

lemma remove_follows:
  assumes "dict_is R h d es"
  shows "follows ok R d es (catbsd_xpc_dictionary_remove (Some (object_of d es)) (Some key))
     (catbsd_xpc_dictionary_remove_m (Some d) (Some key) h)"
proof -
  from assms obtain as where as: "chain (xh_nodes h) (hd_head d) as es 0" "distinct as"
    "hd_tail d = (if as = [] then 0 else last as)" "hd_count d = length as"
    "owned (xh_mem h) R (chain_blk (xh_nodes h) as + blk (hd_addr d))"
    unfolding dict_is_def by blast
  show ?thesis
    using as(1)
  proof (cases rule: chain_find [where key = key])
    case absent
    then have "catbsd_xpc_dictionary_remove (Some (object_of d es)) (Some key) =
        (CATBSD_XPC_EINVAL, Some (object_of d es))"
      by (simp add: catbsd_xpc_dictionary_remove_def object_of_def entry_find_absent)
    moreover have "catbsd_xpc_dictionary_remove_m (Some d) (Some key) h = Some (CATBSD_XPC_EINVAL, Some d, h)"
      using absent by (simp add: catbsd_xpc_dictionary_remove_m_def)
    ultimately show ?thesis using assms by (simp add: follows_same xpc_codes)
  next
    case (present as1 a as2 es1 v es2 x)
    have dist: "distinct (as1 @ a # as2)" "a \<notin> set as1" "a \<notin> set as2" using as(2) present(1) by auto
    from unlink_ok [OF present(4,10) dist(1)] obtain d1 ns1 where
      u: "unlink_entry (if as1 = [] then 0 else last as1) (xn_next x) d (xh_nodes h) = Some (d1, ns1)"
      "chain ns1 (hd_head d1) (as1 @ as2) (es1 @ es2) 0" "ns1 a = xh_nodes h a"
      "chain_blk ns1 (as1 @ as2) = chain_blk (xh_nodes h) (as1 @ as2)" "same_object d d1" "hd_tail d1 = hd_tail d"
      "hd_count d1 = hd_count d" .
    let ?t = "if as1 @ as2 = [] then 0 else last (as1 @ as2)"
    have tail: "(if hd_tail d1 = a then map_option (\<lambda>t. d1\<lparr>hd_tail := t\<rparr>) (find_tail ns1 0 (hd_head d1)) else Some d1)
        = Some (d1\<lparr>hd_tail := ?t\<rparr>)"
    proof (cases "as2 = []")
      case True
      then have "hd_tail d1 = a" using u(6) as(3) present(1) by simp
      then show ?thesis using find_tail_chain [OF u(2), of 0] by simp
    next
      case False
      then have "hd_tail d1 = last as2" "last as2 \<noteq> a"
        using u(6) as(3) present(1) dist(3) last_in_set [OF False] by auto
      then have "d1\<lparr>hd_tail := ?t\<rparr> = d1" "hd_tail d1 \<noteq> a" using False by simp_all
      then show ?thesis by simp
    qed
    let ?h = "h\<lparr>xh_nodes := ns1\<rparr>"
    have "owned (xh_mem ?h) R (node_blk (xh_nodes ?h) a + (chain_blk ns1 (as1 @ as2) + blk (hd_addr d1)))"
      using as(5) present(1) u(3,4,5) by (simp add: node_blk_def same_object_def ac_simps)
    moreover have "xh_nodes ?h a = Some x" using u(3) present(6) by simp
    ultimately obtain m where
      f: "entry_free_m a ?h = Some (?h\<lparr>xh_mem := m, xh_nodes := (xh_nodes ?h)(a := None)\<rparr>)"
      "owned m R (chain_blk ns1 (as1 @ as2) + blk (hd_addr d1))"
      by (metis entry_free_ok)
    let ?d = "d1\<lparr>hd_tail := ?t, hd_count := hd_count d1 - 1\<rparr>"
    let ?h' = "?h\<lparr>xh_mem := m, xh_nodes := (xh_nodes ?h)(a := None)\<rparr>"
    have run: "catbsd_xpc_dictionary_remove_m (Some d) (Some key) h = Some (CATBSD_XPC_SUCCESS, Some ?d, ?h')"
      using present(5,6) present(12) [of 0] u(1) tail f(1)
      by (simp add: catbsd_xpc_dictionary_remove_m_def cong: if_cong)
    have new: "dict_is R ?h' ?d (es1 @ es2)"
      unfolding dict_is_def using u(2,7) as(4) dist f(2) present(1)
      by (intro exI [of _ "as1 @ as2"]) simp
    have same: "same_object d ?d" using u(5) by (simp add: same_object_def)
    have "catbsd_xpc_dictionary_remove (Some (object_of d es)) (Some key) =
        (CATBSD_XPC_SUCCESS, Some (object_of ?d (es1 @ es2)))"
      using present(2,3) object_of_same [OF same]
      by (simp add: catbsd_xpc_dictionary_remove_def object_of_def entry_find_split entry_remove_split)
    then show ?thesis using new same run unfolding follows_def
      by (intro exI conjI) (assumption | simp add: xpc_codes)+
  qed
qed

section \<open>Calls\<close>

lemma call_follows:
  assumes "dict_is R h d es"
  shows "follows ok R d es (dict_call oper (Some (object_of d es))) (dict_call_m ok oper (Some d) h)"
proof -
  have bytes: "follows ok R d es (catbsd_xpc_dictionary_set_string (Some (object_of d es)) (Some k) (Some s))
      (catbsd_xpc_dictionary_set_string_m ok (Some d) (Some k) (Some s) h)" for k s
    using set_bytes_follows [OF assms, of ok k XString "to_bytes (c_str s)"] follows_same [OF assms]
    by (simp add: catbsd_xpc_dictionary_set_string_def catbsd_xpc_dictionary_set_string_m_def xpc_codes)
  have data: "follows ok R d es (catbsd_xpc_dictionary_set_data (Some (object_of d es)) (Some k) (Some bs) (length bs))
      (catbsd_xpc_dictionary_set_data_m ok (Some d) (Some k) (Some bs) (length bs) h)" for k bs
    using set_bytes_follows [OF assms, of ok k XData bs] follows_same [OF assms]
    by (simp add: catbsd_xpc_dictionary_set_data_def catbsd_xpc_dictionary_set_data_m_def xpc_codes)
  show ?thesis
    using set_scalar_follows [OF assms] bytes data remove_follows [OF assms]
    by (cases oper) (simp_all add: setter_defs)
qed

text \<open>The effect of calls, without those that found no memory.\<close>

fun book_calls :: "dict_op list \<Rightarrow> int list \<Rightarrow> xpc_object option \<Rightarrow> xpc_object option" where
  "book_calls (oper # opers) (rc # rcs) obj =
     book_calls opers rcs (if rc = CATBSD_XPC_ENOMEM then obj else dict_step obj oper)"
| "book_calls _ _ obj = obj"

lemma calls_follow:
  assumes "dict_is R h d es"
  shows "\<exists>rcs d' h' es'. dict_calls_m ok opers (Some d) h = Some (rcs, Some d', h') \<and> length rcs = length opers \<and>
     same_object d d' \<and> dict_is R h' d' es' \<and>
     book_calls opers rcs (Some (object_of d es)) = Some (object_of d' es') \<and>
     (ok = plenty \<longrightarrow> CATBSD_XPC_ENOMEM \<notin> set rcs)"
  using assms
proof (induction opers arbitrary: h d es)
  case Nil
  then show ?case by (auto simp: object_of_same)
next
  case (Cons oper opers)
  from call_follows [OF Cons.prems, of ok oper] obtain rc d1 h1 es1 where
    c: "dict_call_m ok oper (Some d) h = Some (rc, Some d1, h1)" "same_object d d1" "dict_is R h1 d1 es1"
    "if rc = CATBSD_XPC_ENOMEM then es1 = es \<and> ok \<noteq> plenty
     else dict_call oper (Some (object_of d es)) = (rc, Some (object_of d1 es1))"
    unfolding follows_def by blast
  from Cons.IH [OF c(3)] obtain rcs d2 h2 es2 where
    r: "dict_calls_m ok opers (Some d1) h1 = Some (rcs, Some d2, h2)" "length rcs = length opers" "same_object d1 d2"
    "dict_is R h2 d2 es2" "book_calls opers rcs (Some (object_of d1 es1)) = Some (object_of d2 es2)"
    "ok = plenty \<longrightarrow> CATBSD_XPC_ENOMEM \<notin> set rcs" by blast
  have "(if rc = CATBSD_XPC_ENOMEM then Some (object_of d es) else dict_step (Some (object_of d es)) oper) =
      Some (object_of d1 es1)"
    using c(4) object_of_same [OF c(2), of es] by (simp add: dict_step_def split: if_splits)
  then have "book_calls (oper # opers) (rc # rcs) (Some (object_of d es)) = Some (object_of d2 es2)"
    using r(5) by simp
  moreover have "ok = plenty \<longrightarrow> CATBSD_XPC_ENOMEM \<notin> set (rc # rcs)" using c(4) r(6) by (auto split: if_splits)
  moreover have "same_object d d2" using c(2) r(3) by (simp add: same_object_def)
  ultimately show ?case using c(1) r(1,2,4)
    by (intro exI [of _ "rc # rcs"] exI [of _ d2] exI [of _ h2] exI [of _ es2]) simp
qed

section \<open>The last reference\<close>

lemma free_chain_ok:
  assumes "chain (xh_nodes h) e as es 0" "distinct as" "owned (xh_mem h) R (chain_blk (xh_nodes h) as + B)"
  obtains h' where "free_chain e h = Some h'" "owned (xh_mem h') R B"
proof -
  have "\<exists>h'. free_chain e h = Some h' \<and> owned (xh_mem h') R B"
    using assms
  proof (induction as arbitrary: e es h)
    case Nil
    then show ?case by (simp add: free_chain.simps)
  next
    case (Cons a as)
    then obtain x es' where x: "e = a" "a \<noteq> 0" "xh_nodes h a = Some x" "chain (xh_nodes h) (xn_next x) as es' 0"
      by auto
    have a: "a \<notin> set as" "distinct as" using Cons.prems(2) by simp_all
    have "owned (xh_mem h) R (node_blk (xh_nodes h) a + (chain_blk (xh_nodes h) as + B))"
      using Cons.prems(3) by (simp add: ac_simps)
    from entry_free_ok [OF x(3) this] obtain m where
      f: "entry_free_m a h = Some (h\<lparr>xh_mem := m, xh_nodes := (xh_nodes h)(a := None)\<rparr>)"
      "owned m R (chain_blk (xh_nodes h) as + B)" .
    let ?h = "h\<lparr>xh_mem := m, xh_nodes := (xh_nodes h)(a := None)\<rparr>"
    have "chain (xh_nodes ?h) (xn_next x) as es' 0" "owned (xh_mem ?h) R (chain_blk (xh_nodes ?h) as + B)"
      using x(4) f(2) a(1) by simp_all
    from Cons.IH [OF this(1) a(2) this(2)] obtain h' where
      "free_chain (xn_next x) ?h = Some h'" "owned (xh_mem h') R B" by blast
    then show ?case using x(1-3) f(1) by (subst free_chain.simps) simp
  qed
  then show ?thesis using that by blast
qed

lemma release_last:
  assumes "dict_is R h d es" "hd_refcount d \<le> 1"
  obtains h' where "catbsd_xpc_release_m (Some d) h = Some (None, h')" "owned (xh_mem h') R {#}"
proof -
  from assms(1) obtain as where as: "chain (xh_nodes h) (hd_head d) as es 0" "distinct as"
    "owned (xh_mem h) R (chain_blk (xh_nodes h) as + blk (hd_addr d))"
    unfolding dict_is_def by blast
  from free_chain_ok [OF this] obtain h1 where
    f: "free_chain (hd_head d) h = Some h1" "owned (xh_mem h1) R (blk (hd_addr d))" .
  then have "owned (xh_mem h1) R (blk (hd_addr d) + {#})" by simp
  from free_owned [OF this] obtain m where "free (hd_addr d) (xh_mem h1) = Some m" "owned m R {#}" .
  then show ?thesis using that [of "h1\<lparr>xh_mem := m\<rparr>"] f(1) assms(2) by (simp add: catbsd_xpc_release_m_def)
qed

end
