(* ===== verification/Xpc_Memory_Wire.thy ===== *)
theory Xpc_Memory_Wire
  imports Xpc_Memory_Safe "HOL-Library.Sublist"
begin

text \<open>
  Frames to dictionaries in memory, and the calls that read a dictionary: serializing, iterating, describing.
\<close>

section \<open>The switch apart from the setters\<close>

definition set_value :: "xpc_object \<Rightarrow> string \<Rightarrow> xpc_value \<Rightarrow> int \<times> xpc_object option" where
  "set_value d key v =
     (case v of
        XString bs \<Rightarrow> map_prod id Some (dictionary_set_bytes d key XString bs)
      | XData bs \<Rightarrow> map_prod id Some (dictionary_set_bytes d key XData bs)
      | _ \<Rightarrow> set_scalar (Some d) (Some key) v)"

lemma dbind_guard: "dbind (dguard c r) f = dguard c (dbind r f)"
  by (simp add: dguard_def)

lemma dbind_assoc: "dbind (dbind r f) g = dbind r (\<lambda>x. dbind (f x) g)"
  by (cases r) auto

lemma get_value_at:
  "get_value p payload key type d off =
     dbind (value_at p payload type off) (\<lambda>(v, off'). dset (set_value d key v) off')"
  by (simp add: get_value_def value_at_def dbind_guard dbind_assoc setter_defs set_value_def)

lemma get_entry_at:
  "get_entry p payload d off =
     dbind (entry_at p payload off) (\<lambda>(key, v, off'). dset (set_value d key v) off')"
proof -
  have "(\<lambda>x. dbind (case x of (v, off') \<Rightarrow> DOk (c_str (of_bytes key), v, off'))
        (\<lambda>(key, v, off'). dset (set_value d key v) off')) =
      (\<lambda>(v, off'). dset (set_value d (c_str (of_bytes key)) v) off')" for key
    by (auto split: prod.splits)
  then show ?thesis by (simp add: get_entry_def entry_at_def dbind_guard dbind_assoc get_value_at)
qed

lemma deserialize_at:
  "catbsd_xpc_deserialize buf len =
     dbind (header_at buf len) (\<lambda>(p, payload, total, mid, reply).
       get_entries total p payload (catbsd_xpc_dictionary_create\<lparr>msg_id := mid, is_reply := reply\<rparr>) 0)"
  by (cases buf) (simp_all add: catbsd_xpc_deserialize_def header_at_def dbind_guard dbind_assoc)

section \<open>Deserialization\<close>

lemma set_value_follows:
  assumes "dict_is R h d es"
  shows "follows ok R d es (set_value (object_of d es) key v) (set_value_m ok d key v h)"
  using set_scalar_follows [OF assms, of ok "Some key"] set_bytes_follows [OF assms, of ok key]
  by (cases v) (simp_all add: set_value_def set_value_m_def)

lemma get_entries_follow:
  assumes "dict_is R h d es" "get_entries n p payload (object_of d es) off \<noteq> DFault"
  shows "\<exists>good d' h' es'. get_entries_m ok n p payload d off h = Some (good, d', h') \<and> same_object d d' \<and>
     dict_is R h' d' es' \<and>
     (if good then get_entries n p payload (object_of d es) off = DOk (object_of d' es')
      else ok = plenty \<longrightarrow> get_entries n p payload (object_of d es) off = DBad)"
  using assms
proof (induction n arbitrary: h d es off)
  case 0
  then show ?case by (auto intro!: exI [of _ es] simp: object_of_same)
next
  case (Suc n)
  show ?case
  proof (cases "entry_at p payload off")
    case DFault
    then show ?thesis using Suc.prems(2) by (simp add: get_entry_at)
  next
    case DBad
    then show ?thesis using Suc.prems(1) by (auto intro!: exI [of _ es] simp: get_entry_at)
  next
    case (DOk e)
    obtain key v off' where e: "e = (key, v, off')" by (cases e) auto
    from set_value_follows [OF Suc.prems(1), of ok key v] obtain rc d1 h1 es1 where
      s: "set_value_m ok d key v h = Some (rc, Some d1, h1)" "same_object d d1" "dict_is R h1 d1 es1"
      "if rc = CATBSD_XPC_ENOMEM then es1 = es \<and> ok \<noteq> plenty
       else set_value (object_of d es) key v = (rc, Some (object_of d1 es1))"
      unfolding follows_def by blast
    show ?thesis
    proof (cases "rc = CATBSD_XPC_SUCCESS")
      case False
      have "ok = plenty \<longrightarrow> get_entries (Suc n) p payload (object_of d es) off = DBad"
        using s(4) False DOk e by (cases "rc = CATBSD_XPC_ENOMEM") (simp_all add: get_entry_at dset_def)
      then show ?thesis using s(1-3) False DOk e
        by (intro exI [of _ False] exI [of _ d1] exI [of _ h1] exI [of _ es1]) simp
    next
      case True
      then have p: "get_entries (Suc n) p payload (object_of d es) off =
          get_entries n p payload (object_of d1 es1) off'"
        using s(4) DOk e by (simp add: get_entry_at dset_def xpc_codes)
      from Suc.IH [OF s(3), of off'] Suc.prems(2) obtain good d2 h2 es2 where
        "get_entries_m ok n p payload d1 off' h1 = Some (good, d2, h2)" "same_object d1 d2" "dict_is R h2 d2 es2"
        "if good then get_entries n p payload (object_of d1 es1) off' = DOk (object_of d2 es2)
         else ok = plenty \<longrightarrow> get_entries n p payload (object_of d1 es1) off' = DBad"
        unfolding p by blast
      moreover have "same_object d d2" using s(2) calculation(2) by (simp add: same_object_def)
      ultimately show ?thesis using s(1) True DOk e unfolding p
        by (intro exI [of _ good] exI [of _ d2] exI [of _ h2] exI [of _ es2]) simp
    qed
  qed
qed

lemma deserialize_follows:
  assumes "owned (xh_mem h) R {#}"
  shows "\<exists>obj h'. catbsd_xpc_deserialize_m ok (Some buf) (length buf) h = Some (obj, h') \<and>
     (case obj of
        None \<Rightarrow> owned (xh_mem h') R {#} \<and>
          (ok = plenty \<longrightarrow> catbsd_xpc_deserialize (Some buf) (length buf) = DBad)
      | Some d \<Rightarrow> \<exists>es. dict_is R h' d es \<and> hd_refcount d = 1 \<and>
          catbsd_xpc_deserialize (Some buf) (length buf) = DOk (object_of d es))"
proof -
  have safe: "catbsd_xpc_deserialize (Some buf) (length buf) \<noteq> DFault"
    using deserialize_safe [of "length buf" buf] by auto
  show ?thesis
  proof (cases "header_at (Some buf) (length buf)")
    case DFault
    then show ?thesis using safe by (simp add: deserialize_at)
  next
    case DBad
    then show ?thesis using assms by (simp add: deserialize_at catbsd_xpc_deserialize_m_def)
  next
    case (DOk x)
    obtain p payload total mid reply where x: "x = (p, payload, total, mid, reply)" by (cases x) auto
    obtain obj0 h1 where c: "catbsd_xpc_dictionary_create_m ok h = (obj0, h1)" by fastforce
    show ?thesis
    proof (cases obj0)
      case None
      then show ?thesis using create_owned [OF c assms] DOk x c by (simp add: catbsd_xpc_deserialize_m_def)
    next
      case (Some d0)
      let ?d = "d0\<lparr>hd_msg_id := mid, hd_is_reply := reply\<rparr>"
      have d: "dict_is R h1 ?d []" "hd_refcount d0 = 1"
        using create_owned [OF c assms] Some by (simp_all add: dict_is_def)
      have pure: "catbsd_xpc_deserialize (Some buf) (length buf) = get_entries total p payload (object_of ?d []) 0"
        using DOk x d(2) by (simp add: deserialize_at object_of_def catbsd_xpc_dictionary_create_def)
      from get_entries_follow [OF d(1), of total p payload 0 ok] safe obtain good d1 h2 es where
        g: "get_entries_m ok total p payload ?d 0 h1 = Some (good, d1, h2)" "same_object ?d d1" "dict_is R h2 d1 es"
        "if good then get_entries total p payload (object_of ?d []) 0 = DOk (object_of d1 es)
         else ok = plenty \<longrightarrow> get_entries total p payload (object_of ?d []) 0 = DBad"
        unfolding pure by blast
      have r: "hd_refcount d1 = 1" using g(2) d(2) by (simp add: same_object_def)
      show ?thesis
      proof (cases good)
        case True
        then show ?thesis using g DOk x c Some r unfolding pure
          by (auto simp: catbsd_xpc_deserialize_m_def)
      next
        case False
        from release_last [OF g(3)] r obtain h3 where
          "catbsd_xpc_release_m (Some d1) h2 = Some (None, h3)" "owned (xh_mem h3) R {#}" by auto
        then show ?thesis using g DOk x c Some False unfolding pure
          by (simp add: catbsd_xpc_deserialize_m_def)
      qed
    qed
  qed
qed

section \<open>Reading\<close>

lemma entries_from_chain: "chain ns p as es 0 \<Longrightarrow> entries_from ns p = Some es"
proof (induction as arbitrary: p es)
  case Nil
  then show ?case by (simp add: entries_from.simps)
next
  case (Cons a as)
  then show ?case by (auto simp: entries_from.simps [of ns a])
qed

lemma object_at_is: "dict_is R h d es \<Longrightarrow> object_at h d = Some (object_of d es)"
  unfolding dict_is_def by (auto simp: object_at_def object_of_def dest: entries_from_chain)

lemma dict_is_mem:
  "dict_is R h d es \<Longrightarrow> (\<And>B. owned (xh_mem h) R B \<Longrightarrow> owned m R' B) \<Longrightarrow> dict_is R' (h\<lparr>xh_mem := m\<rparr>) d es"
  unfolding dict_is_def by fastforce

text \<open>A frame is that of the object, in a block of its own, or there was no memory for it.\<close>

lemma serialize_owned:
  assumes "dict_is R h d es"
  shows "\<exists>rc p buf m. catbsd_xpc_serialize_m ok (Some d) h = Some (rc, p, buf, h\<lparr>xh_mem := m\<rparr>) \<and>
     dict_is (R + blk p) (h\<lparr>xh_mem := m\<rparr>) d es \<and>
     (if rc = CATBSD_XPC_ENOMEM then p = 0 \<and> ok \<noteq> plenty
      else catbsd_xpc_serialize (Some (object_of d es)) = (rc, if p = 0 then None else Some buf))"
proof -
  note o = object_at_is [OF assms]
  have es: "entries (object_of d es) = es" by (simp add: object_of_def)
  have same: "h\<lparr>xh_mem := xh_mem h\<rparr> = h" by simp
  show ?thesis
  proof (cases "CATBSD_XPC_MAX_MESSAGE < XPC_HEADER_SIZE + payload_size es")
    case True
    then show ?thesis using assms o
      by (intro exI [of _ CATBSD_XPC_EPROTO] exI [of _ 0] exI [of _ "[]"] exI [of _ "xh_mem h"])
        (simp add: catbsd_xpc_serialize_m_def catbsd_xpc_serialize_def es Let_def xpc_codes)
  next
    case False
    obtain p m where p: "malloc ok (xh_mem h) = (p, m)" by fastforce
    show ?thesis
    proof (cases "p = 0")
      case True
      then have "ok \<noteq> plenty" using p malloc_plenty by blast
      then show ?thesis using False o p True dict_is_malloc [OF assms p]
        by (intro exI [of _ CATBSD_XPC_ENOMEM] exI [of _ 0] exI [of _ "[]"] exI [of _ m])
          (simp add: catbsd_xpc_serialize_m_def es Let_def)
    next
      case some: False
      then show ?thesis using False o p dict_is_malloc [OF assms p]
        by (intro exI [of _ CATBSD_XPC_SUCCESS] exI [of _ p]
            exI [of _ "put_header (object_of d es) (payload_size es) @ put_entries es"] exI [of _ m])
          (simp add: catbsd_xpc_serialize_m_def catbsd_xpc_serialize_def es Let_def xpc_codes)
    qed
  qed
qed

section \<open>Iteration\<close>

fun snap_blk :: "(text_block \<times> nat) list \<Rightarrow> nat multiset" where
  "snap_blk [] = {#}"
| "snap_blk ((t, ty) # snap) = text_blk t + snap_blk snap"

text \<open>The keys that were copied, with their types.\<close>

definition snap_keys :: "(text_block \<times> nat) list \<Rightarrow> (string \<times> nat) list" where
  "snap_keys snap = map (\<lambda>(t, ty). (snd t, ty)) (filter (\<lambda>(t, ty). fst t \<noteq> 0) snap)"

lemma snapshot_owned:
  assumes "chain ns e as es 0" "owned m R B"
  shows "\<exists>snap m'. snapshot_m ok ns (length as) e m = Some (snap, m') \<and> owned m' R (snap_blk snap + B) \<and>
     subseq (snap_keys snap) (map (\<lambda>(k, v). (k, xpc_type v)) es) \<and>
     (ok = plenty \<longrightarrow> snap_keys snap = map (\<lambda>(k, v). (k, xpc_type v)) es)"
  using assms
proof (induction as arbitrary: e es m B)
  case Nil
  then show ?case by (simp add: snap_keys_def)
next
  case (Cons a as)
  then obtain x es' where x: "e = a" "a \<noteq> 0" "ns a = Some x" "es = (snd (xn_key x), xn_value x) # es'"
    "chain ns (xn_next x) as es' 0" by auto
  obtain t m1 where t: "dup_string ok (snd (xn_key x)) m = (t, m1)" by fastforce
  from Cons.IH [OF x(5) dup_string_owned [OF t Cons.prems(2)]] obtain snap m2 where
    s: "snapshot_m ok ns (length as) (xn_next x) m1 = Some (snap, m2)" "owned m2 R (snap_blk snap + (text_blk t + B))"
    "subseq (snap_keys snap) (map (\<lambda>(k, v). (k, xpc_type v)) es')"
    "ok = plenty \<longrightarrow> snap_keys snap = map (\<lambda>(k, v). (k, xpc_type v)) es'" by blast
  have t0: "fst t \<noteq> 0 \<Longrightarrow> snd t = snd (xn_key x)" using t by (auto simp: dup_string_def split: prod.splits)
  have tp: "ok = plenty \<Longrightarrow> fst t \<noteq> 0" using t dup_string_plenty by blast
  have "snapshot_m ok ns (length (a # as)) e m = Some ((t, xpc_type (xn_value x)) # snap, m2)"
    using x(1-3) t s(1) by simp
  moreover have "owned m2 R (snap_blk ((t, xpc_type (xn_value x)) # snap) + B)" using s(2) by (simp add: ac_simps)
  moreover have "subseq (snap_keys ((t, xpc_type (xn_value x)) # snap)) (map (\<lambda>(k, v). (k, xpc_type v)) es)"
    using s(3) t0 x(4) by (cases "fst t = 0") (simp_all add: snap_keys_def list_emb_Cons)
  moreover have "ok = plenty \<longrightarrow>
      snap_keys ((t, xpc_type (xn_value x)) # snap) = map (\<lambda>(k, v). (k, xpc_type v)) es"
    using s(4) t0 tp x(4) by (simp add: snap_keys_def)
  ultimately show ?case by blast
qed

lemma apply_keys_owned:
  assumes "owned m R (snap_blk snap + B)"
  shows "\<exists>m'. apply_keys_m fn snap rc ctx m =
       Some (fst (apply_loop fn (snap_keys snap) rc ctx), snd (apply_loop fn (snap_keys snap) rc ctx), m') \<and>
     owned m' R B"
  using assms
proof (induction snap arbitrary: rc ctx m)
  case Nil
  then show ?case by (simp add: snap_keys_def)
next
  case (Cons e snap)
  obtain t ty where e: "e = (t, ty)" by fastforce
  have "owned m R (text_blk t + (snap_blk snap + B))" using Cons.prems by (simp add: e ac_simps)
  from frees_frame [OF frees_text_blk this] obtain m1 where
    m1: "free_text t m = Some m1" "owned m1 R (snap_blk snap + B)" .
  have stopped: "apply_loop fn ks r c = (r, c)" if "r \<noteq> 0" for ks r c
    using that by (induction ks) auto
  show ?case
  proof (cases "rc = 0 \<and> fst t \<noteq> 0")
    case True
    obtain rc1 ctx1 where f: "fn (snd t) ty ctx = (rc1, ctx1)" by fastforce
    from Cons.IH [OF m1(2), of rc1 ctx1] show ?thesis using True f m1(1) by (simp add: e snap_keys_def)
  next
    case False
    from Cons.IH [OF m1(2), of rc ctx] show ?thesis
      using False m1(1) stopped [of rc] by (auto simp: e snap_keys_def)
  qed
qed

text \<open>The callback is called for a subsequence of the entries, all of them if there is memory; nothing tells the
  caller that a key was left out.\<close>

lemma apply_owned:
  assumes "dict_is R h d es"
  shows "\<exists>rc ctx' m. catbsd_xpc_dictionary_apply_m ok (Some d) (Some fn) ctx h = Some (rc, ctx', h\<lparr>xh_mem := m\<rparr>) \<and>
     dict_is R (h\<lparr>xh_mem := m\<rparr>) d es \<and>
     (rc = CATBSD_XPC_ENOMEM \<and> ctx' = ctx \<and> ok \<noteq> plenty \<or>
      (\<exists>ks. subseq ks (map (\<lambda>(k, v). (k, xpc_type v)) es) \<and> (rc, ctx') = apply_loop fn ks 0 ctx \<and>
         (ok = plenty \<longrightarrow> (rc, ctx') = catbsd_xpc_dictionary_apply (Some (object_of d es)) (Some fn) ctx)))"
proof -
  from assms obtain as where as: "chain (xh_nodes h) (hd_head d) as es 0" "hd_count d = length as"
    "owned (xh_mem h) R (chain_blk (xh_nodes h) as + blk (hd_addr d))"
    unfolding dict_is_def by blast
  let ?B = "chain_blk (xh_nodes h) as + blk (hd_addr d)"
  obtain keys m1 where k: "(if 0 < hd_count d then malloc ok (xh_mem h) else (0, xh_mem h)) = (keys, m1)" by fastforce
  obtain types m2 where t: "(if 0 < hd_count d then malloc ok m1 else (0, m1)) = (types, m2)" by fastforce
  have o1: "owned m1 R (blk keys + B)" if "owned (xh_mem h) R B" for B
    using k that malloc_owned by (auto split: if_splits)
  have o2: "owned m2 R (blk types + B)" if "owned m1 R B" for B
    using t that malloc_owned by (auto split: if_splits)
  have both2: "\<exists>m'. both (free keys) (free types) m = Some m' \<and> owned m' R B"
    if "owned m R (blk types + (blk keys + B))" for m B
  proof -
    have "frees (blk keys + blk types) (both (free keys) (free types))" by (intro owns)
    moreover have "owned m R ((blk keys + blk types) + B)" using that by (simp add: ac_simps)
    ultimately show ?thesis by (metis frees_frame)
  qed
  show ?thesis
  proof (cases "0 < hd_count d \<and> (keys = 0 \<or> types = 0)")
    case True
    from both2 [OF o2 [OF o1 [OF as(3)]]] obtain m where m: "both (free keys) (free types) m2 = Some m" by blast
    have "owned m R B" if "owned (xh_mem h) R B" for B
      using both2 [OF o2 [OF o1 [OF that]]] m by auto
    then have "dict_is R (h\<lparr>xh_mem := m\<rparr>) d es" by (rule dict_is_mem [OF assms])
    moreover have "ok \<noteq> plenty" using True k t malloc_plenty by (auto split: if_splits)
    moreover have "catbsd_xpc_dictionary_apply_m ok (Some d) (Some fn) ctx h =
        Some (CATBSD_XPC_ENOMEM, ctx, h\<lparr>xh_mem := m\<rparr>)"
      using True k t m unfolding catbsd_xpc_dictionary_apply_m_def by simp
    ultimately show ?thesis by blast
  next
    case False
    from snapshot_owned [OF as(1) o2 [OF o1 [OF as(3)]], of ok] obtain snap m3 where
      s: "snapshot_m ok (xh_nodes h) (length as) (hd_head d) m2 = Some (snap, m3)"
      "subseq (snap_keys snap) (map (\<lambda>(k, v). (k, xpc_type v)) es)"
      "ok = plenty \<longrightarrow> snap_keys snap = map (\<lambda>(k, v). (k, xpc_type v)) es" by blast
    have o3: "owned m3 R (snap_blk snap + (blk types + (blk keys + B)))" if "owned (xh_mem h) R B" for B
      using snapshot_owned [OF as(1) o2 [OF o1 [OF that]], of ok] s(1) by auto
    let ?r = "apply_loop fn (snap_keys snap) 0 ctx"
    from apply_keys_owned [OF o3 [OF as(3)], of fn 0 ctx] obtain m4 where
      a: "apply_keys_m fn snap 0 ctx m3 = Some (fst ?r, snd ?r, m4)" by blast
    have o4: "owned m4 R (blk types + (blk keys + B))" if "owned (xh_mem h) R B" for B
      using apply_keys_owned [OF o3 [OF that], of fn 0 ctx] a by auto
    from both2 [OF o4 [OF as(3)]] obtain m where m: "both (free keys) (free types) m4 = Some m" by blast
    have "owned m R B" if "owned (xh_mem h) R B" for B
      using both2 [OF o4 [OF that]] m by auto
    then have new: "dict_is R (h\<lparr>xh_mem := m\<rparr>) d es" by (rule dict_is_mem [OF assms])
    have run: "catbsd_xpc_dictionary_apply_m ok (Some d) (Some fn) ctx h = Some (fst ?r, snd ?r, h\<lparr>xh_mem := m\<rparr>)"
      using False k t s(1) a m as(2) unfolding catbsd_xpc_dictionary_apply_m_def by (simp del: apply_keys_m.simps) auto
    have "ok = plenty \<longrightarrow> ?r = catbsd_xpc_dictionary_apply (Some (object_of d es)) (Some fn) ctx"
      using s(3) by (simp add: catbsd_xpc_dictionary_apply_def object_of_def)
    then show ?thesis using new run s(2)
      by (intro exI [of _ "fst ?r"] exI [of _ "snd ?r"] exI [of _ m]) auto
  qed
qed

section \<open>Descriptions\<close>

text \<open>What is described is a part from the front, all if there is memory.\<close>

lemma describe_loop_owned:
  assumes "owned m R (blk (fst out) + B)" "0 < cap"
    and "\<forall>e \<in> set es. length (describe_entry fmt_g e) < DESCRIBE_LINE"
  shows "\<exists>p k m'. describe_loop_m ok fmt_g es cap out m =
       Some ((p, snd out @ concat (map (describe_entry fmt_g) (take k es))), m') \<and> owned m' R (blk p + B) \<and>
     (ok = plenty \<longrightarrow> take k es = es)"
  using assms
proof (induction es arbitrary: cap out m)
  case Nil
  then show ?case by (cases out) auto
next
  case (Cons e es)
  let ?t = "describe_entry fmt_g e"
  let ?need = "length (snd out) + length ?t + 1"
  let ?rest = "\<lambda>p c m. describe_loop_m ok fmt_g es c (p, snd out @ ?t) m"
  have short: "length ?t < DESCRIBE_LINE" and es: "\<forall>e \<in> set es. length (describe_entry fmt_g e) < DESCRIBE_LINE"
    using Cons.prems(3) by simp_all
  have line: "take (length ?t) (snprintf_s DESCRIBE_LINE ?t @ [CHR 0x00]) = ?t"
    using short by (simp add: snprintf_s_fits)
  have go: "\<exists>p' k m'. ?rest p c m = Some ((p', snd out @ concat (map (describe_entry fmt_g) (take k (e # es)))), m') \<and>
      owned m' R (blk p' + B) \<and> (ok = plenty \<longrightarrow> take k (e # es) = e # es)"
    if "owned m R (blk p + B)" "0 < c" for p c m
  proof -
    from Cons.IH [of m "(p, snd out @ ?t)", OF _ that(2) es] that(1) obtain p' k m' where
      "?rest p c m = Some ((p', (snd out @ ?t) @ concat (map (describe_entry fmt_g) (take k es))), m')"
      "owned m' R (blk p' + B)" "ok = plenty \<longrightarrow> take k es = es" by auto
    then show ?thesis by (intro exI [of _ p'] exI [of _ "Suc k"] exI [of _ m']) simp
  qed
  show ?case
  proof (cases "cap < ?need")
    case True
    from realloc_owned [OF Cons.prems(1), of ok] obtain q m1 where
      q: "realloc ok (fst out) m = Some (q, m1)" "owned m1 R (blk (if q = 0 then fst out else q) + B)" .
    show ?thesis
    proof (cases "q = 0")
      case null: True
      have "ok \<noteq> plenty" using q(1) null realloc_plenty by blast
      then show ?thesis using q null True
        by (intro exI [of _ "fst out"] exI [of _ 0] exI [of _ m1]) (simp add: Let_def)
    next
      case False
      have grow: "\<not> grow_cap cap ?need < ?need" "0 < grow_cap cap ?need"
        using grow_cap_enough [OF Cons.prems(2), of ?need] grow_cap_pos [OF Cons.prems(2), of ?need] by simp_all
      have "describe_loop_m ok fmt_g (e # es) cap out m = ?rest q (grow_cap cap ?need) m1"
        using q(1) True False short line grow(1) by (simp add: Let_def)
      then show ?thesis using go [of m1 q "grow_cap cap ?need"] q(2) False grow(2) by simp
    qed
  next
    case False
    then have "describe_loop_m ok fmt_g (e # es) cap out m = ?rest (fst out) cap m"
      using short line by (simp add: Let_def)
    then show ?thesis using go [of m "fst out" cap] Cons.prems(1,2) by simp
  qed
qed

lemma copy_description_owned:
  assumes "dict_is R h d es" "\<forall>e \<in> set es. length (describe_entry fmt_g e) < DESCRIBE_LINE"
  shows "\<exists>p text m. catbsd_xpc_copy_description_m ok fmt_g (Some d) h = Some ((p, text), h\<lparr>xh_mem := m\<rparr>) \<and>
     dict_is (R + blk p) (h\<lparr>xh_mem := m\<rparr>) d es \<and>
     (ok = plenty \<longrightarrow> catbsd_xpc_copy_description fmt_g (Some (object_of d es)) = DOk text)"
proof -
  note o = object_at_is [OF assms(1)]
  have es: "entries (object_of d es) = es" by (simp add: object_of_def)
  have n: "hd_count d = length es" using assms(1) chain_length unfolding dict_is_def by fastforce
  obtain p m where p: "malloc ok (xh_mem h) = (p, m)" by fastforce
  show ?thesis
  proof (cases "p = 0")
    case True
    have "ok \<noteq> plenty" using p True malloc_plenty by blast
    then show ?thesis using o p True dict_is_malloc [OF assms(1) p]
      by (intro exI [of _ 0] exI [of _ "[]"] exI [of _ m]) (simp add: catbsd_xpc_copy_description_m_def)
  next
    case False
    let ?head = "''<xpc dictionary: '' @ dec_nat (hd_count d) @ '' entries>'' @ [CHR 0x0A]"
    have run: "\<exists>q k m1. describe_loop_m ok fmt_g es 256 (p, ?head) m =
          Some ((q, ?head @ concat (map (describe_entry fmt_g) (take k es))), m1) \<and> owned m1 R (blk q + B) \<and>
        (ok = plenty \<longrightarrow> take k es = es)" if "owned (xh_mem h) R B" for B
      using describe_loop_owned [of m R "(p, ?head)" B 256 es fmt_g ok] malloc_owned [OF p that] assms(2) by simp
    from assms(1) obtain B0 where "owned (xh_mem h) R B0" unfolding dict_is_def by blast
    from run [OF this] obtain q k m1 where
      q: "describe_loop_m ok fmt_g es 256 (p, ?head) m =
        Some ((q, ?head @ concat (map (describe_entry fmt_g) (take k es))), m1)"
      "ok = plenty \<longrightarrow> take k es = es" by blast
    have "owned m1 (R + blk q) B" if "owned (xh_mem h) R B" for B
    proof -
      from run [OF that] obtain q' t m' where
        "describe_loop_m ok fmt_g es 256 (p, ?head) m = Some ((q', t), m')" "owned m' R (blk q' + B)" by blast
      then have "owned m1 R (blk q + B)" using q(1) by (simp only: option.inject prod.inject)
      then show ?thesis by (simp add: owned_move(2))
    qed
    then have "dict_is (R + blk q) (h\<lparr>xh_mem := m1\<rparr>) d es" by (rule dict_is_mem [OF assms(1)])
    moreover have "ok = plenty \<longrightarrow> catbsd_xpc_copy_description fmt_g (Some (object_of d es)) =
        DOk (?head @ concat (map (describe_entry fmt_g) (take k es)))"
      using q(2) assms(2) by (simp add: copy_description_result es n)
    moreover have "catbsd_xpc_copy_description_m ok fmt_g (Some d) h =
        Some ((q, ?head @ concat (map (describe_entry fmt_g) (take k es))), h\<lparr>xh_mem := m1\<rparr>)"
      using o p False q(1) by (simp add: catbsd_xpc_copy_description_m_def es)
    ultimately show ?thesis by blast
  qed
qed

end
