(* ===== verification/Xpc_Memory_Claims.thy ===== *)
theory Xpc_Memory_Claims
  imports Xpc_Memory_Wire
begin

text \<open>
  The property of dictionaries in memory: the linked list is the list of entries, a call that finds no memory
  changes nothing, and every block is given back.
\<close>

text \<open>A dictionary is new, or read from a frame.\<close>

definition new_object_m :: "alloc_plan \<Rightarrow> byte list option \<Rightarrow> xheap \<Rightarrow> (hdict option \<times> xheap) option" where
  "new_object_m ok src h =
     (case src of
        None \<Rightarrow> Some (catbsd_xpc_dictionary_create_m ok h)
      | Some buf \<Rightarrow> catbsd_xpc_deserialize_m ok src (length buf) h)"

definition new_object :: "byte list option \<Rightarrow> xpc_object dres" where
  "new_object src =
     (case src of
        None \<Rightarrow> DOk catbsd_xpc_dictionary_create
      | Some buf \<Rightarrow> catbsd_xpc_deserialize src (length buf))"

lemma new_object_owned:
  assumes "owned (xh_mem h) R {#}"
  shows "\<exists>obj h'. new_object_m ok src h = Some (obj, h') \<and>
     (case obj of
        None \<Rightarrow> owned (xh_mem h') R {#} \<and> (ok = plenty \<longrightarrow> new_object src = DBad)
      | Some d \<Rightarrow> \<exists>es. dict_is R h' d es \<and> hd_refcount d = 1 \<and> new_object src = DOk (object_of d es))"
proof (cases src)
  case None
  obtain obj h' where c: "catbsd_xpc_dictionary_create_m ok h = (obj, h')" by fastforce
  from create_owned [OF c assms] None c show ?thesis
    by (cases obj) (auto simp: new_object_m_def new_object_def object_of_def catbsd_xpc_dictionary_create_def
        intro!: exI [of _ "[]"])
next
  case (Some buf)
  from deserialize_follows [OF assms, of ok buf] show ?thesis
    unfolding new_object_m_def new_object_def Some option.case .
qed

text \<open>C19: Message dictionaries own their memory.  Whatever allocations fail, a dictionary that is created, or
  read from any bytes, and then changed by any calls has the entries that the calls give it one after the other,
  without those that reported that there was no memory: such a call changes nothing.  No access is wrong, and
  releasing the dictionary leaves exactly the blocks that were there before, as does a frame that is refused.  If
  no allocation fails, no call reports that.\<close>

theorem dictionaries_own_memory:
  assumes "mem_ok (xh_mem h)"
  shows "\<exists>obj h1. new_object_m ok src h = Some (obj, h1) \<and>
     (case obj of
        None \<Rightarrow> live (xh_mem h1) = live (xh_mem h) \<and> (ok = (\<lambda>_. True) \<longrightarrow> new_object src = DBad)
      | Some d \<Rightarrow>
          (\<exists>x rcs d' h' h''. new_object src = DOk x \<and>
             dict_calls_m ok opers (Some d) h1 = Some (rcs, Some d', h') \<and> length rcs = length opers \<and>
             object_at h' d' = book_calls opers rcs (Some x) \<and>
             catbsd_xpc_release_m (Some d') h' = Some (None, h'') \<and> live (xh_mem h'') = live (xh_mem h) \<and>
             (ok = (\<lambda>_. True) \<longrightarrow> CATBSD_XPC_ENOMEM \<notin> set rcs)))"
proof -
  let ?R = "mset_set (live (xh_mem h))"
  have fin: "finite (live (xh_mem h))" using assms by (simp add: mem_ok_def)
  from new_object_owned [OF mem_ok_owned [OF assms], of ok src] obtain obj h1 where n: "new_object_m ok src h = Some (obj, h1)"
    and s: "case obj of
        None \<Rightarrow> owned (xh_mem h1) ?R {#} \<and> (ok = plenty \<longrightarrow> new_object src = DBad)
      | Some d \<Rightarrow> \<exists>es. dict_is ?R h1 d es \<and> hd_refcount d = 1 \<and> new_object src = DOk (object_of d es)"
    by blast
  show ?thesis
  proof (cases obj)
    case None
    then show ?thesis using n s owned_all fin by auto
  next
    case (Some d)
    then obtain es where d: "dict_is ?R h1 d es" "hd_refcount d = 1" "new_object src = DOk (object_of d es)"
      using s by auto
    from calls_follow [OF d(1), of ok opers] obtain rcs d' h' es' where
      c: "dict_calls_m ok opers (Some d) h1 = Some (rcs, Some d', h')" "length rcs = length opers"
      "same_object d d'" "dict_is ?R h' d' es'"
      "book_calls opers rcs (Some (object_of d es)) = Some (object_of d' es')"
      "ok = plenty \<longrightarrow> CATBSD_XPC_ENOMEM \<notin> set rcs" by blast
    have "hd_refcount d' \<le> 1" using c(3) d(2) by (simp add: same_object_def)
    from release_last [OF c(4) this] obtain h'' where
      r: "catbsd_xpc_release_m (Some d') h' = Some (None, h'')" "owned (xh_mem h'') ?R {#}" .
    have "live (xh_mem h'') = live (xh_mem h)" using owned_all [OF r(2) fin] .
    then show ?thesis using n Some d(3) c(1,2,5,6) r(1) object_at_is [OF c(4)] by auto
  qed
qed

text \<open>The second call of three finds no memory for its key.\<close>

lemmas run_dict_calls = catbsd_xpc_dictionary_create_m_def set_scalar_m_def entry_reset_m_def store_entry_def
  catbsd_xpc_dictionary_remove_m_def unlink_entry_def entry_free_m_def malloc_def free_def both_def free_text_def
  dup_string_def valid_key_def entry_find_m.simps find_prev.simps find_tail.simps c_str_def Let_def

lemma second_call_fails:
  "dict_calls_m (\<lambda>k. k \<noteq> 4) [SetBool ''a'' 1, SetInt64 ''b'' 5, Remove ''a'']
     (Some \<lparr>hd_addr = 1, hd_head = 0, hd_tail = 0, hd_count = 0, hd_refcount = 1, hd_msg_id = 0, hd_is_reply = False\<rparr>)
     \<lparr>xh_mem = \<lparr>live = {1}, requests = 1\<rparr>, xh_nodes = (\<lambda>_. None)\<rparr> =
   Some ([CATBSD_XPC_SUCCESS, CATBSD_XPC_ENOMEM, CATBSD_XPC_SUCCESS],
     Some \<lparr>hd_addr = 1, hd_head = 0, hd_tail = 0, hd_count = 0, hd_refcount = 1, hd_msg_id = 0, hd_is_reply = False\<rparr>,
     \<lparr>xh_mem = \<lparr>live = {1}, requests = 5\<rparr>, xh_nodes = (\<lambda>_. None)\<rparr>)"
  by (simp add: run_dict_calls)

theorem dictionaries_own_memory_witness:
  "\<exists>d h1 d' h' h''.
     new_object_m (\<lambda>k. k \<noteq> 4) None \<lparr>xh_mem = \<lparr>live = {}, requests = 0\<rparr>, xh_nodes = (\<lambda>_. None)\<rparr> = Some (Some d, h1) \<and>
     dict_calls_m (\<lambda>k. k \<noteq> 4) [SetBool ''a'' 1, SetInt64 ''b'' 5, Remove ''a''] (Some d) h1 =
       Some ([CATBSD_XPC_SUCCESS, CATBSD_XPC_ENOMEM, CATBSD_XPC_SUCCESS], Some d', h') \<and>
     catbsd_xpc_release_m (Some d') h' = Some (None, h'') \<and> live (xh_mem h'') = {}"
proof -
  let ?h = "\<lparr>xh_mem = \<lparr>live = {}, requests = 0\<rparr>, xh_nodes = (\<lambda>_. None)\<rparr>"
  have new: "new_object_m (\<lambda>k. k \<noteq> 4) None ?h =
     Some (Some \<lparr>hd_addr = 1, hd_head = 0, hd_tail = 0, hd_count = 0, hd_refcount = 1, hd_msg_id = 0, hd_is_reply = False\<rparr>,
       \<lparr>xh_mem = \<lparr>live = {1}, requests = 1\<rparr>, xh_nodes = (\<lambda>_. None)\<rparr>)"
    by (simp add: new_object_m_def run_dict_calls)
  have m: "mem_ok (xh_mem ?h)" by (simp add: mem_ok_def)
  from dictionaries_own_memory [OF m, of "\<lambda>k. k \<noteq> 4" None "[SetBool ''a'' 1, SetInt64 ''b'' 5, Remove ''a'']"]
  show ?thesis unfolding new
    by (auto simp: second_call_fails simp del: dict_calls_m.simps One_nat_def)
qed

end
