(* ===== verification/Mach_Port.thy ===== *)
theory Mach_Port
  imports Interfaces "HOL-Library.AList"
begin

text \<open>
  Model of \<^verbatim>\<open>src/src/darwin-compat/shims/mach_port.c\<close>: the registry of ports with their message
  queues and rights, kept beside a kqueue descriptor per port.

  The registry list \<^verbatim>\<open>g_ports\<close> is an association list, newest entry first.  The answers of
  \<^verbatim>\<open>kqueue\<close>, \<^verbatim>\<open>kevent\<close> and \<^verbatim>\<open>close\<close> are arguments; allocation of memory succeeds.
\<close>

section \<open>State\<close>

type_synonym message = "byte list"

record port_entry =
  msgs :: "message list"
  rights :: "(int \<times> u32) list"

type_synonym registry = "(int \<times> port_entry) list"

definition fresh_entry :: port_entry where
  "fresh_entry = \<lparr>msgs = [], rights = []\<rparr>"

text \<open>\<^verbatim>\<open>port_entry_get(port, 0)\<close>.\<close>

definition port_entry_find :: "registry \<Rightarrow> int \<Rightarrow> port_entry option" where
  "port_entry_find reg port = map_of reg port"

text \<open>\<^verbatim>\<open>port_entry_get(port, 1)\<close>: the registry with an entry for the port, and that entry.\<close>

definition port_entry_get :: "registry \<Rightarrow> int \<Rightarrow> registry \<times> port_entry" where
  "port_entry_get reg port =
     (case port_entry_find reg port of
        Some e \<Rightarrow> (reg, e)
      | None \<Rightarrow> ((port, fresh_entry) # reg, fresh_entry))"

text \<open>A change of the entry in place.\<close>

definition port_entry_store :: "int \<Rightarrow> port_entry \<Rightarrow> registry \<Rightarrow> registry" where
  "port_entry_store port e reg = AList.update port e reg"

fun port_entry_remove :: "int \<Rightarrow> registry \<Rightarrow> registry" where
  "port_entry_remove port [] = []"
| "port_entry_remove port ((p, e) # reg) =
     (if p = port then reg else (p, e) # port_entry_remove port reg)"

fun port_entry_dequeue :: "port_entry \<Rightarrow> message option \<times> port_entry" where
  "port_entry_dequeue e =
     (case msgs e of [] \<Rightarrow> (None, e) | m # ms \<Rightarrow> (Some m, e\<lparr>msgs := ms\<rparr>))"

definition port_entry_enqueue :: "message \<Rightarrow> port_entry \<Rightarrow> port_entry" where
  "port_entry_enqueue m e = e\<lparr>msgs := msgs e @ [m]\<rparr>"

section \<open>Codes\<close>

definition MACH_PORT_NULL :: int where "MACH_PORT_NULL = 0"
definition MACH_PORT_DEAD :: int where "MACH_PORT_DEAD = -1"
definition KERN_SUCCESS :: int where "KERN_SUCCESS = 0"
definition KERN_FAILURE :: int where "KERN_FAILURE = -1"
definition KERN_INVALID_ARGUMENT :: int where "KERN_INVALID_ARGUMENT = -2"
definition KERN_NO_SPACE :: int where "KERN_NO_SPACE = -3"
definition KERN_INVALID_NAME :: int where "KERN_INVALID_NAME = -4"
definition KERN_TIMED_OUT :: int where "KERN_TIMED_OUT = -5"

lemmas kern_codes = KERN_SUCCESS_def KERN_FAILURE_def KERN_INVALID_ARGUMENT_def KERN_NO_SPACE_def
  KERN_INVALID_NAME_def KERN_TIMED_OUT_def MACH_PORT_NULL_def MACH_PORT_DEAD_def

definition PORT_RIGHTS :: "u32 list" where "PORT_RIGHTS = [0x01, 0x02, 0x04, 0x08]"

definition mach_error_string :: "int \<Rightarrow> string" where
  "mach_error_string e =
     (if e = KERN_SUCCESS then ''Success''
      else if e = KERN_FAILURE then ''Failure''
      else if e = KERN_INVALID_ARGUMENT then ''Invalid argument''
      else if e = KERN_NO_SPACE then ''No space available''
      else if e = KERN_INVALID_NAME then ''Invalid name''
      else if e = KERN_TIMED_OUT then ''Operation timed out''
      else ''Unknown error'')"

definition bad_name :: "int \<Rightarrow> bool" where
  "bad_name port = (port = MACH_PORT_NULL \<or> port = MACH_PORT_DEAD)"

section \<open>Ports and rights\<close>

text \<open>\<open>kq\<close> is what \<^verbatim>\<open>kqueue()\<close> returns.\<close>

definition mach_port_allocate :: "int \<Rightarrow> registry \<Rightarrow> int \<times> int option \<times> registry" where
  "mach_port_allocate kq reg =
     (if kq < 0 then (KERN_NO_SPACE, None, reg)
      else (KERN_SUCCESS, Some kq, fst (port_entry_get reg kq)))"

definition mach_port_deallocate :: "bool \<Rightarrow> int \<Rightarrow> registry \<Rightarrow> int \<times> registry" where
  "mach_port_deallocate close_ok port reg =
     (if bad_name port then (KERN_INVALID_NAME, reg)
      else (if close_ok then KERN_SUCCESS else KERN_FAILURE, port_entry_remove port reg))"

text \<open>\<^verbatim>\<open>node->rights |= right\<close>, on the node of the name or a new one at the front.\<close>

definition grant_right :: "int \<Rightarrow> u32 \<Rightarrow> (int \<times> u32) list \<Rightarrow> (int \<times> u32) list" where
  "grant_right nm right rs =
     (case map_of rs nm of
        Some old \<Rightarrow> AList.update nm (old OR right) rs
      | None \<Rightarrow> (nm, 0 OR right) # rs)"

definition mach_port_insert_right :: "int \<Rightarrow> int \<Rightarrow> u32 \<Rightarrow> registry \<Rightarrow> int \<times> registry" where
  "mach_port_insert_right port nm right reg =
     (if bad_name port then (KERN_INVALID_NAME, reg)
      else if right \<notin> set PORT_RIGHTS then (KERN_INVALID_ARGUMENT, reg)
      else
        let (reg', e) = port_entry_get reg port in
        (KERN_SUCCESS, port_entry_store port (e\<lparr>rights := grant_right nm right (rights e)\<rparr>) reg'))"

definition mach_port_has_right :: "int \<Rightarrow> int \<Rightarrow> u32 \<Rightarrow> registry \<Rightarrow> bool" where
  "mach_port_has_right port nm right reg =
     (case port_entry_find reg port of
        None \<Rightarrow> False
      | Some e \<Rightarrow>
          (case map_of (rights e) nm of None \<Rightarrow> False | Some rs \<Rightarrow> rs AND right = right))"

section \<open>Messages\<close>

text \<open>\<open>kevent_ok\<close>: the wakeup by \<^verbatim>\<open>kevent\<close> succeeds.  A message of \<open>None\<close> is \<^verbatim>\<open>NULL\<close>.\<close>

definition mach_msg_send :: "bool \<Rightarrow> int \<Rightarrow> message option \<Rightarrow> registry \<Rightarrow> int \<times> registry" where
  "mach_msg_send kevent_ok port msg reg =
     (if bad_name port then (KERN_INVALID_NAME, reg)
      else case msg of
        None \<Rightarrow> (KERN_INVALID_ARGUMENT, reg)
      | Some bytes \<Rightarrow>
          if bytes = [] then (KERN_INVALID_ARGUMENT, reg)
          else
            let (reg', e) = port_entry_get reg port in
            (if kevent_ok then KERN_SUCCESS else KERN_FAILURE,
             port_entry_store port (port_entry_enqueue bytes e) reg'))"

text \<open>What happens while a thread waits: its \<^verbatim>\<open>kevent\<close> returns, or another thread sends to a port.
  \<open>WaitTimeout\<close> covers \<^verbatim>\<open>kevent\<close> returning 0 and a deadline found over.  With no event left
  the thread waits for ever.\<close>

datatype wait_event =
    Woken | WaitIntr | WaitFailed | WaitTimeout | Arrival int message

text \<open>The code, the message copied out, and the registry.\<close>

fun receive_loop ::
  "int \<Rightarrow> nat \<Rightarrow> wait_event list \<Rightarrow> registry \<Rightarrow> (int \<times> message option \<times> registry) option" where
  "receive_loop port len evs reg =
     (case port_entry_find reg port of
        None \<Rightarrow> None
      | Some e \<Rightarrow>
          (case port_entry_dequeue e of
             (Some m, e') \<Rightarrow> Some (KERN_SUCCESS, Some (take len m), port_entry_store port e' reg)
           | (None, _) \<Rightarrow>
               (case evs of
                  [] \<Rightarrow> None
                | Woken # evs' \<Rightarrow> receive_loop port len evs' reg
                | WaitIntr # evs' \<Rightarrow> receive_loop port len evs' reg
                | WaitFailed # evs' \<Rightarrow> Some (KERN_FAILURE, None, reg)
                | WaitTimeout # evs' \<Rightarrow> Some (KERN_TIMED_OUT, None, reg)
                | Arrival p m # evs' \<Rightarrow>
                    receive_loop port len evs' (snd (mach_msg_send True p (Some m) reg)))))"

declare receive_loop.simps [simp del]

definition mach_msg_receive ::
  "int \<Rightarrow> nat \<Rightarrow> wait_event list \<Rightarrow> registry \<Rightarrow> (int \<times> message option \<times> registry) option" where
  "mach_msg_receive port len evs reg =
     (if bad_name port then Some (KERN_INVALID_NAME, None, reg)
      else if len = 0 then Some (KERN_INVALID_ARGUMENT, None, reg)
      else if port_entry_find reg port = None then Some (KERN_INVALID_NAME, None, reg)
      else receive_loop port len evs reg)"

text \<open>The scan of the queues: the first port, in the caller's order, that has a message.\<close>

definition has_message :: "registry \<Rightarrow> int \<Rightarrow> bool" where
  "has_message reg port =
     (case port_entry_find reg port of None \<Rightarrow> False | Some e \<Rightarrow> msgs e \<noteq> [])"

fun scan_ports :: "registry \<Rightarrow> int list \<Rightarrow> nat \<Rightarrow> nat option" where
  "scan_ports reg [] i = None"
| "scan_ports reg (p # ps) i = (if has_message reg p then Some i else scan_ports reg ps (i + 1))"

fun wait_loop ::
  "int list \<Rightarrow> wait_event list \<Rightarrow> registry \<Rightarrow> (int \<times> nat option \<times> registry) option" where
  "wait_loop ports evs reg =
     (case scan_ports reg ports 0 of
        Some i \<Rightarrow> Some (KERN_SUCCESS, Some i, reg)
      | None \<Rightarrow>
          (case evs of
             [] \<Rightarrow> None
           | Woken # evs' \<Rightarrow> wait_loop ports evs' reg
           | WaitIntr # evs' \<Rightarrow> wait_loop ports evs' reg
           | WaitFailed # evs' \<Rightarrow> Some (KERN_FAILURE, None, reg)
           | WaitTimeout # evs' \<Rightarrow> Some (KERN_TIMED_OUT, None, reg)
           | Arrival p m # evs' \<Rightarrow> wait_loop ports evs' (snd (mach_msg_send True p (Some m) reg))))"

declare wait_loop.simps [simp del]

text \<open>\<open>supervisor\<close> is the second \<^verbatim>\<open>kqueue()\<close>, \<open>watch_ok\<close> whether all ports could be added to it.\<close>

definition mach_port_wait_any ::
  "int \<Rightarrow> bool \<Rightarrow> int list \<Rightarrow> wait_event list \<Rightarrow> registry \<Rightarrow>
   (int \<times> nat option \<times> registry) option" where
  "mach_port_wait_any supervisor watch_ok ports evs reg =
     (if ports = [] then Some (KERN_INVALID_ARGUMENT, None, reg)
      else if \<exists>p \<in> set ports. bad_name p then Some (KERN_INVALID_NAME, None, reg)
      else if supervisor < 0 then Some (KERN_FAILURE, None, reg)
      else if \<not> watch_ok then Some (KERN_FAILURE, None, reg)
      else wait_loop ports evs reg)"

section \<open>The registry is a keyed store, an entry a queue\<close>

definition registry_ok :: "registry \<Rightarrow> bool" where
  "registry_ok reg = distinct (map fst reg)"

lemma port_entry_remove_delete:
  "registry_ok reg \<Longrightarrow> port_entry_remove port reg = AList.delete port reg"
  by (induction port reg rule: port_entry_remove.induct) (auto simp: registry_ok_def)

interpretation port_store: removable_store port_entry_find port_entry_store registry_ok port_entry_remove
  by unfold_locales
    (simp_all add: registry_ok_def port_entry_find_def port_entry_store_def
      port_entry_remove_delete [unfolded registry_ok_def] update_conv' delete_conv' distinct_update
      distinct_delete)

interpretation port_queue: fifo port_entry_enqueue port_entry_dequeue msgs
  by unfold_locales (simp_all add: port_entry_enqueue_def)

lemma port_entry_get_find:
  "registry_ok reg \<Longrightarrow> port_entry_get reg port = (reg', e) \<Longrightarrow>
   registry_ok reg' \<and> port_entry_find reg' port = Some e \<and>
   (\<forall>p. p \<noteq> port \<longrightarrow> port_entry_find reg' p = port_entry_find reg p) \<and>
   e = (case port_entry_find reg port of None \<Rightarrow> fresh_entry | Some e0 \<Rightarrow> e0) \<and>
   fst ` set reg' = insert port (fst ` set reg)"
proof (cases "port_entry_find reg port")
  case None
  then have "port \<notin> fst ` set reg" by (simp add: port_entry_find_def map_of_eq_None_iff)
  then show ?thesis if "registry_ok reg" "port_entry_get reg port = (reg', e)"
    using that None by (auto simp: port_entry_get_def port_entry_find_def registry_ok_def)
next
  case (Some e0)
  then have "port \<in> fst ` set reg" by (force simp: port_entry_find_def dest: map_of_SomeD)
  then show ?thesis if "registry_ok reg" "port_entry_get reg port = (reg', e)"
    using that Some by (auto simp: port_entry_get_def)
qed

text \<open>The queue of a port, empty if it has no entry.\<close>

definition queue_of :: "registry \<Rightarrow> int \<Rightarrow> message list" where
  "queue_of reg port = (case port_entry_find reg port of None \<Rightarrow> [] | Some e \<Rightarrow> msgs e)"

lemma registry_ok_send: "registry_ok reg \<Longrightarrow> registry_ok (snd (mach_msg_send k port m reg))"
  using port_entry_get_find [of reg port]
  by (auto simp: mach_msg_send_def port_store.ok_insert split: option.splits prod.splits)

lemma queue_of_send:
  assumes "registry_ok reg" "\<not> bad_name port" "m \<noteq> []"
  shows "queue_of (snd (mach_msg_send k port (Some m) reg)) p =
           (if p = port then queue_of reg port @ [m] else queue_of reg p)"
proof -
  obtain reg' e where g: "port_entry_get reg port = (reg', e)" by fastforce
  from port_entry_get_find [OF assms(1) g] show ?thesis
    using assms(2,3)
    by (auto simp: mach_msg_send_def g queue_of_def port_store.lookup_insert port_entry_enqueue_def
        fresh_entry_def split: option.splits)
qed

lemma queue_of_sends:
  assumes "registry_ok reg" "\<not> bad_name port" "\<forall>m \<in> set ms. m \<noteq> []"
  shows "registry_ok (fold (\<lambda>m r. snd (mach_msg_send k port (Some m) r)) ms reg) \<and>
         queue_of (fold (\<lambda>m r. snd (mach_msg_send k port (Some m) r)) ms reg) port =
           queue_of reg port @ ms"
  using assms
  by (induction ms arbitrary: reg) (auto simp: queue_of_send registry_ok_send)

lemma receive_ready:
  assumes "registry_ok reg" "\<not> bad_name port" "0 < len" "queue_of reg port = m # ms"
  shows "\<exists>reg'. mach_msg_receive port len evs reg = Some (KERN_SUCCESS, Some (take len m), reg') \<and>
           queue_of reg' port = ms \<and> registry_ok reg'"
proof -
  obtain e where e: "port_entry_find reg port = Some e" "msgs e = m # ms"
    using assms(4) by (auto simp: queue_of_def split: option.splits)
  then show ?thesis
    using assms(1-3)
    by (auto simp: mach_msg_receive_def receive_loop.simps [of port len evs] queue_of_def
        port_store.lookup_insert port_store.ok_insert)
qed

fun receives :: "nat \<Rightarrow> int \<Rightarrow> nat \<Rightarrow> registry \<Rightarrow> (int \<times> message option) list option" where
  "receives 0 port len reg = Some []"
| "receives (Suc n) port len reg =
     (case mach_msg_receive port len [] reg of
        None \<Rightarrow> None
      | Some (rc, m, reg') \<Rightarrow> map_option (\<lambda>rest. (rc, m) # rest) (receives n port len reg'))"

lemma receives_queue:
  "registry_ok reg \<Longrightarrow> \<not> bad_name port \<Longrightarrow> 0 < len \<Longrightarrow>
   receives (length (queue_of reg port)) port len reg =
     Some (map (\<lambda>m. (KERN_SUCCESS, Some (take len m))) (queue_of reg port))"
proof (induction "queue_of reg port" arbitrary: reg)
  case Nil
  then show ?case by simp
next
  case (Cons m ms)
  from receive_ready [OF Cons.prems(1,2,3) Cons.hyps(2) [symmetric], of "[]"] obtain reg' where
    "mach_msg_receive port len [] reg = Some (KERN_SUCCESS, Some (take len m), reg')"
    "queue_of reg' port = ms" "registry_ok reg'" by blast
  then show ?case
    using Cons.hyps(1) [of reg'] Cons.hyps(2) [symmetric] Cons.prems by simp
qed

section \<open>Waiting on several ports\<close>

lemma scan_ports_Some:
  "scan_ports reg ps i = Some j \<Longrightarrow>
   i \<le> j \<and> j - i < length ps \<and> has_message reg (ps ! (j - i)) \<and>
   (\<forall>k < j - i. \<not> has_message reg (ps ! k))"
proof (induction ps arbitrary: i)
  case (Cons p ps)
  show ?case
  proof (cases "has_message reg p")
    case False
    then have "scan_ports reg ps (i + 1) = Some j" using Cons.prems by simp
    from Cons.IH [OF this] obtain d where d: "j = i + 1 + d" "d < length ps"
      "has_message reg (ps ! d)" "\<forall>k < d. \<not> has_message reg (ps ! k)"
      by (metis add_diff_inverse_nat not_less)
    then have "\<not> has_message reg ((p # ps) ! k)" if "k < Suc d" for k
      using that False by (cases k) auto
    with d show ?thesis by simp
  qed (use Cons.prems in auto)
qed simp

lemma wait_loop_ready:
  "wait_loop ports evs reg = Some (KERN_SUCCESS, r, reg') \<Longrightarrow>
   (\<exists>i. r = Some i \<and> scan_ports reg' ports 0 = Some i)"
proof (induction ports evs reg rule: wait_loop.induct)
  case (1 ports evs reg)
  show ?case
  proof (cases "scan_ports reg ports 0")
    case None
    then show ?thesis
      using "1.prems" "1.IH" [OF None]
      by (subst (asm) wait_loop.simps) (auto simp: kern_codes split: list.splits wait_event.splits)
  next
    case (Some i)
    then show ?thesis
      using "1.prems" by (simp add: wait_loop.simps [of ports evs reg]) (metis Some)
  qed
qed

section \<open>Rights\<close>

lemma and_single_bit: "k < 32 \<Longrightarrow> (x :: u32) AND push_bit k 1 = push_bit k 1 \<longleftrightarrow> bit x k"
proof
  assume k: "k < 32" and eq: "x AND push_bit k 1 = push_bit k 1"
  have "bit (x AND push_bit k 1) k" unfolding eq using k by (simp add: bit_simps)
  then show "bit x k" by (simp add: bit_and_iff)
next
  assume k: "k < 32" "bit x k"
  then show "x AND push_bit k 1 = push_bit k 1"
    by (intro bit_word_eqI) (auto simp: bit_simps)
qed

lemmas single_bits = and_single_bit [of 0, simplified] and_single_bit [of 1, simplified]
  and_single_bit [of 2, simplified] and_single_bit [of 3, simplified]

lemma port_right_bits:
  "r \<in> set PORT_RIGHTS \<Longrightarrow> r' \<in> set PORT_RIGHTS \<Longrightarrow>
   ((old OR r) AND r' = r') = (old AND r' = r' \<or> r = r')"
  by (auto simp: PORT_RIGHTS_def single_bits bit_or_iff bit_simps)

end
