(* ===== verification/Mach_Claims.thy ===== *)
theory Mach_Claims
  imports Mach_Port
begin

text \<open>What the port emulation of \<^verbatim>\<open>mach_port.c\<close> promises to clients that use only ports they have
  allocated, and what it does for those that do not.\<close>

section \<open>Disciplined clients\<close>

datatype port_op =
    OpAllocate int
  | OpDeallocate int bool
  | OpSend int message bool
  | OpInsertRight int int u32
  | OpReceive int nat

text \<open>The registry and the descriptors that are open.  The system returns a descriptor that is not
  open, and a client names only ports it holds; anything else is not a step.\<close>

fun port_step :: "registry \<times> int set \<Rightarrow> port_op \<Rightarrow> registry \<times> int set" where
  "port_step (reg, live) (OpAllocate kq) =
     (if 0 < kq \<and> kq \<notin> live then (snd (snd (mach_port_allocate kq reg)), insert kq live)
      else (reg, live))"
| "port_step (reg, live) (OpDeallocate p ok) =
     (if p \<in> live then (snd (mach_port_deallocate ok p reg), live - {p}) else (reg, live))"
| "port_step (reg, live) (OpSend p m ok) =
     (if p \<in> live then (snd (mach_msg_send ok p (Some m) reg), live) else (reg, live))"
| "port_step (reg, live) (OpInsertRight p nm r) =
     (if p \<in> live then (snd (mach_port_insert_right p nm r reg), live) else (reg, live))"
| "port_step (reg, live) (OpReceive p len) =
     (if p \<in> live then
        (case mach_msg_receive p len [] reg of
           None \<Rightarrow> (reg, live) | Some (rc, m, reg') \<Rightarrow> (reg', live))
      else (reg, live))"

definition ports_ok :: "registry \<times> int set \<Rightarrow> bool" where
  "ports_ok s = (registry_ok (fst s) \<and> fst ` set (fst s) = snd s \<and> (\<forall>p \<in> snd s. 0 < p))"

lemma keys_store: "fst ` set (port_entry_store p e reg) = insert p (fst ` set reg)"
  by (simp add: port_entry_store_def dom_update)

lemma keys_remove:
  "registry_ok reg \<Longrightarrow> fst ` set (port_entry_remove p reg) = fst ` set reg - {p}"
  by (auto simp: port_entry_remove_delete AList.delete_eq)

lemma keys_find: "fst ` set reg = {p. port_entry_find reg p \<noteq> None}"
  by (auto simp: port_entry_find_def map_of_eq_None_iff)

lemma keys_send:
  "registry_ok reg \<Longrightarrow> p \<in> fst ` set reg \<Longrightarrow>
   fst ` set (snd (mach_msg_send k p m reg)) = fst ` set reg"
  using port_entry_get_find [of reg p]
  by (auto simp: mach_msg_send_def keys_store split: option.splits prod.splits)

lemma insert_right_ok:
  "registry_ok reg \<Longrightarrow> p \<in> fst ` set reg \<Longrightarrow>
   registry_ok (snd (mach_port_insert_right p nm r reg)) \<and>
   fst ` set (snd (mach_port_insert_right p nm r reg)) = fst ` set reg"
  using port_entry_get_find [of reg p]
  by (auto simp: mach_port_insert_right_def keys_store port_store.ok_insert split: prod.splits)

lemma receive_ok:
  "registry_ok reg \<Longrightarrow> mach_msg_receive p len [] reg = Some (rc, m, reg') \<Longrightarrow>
   registry_ok reg' \<and> fst ` set reg' = fst ` set reg"
  by (auto simp: mach_msg_receive_def receive_loop.simps [of p len "[]"] keys_store keys_find
      port_store.ok_insert port_store.lookup_insert split: if_splits option.splits list.splits)

lemma ports_ok_step: "ports_ok s \<Longrightarrow> ports_ok (port_step s oper)"
proof -
  assume ok: "ports_ok s"
  obtain reg live where s: "s = (reg, live)" by fastforce
  have reg: "registry_ok reg" "fst ` set reg = live" "\<forall>p \<in> live. 0 < p"
    using ok by (simp_all add: s ports_ok_def)
  show ?thesis
  proof (cases oper)
    case (OpAllocate kq)
    then show ?thesis
      using reg port_entry_get_find [of reg kq]
      by (cases "port_entry_get reg kq") (auto simp: s ports_ok_def mach_port_allocate_def)
  next
    case (OpDeallocate p b)
    have "\<not> bad_name p" if "p \<in> live"
      using reg(3) that by (auto simp: bad_name_def kern_codes)
    then show ?thesis
      using reg OpDeallocate
      by (simp add: s ports_ok_def mach_port_deallocate_def port_store.ok_remove keys_remove)
  next
    case (OpSend p m b)
    then show ?thesis
      using reg by (simp add: s ports_ok_def registry_ok_send keys_send)
  next
    case (OpInsertRight p nm r)
    then show ?thesis using reg by (simp add: s ports_ok_def insert_right_ok)
  next
    case (OpReceive p len)
    then show ?thesis
      using reg receive_ok [of reg p len]
      by (auto simp: s ports_ok_def split: option.splits)
  qed
qed

interpretation port_machine: invariant_machine port_step ports_ok
  by unfold_locales (rule ports_ok_step)

text \<open>C16: A newly allocated port is empty.  After any calls of a client that names only ports it
  holds, interleaved in any order, a port allocated on a descriptor the system had free has no
  message and grants no right to anybody.\<close>

theorem allocated_port_is_fresh:
  assumes "foldl port_step ([], {}) ops = (reg, live)" "0 < kq" "kq \<notin> live"
    and "mach_port_allocate kq reg = (rc, port, reg')"
  shows "rc = KERN_SUCCESS \<and> port = Some kq \<and> queue_of reg' kq = [] \<and>
         (\<forall>nm r. r \<noteq> 0 \<longrightarrow> \<not> mach_port_has_right kq nm r reg')"
proof -
  have "ports_ok (foldl port_step ([], {}) ops)"
    by (rule port_machine.inv_run) (simp add: ports_ok_def registry_ok_def)
  then have ok: "registry_ok reg" "port_entry_find reg kq = None"
    using assms(1,3) by (auto simp: ports_ok_def keys_find)
  then show ?thesis
    using assms(2,4)
    by (auto simp: mach_port_allocate_def port_entry_get_def queue_of_def mach_port_has_right_def
        fresh_entry_def port_entry_find_def)
qed

theorem allocated_port_is_fresh_witness:
  "queue_of (snd (snd (mach_port_allocate 5 (fst (foldl port_step ([], {})
      [OpAllocate 5, OpSend 5 [1] True, OpDeallocate 5 True]))))) 5 = []"
proof -
  let ?s = "foldl port_step ([], {}) [OpAllocate 5, OpSend 5 [1] True, OpDeallocate 5 True]"
  have s: "?s = ([], {})"
    by (simp add: mach_port_allocate_def port_entry_get_def port_entry_find_def mach_msg_send_def
        port_entry_store_def mach_port_deallocate_def bad_name_def kern_codes)
  show ?thesis
    using allocated_port_is_fresh [OF s, of 5 KERN_SUCCESS "Some 5" "snd (snd (mach_port_allocate 5 []))"]
    unfolding s fst_conv by (simp add: mach_port_allocate_def)
qed

text \<open>C17: A client that sends to a descriptor it does not hold is told of a failure (the wakeup
  fails), but the message and the registry entry stay: whoever is allocated that descriptor next
  receives it.\<close>

theorem stale_message_inherited:
  assumes "\<not> bad_name port" "0 < port" "m \<noteq> []" "port_entry_find reg port = None" "0 < len"
    and "registry_ok reg"
  shows "fst (mach_msg_send False port (Some m) reg) = KERN_FAILURE \<and>
         (\<exists>reg' reg''. mach_port_allocate port (snd (mach_msg_send False port (Some m) reg)) =
             (KERN_SUCCESS, Some port, reg') \<and>
           mach_msg_receive port len [] reg' = Some (KERN_SUCCESS, Some (take len m), reg''))"
proof -
  let ?reg = "snd (mach_msg_send False port (Some m) reg)"
  have "queue_of ?reg port = [m]" "registry_ok ?reg"
    using assms by (simp_all add: queue_of_send registry_ok_send) (simp add: queue_of_def)
  moreover then have "fst (port_entry_get ?reg port) = ?reg"
    by (auto simp: port_entry_get_def queue_of_def split: option.splits)
  moreover have "fst (mach_msg_send False port (Some m) reg) = KERN_FAILURE"
    using assms by (simp add: mach_msg_send_def split: prod.splits)
  ultimately show ?thesis
    using receive_ready [of ?reg port len m "[]" "[]"] assms(1,2,5)
    by (auto simp: mach_port_allocate_def)
qed

theorem stale_message_inherited_witness:
  "\<exists>reg' reg''. mach_port_allocate 7 (snd (mach_msg_send False 7 (Some [1, 2]) [])) =
       (KERN_SUCCESS, Some 7, reg') \<and>
     mach_msg_receive 7 16 [] reg' = Some (KERN_SUCCESS, Some (take 16 [1, 2]), reg'')"
  using stale_message_inherited [of 7 "[1, 2]" "[]" 16]
  by (simp add: bad_name_def kern_codes port_entry_find_def registry_ok_def)



text \<open>Rights accumulate.  Granting one right to a name adds exactly that right, of that name on
  that port, to what \<^verbatim>\<open>mach_port_has_right\<close> reports.\<close>

lemma rights_accumulate:
  assumes "registry_ok reg" "\<not> bad_name port" "r \<in> set PORT_RIGHTS" "r' \<in> set PORT_RIGHTS"
  shows "fst (mach_port_insert_right port nm r reg) = KERN_SUCCESS \<and>
         mach_port_has_right p nm' r' (snd (mach_port_insert_right port nm r reg)) =
           (mach_port_has_right p nm' r' reg \<or> p = port \<and> nm' = nm \<and> r' = r)"
proof -
  obtain reg' e where g: "port_entry_get reg port = (reg', e)" by fastforce
  have zero: "r' \<noteq> 0" using assms(4) by (auto simp: PORT_RIGHTS_def)
  have grant: "(case map_of (grant_right nm r rs) nm' of None \<Rightarrow> False | Some w \<Rightarrow> w AND r' = r') =
      ((case map_of rs nm' of None \<Rightarrow> False | Some w \<Rightarrow> w AND r' = r') \<or> nm' = nm \<and> r' = r)" for rs
    using port_right_bits [OF assms(3,4)] port_right_bits [OF assms(3,4), of 0] zero
    by (auto simp: grant_right_def update_conv' split: option.splits)
  show ?thesis
    using port_entry_get_find [OF assms(1) g] assms(2,3) grant [of "rights e"] zero
    by (auto simp: mach_port_insert_right_def g mach_port_has_right_def port_store.lookup_insert
        fresh_entry_def split: option.splits)
qed

text \<open>If waiting on several ports succeeds, the index is that of the first port with a message
  at that moment, and receiving from it then succeeds at once with its oldest message.\<close>

lemma wait_any_receivable:
  assumes "mach_port_wait_any supervisor ok ports evs reg = Some (KERN_SUCCESS, r, reg')"
    and "registry_ok reg'" "0 < len"
  shows "\<exists>i m ms reg''. r = Some i \<and> i < length ports \<and>
           (\<forall>k < i. queue_of reg' (ports ! k) = []) \<and> queue_of reg' (ports ! i) = m # ms \<and>
           mach_msg_receive (ports ! i) len [] reg' = Some (KERN_SUCCESS, Some (take len m), reg'')"
proof -
  have good: "\<forall>p \<in> set ports. \<not> bad_name p" and w: "wait_loop ports evs reg = Some (KERN_SUCCESS, r, reg')"
    using assms(1) by (auto simp: mach_port_wait_any_def kern_codes split: if_splits)
  from wait_loop_ready [OF w] obtain i where i: "r = Some i" "scan_ports reg' ports 0 = Some i"
    by blast
  from scan_ports_Some [OF i(2)] have s: "i < length ports" "has_message reg' (ports ! i)"
    "\<forall>k < i. \<not> has_message reg' (ports ! k)" by auto
  have q: "has_message reg' p = (queue_of reg' p \<noteq> [])" for p
    by (simp add: has_message_def queue_of_def split: option.splits)
  obtain m ms where m: "queue_of reg' (ports ! i) = m # ms"
    using s(2) q by (meson neq_Nil_conv)
  have "\<not> bad_name (ports ! i)" using good s(1) by simp
  from receive_ready [OF assms(2) this assms(3) m, of "[]"] show ?thesis
    using i(1) s q m by blast
qed

lemma wait_any_receivable_demo:
  "mach_port_wait_any 9 True [4, 5] [] [(5, \<lparr>msgs = [[1]], rights = []\<rparr>)] =
     Some (KERN_SUCCESS, Some 1, [(5, \<lparr>msgs = [[1]], rights = []\<rparr>)]) \<and>
   (\<exists>m reg''. mach_msg_receive 5 8 [] [(5, \<lparr>msgs = [[1]], rights = []\<rparr>)] =
      Some (KERN_SUCCESS, Some (take 8 m), reg''))"
proof -
  let ?reg = "[(5, \<lparr>msgs = [[1]], rights = []\<rparr>)]"
  have w: "mach_port_wait_any 9 True [4, 5] [] ?reg = Some (KERN_SUCCESS, Some 1, ?reg)"
    by (simp add: mach_port_wait_any_def bad_name_def kern_codes wait_loop.simps has_message_def
        port_entry_find_def)
  from wait_any_receivable [OF w, of 8] show ?thesis
    using w by (auto simp: registry_ok_def)
qed

end
