(* ===== verification/Launch_Refine.thy ===== *)
theory Launch_Refine
  imports Launch_Props
begin

text \<open>
  The registry as a data type: the array of jobs of \<^verbatim>\<open>launch_job.c\<close> refines a map from labels to
  job definitions.  A definition is the part of a job that its file determines; what supervision
  changes (pid, state, exits, starts, descriptors) is not part of it.
\<close>

section \<open>The abstract specification\<close>

definition socket_spec :: "launch_socket \<Rightarrow> launch_socket" where
  "socket_spec s = s\<lparr>s_fd := -1\<rparr>"

definition job_spec :: "launch_job \<Rightarrow> launch_job" where
  "job_spec j = j\<lparr>j_sockets := map socket_spec (j_sockets j), j_pid := -1, j_state := Loaded,
     j_last_exit := 0, j_signaled := False, j_start_count := 0, j_restart_at_ms := 0\<rparr>"

record job_book =
  book :: "string \<rightharpoonup> launch_job"
  book_throttle :: i64

definition spec_map :: "launch_job list \<Rightarrow> string \<rightharpoonup> launch_job" where
  "spec_map js = map_of (map (\<lambda>j. (j_label j, job_spec j)) js)"

definition registry_book :: "launch_registry \<Rightarrow> job_book" where
  "registry_book reg =
     \<lparr>book = spec_map (jobs reg), book_throttle = default_throttle_ms reg\<rparr>"

text \<open>The calls of a client, a job being named by its label.\<close>

datatype registry_call =
    CallLoad string | CallUnload string | CallStart string | CallStop string int | CallTick
  | CallStartAll | CallStopAll int | CallThrottle i64

definition book_load :: "host \<Rightarrow> string \<Rightarrow> job_book \<Rightarrow> job_book" where
  "book_load h p b =
     (case plist_parse_file (h_strtod h) (h_file h) (Some p) PARSE_ERR of
        Some (Inr root) \<Rightarrow>
          (case job_build (h_d2i h) root (Some p) (book_throttle b) PARSE_ERR of
             Inl e \<Rightarrow> b
           | Inr j \<Rightarrow>
               if book b (j_label j) = None then b\<lparr>book := (book b)(j_label j \<mapsto> j)\<rparr> else b)
      | _ \<Rightarrow> b)"

definition book_step :: "host \<Rightarrow> job_book \<Rightarrow> registry_call \<Rightarrow> job_book" where
  "book_step h b c =
     (case c of
        CallLoad p \<Rightarrow> book_load h p b
      | CallUnload l \<Rightarrow> b\<lparr>book := (book b)(l := None)\<rparr>
      | CallThrottle t \<Rightarrow> if 0 \<le> sint t then b\<lparr>book_throttle := t\<rparr> else b
      | _ \<Rightarrow> b)"

section \<open>The calls on the registry\<close>

text \<open>A client finds the job before it starts or stops it; without one it does nothing.\<close>

definition with_job ::
  "launch_registry \<Rightarrow> string \<Rightarrow> (launch_job \<Rightarrow> 'w \<Rightarrow> (launch_job \<times> 'w) option) \<Rightarrow> 'w \<Rightarrow>
   (launch_registry \<times> 'w) option" where
  "with_job reg l f w =
     (case launch_registry_find reg (Some l) of
        None \<Rightarrow> Some (reg, w)
      | Some i \<Rightarrow>
          map_option (\<lambda>(j', w'). (reg\<lparr>jobs := (jobs reg)[i := j']\<rparr>, w')) (f (jobs reg ! i) w))"

definition registry_step ::
  "'w os \<Rightarrow> host \<Rightarrow> launch_registry \<times> 'w \<Rightarrow> registry_call \<Rightarrow> (launch_registry \<times> 'w) option" where
  "registry_step os h s c =
     (case s of (reg, w) \<Rightarrow>
        (case c of
           CallLoad p \<Rightarrow> Some (snd (launch_registry_load_plist os h reg (Some p) PARSE_ERR w))
         | CallUnload l \<Rightarrow>
             map_option (\<lambda>(rc, reg', w'). (reg', w')) (launch_registry_unload os reg (Some l) w)
         | CallStart l \<Rightarrow>
             with_job reg l (\<lambda>j w. case launch_job_start os j PARSE_ERR w of (r, j', w') \<Rightarrow> Some (j', w')) w
         | CallStop l t \<Rightarrow>
             with_job reg l (\<lambda>j w. map_option (\<lambda>(rc, j', w'). (j', w')) (launch_job_stop os j t w)) w
         | CallTick \<Rightarrow> (case launch_registry_tick os reg w of (n, reg', w') \<Rightarrow> Some (reg', w'))
         | CallStartAll \<Rightarrow> (case launch_registry_start_all os reg w of (n, reg', w') \<Rightarrow> Some (reg', w'))
         | CallStopAll t \<Rightarrow>
             map_option (\<lambda>(n, reg', w'). (reg', w')) (launch_registry_stop_all os reg t w)
         | CallThrottle t \<Rightarrow> Some (launch_registry_set_default_throttle reg t, w)))"

fun registry_calls ::
  "'w os \<Rightarrow> host \<Rightarrow> registry_call list \<Rightarrow> launch_registry \<times> 'w \<Rightarrow> (launch_registry \<times> 'w) option" where
  "registry_calls os h [] s = Some s"
| "registry_calls os h (c # cs) s = Option.bind (registry_step os h s c) (registry_calls os h cs)"

section \<open>Supervision keeps the definition of a job\<close>

lemma job_spec_upd [simp]:
  "job_spec (j\<lparr>j_pid := p\<rparr>) = job_spec j" "job_spec (j\<lparr>j_state := st\<rparr>) = job_spec j"
  "job_spec (j\<lparr>j_last_exit := e\<rparr>) = job_spec j" "job_spec (j\<lparr>j_signaled := b\<rparr>) = job_spec j"
  "job_spec (j\<lparr>j_start_count := n\<rparr>) = job_spec j" "job_spec (j\<lparr>j_restart_at_ms := t\<rparr>) = job_spec j"
  by (simp_all add: job_spec_def)

lemma job_spec_sockets:
  "map socket_spec ss = map socket_spec (j_sockets j) \<Longrightarrow> job_spec (j\<lparr>j_sockets := ss\<rparr>) = job_spec j"
  by (simp add: job_spec_def)

lemma job_spec_label: "job_spec j = job_spec k \<Longrightarrow> j_label j = j_label k"
  by (drule arg_cong [of _ _ j_label]) (simp add: job_spec_def)

lemma socket_create_spec: "socket_create os s n w = (r, s', w') \<Longrightarrow> socket_spec s' = socket_spec s"
  by (auto simp: socket_create_def socket_spec_def Let_def
      split: if_splits prod.splits sum.splits option.splits)

lemma sockets_create_spec:
  "sockets_create os ss n w = (r, ss', w') \<Longrightarrow> map socket_spec ss' = map socket_spec ss"
  by (induction os ss n w arbitrary: r ss' w' rule: sockets_create.induct)
    (auto split: prod.splits if_splits dest: socket_create_spec)

lemma start_spec: "launch_job_start os j n w = (r, j', w') \<Longrightarrow> job_spec j' = job_spec j"
  by (auto simp: launch_job_start_def Let_def job_spec_sockets
      split: if_splits prod.splits sum.splits dest!: sockets_create_spec)

lemma record_exit_spec [simp]: "job_spec (record_exit st j) = job_spec j"
  by (simp add: record_exit_def split: exit_status.split)

lemma same_but_exit_spec: "same_but_exit j j' \<Longrightarrow> job_spec j' = job_spec j"
  unfolding same_but_exit_def by (erule ssubst) simp

lemma stop_spec: "launch_job_stop os j t w = Some (rc, j', w') \<Longrightarrow> job_spec j' = job_spec j"
  by (auto simp: launch_job_stop_def split: if_splits prod.splits
      dest!: stop_loop_same same_but_exit_spec)

lemma after_exit_spec: "after_exit os j w = (j', w') \<Longrightarrow> job_spec j' = job_spec j"
  by (auto simp: after_exit_def split: if_splits prod.splits)

lemma reap_spec: "reap_job os j w = (j', n, w') \<Longrightarrow> job_spec j' = job_spec j"
  by (auto simp: reap_job_def split: if_splits prod.splits wait_result.splits dest: after_exit_spec)

lemma restart_spec: "restart_job os now j w = (j', n, w') \<Longrightarrow> job_spec j' = job_spec j"
  by (auto simp: restart_job_def split: if_splits prod.splits dest: start_spec)

lemma start_if_due_spec: "start_if_due os j w = (j', n, w') \<Longrightarrow> job_spec j' = job_spec j"
  by (auto simp: start_if_due_def split: if_splits prod.splits dest: start_spec)

lemma pass_spec:
  assumes "\<And>j w j' n w'. f j w = (j', n, w') \<Longrightarrow> job_spec j' = job_spec j"
  shows "pass f js w = (js', n, w') \<Longrightarrow> map job_spec js' = map job_spec js"
  by (induction js arbitrary: w js' n w') (auto split: prod.splits dest: assms)

lemma stop_jobs_spec: "stop_jobs os js t w = Some (js', n, w') \<Longrightarrow> map job_spec js' = map job_spec js"
  by (induction js arbitrary: w js' n w')
    (auto split: if_splits option.splits prod.splits dest: stop_spec)

section \<open>The map of an array of jobs\<close>

lemma spec_map_cong: "map job_spec js' = map job_spec js \<Longrightarrow> spec_map js' = spec_map js"
proof -
  assume a: "map job_spec js' = map job_spec js"
  have "map (\<lambda>j. (j_label j, job_spec j)) ks = map (\<lambda>s. (j_label s, s)) (map job_spec ks)" for ks
    by (simp add: job_spec_def)
  then show ?thesis by (simp only: spec_map_def a)
qed

lemma spec_map_None: "spec_map js l = None \<longleftrightarrow> l \<notin> j_label ` set js"
  by (force simp: spec_map_def map_of_eq_None_iff)

lemma spec_map_append:
  assumes "j_label j \<notin> j_label ` set js" "job_spec j = j"
  shows "spec_map (js @ [j]) = (spec_map js)(j_label j \<mapsto> j)"
  using spec_map_None [of js "j_label j"] assms by (auto simp: spec_map_def map_add_def fun_eq_iff split: option.splits)

lemma spec_map_filter: "spec_map (filter (\<lambda>j. j_label j \<noteq> l) js) = (spec_map js)(l := None)"
  by (induction js) (auto simp: spec_map_def fun_eq_iff)

lemma spec_map_find:
  assumes "distinct (map j_label (jobs reg))"
  shows "spec_map (jobs reg) l =
    map_option (\<lambda>i. job_spec (jobs reg ! i)) (launch_registry_find reg (Some l))"
proof (cases "launch_registry_find reg (Some l)")
  case None
  then have "spec_map (jobs reg) l = None"
    by (simp add: spec_map_None launch_registry_find_def find_index_None)
  then show ?thesis using None by simp
next
  case (Some i)
  then have i: "i < length (jobs reg)" "j_label (jobs reg ! i) = l" using registry_find_Some by auto
  have "map_of (map (\<lambda>j. (j_label j, job_spec j)) (jobs reg)) l = Some (job_spec (jobs reg ! i))"
    using assms i by (intro map_of_is_SomeI) (auto simp: comp_def intro!: image_eqI [of _ _ "jobs reg ! i"])
  then show ?thesis by (simp add: spec_map_def Some)
qed

lemma spec_map_update:
  "i < length js \<Longrightarrow> job_spec j' = job_spec (js ! i) \<Longrightarrow> spec_map (js[i := j']) = spec_map js"
  by (rule spec_map_cong) (metis list_update_id map_update)

section \<open>The simulation\<close>

lemma sockets_loop_spec:
  "sockets_loop n ss items = Inr ss' \<Longrightarrow> map socket_spec ss = ss \<Longrightarrow> map socket_spec ss' = ss'"
  by (induction n ss items arbitrary: ss' rule: sockets_loop.induct)
    (auto simp: socket_spec_def split: if_splits option.splits sum.splits)

lemma job_build_spec: "job_build d2i root path t n = Inr j \<Longrightarrow> job_spec j = j"
  by (auto simp: job_build_def job_set_sockets_def job_spec_def Let_def
      split: if_splits option.splits sum.splits plist.splits dest: sockets_loop_spec)

lemma load_book:
  "registry_book (fst (snd (launch_registry_load_plist os h reg (Some p) n w))) = book_load h p (registry_book reg)"
  by (auto simp: launch_registry_load_plist_def book_load_def registry_book_def registry_append_def
      launch_registry_find_def find_index_None spec_map_None spec_map_append job_build_spec job_from_plist_def
      split: option.splits sum.splits)

lemma find_in_range: "jobs_ok reg \<Longrightarrow> launch_registry_find reg (Some l) = Some i \<Longrightarrow> i < length (jobs reg)"
  using registry_find_Some by blast

lemma with_job_book:
  assumes "jobs_ok reg"
    and "\<And>j w. job_ok j \<Longrightarrow> \<exists>j' w'. f j w = Some (j', w') \<and> job_spec j' = job_spec j \<and> job_ok j'"
  shows "\<exists>reg' w'. with_job reg l f w = Some (reg', w') \<and> jobs_ok reg' \<and> registry_book reg' = registry_book reg"
proof (cases "launch_registry_find reg (Some l)")
  case (Some i)
  then have i: "i < length (jobs reg)" using registry_find_Some by blast
  then have "job_ok (jobs reg ! i)" using assms(1) by (simp add: jobs_ok_def)
  from assms(2) [OF this, of w] obtain j' w' where
    1: "f (jobs reg ! i) w = Some (j', w')" "job_spec j' = job_spec (jobs reg ! i)" "job_ok j'" by blast
  have "jobs_ok (reg\<lparr>jobs := (jobs reg)[i := j']\<rparr>)"
    using job_spec_label [OF 1(2)] 1(3) i assms(1) by (intro update_job_ok) auto
  then show ?thesis using Some 1 i by (auto simp: with_job_def registry_book_def spec_map_update)
qed (use assms(1) in \<open>auto simp: with_job_def\<close>)

lemma unload_book:
  assumes "clock_ok os time" "jobs_ok reg"
  shows "\<exists>rc reg' w'. launch_registry_unload os reg (Some l) w = Some (rc, reg', w') \<and> jobs_ok reg' \<and>
     registry_book reg' = registry_book reg\<lparr>book := (book (registry_book reg))(l := None)\<rparr>"
proof -
  obtain rc reg' w' where u: "launch_registry_unload os reg (Some l) w = Some (rc, reg', w')"
    using unload_returns [OF assms(1)] by blast
  have d: "distinct (map j_label (jobs reg))" using assms(2) by (simp add: jobs_ok_def)
  from unload_result [OF u] consider "reg' = reg" "l \<notin> j_label ` set (jobs reg)"
    | i where "i < length (jobs reg)" "j_label (jobs reg ! i) = l" "reg' = reg\<lparr>jobs := remove_at i (jobs reg)\<rparr>"
    by blast
  then have "registry_book reg' = registry_book reg\<lparr>book := (book (registry_book reg))(l := None)\<rparr>"
  proof cases
    case 1
    then have "spec_map (jobs reg) l = None" by (simp add: spec_map_None)
    then show ?thesis using 1 by (simp add: registry_book_def fun_upd_idem)
  next
    case 2
    then show ?thesis using remove_at_filter [OF d 2(1)] 2(2) by (simp add: registry_book_def spec_map_filter)
  qed
  then show ?thesis using u unload_ok [OF assms(2) u] by blast
qed

lemma tick_spec:
  assumes "launch_registry_tick os reg w = (n, reg', w')"
  shows "registry_book reg' = registry_book reg"
proof -
  obtain js1 c1 w1 where 1: "pass (reap_job os) (jobs reg) w = (js1, c1, w1)" by (metis prod.exhaust)
  obtain now w2 where 2: "os_mono_ms os w1 = (now, w2)" by fastforce
  obtain js2 c2 w3 where 3: "pass (restart_job os now) js1 w2 = (js2, c2, w3)" by (metis prod.exhaust)
  have "map job_spec js1 = map job_spec (jobs reg)" by (rule pass_spec [OF _ 1]) (rule reap_spec)
  moreover have "map job_spec js2 = map job_spec js1" by (rule pass_spec [OF _ 3]) (rule restart_spec)
  ultimately have "map job_spec js2 = map job_spec (jobs reg)" by simp
  then show ?thesis
    using assms by (auto simp: launch_registry_tick_def 1 2 3 registry_book_def dest: spec_map_cong)
qed

lemma registry_step_book:
  assumes "clock_ok os time" "fork_ok os" "jobs_ok reg"
  shows "\<exists>reg' w'. registry_step os h (reg, w) c = Some (reg', w') \<and> jobs_ok reg' \<and>
     registry_book reg' = book_step h (registry_book reg) c"
proof (cases c)
  case (CallLoad p)
  then show ?thesis
    using load_plist_ok [OF assms(3), of os h "Some p" PARSE_ERR w] load_book [of os h reg p PARSE_ERR w]
    by (auto simp: registry_step_def book_step_def intro!: exI [where P = "\<lambda>x. \<exists>y. _ = (x, y) \<and> _ x y"] prod.collapse [symmetric])
next
  case (CallUnload l)
  then show ?thesis using unload_book [OF assms(1,3), of l w] by (auto simp: registry_step_def book_step_def)
next
  case (CallStart l)
  have "\<exists>reg' w'. with_job reg l (\<lambda>j w. case launch_job_start os j PARSE_ERR w of (r, j', w') \<Rightarrow> Some (j', w')) w =
      Some (reg', w') \<and> jobs_ok reg' \<and> registry_book reg' = registry_book reg"
    by (rule with_job_book [OF assms(3)])
      (auto split: prod.splits dest: start_spec start_ok [OF assms(2)])
  then show ?thesis using CallStart by (simp add: registry_step_def book_step_def)
next
  case (CallStop l t)
  have "\<exists>reg' w'. with_job reg l (\<lambda>j w. map_option (\<lambda>(rc, j', w'). (j', w')) (launch_job_stop os j t w)) w =
      Some (reg', w') \<and> jobs_ok reg' \<and> registry_book reg' = registry_book reg"
  proof (rule with_job_book [OF assms(3)])
    fix j w
    assume j: "job_ok j"
    obtain j' w' where s: "launch_job_stop os j t w = Some (LAUNCH_OK, j', w')"
      using stop_returns [OF assms(1)] by blast
    show "\<exists>j' w'. map_option (\<lambda>(rc, j', w'). (j', w')) (launch_job_stop os j t w) = Some (j', w') \<and>
        job_spec j' = job_spec j \<and> job_ok j'"
      using s stop_spec [OF s] stop_result [OF s] j by simp
  qed
  then show ?thesis using CallStop by (simp add: registry_step_def book_step_def)
next
  case CallTick
  obtain n reg' w' where t: "launch_registry_tick os reg w = (n, reg', w')" by (metis prod.exhaust)
  show ?thesis
    using CallTick tick_spec [OF t] tick_ok [OF assms(2,3) t] by (simp add: registry_step_def book_step_def t)
next
  case CallStartAll
  obtain n js w' where p: "pass (start_if_due os) (jobs reg) w = (js, n, w')" by (metis prod.exhaust)
  then have s: "launch_registry_start_all os reg w = (n, reg\<lparr>jobs := js\<rparr>, w')"
    by (simp add: launch_registry_start_all_def)
  show ?thesis
    using CallStartAll start_all_ok [OF assms(2,3) s] spec_map_cong [OF pass_spec [of "start_if_due os", OF start_if_due_spec p]]
    by (simp add: registry_step_def book_step_def s registry_book_def)
next
  case (CallStopAll t)
  have "\<forall>j \<in> set (jobs reg). job_ok j" using assms(3) by (simp add: jobs_ok_def)
  from stop_jobs_returns [OF assms(1) this, of t w] obtain js n w' where
    p: "stop_jobs os (jobs reg) t w = Some (js, n, w')" by blast
  then have s: "launch_registry_stop_all os reg t w = Some (n, reg\<lparr>jobs := js\<rparr>, w')"
    by (simp add: launch_registry_stop_all_def)
  show ?thesis
    using CallStopAll stop_all_ok [OF assms(3) s] spec_map_cong [OF stop_jobs_spec [OF p]]
    by (simp add: registry_step_def book_step_def s registry_book_def)
next
  case (CallThrottle t)
  then show ?thesis
    using set_throttle_ok [OF assms(3), of t]
    by (auto simp: registry_step_def book_step_def registry_book_def launch_registry_set_default_throttle_def)
qed

lemma registry_calls_book:
  "clock_ok os time \<Longrightarrow> fork_ok os \<Longrightarrow> jobs_ok reg \<Longrightarrow>
   \<exists>reg' w'. registry_calls os h cs (reg, w) = Some (reg', w') \<and> jobs_ok reg' \<and>
     registry_book reg' = foldl (book_step h) (registry_book reg) cs"
proof (induction cs arbitrary: reg w)
  case (Cons c cs)
  from registry_step_book [OF Cons.prems, of h w c] obtain reg1 w1 where
    1: "registry_step os h (reg, w) c = Some (reg1, w1)" "jobs_ok reg1"
      "registry_book reg1 = book_step h (registry_book reg) c" by blast
  from Cons.IH [OF Cons.prems(1,2) 1(2), of w1] show ?case using 1 by simp
qed simp

end
