(* ===== verification/Activation_Claims.thy ===== *)
theory Activation_Claims
  imports Launch_Claims Launch_Refine
begin

text \<open>
  The environment a child gets and its side of socket activation, and the loops that drive the
  registry (\<^verbatim>\<open>launch_registry_run\<close>, \<^verbatim>\<open>launch_registry_wait_state\<close>, \<^verbatim>\<open>launch_registry_stop_all\<close>), of
  \<^verbatim>\<open>src/src/darwin-compat/launchd/launch_job.c\<close>.
\<close>

section \<open>The environment\<close>

lemma getenv_append:
  "getenv (es @ fs) nm = (case getenv es nm of Some v \<Rightarrow> Some v | None \<Rightarrow> getenv fs nm)"
  by (induction es) auto

text \<open>Names of variables: no NUL and no equals sign.\<close>

definition var_name :: "string \<Rightarrow> bool" where
  "var_name nm = (CHR ''='' \<notin> set nm)"

lemma takeWhile_name: "var_name n \<Longrightarrow> takeWhile (\<lambda>c. c \<noteq> CHR ''='') (n @ CHR ''='' # v) = n"
  by (induction n) (auto simp: var_name_def)

lemma take_name_value:
  assumes "var_name nm" "var_name n"
  shows "take (length nm + 1) (n @ ''='' @ v) = nm @ ''='' \<longleftrightarrow> n = nm"
proof
  assume t: "take (length nm + 1) (n @ ''='' @ v) = nm @ ''=''"
  have "n @ ''='' @ v = (nm @ ''='') @ drop (length nm + 1) (n @ ''='' @ v)"
    by (metis append_take_drop_id t)
  then have "n @ CHR ''='' # v = nm @ CHR ''='' # drop (length nm + 1) (n @ ''='' @ v)" by simp
  then show "n = nm" using takeWhile_name [OF assms(1)] takeWhile_name [OF assms(2)] by metis
qed simp

lemma getenv_assignments:
  assumes "var_name nm" "\<forall>s \<in> set ss. var_name (f s)"
  shows "getenv (map (\<lambda>s. f s @ ''='' @ g s) ss) nm = map_option g (find (\<lambda>s. f s = nm) ss)"
  using assms(2)
proof (induction ss)
  case (Cons s ss)
  then show ?case using take_name_value [OF assms(1), of "f s" "g s"] by auto
qed simp

lemma socket_create_ok:
  "socket_create os s n w = ((LAUNCH_OK, msg), s', w') \<Longrightarrow> 0 \<le> s_fd s' \<and> s_name s' = s_name s"
  by (auto simp: socket_create_def launch_codes Let_def split: if_splits prod.splits sum.splits option.splits)

lemma sockets_create_ok:
  "sockets_create os ss n w = ((LAUNCH_OK, msg), ss', w') \<Longrightarrow>
   (\<forall>s \<in> set ss'. 0 \<le> s_fd s) \<and> map s_name ss' = map s_name ss"
proof (induction ss arbitrary: w msg ss' w')
  case (Cons s ss)
  obtain rc m s1 w1 where 1: "socket_create os s n w = ((rc, m), s1, w1)" by (metis prod.exhaust)
  obtain r2 m2 ss2 w2 where 2: "sockets_create os ss n w1 = ((r2, m2), ss2, w2)" by (metis prod.exhaust)
  show ?case
    using Cons.IH [of w1 m2 ss2 w2] Cons.prems 1 2 socket_create_ok [of os s n w m s1 w1]
    by (auto split: if_splits)
qed simp

lemma start_sockets:
  assumes "launch_job_start os j n w = ((LAUNCH_OK, msg), j', w')"
  shows "(\<forall>s \<in> set (j_sockets j'). 0 \<le> s_fd s) \<and> map s_name (j_sockets j') = map s_name (j_sockets j) \<and>
         j_env j' = j_env j"
proof -
  obtain rc m ss w1 where 1: "sockets_create os (j_sockets j) n w = ((rc, m), ss, w1)"
    by (metis prod.exhaust)
  obtain f w2 where 2: "os_fork os w1 = (f, w2)" by fastforce
  have "rc = LAUNCH_OK" "j_sockets j' = ss" "j_env j' = j_env j"
    using assms 1 2 by (cases f; auto simp: launch_job_start_def launch_codes Let_def split: if_splits)+
  then show ?thesis using sockets_create_ok [of os "j_sockets j" n w m ss w1] 1 by simp
qed


definition demo_socket_job :: launch_job where
  "demo_socket_job = (demo_job Always Loaded (-1) 0)\<lparr>j_sockets := [\<lparr>s_name = ''http'', s_path = ''/run/h'', s_fd = -1\<rparr>]\<rparr>"


text \<open>Which definition of a variable a child sees: the inherited environment comes first, then the
  job's \<^verbatim>\<open>EnvironmentVariables\<close>, then the socket variables.  So a job file cannot override a variable
  that the supervisor itself was started with.\<close>

lemma environment_precedence:
  "getenv (build_child_env base j) nm =
     (case getenv base nm of
        Some v \<Rightarrow> Some v
      | None \<Rightarrow>
          (case getenv (j_env j) nm of
             Some v \<Rightarrow> Some v
           | None \<Rightarrow>
               getenv (map (\<lambda>s. SOCKET_ENV_PREFIX @ s_name s @ ''='' @ dec_int (s_fd s)) (j_sockets j)) nm))"
  by (simp add: build_child_env_def getenv_append split: option.splits)

section \<open>The loops that drive the registry\<close>

lemma run_loop_result:
  assumes "clock_ok os time" "fork_ok os"
  shows "jobs_ok reg \<Longrightarrow> \<exists>c reg' w'. run_loop os reg deadline n w = Some (c, reg', w') \<and>
     jobs_ok reg' \<and> map j_label (jobs reg') = map j_label (jobs reg) \<and> sint deadline \<le> time w'"
proof (induction "nat (sint deadline - time w)" arbitrary: reg n w rule: less_induct)
  case less
  obtain c reg1 w1 where t: "launch_registry_tick os reg w = (c, reg1, w1)" by (metis prod.exhaust)
  obtain now w2 where m: "os_mono_ms os w1 = (now, w2)" by fastforce
  have ok: "jobs_ok reg1" "map j_label (jobs reg1) = map j_label (jobs reg)"
    using tick_ok [OF assms(2) less.prems t] tick_labels [OF assms(2) _ t] less.prems
    by (auto simp: jobs_ok_def)
  have tm: "time w \<le> time w1" "sint now = reading (time w1)" "time w1 \<le> time w2"
    "time w2 + 1 \<le> time (os_usleep os 5000 w2)"
    using tick_time [OF assms(1) t] clock_okD [OF assms(1)] m by blast+
  show ?case
  proof (cases "sint deadline \<le> sint now")
    case True
    moreover have "sint now \<le> time w2" using tm(2,3) reading_le [of "time w1"] by simp
    ultimately show ?thesis using ok by (subst run_loop.simps) (simp add: t m)
  next
    case False
    then have "time w1 < sint deadline" using tm(2) below_deadline by simp
    then have "nat (sint deadline - time (os_usleep os 5000 w2)) < nat (sint deadline - time w)"
      using tm by linarith
    from less.hyps [OF this ok(1), of "n + c"] show ?thesis
      using False ok by (subst run_loop.simps) (simp add: t m)
  qed
qed

text \<open>Running the registry for a while ends, lasts at least that long, and leaves a well-formed
  registry with the same jobs.\<close>

lemma registry_run_ends:
  assumes "clock_ok os time" "fork_ok os" "jobs_ok reg"
    and "0 \<le> time w" "0 \<le> duration" "time w + duration < 2 ^ 63"
  shows "\<exists>c reg' w'. launch_registry_run os reg duration w = Some (c, reg', w') \<and>
     time w + duration \<le> time w' \<and> jobs_ok reg' \<and> map j_label (jobs reg') = map j_label (jobs reg)"
proof -
  obtain now w1 where m: "os_mono_ms os w = (now, w1)" by fastforce
  have "sint now = time w" using clock_okD(1) [OF assms(1) m] assms(4-6) by (simp add: reading_id)
  moreover have "sint (word_of_int duration :: i64) = duration"
    using assms(4-6) by (simp add: int_word_sint)
  ultimately have "sint (now + word_of_int (max 0 duration)) = time w + duration"
    using assms(4-6) sint_plus_fits [of now "word_of_int duration"] by simp
  then show ?thesis
    using run_loop_result [OF assms(1-3), of "now + word_of_int (max 0 duration)" 0 w1]
    by (auto simp: launch_registry_run_def m)
qed

lemma wait_state_result:
  assumes "clock_ok os time" "fork_ok os"
  shows "jobs_ok reg \<Longrightarrow> i < length (jobs reg) \<Longrightarrow>
     \<exists>rc reg' w'. wait_state_loop os reg i st deadline w = Some (rc, reg', w') \<and> jobs_ok reg' \<and>
       length (jobs reg') = length (jobs reg) \<and>
       (if j_state (jobs reg' ! i) = st then rc = LAUNCH_OK
        else rc = LAUNCH_ETIMEOUT \<and> sint deadline \<le> time w')"
proof (induction "nat (sint deadline - time w)" arbitrary: reg w rule: less_induct)
  case less
  obtain c reg1 w1 where t: "launch_registry_tick os reg w = (c, reg1, w1)" by (metis prod.exhaust)
  obtain now w2 where m: "os_mono_ms os w1 = (now, w2)" by fastforce
  have ok: "jobs_ok reg1" "length (jobs reg1) = length (jobs reg)"
    using tick_ok [OF assms(2) less.prems(1) t] tick_nth [OF t less.prems(2)] by auto
  have tm: "time w \<le> time w1" "sint now = reading (time w1)" "time w1 \<le> time w2"
    "time w2 + 1 \<le> time (os_usleep os 5000 w2)"
    using tick_time [OF assms(1) t] clock_okD [OF assms(1)] m by blast+
  consider (there) "j_state (jobs reg1 ! i) = st" | (late) "j_state (jobs reg1 ! i) \<noteq> st" "sint deadline \<le> sint now"
    | (again) "j_state (jobs reg1 ! i) \<noteq> st" "\<not> sint deadline \<le> sint now" by blast
  then show ?case
  proof cases
    case there
    then show ?thesis using ok by (subst wait_state_loop.simps) (simp add: t)
  next
    case late
    moreover have "sint now \<le> time w2" using tm(2,3) reading_le [of "time w1"] by simp
    ultimately show ?thesis using ok by (subst wait_state_loop.simps) (simp add: t m)
  next
    case again
    then have "time w1 < sint deadline" using tm(2) below_deadline by simp
    then have "nat (sint deadline - time (os_usleep os 5000 w2)) < nat (sint deadline - time w)"
      using tm by linarith
    from less.hyps [OF this ok(1)] less.prems(2) show ?thesis
      using again ok by (subst wait_state_loop.simps) (simp add: t m)
  qed
qed

text \<open>Waiting for a state ends.  It answers success exactly if the job is then in the state, and a
  time-out only once the time is up.\<close>

lemma wait_state_ends:
  assumes "clock_ok os time" "fork_ok os" "jobs_ok reg" "i < length (jobs reg)"
    and "0 \<le> time w" "0 \<le> timeout" "time w + timeout < 2 ^ 63"
  shows "\<exists>rc reg' w'. launch_registry_wait_state os reg i st timeout w = Some (rc, reg', w') \<and> jobs_ok reg' \<and>
     (if j_state (jobs reg' ! i) = st then rc = LAUNCH_OK
      else rc = LAUNCH_ETIMEOUT \<and> time w + timeout \<le> time w')"
proof -
  obtain now w1 where m: "os_mono_ms os w = (now, w1)" by fastforce
  have "sint now = time w" using clock_okD(1) [OF assms(1) m] assms(5-7) by (simp add: reading_id)
  moreover have "sint (word_of_int timeout :: i64) = timeout" using assms(5-7) by (simp add: int_word_sint)
  ultimately have d: "sint (now + word_of_int (max 0 timeout)) = time w + timeout"
    using assms(5-7) sint_plus_fits [of now "word_of_int timeout"] by simp
  have "launch_registry_wait_state os reg i st timeout w =
      wait_state_loop os reg i st (now + word_of_int (max 0 timeout)) w1"
    using assms(4) by (simp add: launch_registry_wait_state_def m)
  then show ?thesis
    using wait_state_result [OF assms(1-4), of st "now + word_of_int (max 0 timeout)" w1]
    unfolding d by metis
qed

text \<open>Stopping all jobs ends; it counts the jobs that were running, each of which is then stopped and
  has no pid, and it changes no other.\<close>

lemma stop_all_ends:
  assumes "clock_ok os time" "jobs_ok reg"
  shows "\<exists>reg' w'. launch_registry_stop_all os reg timeout w =
       Some (length (filter (\<lambda>j. j_state j = Running) (jobs reg)), reg', w') \<and>
     list_all2 (\<lambda>j j'. if j_state j = Running then j_state j' = Stopped \<and> j_pid j' = -1 \<and>
        j_label j' = j_label j else j' = j) (jobs reg) (jobs reg')"
proof -
  have "\<forall>j \<in> set (jobs reg). job_ok j" using assms(2) by (simp add: jobs_ok_def)
  from stop_jobs_returns [OF assms(1) this, of timeout w] show ?thesis
    by (auto simp: launch_registry_stop_all_def split del: if_split)
qed

section \<open>The registry as a map\<close>

text \<open>C32: The registry implements a map from labels to job definitions.  Any calls of a client, in any
  order, all return, and what they leave is what the specification gives: loading binds a free label
  to the definition in the file, unloading frees the label, and whatever the supervision does -- starts,
  stops, exits, restarts -- changes no definition.\<close>

theorem registry_refines_map:
  assumes "clock_ok os time" "fork_ok os" "jobs_ok reg"
  shows "\<exists>reg' w'. registry_calls os h calls (reg, w) = Some (reg', w') \<and>
     registry_book reg' = foldl (book_step h) (registry_book reg) calls \<and>
     (\<forall>l. map_option (\<lambda>i. job_spec (jobs reg' ! i)) (launch_registry_find reg' (Some l)) =
          book (foldl (book_step h) (registry_book reg) calls) l)"
proof -
  from registry_calls_book [OF assms, of h calls w] obtain reg' w' where
    r: "registry_calls os h calls (reg, w) = Some (reg', w')" "jobs_ok reg'"
      "registry_book reg' = foldl (book_step h) (registry_book reg) calls" by blast
  have "book (registry_book reg') l =
      map_option (\<lambda>i. job_spec (jobs reg' ! i)) (launch_registry_find reg' (Some l))" for l
    using r(2) spec_map_find [of reg' l] by (simp add: registry_book_def jobs_ok_def)
  then show ?thesis using r(1,3) by metis
qed

theorem registry_refines_map_witness:
  "\<exists>reg' w'. registry_calls (demo_os (Reaped (ExitCode 3))) demo_host
       [CallTick, CallThrottle 500, CallStop ''job'' 100, CallStart ''job'', CallUnload ''job'']
       (demo_registry (demo_job Always Running 7 0), 50) = Some (reg', w') \<and>
     launch_registry_find reg' (Some ''job'') = None"
proof -
  let ?reg = "demo_registry (demo_job Always Running 7 0)"
  have "jobs_ok ?reg" by (rule demo_registry_ok) (simp add: job_ok_def)
  from registry_refines_map [OF demo_os_clock demo_os_fork this, of "Reaped (ExitCode 3)" demo_host
      "[CallTick, CallThrottle 500, CallStop ''job'' 100, CallStart ''job'', CallUnload ''job'']" 50]
  obtain reg' w' where r: "registry_calls (demo_os (Reaped (ExitCode 3))) demo_host
      [CallTick, CallThrottle 500, CallStop ''job'' 100, CallStart ''job'', CallUnload ''job''] (?reg, 50) =
      Some (reg', w')"
    "\<forall>l. map_option (\<lambda>i. job_spec (jobs reg' ! i)) (launch_registry_find reg' (Some l)) =
      book (foldl (book_step demo_host) (registry_book ?reg)
        [CallTick, CallThrottle 500, CallStop ''job'' 100, CallStart ''job'', CallUnload ''job'']) l" by blast
  have "launch_registry_find reg' (Some ''job'') = None"
    using spec [OF r(2), of "''job''"] by (simp add: book_step_def)
  then show ?thesis using r(1) by blast
qed

end
