(* ===== verification/Launchctl_Server.thy ===== *)
theory Launchctl_Server
  imports Launch_Registry Xpc_Connection
begin

text \<open>
  The control endpoint, \<^verbatim>\<open>src/src/darwin-compat/launchd/launchctl_server.c\<close> and
  \<^verbatim>\<open>launchctl_proto.h\<close>: the verbs, their handlers, and one request over a connection.

  A handler returns the reply it sends, the registry and the world; that it sends exactly one is
  its type.  The result is \<open>None\<close> if stopping a child does not end.
\<close>

section \<open>The protocol\<close>

definition LCTL_SERVICE_NAME :: string where "LCTL_SERVICE_NAME = ''com.catbsd.launchd''"
definition LCTL_KEY_VERB :: string where "LCTL_KEY_VERB = ''verb''"
definition LCTL_KEY_LABEL :: string where "LCTL_KEY_LABEL = ''label''"
definition LCTL_KEY_PATH :: string where "LCTL_KEY_PATH = ''path''"
definition LCTL_KEY_CODE :: string where "LCTL_KEY_CODE = ''code''"
definition LCTL_KEY_ERROR :: string where "LCTL_KEY_ERROR = ''error''"
definition LCTL_KEY_JOBS :: string where "LCTL_KEY_JOBS = ''jobs''"
definition LCTL_KEY_STATE :: string where "LCTL_KEY_STATE = ''state''"
definition LCTL_KEY_PID :: string where "LCTL_KEY_PID = ''pid''"
definition LCTL_KEY_STARTS :: string where "LCTL_KEY_STARTS = ''starts''"
definition LCTL_KEY_EXIT :: string where "LCTL_KEY_EXIT = ''exit''"

lemmas lctl_keys = LCTL_KEY_VERB_def LCTL_KEY_LABEL_def LCTL_KEY_PATH_def LCTL_KEY_CODE_def
  LCTL_KEY_ERROR_def LCTL_KEY_JOBS_def LCTL_KEY_STATE_def LCTL_KEY_PID_def LCTL_KEY_STARTS_def
  LCTL_KEY_EXIT_def

definition LCTL_VERB_LOAD :: string where "LCTL_VERB_LOAD = ''load''"
definition LCTL_VERB_UNLOAD :: string where "LCTL_VERB_UNLOAD = ''unload''"
definition LCTL_VERB_START :: string where "LCTL_VERB_START = ''start''"
definition LCTL_VERB_STOP :: string where "LCTL_VERB_STOP = ''stop''"
definition LCTL_VERB_LIST :: string where "LCTL_VERB_LIST = ''list''"
definition LCTL_VERB_STATUS :: string where "LCTL_VERB_STATUS = ''status''"

lemmas lctl_verbs = LCTL_VERB_LOAD_def LCTL_VERB_UNLOAD_def LCTL_VERB_START_def
  LCTL_VERB_STOP_def LCTL_VERB_LIST_def LCTL_VERB_STATUS_def

definition LCTL_OK :: i64 where "LCTL_OK = 0"
definition LCTL_E_NOTFOUND :: i64 where "LCTL_E_NOTFOUND = -1"
definition LCTL_E_ALREADY :: i64 where "LCTL_E_ALREADY = -2"
definition LCTL_E_BADVERB :: i64 where "LCTL_E_BADVERB = -3"
definition LCTL_E_BADARG :: i64 where "LCTL_E_BADARG = -4"
definition LCTL_E_INTERNAL :: i64 where "LCTL_E_INTERNAL = -5"
definition LCTL_E_PLIST :: i64 where "LCTL_E_PLIST = -6"

lemmas lctl_codes = LCTL_OK_def LCTL_E_NOTFOUND_def LCTL_E_ALREADY_def LCTL_E_BADVERB_def
  LCTL_E_BADARG_def LCTL_E_INTERNAL_def LCTL_E_PLIST_def

definition lctl_state_string :: "int \<Rightarrow> string" where
  "lctl_state_string n =
     (if n = 0 then ''loaded'' else if n = 1 then ''running'' else if n = 2 then ''exited''
      else if n = 3 then ''waiting'' else if n = 4 then ''stopped'' else if n = 5 then ''failed''
      else ''unknown'')"

definition quoted :: "string \<Rightarrow> string" where
  "quoted s = [CHR 0x27] @ s @ [CHR 0x27]"

section \<open>Replies\<close>

text \<open>The setters are called for their effect; their codes are ignored.\<close>

definition put_int64 :: "string \<Rightarrow> i64 \<Rightarrow> xpc_object option \<Rightarrow> xpc_object option" where
  "put_int64 k v d = snd (catbsd_xpc_dictionary_set_int64 d (Some k) v)"

definition put_uint64 :: "string \<Rightarrow> u64 \<Rightarrow> xpc_object option \<Rightarrow> xpc_object option" where
  "put_uint64 k v d = snd (catbsd_xpc_dictionary_set_uint64 d (Some k) v)"

definition put_string :: "string \<Rightarrow> string \<Rightarrow> xpc_object option \<Rightarrow> xpc_object option" where
  "put_string k v d = snd (catbsd_xpc_dictionary_set_string d (Some k) (Some v))"

definition reply_err :: "i64 \<Rightarrow> string \<Rightarrow> xpc_object option" where
  "reply_err code errmsg =
     put_string LCTL_KEY_ERROR errmsg
       (put_int64 LCTL_KEY_CODE code (Some catbsd_xpc_dictionary_create))"

definition reply_ok :: "xpc_object option" where
  "reply_ok = reply_err LCTL_OK []"

section \<open>Handlers\<close>

text \<open>The text of \<^verbatim>\<open>handle_list\<close>: a buffer and an offset that counts what would have been written.
  A write at an offset beyond the buffer would be out of bounds: \<open>None\<close>.\<close>

definition LIST_BUF :: nat where "LIST_BUF = 16384"

definition list_write :: "string \<Rightarrow> string \<times> nat \<Rightarrow> (string \<times> nat) option" where
  "list_write text acc =
     (case acc of (buf, off) \<Rightarrow>
        if LIST_BUF \<le> off then None
        else Some (take off buf @ snprintf_s (LIST_BUF - off) text, off + length text))"

definition pad :: "nat \<Rightarrow> string \<Rightarrow> string" where
  "pad n s = s @ replicate (n - length s) CHR '' ''"

definition list_line :: "string \<Rightarrow> string \<Rightarrow> string \<Rightarrow> string" where
  "list_line a b c = pad 40 a @ ''  '' @ pad 8 b @ ''  '' @ c @ [CHR 0x0A]"

definition job_line :: "launch_job \<Rightarrow> string" where
  "job_line j =
     list_line (j_label j) (if 0 < j_pid j then dec_int (j_pid j) else ''-'')
       (lctl_state_string (state_number (j_state j)))"

fun list_loop :: "launch_job list \<Rightarrow> string \<times> nat \<Rightarrow> (string \<times> nat) option" where
  "list_loop [] acc = Some acc"
| "list_loop (j # js) acc =
     (if snd acc < LIST_BUF - 1
      then (case list_write (job_line j) acc of None \<Rightarrow> None | Some acc' \<Rightarrow> list_loop js acc')
      else Some acc)"

definition list_text :: "launch_job list \<Rightarrow> string option" where
  "list_text js =
     (case list_write (list_line ''LABEL'' ''PID'' ''STATE'') ([], 0) of
        None \<Rightarrow> None
      | Some acc \<Rightarrow>
          (case list_loop js acc of
             None \<Rightarrow> None
           | Some acc' \<Rightarrow>
               map_option fst
                 (if js = [] then list_write (''(no jobs loaded)'' @ [CHR 0x0A]) acc'
                  else Some acc')))"

definition handle_list :: "launch_registry \<Rightarrow> xpc_object option" where
  "handle_list reg =
     (case list_text (jobs reg) of
        None \<Rightarrow> None
      | Some buf \<Rightarrow>
          put_string LCTL_KEY_JOBS buf
            (put_string LCTL_KEY_ERROR []
               (put_int64 LCTL_KEY_CODE LCTL_OK (Some catbsd_xpc_dictionary_create))))"

text \<open>The label of a request, and the job it names: a reply, or the label and the index.\<close>

definition request_label :: "xpc_object \<Rightarrow> launch_registry \<Rightarrow> xpc_object option + string \<times> nat" where
  "request_label req reg =
     (case catbsd_xpc_dictionary_get_string (Some req) (Some LCTL_KEY_LABEL) of
        None \<Rightarrow> Inl (reply_err LCTL_E_BADARG (''missing '' @ quoted ''label''))
      | Some label \<Rightarrow>
          if label = [] then Inl (reply_err LCTL_E_BADARG (''missing '' @ quoted ''label''))
          else
            (case launch_registry_find reg (Some label) of
               None \<Rightarrow> Inl (reply_err LCTL_E_NOTFOUND ''no such job'')
             | Some i \<Rightarrow> Inr (label, i)))"

definition handle_status :: "xpc_object \<Rightarrow> launch_registry \<Rightarrow> xpc_object option" where
  "handle_status req reg =
     (case request_label req reg of
        Inl rep \<Rightarrow> rep
      | Inr (label, i) \<Rightarrow>
          (let j = jobs reg ! i in
           put_int64 LCTL_KEY_EXIT (word_of_int (j_last_exit j))
             (put_uint64 LCTL_KEY_STARTS (j_start_count j)
               (put_int64 LCTL_KEY_PID (word_of_int (if 0 < j_pid j then j_pid j else -1))
                 (put_string LCTL_KEY_STATE (lctl_state_string (state_number (j_state j)))
                   (put_string LCTL_KEY_LABEL label
                     (put_string LCTL_KEY_ERROR []
                       (put_int64 LCTL_KEY_CODE LCTL_OK
                         (Some catbsd_xpc_dictionary_create)))))))))"

definition handle_load ::
  "'w os \<Rightarrow> host \<Rightarrow> xpc_object \<Rightarrow> launch_registry \<Rightarrow> 'w \<Rightarrow> xpc_object option \<times> launch_registry \<times> 'w" where
  "handle_load os h req reg w =
     (case catbsd_xpc_dictionary_get_string (Some req) (Some LCTL_KEY_PATH) of
        None \<Rightarrow> (reply_err LCTL_E_BADARG (''missing '' @ quoted ''path''), reg, w)
      | Some p \<Rightarrow>
          if p = [] then (reply_err LCTL_E_BADARG (''missing '' @ quoted ''path''), reg, w)
          else
            (case launch_registry_load_plist os h reg (Some p) 512 w of
               ((rc, errbuf), reg', w') \<Rightarrow>
                 (if rc \<noteq> 0 then reply_err LCTL_E_PLIST errbuf else reply_ok, reg', w')))"

definition handle_unload ::
  "'w os \<Rightarrow> xpc_object \<Rightarrow> launch_registry \<Rightarrow> 'w \<Rightarrow>
   (xpc_object option \<times> launch_registry \<times> 'w) option" where
  "handle_unload os req reg w =
     (case request_label req reg of
        Inl rep \<Rightarrow> Some (rep, reg, w)
      | Inr (label, i) \<Rightarrow>
          map_option
            (\<lambda>(rc, reg', w1).
               (if rc \<noteq> 0 then reply_err LCTL_E_INTERNAL ''unload failed'' else reply_ok, reg', w1))
            (launch_registry_unload os reg (Some label) w))"

definition handle_start ::
  "'w os \<Rightarrow> xpc_object \<Rightarrow> launch_registry \<Rightarrow> 'w \<Rightarrow> xpc_object option \<times> launch_registry \<times> 'w" where
  "handle_start os req reg w =
     (case request_label req reg of
        Inl rep \<Rightarrow> (rep, reg, w)
      | Inr (label, i) \<Rightarrow>
          (let j = jobs reg ! i in
           if state_number (j_state j) = 1
           then (reply_err LCTL_E_ALREADY ''job is already running'', reg, w)
           else
             (case launch_job_start os j 512 w of
                ((rc, errbuf), j', w1) \<Rightarrow>
                  (if rc \<noteq> 0 then reply_err LCTL_E_INTERNAL errbuf else reply_ok,
                   reg\<lparr>jobs := (jobs reg)[i := j']\<rparr>, w1))))"

definition handle_stop ::
  "'w os \<Rightarrow> xpc_object \<Rightarrow> launch_registry \<Rightarrow> 'w \<Rightarrow>
   (xpc_object option \<times> launch_registry \<times> 'w) option" where
  "handle_stop os req reg w =
     (case request_label req reg of
        Inl rep \<Rightarrow> Some (rep, reg, w)
      | Inr (label, i) \<Rightarrow>
          (let j = jobs reg ! i in
           if state_number (j_state j) = 4
           then Some (reply_err LCTL_E_ALREADY ''job is already stopped'', reg, w)
           else
             map_option
               (\<lambda>(rc, j', w1).
                  (if rc \<noteq> 0 then reply_err LCTL_E_INTERNAL ''stop failed'' else reply_ok,
                   reg\<lparr>jobs := (jobs reg)[i := j']\<rparr>, w1))
               (launch_job_stop os j 5000 w)))"

text \<open>The dispatch table, with the two answers to a bad verb.\<close>

definition dispatch ::
  "'w os \<Rightarrow> host \<Rightarrow> xpc_object \<Rightarrow> launch_registry \<Rightarrow> 'w \<Rightarrow>
   (xpc_object option \<times> launch_registry \<times> 'w) option" where
  "dispatch os h req reg w =
     (case catbsd_xpc_dictionary_get_string (Some req) (Some LCTL_KEY_VERB) of
        None \<Rightarrow> Some (reply_err LCTL_E_BADVERB (''missing '' @ quoted ''verb''), reg, w)
      | Some verb \<Rightarrow>
          if verb = [] then Some (reply_err LCTL_E_BADVERB (''missing '' @ quoted ''verb''), reg, w)
          else if verb = LCTL_VERB_LIST then Some (handle_list reg, reg, w)
          else if verb = LCTL_VERB_STATUS then Some (handle_status req reg, reg, w)
          else if verb = LCTL_VERB_LOAD then
            Some (handle_load os h req reg w)
          else if verb = LCTL_VERB_UNLOAD then handle_unload os req reg w
          else if verb = LCTL_VERB_START then Some (handle_start os req reg w)
          else if verb = LCTL_VERB_STOP then handle_stop os req reg w
          else
            Some (reply_err LCTL_E_BADVERB
                    (snprintf_s 128 (''unknown verb '' @ quoted verb)), reg, w))"

section \<open>One request\<close>

text \<open>The registry and world after it, the bytes of the reply, and the calls that end the connection.
  A request that does not arrive is not answered.\<close>

definition handle_request ::
  "'w os \<Rightarrow> host \<Rightarrow> launch_registry \<Rightarrow> xpc_connection \<Rightarrow> rx_event list \<Rightarrow> tx_event list \<Rightarrow> 'w \<Rightarrow>
   (launch_registry \<times> 'w \<times> byte list \<times> os_act list) option" where
  "handle_request os h reg peer rxs txs w =
     (case catbsd_xpc_connection_receive_message peer rxs of
        None \<Rightarrow> None
      | Some (rc, peer1, msg, rxs') \<Rightarrow>
          (case msg of
             None \<Rightarrow> Some (reg, w, [], snd (catbsd_xpc_connection_cancel (Some peer1)))
           | Some req \<Rightarrow>
               if rc \<noteq> CATBSD_XPC_SUCCESS
               then Some (reg, w, [], snd (catbsd_xpc_connection_cancel (Some peer1)))
               else
                 (case dispatch os h req reg w of
                    None \<Rightarrow> None
                  | Some (rep, reg', w') \<Rightarrow>
                      (case rep of
                         None \<Rightarrow> None
                       | Some reply \<Rightarrow>
                           map_option
                             (\<lambda>(rc2, peer2, reply', sent, txs').
                                (reg', w', sent, snd (catbsd_xpc_connection_cancel (Some peer2))))
                             (catbsd_xpc_connection_reply peer1 req reply txs)))))"

record lctl_server =
  srv_listener :: xpc_connection
  srv_socket_path :: string

definition lctl_server_create ::
  "path_env \<Rightarrow> socket_os \<Rightarrow> string \<Rightarrow> nat \<Rightarrow> (string + lctl_server) \<times> os_act list" where
  "lctl_server_create env sos service_name errlen =
     (case catbsd_xpc_connection_create_listener env sos (Some service_name) of
        (None, err, acts) \<Rightarrow>
          (Inl (snprintf_s errlen
                  (''cannot bind '' @ quoted service_name @ '': '' @ catbsd_xpc_strerror err)), acts)
      | (Some l, err, acts) \<Rightarrow>
          (Inr \<lparr>srv_listener = l,
                srv_socket_path =
                  snprintf_s 256 (case catbsd_xpc_connection_get_name (Some l) of
                                    None \<Rightarrow> ''(null)'' | Some nm \<Rightarrow> nm)\<rparr>, acts))"

text \<open>1 after a request, 0 if none came in time, -1 if the listener failed.\<close>

definition lctl_server_poll ::
  "'w os \<Rightarrow> host \<Rightarrow> lctl_server \<Rightarrow> launch_registry \<Rightarrow> int \<Rightarrow> (nat \<Rightarrow> timespec) \<Rightarrow> accept_event list \<Rightarrow>
   rx_event list \<Rightarrow> tx_event list \<Rightarrow> 'w \<Rightarrow> (int \<times> launch_registry \<times> 'w \<times> byte list) option" where
  "lctl_server_poll os h srv reg timeout_ms clk accepts rxs txs w =
     (case catbsd_xpc_connection_accept (Some (srv_listener srv)) timeout_ms clk accepts of
        None \<Rightarrow> None
      | Some (None, err) \<Rightarrow>
          Some (if err = CATBSD_XPC_ETIMEOUT then 0 else -1, reg, w, [])
      | Some (Some peer, err) \<Rightarrow>
          map_option (\<lambda>(reg', w', sent, acts). (1, reg', w', sent))
            (handle_request os h reg peer rxs txs w))"

definition lctl_server_destroy :: "lctl_server option \<Rightarrow> os_act list" where
  "lctl_server_destroy srv =
     (case srv of
        None \<Rightarrow> []
      | Some s \<Rightarrow>
          (case catbsd_xpc_connection_cancel (Some (srv_listener s)) of
             (l, acts) \<Rightarrow> acts @ fst (catbsd_xpc_connection_release l)))"

definition lctl_server_socket_path :: "lctl_server option \<Rightarrow> string option" where
  "lctl_server_socket_path srv = map_option srv_socket_path srv"

end
