(* ===== verification/Catbsd_Init.thy ===== *)
theory Catbsd_Init
  imports Launchctl_Server
begin

text \<open>
  The supervisor process, \<^verbatim>\<open>src/src/catbsd-init/catbsd-init.c\<close>: its configuration, boot, event
  loop and shutdown.  Logging and the banner have no effect on the state and are left out.
\<close>

section \<open>Configuration\<close>

text \<open>A fixed-size character array.  It is filled by \<^verbatim>\<open>strncpy\<close> with its size minus one in a structure
  that was not cleared, so a string that fills it has no terminator: \<open>None\<close>.\<close>

type_synonym char_buffer = "string option"

definition strncpy_into :: "nat \<Rightarrow> string \<Rightarrow> char_buffer" where
  "strncpy_into cap s = (if length s < cap - 1 then Some s else None)"

record init_config =
  daemon_dir :: char_buffer
  control_socket :: char_buffer
  single_user_shell :: char_buffer
  single_user :: bool
  shutdown_timeout_ms :: int
  log_level :: int

definition config_defaults :: init_config where
  "config_defaults =
     \<lparr>daemon_dir = strncpy_into 512 ''/etc/catbsd/daemons'', control_socket = Some [],
      single_user_shell = strncpy_into 256 ''/bin/sh'', single_user = False,
      shutdown_timeout_ms = 5000, log_level = 1\<rparr>"

text \<open>\<^verbatim>\<open>(int)i\<close>, and \<^verbatim>\<open>atoi\<close>.\<close>

definition to_int :: "i64 \<Rightarrow> int" where
  "to_int i = sint (ucast i :: u32)"

definition atoi :: "string \<Rightarrow> int" where
  "atoi s = to_int (strtoll10 s)"

text \<open>An update of a buffer if there is a string.\<close>

definition merge_string :: "nat \<Rightarrow> string option \<Rightarrow> char_buffer \<Rightarrow> char_buffer" where
  "merge_string cap s buf = (case s of None \<Rightarrow> buf | Some t \<Rightarrow> strncpy_into cap t)"

definition config_load_file :: "host \<Rightarrow> init_config \<Rightarrow> string \<Rightarrow> init_config" where
  "config_load_file h cfg file =
     (case plist_parse_file (h_strtod h) (h_file h) (Some file) 256 of
        Some (Inr root) \<Rightarrow>
          (let get = (\<lambda>key. plist_dict_get_string (Some root) key None);
               int_of = (\<lambda>key old.
                 to_int (plist_dict_get_integer (h_d2i h) (Some root) key (word_of_int old))) in
           cfg\<lparr>daemon_dir := merge_string 512 (get ''DaemonDirectory'') (daemon_dir cfg),
               control_socket := merge_string 512 (get ''ControlSocket'') (control_socket cfg),
               single_user_shell :=
                 merge_string 256 (get ''SingleUserShell'') (single_user_shell cfg),
               single_user :=
                 (single_user cfg \<or> plist_dict_get_bool (Some root) ''SingleUser'' False),
               shutdown_timeout_ms := int_of ''ShutdownTimeoutMs'' (shutdown_timeout_ms cfg),
               log_level := int_of ''LogLevel'' (log_level cfg)\<rparr>)
      | _ \<Rightarrow> cfg)"

text \<open>A variable that is set and not empty.\<close>

definition env_value :: "string list \<Rightarrow> string \<Rightarrow> string option" where
  "env_value env nm =
     (case getenv env nm of None \<Rightarrow> None | Some v \<Rightarrow> if v = [] then None else Some v)"

definition config_apply_env :: "string list \<Rightarrow> init_config \<Rightarrow> init_config" where
  "config_apply_env env cfg =
     cfg\<lparr>daemon_dir := merge_string 512 (env_value env ''CATBSD_INIT_DAEMON_DIR'') (daemon_dir cfg),
         control_socket :=
           merge_string 512 (env_value env ''CATBSD_INIT_CONTROL_SOCKET'') (control_socket cfg),
         single_user :=
           (single_user cfg \<or>
            (case env_value env ''CATBSD_INIT_SINGLE_USER'' of None \<Rightarrow> False | Some v \<Rightarrow> atoi v \<noteq> 0)),
         single_user_shell :=
           merge_string 256 (env_value env ''CATBSD_INIT_SINGLE_USER_SHELL'') (single_user_shell cfg),
         log_level :=
           (case env_value env ''CATBSD_INIT_LOG_LEVEL'' of None \<Rightarrow> log_level cfg | Some v \<Rightarrow> atoi v)\<rparr>"

text \<open>The flags; \<open>args\<close> is \<^verbatim>\<open>argv\<close> without \<^verbatim>\<open>argv[0]\<close>.\<close>

fun config_apply_args :: "string list \<Rightarrow> init_config \<Rightarrow> init_config" where
  "config_apply_args [] cfg = cfg"
| "config_apply_args (a # as) cfg =
     config_apply_args as
       (let cfg1 = (if a = ''-s'' \<or> a = ''--single-user'' then cfg\<lparr>single_user := True\<rparr> else cfg) in
        if a = ''-v'' \<or> a = ''--verbose'' then cfg1\<lparr>log_level := 2\<rparr> else cfg1)"

text \<open>A first argument that does not begin with a dash names the file; an empty one does too.\<close>

definition config_path :: "string list \<Rightarrow> string" where
  "config_path args =
     (case args of
        [] \<Rightarrow> ''/etc/catbsd/catbsd-init.conf''
      | a # as \<Rightarrow> if take 1 a = ''-'' then ''/etc/catbsd/catbsd-init.conf'' else a)"

definition init_configure :: "host \<Rightarrow> string list \<Rightarrow> string list \<Rightarrow> init_config" where
  "init_configure h env args =
     config_apply_args args
       (config_apply_env env (config_load_file h config_defaults (config_path args)))"

section \<open>Signals\<close>

definition SIGHUP :: nat where "SIGHUP = 1"
definition SIGINT :: nat where "SIGINT = 2"
definition SIGPIPE :: nat where "SIGPIPE = 13"
definition SIGCHLD :: nat where "SIGCHLD = 20"

datatype signal_action = SigDefault | SigIgnore | HandleShutdown | HandleReload

type_synonym signal_table = "nat \<Rightarrow> signal_action"

record signal_flags =
  g_do_shutdown :: bool
  g_do_reload :: bool

definition handle_shutdown :: "signal_flags \<Rightarrow> signal_flags" where
  "handle_shutdown fl = fl\<lparr>g_do_shutdown := True\<rparr>"

definition handle_reload :: "signal_flags \<Rightarrow> signal_flags" where
  "handle_reload fl = fl\<lparr>g_do_reload := True\<rparr>"

definition setup_signals :: "signal_table \<Rightarrow> signal_table" where
  "setup_signals tbl =
     tbl(SIGTERM := HandleShutdown, SIGINT := HandleShutdown, SIGHUP := HandleReload,
         SIGCHLD := SigDefault, SIGPIPE := SigIgnore)"

text \<open>What the kernel does with a signal; \<open>None\<close> if it ends the process.  \<open>kills\<close> is whether the default
  action of a signal does, which it never does for the process 1.\<close>

definition deliver :: "(nat \<Rightarrow> bool) \<Rightarrow> signal_table \<Rightarrow> nat \<Rightarrow> signal_flags \<Rightarrow> signal_flags option" where
  "deliver kills tbl sig fl =
     (case tbl sig of
        SigDefault \<Rightarrow> if kills sig then None else Some fl
      | SigIgnore \<Rightarrow> Some fl
      | HandleShutdown \<Rightarrow> Some (handle_shutdown fl)
      | HandleReload \<Rightarrow> Some (handle_reload fl))"

fun deliver_all ::
  "(nat \<Rightarrow> bool) \<Rightarrow> signal_table \<Rightarrow> nat list \<Rightarrow> signal_flags \<Rightarrow> signal_flags option" where
  "deliver_all kills tbl [] fl = Some fl"
| "deliver_all kills tbl (s # ss) fl = Option.bind (deliver kills tbl s fl) (deliver_all kills tbl ss)"

section \<open>Mounts\<close>

text \<open>\<open>sys\<close> is \<^verbatim>\<open>system\<close>; its results are only logged.\<close>

definition mount_essential :: "(string \<Rightarrow> 'w \<Rightarrow> int \<times> 'w) \<Rightarrow> int \<Rightarrow> 'w \<Rightarrow> 'w" where
  "mount_essential sys pid w =
     (if pid \<noteq> 1 then w
      else
        (let w1 = snd (sys ''mount -t procfs proc /proc 2>/dev/null'' w)
         in snd (sys ''mount -t devfs devfs /dev 2>/dev/null'' w1)))"

section \<open>Single-user mode\<close>

text \<open>The child: the program and arguments it becomes, or its exit code.  \<open>runs\<close> is whether \<^verbatim>\<open>execl\<close> of
  a path succeeds.\<close>

definition single_user_child :: "(string \<Rightarrow> bool) \<Rightarrow> string \<Rightarrow> int + string \<times> string list" where
  "single_user_child runs shell =
     (if runs shell then Inr (shell, [shell, ''--login''])
      else if runs ''/bin/sh'' then Inr (''/bin/sh'', [''/bin/sh''])
      else Inl 127)"

text \<open>What a call of \<^verbatim>\<open>waitpid\<close> gives: it is interrupted, fails otherwise, or fills the status.\<close>

datatype shell_wait = WaitIntr | WaitError | WaitStatus exit_status

fun wait_shell :: "exit_status \<Rightarrow> shell_wait list \<Rightarrow> exit_status option" where
  "wait_shell st [] = None"
| "wait_shell st (r # rs) =
     (case r of WaitIntr \<Rightarrow> wait_shell st rs | WaitError \<Rightarrow> Some st | WaitStatus st' \<Rightarrow> Some st')"

text \<open>The exit code of the parent, from what \<^verbatim>\<open>fork\<close> gives, what the uninitialised status holds, and the
  calls of \<^verbatim>\<open>waitpid\<close>; \<open>None\<close> if the shell never ends.\<close>

record shell_os =
  sh_fork :: int
  sh_junk :: exit_status
  sh_waits :: "shell_wait list"

definition run_single_user :: "shell_os \<Rightarrow> nat option" where
  "run_single_user sh =
     (if sh_fork sh < 0 then Some 1
      else map_option (\<lambda>st. case st of ExitCode c \<Rightarrow> c | KilledBy s \<Rightarrow> 1)
             (wait_shell (sh_junk sh) (sh_waits sh)))"

section \<open>The event loop\<close>

text \<open>What a turn of the loop meets: the signals that have come since the last turn, and the clock
  readings and the traffic of its poll of the control socket.\<close>

record loop_event =
  ev_signals :: "nat list"
  ev_clock :: "nat \<Rightarrow> timespec"
  ev_accepts :: "accept_event list"
  ev_rxs :: "rx_event list"
  ev_txs :: "tx_event list"

definition do_reload :: "'w os \<Rightarrow> host \<Rightarrow> launch_registry \<Rightarrow> string \<Rightarrow> 'w \<Rightarrow> launch_registry \<times> 'w" where
  "do_reload os h reg dir w = snd (launch_registry_load_dir os h reg (Some dir) 512 w)"

text \<open>One turn of the loop body, with the flag for a reload.\<close>

definition loop_body ::
  "'w os \<Rightarrow> host \<Rightarrow> string \<Rightarrow> lctl_server option \<Rightarrow> loop_event \<Rightarrow> bool \<Rightarrow>
   launch_registry \<Rightarrow> 'w \<Rightarrow> (launch_registry \<times> 'w) option" where
  "loop_body os h dir srv ev reload reg w =
     (case (if reload then do_reload os h reg dir w else (reg, w)) of
        (reg1, w1) \<Rightarrow>
          (case (case srv of
                   None \<Rightarrow> Some (reg1, w1)
                 | Some s \<Rightarrow>
                     map_option (\<lambda>(n, reg2, w2, sent). (reg2, w2))
                       (lctl_server_poll os h s reg1 0 (ev_clock ev) (ev_accepts ev) (ev_rxs ev)
                          (ev_txs ev) w1)) of
             None \<Rightarrow> None
           | Some (reg2, w2) \<Rightarrow>
               (case launch_registry_tick os reg2 w2 of
                  (changed, reg3, w3) \<Rightarrow> Some (reg3, os_usleep os 10000 w3))))"

text \<open>The loop ends at the first turn that finds \<^verbatim>\<open>g_do_shutdown\<close> set; \<open>None\<close> if there is none, a
  signal kills the process, or a poll or a stop blocks.  \<open>sig\<close> is what signals do to the flags.\<close>

fun main_loop ::
  "'w os \<Rightarrow> host \<Rightarrow> string \<Rightarrow> lctl_server option \<Rightarrow> (nat list \<Rightarrow> signal_flags \<Rightarrow> signal_flags option) \<Rightarrow>
   loop_event list \<Rightarrow> signal_flags \<Rightarrow> launch_registry \<Rightarrow> 'w \<Rightarrow> (launch_registry \<times> 'w) option" where
  "main_loop os h dir srv sig [] fl reg w = None"
| "main_loop os h dir srv sig (ev # evs) fl reg w =
     (case sig (ev_signals ev) fl of
        None \<Rightarrow> None
      | Some fl1 \<Rightarrow>
          if g_do_shutdown fl1 then Some (reg, w)
          else
            (case loop_body os h dir srv ev (g_do_reload fl1) reg w of
               None \<Rightarrow> None
             | Some (reg', w') \<Rightarrow>
                 main_loop os h dir srv sig evs (fl1\<lparr>g_do_reload := False\<rparr>) reg' w'))"

text \<open>The server is destroyed first; then the jobs are stopped and the registry freed.  The result has the
  calls that end the server.\<close>

definition do_shutdown ::
  "'w os \<Rightarrow> launch_registry \<Rightarrow> lctl_server option \<Rightarrow> int \<Rightarrow> 'w \<Rightarrow> (nat \<times> os_act list \<times> 'w) option" where
  "do_shutdown os reg srv timeout_ms w =
     (case launch_registry_stop_all os reg timeout_ms w of
        None \<Rightarrow> None
      | Some (n, reg', w1) \<Rightarrow> map_option (\<lambda>w2. (n, lctl_server_destroy srv, w2)) (launch_registry_free os (Some reg') w1))"

definition boot ::
  "'w os \<Rightarrow> host \<Rightarrow> path_env \<Rightarrow> socket_os \<Rightarrow> init_config \<Rightarrow> string \<Rightarrow> string \<Rightarrow> 'w \<Rightarrow>
   launch_registry \<times> lctl_server option \<times> 'w" where
  "boot os h env sos cfg dir control w =
     (case launch_registry_load_dir os h launch_registry_create (Some dir) 512 w of
        (r, reg, w0) \<Rightarrow>
          (case launch_registry_start_all os reg w0 of
             (started, reg1, w1) \<Rightarrow>
               (reg1,
                (case fst (lctl_server_create env sos
                            (if control \<noteq> [] then control else LCTL_SERVICE_NAME) 512) of
                   Inl e \<Rightarrow> None | Inr s \<Rightarrow> Some s),
                w1)))"

text \<open>What surrounds the process: its environment, its number, \<^verbatim>\<open>system\<close>, the signal actions it inherits,
  which default actions end it, and what becomes of the shell.\<close>

record 'w init_world =
  iw_environ :: "string list"
  iw_pid :: int
  iw_system :: "string \<Rightarrow> 'w \<Rightarrow> int \<times> 'w"
  iw_signals :: signal_table
  iw_kills :: "nat \<Rightarrow> bool"
  iw_shell :: shell_os

text \<open>\<^verbatim>\<open>main\<close>: the exit code, the calls that end the server, and the last world.  Reading an unterminated
  buffer has no result.\<close>

definition init_main ::
  "'w os \<Rightarrow> host \<Rightarrow> path_env \<Rightarrow> socket_os \<Rightarrow> 'w init_world \<Rightarrow> string list \<Rightarrow> loop_event list \<Rightarrow> 'w \<Rightarrow>
   (nat \<times> os_act list \<times> 'w) option" where
  "init_main os h env sos iw args evs w =
     (let cfg = init_configure h (iw_environ iw) args;
          sig = deliver_all (iw_kills iw) (setup_signals (iw_signals iw));
          w0 = mount_essential (iw_system iw) (iw_pid iw) w in
      if single_user cfg then
        (case single_user_shell cfg of
           None \<Rightarrow> None | Some sh \<Rightarrow> map_option (\<lambda>c. (c, [], w0)) (run_single_user (iw_shell iw)))
      else
        (case (daemon_dir cfg, control_socket cfg) of
           (Some dir, Some control) \<Rightarrow>
             (case boot os h env sos cfg dir control w0 of
                (reg, srv, w1) \<Rightarrow>
                  (case main_loop os h dir srv sig evs \<lparr>g_do_shutdown = False, g_do_reload = False\<rparr> reg w1 of
                     None \<Rightarrow> None
                   | Some (reg', w2) \<Rightarrow>
                       map_option (\<lambda>(n, acts, w3). (0, acts, w3))
                         (do_shutdown os reg' srv (shutdown_timeout_ms cfg) w2)))
         | _ \<Rightarrow> None))"

text \<open>The facts on signals that proofs share: no signal the process handles ends it, and a shutdown
  signal sets the flag for good.\<close>

lemmas signal_numbers = SIGTERM_def SIGHUP_def SIGINT_def SIGPIPE_def SIGCHLD_def

lemma setup_signals_simps [simp]:
  "setup_signals tbl SIGTERM = HandleShutdown"
  "setup_signals tbl SIGINT = HandleShutdown"
  "setup_signals tbl SIGHUP = HandleReload"
  "setup_signals tbl SIGCHLD = SigDefault"
  "setup_signals tbl SIGPIPE = SigIgnore"
  by (simp_all add: setup_signals_def signal_numbers)

lemma deliver_some:
  "s \<in> {SIGTERM, SIGINT, SIGHUP, SIGPIPE} \<or> \<not> kills s \<Longrightarrow> \<exists>fl'. deliver kills (setup_signals tbl) s fl = Some fl'"
  by (auto simp: deliver_def split: signal_action.split)

lemma deliver_keeps: "deliver kills tbl s fl = Some fl' \<Longrightarrow> g_do_shutdown fl \<Longrightarrow> g_do_shutdown fl'"
  by (auto simp: deliver_def handle_shutdown_def handle_reload_def split: signal_action.splits if_splits)

lemma deliver_shutdown:
  "deliver kills (setup_signals tbl) s fl = Some fl' \<Longrightarrow> s \<in> {SIGTERM, SIGINT} \<Longrightarrow> g_do_shutdown fl'"
  by (auto simp: deliver_def handle_shutdown_def)

lemma deliver_all_some:
  "\<forall>s \<in> set ss. s \<in> {SIGTERM, SIGINT, SIGHUP, SIGPIPE} \<or> \<not> kills s \<Longrightarrow>
   \<exists>fl'. deliver_all kills (setup_signals tbl) ss fl = Some fl'"
proof (induction ss arbitrary: fl)
  case (Cons s ss)
  obtain fl1 where "deliver kills (setup_signals tbl) s fl = Some fl1" using deliver_some Cons.prems by fastforce
  then show ?case using Cons by simp
qed simp

lemma deliver_all_keeps: "deliver_all kills tbl ss fl = Some fl' \<Longrightarrow> g_do_shutdown fl \<Longrightarrow> g_do_shutdown fl'"
  by (induction ss arbitrary: fl) (auto split: bind_splits dest: deliver_keeps)

lemma deliver_all_shutdown:
  "deliver_all kills (setup_signals tbl) ss fl = Some fl' \<Longrightarrow> s \<in> set ss \<Longrightarrow> s \<in> {SIGTERM, SIGINT} \<Longrightarrow>
   g_do_shutdown fl'"
proof (induction ss arbitrary: fl)
  case (Cons t ss)
  obtain fl1 where t: "deliver kills (setup_signals tbl) t fl = Some fl1"
    and r: "deliver_all kills (setup_signals tbl) ss fl1 = Some fl'"
    using Cons.prems(1) by (auto split: bind_splits)
  show ?case
  proof (cases "s = t")
    case True
    then show ?thesis using deliver_all_keeps [OF r] deliver_shutdown [OF t] Cons.prems(3) by blast
  qed (use Cons.IH [OF r] Cons.prems in auto)
qed simp

text \<open>A hangup asks for a reload unless the flag was cleared after it, which only the loop does.\<close>

lemma deliver_all_reload:
  "deliver_all kills (setup_signals tbl) ss fl = Some fl' \<Longrightarrow> SIGHUP \<in> set ss \<or> g_do_reload fl \<Longrightarrow> g_do_reload fl'"
proof (induction ss arbitrary: fl)
  case (Cons t ss)
  then show ?case
    by (auto simp: deliver_def handle_shutdown_def handle_reload_def split: bind_splits signal_action.splits if_splits)
qed simp

text \<open>Interruptions do not end the wait for the shell, and its exit code is passed on.\<close>

lemma single_user_code:
  "sh_fork sh \<ge> 0 \<Longrightarrow> sh_waits sh = replicate n WaitIntr @ WaitStatus (ExitCode c) # rs \<Longrightarrow>
   run_single_user sh = Some c"
proof -
  assume "sh_fork sh \<ge> 0" and w: "sh_waits sh = replicate n WaitIntr @ WaitStatus (ExitCode c) # rs"
  have "wait_shell st (replicate n WaitIntr @ WaitStatus (ExitCode c) # rs) = Some (ExitCode c)" for st
    by (induction n) simp_all
  with w show ?thesis using \<open>sh_fork sh \<ge> 0\<close> by (simp add: run_single_user_def)
qed

end
