(* ===== verification/Launchctl_Client.thy ===== *)
theory Launchctl_Client
  imports Launchctl_Server
begin

text \<open>
  The command-line client, \<^verbatim>\<open>src/src/darwin-compat/launchctl-demo/launchctl.c\<close>: its requests, its
  round trip, and what it prints.  A command's result is its exit code, its standard output and its
  standard error; \<open>None\<close> if a call blocks for ever.
\<close>

section \<open>The round trip\<close>

definition NL :: string where "NL = [CHR 0x0A]"

text \<open>The code, the reply, the error text, and the bytes sent.\<close>

definition roundtrip ::
  "path_env \<Rightarrow> socket_os \<Rightarrow> xpc_object \<Rightarrow> tx_event list \<Rightarrow> rx_event list \<Rightarrow>
   (int \<times> xpc_object option \<times> string \<times> byte list) option" where
  "roundtrip env sos msg txs rxs =
     (case catbsd_xpc_connection_create env sos (Some LCTL_SERVICE_NAME) of
        (None, err, acts) \<Rightarrow>
          Some (1, None,
            ''error: cannot connect to catbsd-launchd: '' @ catbsd_xpc_strerror err @ NL @
            ''       (is the daemon running?)'' @ NL, [])
      | (Some conn, err, acts) \<Rightarrow>
          (case catbsd_xpc_connection_send_message_with_reply_sync conn msg txs rxs of
             None \<Rightarrow> None
           | Some (rc, conn', reply, sent, rxs') \<Rightarrow>
               if rc \<noteq> CATBSD_XPC_SUCCESS then
                 Some (1, None,
                   ''error: no reply from daemon: '' @ catbsd_xpc_strerror rc @ NL, sent)
               else Some (0, reply, [], sent)))"

text \<open>A reply without a code counts as success.\<close>

definition check_reply :: "xpc_object option \<Rightarrow> int \<times> string" where
  "check_reply rep =
     (let code = (case snd (catbsd_xpc_dictionary_get_int64 rep (Some LCTL_KEY_CODE)) of
                    None \<Rightarrow> 0 | Some c \<Rightarrow> c) in
      if code \<noteq> LCTL_OK then
        (case catbsd_xpc_dictionary_get_string rep (Some LCTL_KEY_ERROR) of
           None \<Rightarrow> (1, ''error: (unknown error)'' @ NL)
         | Some msg \<Rightarrow>
             (1, ''error: '' @ (if msg = [] then ''(unknown error)'' else msg) @ NL))
      else (0, []))"

section \<open>Commands\<close>

definition list_request :: "xpc_object option" where
  "list_request = put_string LCTL_KEY_VERB LCTL_VERB_LIST (Some catbsd_xpc_dictionary_create)"

definition load_request :: "string \<Rightarrow> xpc_object option" where
  "load_request p =
     put_string LCTL_KEY_PATH p
       (put_string LCTL_KEY_VERB LCTL_VERB_LOAD (Some catbsd_xpc_dictionary_create))"

definition label_request :: "string \<Rightarrow> string \<Rightarrow> xpc_object option" where
  "label_request verb label =
     put_string LCTL_KEY_LABEL label
       (put_string LCTL_KEY_VERB verb (Some catbsd_xpc_dictionary_create))"

text \<open>The shared shape: round trip, check, print.\<close>

definition run_command ::
  "path_env \<Rightarrow> socket_os \<Rightarrow> xpc_object option \<Rightarrow> (xpc_object option \<Rightarrow> string) \<Rightarrow>
   tx_event list \<Rightarrow> rx_event list \<Rightarrow> (int \<times> string \<times> string) option" where
  "run_command env sos req out txs rxs =
     (case req of
        None \<Rightarrow> None
      | Some msg \<Rightarrow>
          map_option
            (\<lambda>(rc, rep, err, sent).
               if rc \<noteq> 0 then (rc, [], err)
               else (case check_reply rep of
                       (rc2, err2) \<Rightarrow> (rc2, if rc2 = 0 then out rep else [], err2)))
            (roundtrip env sos msg txs rxs))"

definition cmd_list where
  "cmd_list env sos txs rxs =
     run_command env sos list_request
       (\<lambda>rep. case catbsd_xpc_dictionary_get_string rep (Some LCTL_KEY_JOBS) of
                None \<Rightarrow> [] | Some tab \<Rightarrow> tab) txs rxs"

definition cmd_load where
  "cmd_load env sos p txs rxs =
     run_command env sos (load_request p) (\<lambda>rep. ''loaded '' @ p @ NL) txs rxs"

definition cmd_with_label where
  "cmd_with_label env sos verb label txs rxs =
     run_command env sos (label_request verb label) (\<lambda>rep. verb @ '': '' @ label @ NL) txs rxs"

definition status_text :: "string \<Rightarrow> xpc_object option \<Rightarrow> string" where
  "status_text label rep =
     (let st = catbsd_xpc_dictionary_get_string rep (Some LCTL_KEY_STATE);
          num = (\<lambda>k. case snd (catbsd_xpc_dictionary_get_int64 rep (Some k)) of
                       None \<Rightarrow> 0 | Some i \<Rightarrow> sint i);
          starts = (case snd (catbsd_xpc_dictionary_get_uint64 rep (Some LCTL_KEY_STARTS)) of
                      None \<Rightarrow> 0 | Some u \<Rightarrow> unat u);
          pid = num LCTL_KEY_PID; code = num LCTL_KEY_EXIT in
      ''label:  '' @ label @ NL @
      ''state:  '' @ (case st of None \<Rightarrow> ''unknown'' | Some s \<Rightarrow> s) @ NL @
      ''pid:    '' @ (if 0 < pid then dec_int pid else ''-'') @ NL @
      ''starts: '' @ dec_nat starts @ NL @
      (if 0 < starts then
         (if code < 0 then ''exit:   signal '' @ dec_int (- code) else ''exit:   '' @ dec_int code) @ NL
       else []))"

definition cmd_status where
  "cmd_status env sos label txs rxs =
     run_command env sos (label_request LCTL_VERB_STATUS label) (status_text label) txs rxs"

definition usage_text :: "string \<Rightarrow> string" where
  "usage_text argv0 =
     ''Usage: '' @ argv0 @ '' <subcommand> [args]'' @ NL @ NL @
     ''Subcommands:'' @ NL @
     ''  list                    List all loaded jobs'' @ NL @
     ''  load   <path>           Load a job plist'' @ NL @
     ''  unload <label>          Unload (stop + remove) a job'' @ NL @
     ''  start  <label>          Start a loaded job'' @ NL @
     ''  stop   <label>          Stop a running job'' @ NL @
     ''  status <label>          Show detailed job status'' @ NL @ NL @
     ''Environment:'' @ NL @
     ''  CATBSD_XPC_RUNTIME_DIR  Directory for XPC socket files'' @ NL @
     ''                          (default: /tmp/catbsd-xpc-<uid>)'' @ NL"

text \<open>\<^verbatim>\<open>main\<close>; \<open>args\<close> is \<^verbatim>\<open>argv\<close>, with \<^verbatim>\<open>argv[0]\<close>.\<close>

definition launchctl_main ::
  "path_env \<Rightarrow> socket_os \<Rightarrow> string list \<Rightarrow> tx_event list \<Rightarrow> rx_event list \<Rightarrow>
   (int \<times> string \<times> string) option" where
  "launchctl_main env sos args txs rxs =
     (if length args < 2 then Some (1, [], usage_text (hd args))
      else
        let sub = args ! 1 in
        if sub = LCTL_VERB_LIST then
          (if length args \<noteq> 2 then Some (1, [], usage_text (hd args)) else cmd_list env sos txs rxs)
        else if sub = LCTL_VERB_LOAD then
          (if length args \<noteq> 3 then Some (1, [], ''load requires a path'' @ NL)
           else cmd_load env sos (args ! 2) txs rxs)
        else if sub = LCTL_VERB_UNLOAD \<or> sub = LCTL_VERB_START \<or> sub = LCTL_VERB_STOP then
          (if length args \<noteq> 3 then Some (1, [], sub @ '' requires a label'' @ NL)
           else cmd_with_label env sos sub (args ! 2) txs rxs)
        else if sub = LCTL_VERB_STATUS then
          (if length args \<noteq> 3 then Some (1, [], ''status requires a label'' @ NL)
           else cmd_status env sos (args ! 2) txs rxs)
        else
          Some (1, [], ''unknown subcommand '' @ quoted sub @ NL @ NL @ usage_text (hd args)))"

end
