(* ===== verification/Control_Props.thy ===== *)
theory Control_Props
  imports Launch_Props Catbsd_Init Launchctl_Client Xpc_Delivery
begin

text \<open>
  Lemmas on the control endpoint and the supervisor process: what the handlers do to the registry
  and put into their replies, the text of \<^verbatim>\<open>list\<close>, and the event loop as a machine with an invariant.
\<close>

section \<open>Replies\<close>

lemma put_simps:
  "put_int64 k v (Some d) = (if k = [] \<or> 65535 < length k then Some d else Some (put_entry d k (XInt64 v)))"
  "put_uint64 k u (Some d) = (if k = [] \<or> 65535 < length k then Some d else Some (put_entry d k (XUint64 u)))"
  "put_string k s (Some d) =
     (if k = [] \<or> 65535 < length k \<or> CATBSD_XPC_MAX_MESSAGE < length (c_str s) then Some d
      else Some (put_entry d k (XString (to_bytes (c_str s)))))"
  by (auto simp: put_int64_def put_uint64_def put_string_def catbsd_xpc_dictionary_set_int64_def
      catbsd_xpc_dictionary_set_uint64_def catbsd_xpc_dictionary_set_string_def set_scalar_def
      valid_key_def dictionary_set_bytes_def)

text \<open>The entries of a reply that is not too long.\<close>

lemma reply_err_entries:
  "length (c_str msg) \<le> CATBSD_XPC_MAX_MESSAGE \<Longrightarrow>
   reply_err code msg = Some (catbsd_xpc_dictionary_create\<lparr>entries :=
     [(LCTL_KEY_CODE, XInt64 code), (LCTL_KEY_ERROR, XString (to_bytes (c_str msg)))]\<rparr>)"
  by (simp add: reply_err_def put_simps lctl_keys put_entry_def catbsd_xpc_dictionary_create_def)

text \<open>The code in a reply.\<close>

definition reply_code :: "xpc_object option \<Rightarrow> i64 option" where
  "reply_code rep = snd (catbsd_xpc_dictionary_get_int64 rep (Some LCTL_KEY_CODE))"

lemma reply_code_entry:
  "k \<noteq> LCTL_KEY_CODE \<Longrightarrow> reply_code (Some (put_entry d k v)) = reply_code (Some d)"
  by (simp add: reply_code_def catbsd_xpc_dictionary_get_int64_def get_scalar_def put_entry_def
      entry_find_map_of entry_put_update update_conv')

lemma put_none [simp]: "put_string k s None = None" "put_int64 k v None = None" "put_uint64 k u None = None"
  by (simp_all add: put_string_def put_int64_def put_uint64_def catbsd_xpc_dictionary_set_string_def
      catbsd_xpc_dictionary_set_int64_def catbsd_xpc_dictionary_set_uint64_def set_scalar_def)

lemma reply_code_put:
  assumes "k \<noteq> LCTL_KEY_CODE"
  shows "reply_code (put_string k s rep) = reply_code rep"
    and "reply_code (put_int64 k v rep) = reply_code rep"
    and "reply_code (put_uint64 k u rep) = reply_code rep"
  by (cases rep; simp add: put_simps reply_code_entry assms)+

lemma reply_code_err [simp]: "reply_code (reply_err code msg) = Some code"
proof -
  have "reply_code (put_int64 LCTL_KEY_CODE code (Some catbsd_xpc_dictionary_create)) = Some code"
    by (simp add: put_simps lctl_keys reply_code_def catbsd_xpc_dictionary_get_int64_def get_scalar_def
        put_entry_def catbsd_xpc_dictionary_create_def)
  then show ?thesis
    by (simp add: reply_err_def reply_code_put(1) lctl_keys)
qed

lemma put_some [simp]:
  "put_string k s (Some d) \<noteq> None" "put_int64 k v (Some d) \<noteq> None" "put_uint64 k u (Some d) \<noteq> None"
  by (simp_all add: put_simps)

lemma reply_err_some [simp]: "reply_err code msg \<noteq> None"
  by (auto simp: reply_err_def put_simps)

section \<open>The text of list\<close>

lemma list_write_prefix:
  assumes "buf = take (LIST_BUF - 1) full" "off = length full" "off < LIST_BUF"
  shows "list_write text (buf, off) = Some (take (LIST_BUF - 1) (full @ text), length (full @ text))"
proof -
  have "buf = full" using assms by (simp add: LIST_BUF_def)
  then show ?thesis
    using assms by (simp add: list_write_def snprintf_s_def LIST_BUF_def)
qed

lemma list_loop_prefix:
  "buf = take (LIST_BUF - 1) full \<Longrightarrow>
   \<exists>n. list_loop js (buf, length full) =
     Some (take (LIST_BUF - 1) (full @ concat (map job_line js)), n) \<and> (js = [] \<longrightarrow> n = length full)"
proof (induction js arbitrary: buf full)
  case (Cons j js)
  show ?case
  proof (cases "length full < LIST_BUF - 1")
    case True
    then have "list_write (job_line j) (buf, length full) =
        Some (take (LIST_BUF - 1) (full @ job_line j), length (full @ job_line j))"
      by (intro list_write_prefix Cons.prems refl) simp
    then show ?thesis
      using Cons.IH [OF refl, of "full @ job_line j"] True by (auto simp del: take_append)
  qed (use Cons.prems in simp)
qed simp

definition list_header :: string where
  "list_header = list_line ''LABEL'' ''PID'' ''STATE''"

lemma list_header_length: "length list_header < LIST_BUF - 1"
  by (simp add: list_header_def list_line_def pad_def LIST_BUF_def)

lemma list_text_eq:
  "list_text js = Some (take (LIST_BUF - 1)
     (list_header @ (if js = [] then ''(no jobs loaded)'' @ [CHR 0x0A] else concat (map job_line js))))"
proof -
  have h: "list_write (list_line ''LABEL'' ''PID'' ''STATE'') ([], 0) =
      Some (take (LIST_BUF - 1) list_header, length list_header)"
    using list_write_prefix [of "[]" "[]" 0 list_header] by (simp add: LIST_BUF_def list_header_def)
  obtain n where n: "list_loop js (take (LIST_BUF - 1) list_header, length list_header) =
      Some (take (LIST_BUF - 1) (list_header @ concat (map job_line js)), n)"
    "js = [] \<longrightarrow> n = length list_header"
    using list_loop_prefix [OF refl, of js list_header] by blast
  show ?thesis
  proof (cases "js = []")
    case True
    then have "list_write (''(no jobs loaded)'' @ [CHR 0x0A]) (take (LIST_BUF - 1) list_header, length list_header) =
        Some (take (LIST_BUF - 1) (list_header @ ''(no jobs loaded)'' @ [CHR 0x0A]),
              length (list_header @ ''(no jobs loaded)'' @ [CHR 0x0A]))"
      using list_header_length by (intro list_write_prefix refl) simp
    then show ?thesis using True by (simp add: list_text_def h)
  qed (use n in \<open>simp add: list_text_def h\<close>)
qed

section \<open>Requests\<close>

text \<open>Errors that are answered without an effect.  A job file that is refused may have one: the socket
  files that it names are removed.\<close>

definition refusals :: "i64 set" where
  "refusals = {LCTL_E_NOTFOUND, LCTL_E_ALREADY, LCTL_E_BADVERB, LCTL_E_BADARG}"

definition good_answer ::
  "'w os \<Rightarrow> launch_registry \<Rightarrow> 'w \<Rightarrow> xpc_object option \<times> launch_registry \<times> 'w \<Rightarrow> bool" where
  "good_answer os reg w ans =
     (fst ans \<noteq> None \<and>
      (\<exists>code. reply_code (fst ans) = Some code \<and>
         (code = LCTL_OK \<or> code = LCTL_E_INTERNAL \<or>
          code \<in> refusals \<and> fst (snd ans) = reg \<and> snd (snd ans) = w \<or>
          code = LCTL_E_PLIST \<and> fst (snd ans) = reg \<and> only_unlinks os w (snd (snd ans)))))"

lemma good_answer_err:
  "code = LCTL_OK \<or> code = LCTL_E_INTERNAL \<or> code \<in> refusals \<and> reg' = reg \<and> w' = w \<or>
   code = LCTL_E_PLIST \<and> reg' = reg \<and> only_unlinks os w w' \<Longrightarrow>
   good_answer os reg w (reply_err code msg, reg', w')"
  by (simp add: good_answer_def)

lemma reply_ok_code [simp]: "reply_code reply_ok = Some LCTL_OK" "reply_ok \<noteq> None"
  by (simp_all only: reply_ok_def reply_code_err reply_err_some not_False_eq_True)

lemma good_answer_ok: "good_answer os reg w (reply_ok, reg', w')"
  by (simp add: good_answer_def)

lemma request_label_Inl:
  "request_label req reg = Inl rep \<Longrightarrow> \<exists>code msg. rep = reply_err code msg \<and> code \<in> refusals"
  by (auto simp: request_label_def refusals_def split: option.splits if_splits)

lemma request_label_Inr:
  "request_label req reg = Inr (label, i) \<Longrightarrow> i < length (jobs reg) \<and> j_label (jobs reg ! i) = label"
  by (auto simp: request_label_def dest!: registry_find_Some split: option.splits if_splits)

lemma handle_list_good: "good_answer os reg w (handle_list reg, reg', w')"
proof -
  obtain buf where b: "list_text (jobs reg) = Some buf" using list_text_eq by blast
  have "reply_code (put_int64 LCTL_KEY_CODE LCTL_OK (Some catbsd_xpc_dictionary_create)) = Some LCTL_OK"
    by (simp add: put_simps lctl_keys reply_code_def catbsd_xpc_dictionary_get_int64_def get_scalar_def
        put_entry_def catbsd_xpc_dictionary_create_def)
  then have "reply_code (handle_list reg) = Some LCTL_OK"
    by (simp add: handle_list_def b reply_code_put lctl_keys)
  moreover have "handle_list reg \<noteq> None"
    by (cases "handle_list reg") (use calculation in \<open>auto simp: reply_code_def
        catbsd_xpc_dictionary_get_int64_def get_scalar_def\<close>)
  ultimately show ?thesis by (simp add: good_answer_def)
qed

lemma handle_status_good: "good_answer os reg w (handle_status req reg, reg, w)"
proof (cases "request_label req reg")
  case (Inl rep)
  then show ?thesis
    using request_label_Inl [OF Inl] by (auto simp: handle_status_def intro: good_answer_err)
next
  case (Inr li)
  have "reply_code (put_int64 LCTL_KEY_CODE LCTL_OK (Some catbsd_xpc_dictionary_create)) = Some LCTL_OK"
    by (simp add: put_simps lctl_keys reply_code_def catbsd_xpc_dictionary_get_int64_def get_scalar_def
        put_entry_def catbsd_xpc_dictionary_create_def)
  then have "reply_code (handle_status req reg) = Some LCTL_OK"
    by (cases li) (simp add: handle_status_def Inr reply_code_put lctl_keys Let_def)
  moreover have "handle_status req reg \<noteq> None"
    by (cases "handle_status req reg") (use calculation in \<open>auto simp: reply_code_def
        catbsd_xpc_dictionary_get_int64_def get_scalar_def\<close>)
  ultimately show ?thesis by (simp add: good_answer_def)
qed

lemma handle_load_good:
  assumes l: "handle_load os h req reg w = (rep, reg', w')"
  shows "good_answer os reg w (rep, reg', w') \<and> (jobs_ok reg \<longrightarrow> jobs_ok reg')"
proof (cases "catbsd_xpc_dictionary_get_string (Some req) (Some LCTL_KEY_PATH)")
  case None
  then show ?thesis using l by (auto simp: handle_load_def refusals_def intro: good_answer_err)
next
  case (Some p)
  obtain rc msg reg1 w1 where 1: "launch_registry_load_plist os h reg (Some p) 512 w = ((rc, msg), reg1, w1)"
    by (metis prod.exhaust)
  have "jobs_ok reg \<longrightarrow> jobs_ok reg1" using load_plist_ok [of reg os h "Some p" 512 w] 1 by simp
  then show ?thesis
    using l Some 1 load_plist_result [OF 1] load_plist_world [OF 1]
    by (auto simp: handle_load_def refusals_def launch_codes split: if_splits
        intro: good_answer_err good_answer_ok)
qed

lemma handle_unload_good:
  assumes "clock_ok os time"
  shows "\<exists>ans. handle_unload os req reg w = Some ans \<and> good_answer os reg w ans \<and>
     (jobs_ok reg \<longrightarrow> jobs_ok (fst (snd ans)))"
proof (cases "request_label req reg")
  case (Inl rep)
  then show ?thesis
    using request_label_Inl [OF Inl] by (auto simp: handle_unload_def intro: good_answer_err)
next
  case (Inr li)
  obtain label i where li: "li = (label, i)" by fastforce
  obtain rc reg' w' where u: "launch_registry_unload os reg (Some label) w = Some (rc, reg', w')"
    using unload_returns [OF assms] by blast
  show ?thesis
    using unload_ok [OF _ u]
    by (auto simp: handle_unload_def Inr li u intro: good_answer_err good_answer_ok)
qed

lemma handle_start_good:
  "handle_start os req reg w = (rep, reg', w') \<Longrightarrow>
   good_answer os reg w (rep, reg', w') \<and> (fork_ok os \<longrightarrow> jobs_ok reg \<longrightarrow> jobs_ok reg')"
proof -
  assume s: "handle_start os req reg w = (rep, reg', w')"
  show ?thesis
  proof (cases "request_label req reg")
    case (Inl r)
    then show ?thesis
      using s request_label_Inl [OF Inl] by (auto simp: handle_start_def intro: good_answer_err)
  next
    case (Inr li)
    obtain label i where li: "li = (label, i)" by fastforce
    obtain rc msg j w1 where 1: "launch_job_start os (jobs reg ! i) 512 w = ((rc, msg), j, w1)"
      by (metis prod.exhaust)
    have i: "i < length (jobs reg)" using request_label_Inr Inr li by blast
    have "jobs_ok (reg\<lparr>jobs := (jobs reg)[i := j]\<rparr>)" if "fork_ok os" "jobs_ok reg"
      using start_ok [OF that(1) _ 1] that i by (intro update_job_ok) (auto simp: jobs_ok_def)
    then show ?thesis
      using s by (auto simp: handle_start_def Inr li 1 Let_def refusals_def split: if_splits
          intro: good_answer_err good_answer_ok)
  qed
qed

lemma handle_stop_good:
  assumes "clock_ok os time"
  shows "\<exists>ans. handle_stop os req reg w = Some ans \<and> good_answer os reg w ans \<and>
     (jobs_ok reg \<longrightarrow> jobs_ok (fst (snd ans)))"
proof (cases "request_label req reg")
  case (Inl rep)
  then show ?thesis
    using request_label_Inl [OF Inl] by (auto simp: handle_stop_def intro: good_answer_err)
next
  case (Inr li)
  obtain label i where li: "li = (label, i)" by fastforce
  obtain j' w' where s: "launch_job_stop os (jobs reg ! i) 5000 w = Some (LAUNCH_OK, j', w')"
    using stop_returns [OF assms] by blast
  have i: "i < length (jobs reg)" using request_label_Inr Inr li by blast
  have "jobs_ok (reg\<lparr>jobs := (jobs reg)[i := j']\<rparr>)" if "jobs_ok reg"
    using stop_result [OF s] that i by (intro update_job_ok) (auto simp: jobs_ok_def)
  then show ?thesis
    by (auto simp: handle_stop_def Inr li s Let_def refusals_def intro: good_answer_err good_answer_ok)
qed

definition request_verb :: "xpc_object \<Rightarrow> string option" where
  "request_verb req = catbsd_xpc_dictionary_get_string (Some req) (Some LCTL_KEY_VERB)"

lemmas verb_distinct = LCTL_VERB_LIST_def LCTL_VERB_STATUS_def LCTL_VERB_LOAD_def
  LCTL_VERB_UNLOAD_def LCTL_VERB_START_def LCTL_VERB_STOP_def

lemma dispatch_good:
  assumes "clock_ok os time"
  shows "\<exists>ans. dispatch os h req reg w = Some ans \<and> good_answer os reg w ans \<and>
     (fork_ok os \<longrightarrow> jobs_ok reg \<longrightarrow> jobs_ok (fst (snd ans)))"
proof -
  have bad: "good_answer os reg w (reply_err LCTL_E_BADVERB msg, reg, w)" for msg
    by (rule good_answer_err) (simp add: refusals_def)
  obtain lrep lreg lw where l: "handle_load os h req reg w = (lrep, lreg, lw)" by (metis prod.exhaust)
  obtain srep sreg sw where s: "handle_start os req reg w = (srep, sreg, sw)" by (metis prod.exhaust)
  show ?thesis
  proof (cases "catbsd_xpc_dictionary_get_string (Some req) (Some LCTL_KEY_VERB)")
    case None
    then show ?thesis using bad by (simp add: dispatch_def)
  next
    case (Some verb)
    consider "verb = []" | "verb = LCTL_VERB_LIST" | "verb = LCTL_VERB_STATUS" | "verb = LCTL_VERB_LOAD"
      | "verb = LCTL_VERB_UNLOAD" | "verb = LCTL_VERB_START" | "verb = LCTL_VERB_STOP"
      | "verb \<notin> {[], LCTL_VERB_LIST, LCTL_VERB_STATUS, LCTL_VERB_LOAD, LCTL_VERB_UNLOAD,
          LCTL_VERB_START, LCTL_VERB_STOP}" by blast
    then show ?thesis
    proof cases
      case 1
      then show ?thesis using bad Some by (simp add: dispatch_def)
    next
      case 2
      then show ?thesis using handle_list_good Some by (simp add: dispatch_def verb_distinct)
    next
      case 3
      then show ?thesis using handle_status_good Some by (simp add: dispatch_def verb_distinct)
    next
      case 4
      then show ?thesis using handle_load_good [OF l] Some by (simp add: dispatch_def verb_distinct l)
    next
      case 5
      then show ?thesis using handle_unload_good [OF assms, of req reg w] Some
        by (auto simp: dispatch_def verb_distinct)
    next
      case 6
      then show ?thesis using handle_start_good [OF s] Some by (simp add: dispatch_def verb_distinct s)
    next
      case 7
      then show ?thesis using handle_stop_good [OF assms, of req reg w] Some
        by (auto simp: dispatch_def verb_distinct)
    next
      case 8
      then show ?thesis using bad Some by (simp add: dispatch_def)
    qed
  qed
qed

text \<open>A verb that is not one of the four commands changes nothing.\<close>

lemma dispatch_query:
  assumes "dispatch os h req reg w = Some (rep, reg', w')"
    and "request_verb req \<notin> Some ` {LCTL_VERB_LOAD, LCTL_VERB_UNLOAD, LCTL_VERB_START, LCTL_VERB_STOP}"
  shows "reg' = reg \<and> w' = w"
  using assms by (auto simp: dispatch_def request_verb_def split: option.splits if_splits)

lemma dispatch_ok:
  assumes "fork_ok os" "jobs_ok reg" "dispatch os h req reg w = Some (rep, reg', w')"
  shows "jobs_ok reg'"
proof (cases "catbsd_xpc_dictionary_get_string (Some req) (Some LCTL_KEY_VERB)")
  case (Some verb)
  have u: "handle_unload os req reg w = Some (rep, reg', w') \<Longrightarrow> jobs_ok reg'"
    using unload_ok [OF assms(2)] assms(2)
    by (auto simp: handle_unload_def split: sum.splits prod.splits)
  have s: "handle_stop os req reg w = Some (rep, reg', w') \<Longrightarrow> jobs_ok reg'"
  proof -
    assume h: "handle_stop os req reg w = Some (rep, reg', w')"
    show ?thesis
    proof (cases "request_label req reg")
      case (Inr li)
      then have i: "snd li < length (jobs reg)" using request_label_Inr [of req reg "fst li" "snd li"] by simp
      have "jobs_ok (reg\<lparr>jobs := (jobs reg)[snd li := j']\<rparr>)"
        if "launch_job_stop os (jobs reg ! snd li) 5000 w = Some (rc, j', w1)" for rc j' w1
        using stop_result [OF that] assms(2) i by (intro update_job_ok) (auto simp: jobs_ok_def)
      then show ?thesis
        using h Inr assms(2) by (auto simp: handle_stop_def Let_def split: prod.splits if_splits)
    qed (use h assms(2) in \<open>auto simp: handle_stop_def\<close>)
  qed
  obtain lrep lreg lw where l: "handle_load os h req reg w = (lrep, lreg, lw)" by (metis prod.exhaust)
  have st: "handle_start os req reg w = (rep, reg', w') \<Longrightarrow> jobs_ok reg'"
    using handle_start_good [of os req reg w] assms(1,2) by blast
  show ?thesis
    using assms(2,3) Some u s st handle_load_good [OF l]
    by (auto simp: dispatch_def l split: if_splits)
qed (use assms in \<open>auto simp: dispatch_def\<close>)

section \<open>The event loop\<close>

lemma handle_request_ok:
  "fork_ok os \<Longrightarrow> jobs_ok reg \<Longrightarrow> handle_request os h reg peer rxs txs w = Some (reg', w', sent, acts) \<Longrightarrow>
   jobs_ok reg'"
  using dispatch_ok
  by (fastforce simp: handle_request_def split: option.splits prod.splits if_splits)

lemma poll_ok:
  "fork_ok os \<Longrightarrow> jobs_ok reg \<Longrightarrow> lctl_server_poll os h srv reg t clk accs rxs txs w = Some (n, reg', w', sent) \<Longrightarrow>
   jobs_ok reg'"
  using handle_request_ok
  by (fastforce simp: lctl_server_poll_def split: option.splits prod.splits)

lemma loop_body_ok:
  assumes "fork_ok os" "jobs_ok reg" "loop_body os h dir srv ev reload reg w = Some (reg', w')"
  shows "jobs_ok reg'"
proof -
  obtain reg1 w1 where r: "(if reload then do_reload os h reg dir w else (reg, w)) = (reg1, w1)"
    by (metis prod.exhaust)
  have 1: "jobs_ok reg1"
    using r load_dir_ok [OF assms(2), of os h "Some dir" 512 w] assms(2)
    by (auto simp: do_reload_def split: if_splits)
  obtain reg2 w2 where 2: "(case srv of None \<Rightarrow> Some (reg1, w1)
      | Some s \<Rightarrow> map_option (\<lambda>(n, reg2, w2, sent). (reg2, w2))
          (lctl_server_poll os h s reg1 0 (ev_clock ev) (ev_accepts ev) (ev_rxs ev) (ev_txs ev) w1)) = Some (reg2, w2)"
    using assms(3) by (auto simp: loop_body_def r split: option.splits)
  have ok2: "jobs_ok reg2"
    using 2 1 poll_ok [OF assms(1) 1] by (fastforce split: option.splits)
  obtain c reg3 w3 where 3: "launch_registry_tick os reg2 w2 = (c, reg3, w3)" by (metis prod.exhaust)
  have "reg' = reg3" using assms(3) unfolding loop_body_def r prod.case 2 by (simp add: 3)
  then show ?thesis using tick_ok [OF assms(1) ok2 3] by simp
qed

text \<open>The loop as a machine that takes one event at a time, and stays where it is once it has stopped.\<close>

definition loop_step ::
  "'w os \<Rightarrow> host \<Rightarrow> string \<Rightarrow> lctl_server option \<Rightarrow> (nat list \<Rightarrow> signal_flags \<Rightarrow> signal_flags option) \<Rightarrow>
   (signal_flags \<times> launch_registry \<times> 'w) option \<Rightarrow> loop_event \<Rightarrow> (signal_flags \<times> launch_registry \<times> 'w) option" where
  "loop_step os h dir srv sig s ev =
     Option.bind s (\<lambda>(fl, reg, w).
       if g_do_shutdown fl then Some (fl, reg, w)
       else
         Option.bind (sig (ev_signals ev) fl) (\<lambda>fl1.
           if g_do_shutdown fl1 then Some (fl1, reg, w)
           else map_option (\<lambda>(reg', w'). (fl1\<lparr>g_do_reload := False\<rparr>, reg', w'))
                  (loop_body os h dir srv ev (g_do_reload fl1) reg w)))"

definition loop_inv :: "'w os \<Rightarrow> (signal_flags \<times> launch_registry \<times> 'w) option \<Rightarrow> bool" where
  "loop_inv os s = (fork_ok os \<longrightarrow> (case s of None \<Rightarrow> True | Some (fl, reg, w) \<Rightarrow> jobs_ok reg))"

interpretation supervisor: invariant_machine "loop_step os h dir srv sig" "loop_inv os" for os h dir srv sig
  by unfold_locales
    (auto simp: loop_inv_def loop_step_def split: option.splits bind_splits if_splits dest: loop_body_ok)

lemma loop_step_None [simp]: "foldl (loop_step os h dir srv sig) None evs = None"
  by (induction evs) (simp_all add: loop_step_def)

lemma loop_step_stopped [simp]:
  "g_do_shutdown fl \<Longrightarrow> foldl (loop_step os h dir srv sig) (Some (fl, reg, w)) evs = Some (fl, reg, w)"
  by (induction evs) (simp_all add: loop_step_def)

lemma main_loop_fold:
  "\<not> g_do_shutdown fl \<Longrightarrow>
   main_loop os h dir srv sig evs fl reg w =
     Option.bind (foldl (loop_step os h dir srv sig) (Some (fl, reg, w)) evs)
       (\<lambda>(fl', reg', w'). if g_do_shutdown fl' then Some (reg', w') else None)"
  by (induction evs arbitrary: fl reg w) (auto simp: loop_step_def split: option.splits)

lemma main_loop_ok:
  assumes "fork_ok os" "jobs_ok reg" "\<not> g_do_shutdown fl"
    and "main_loop os h dir srv sig evs fl reg w = Some (reg', w')"
  shows "jobs_ok reg'"
proof -
  have "loop_inv os (Some (fl, reg, w))" using assms(2) by (simp add: loop_inv_def)
  then have "loop_inv os (foldl (loop_step os h dir srv sig) (Some (fl, reg, w)) evs)"
    by (rule supervisor.inv_run)
  then show ?thesis
    using assms(1,4) by (auto simp: main_loop_fold [OF assms(3)] loop_inv_def split: bind_splits if_splits)
qed

lemma jobs_ok_create: "jobs_ok launch_registry_create"
  by (simp add: jobs_ok_def launch_registry_create_def)

lemma boot_ok:
  "fork_ok os \<Longrightarrow> boot os h env sos cfg dir control w = (reg, srv, w') \<Longrightarrow> jobs_ok reg"
  using start_all_ok load_dir_ok [OF jobs_ok_create, of os h "Some dir" 512 w]
  by (auto simp: boot_def split: prod.splits)

end
