(* ===== verification/Control_Claims.thy ===== *)
theory Control_Claims
  imports Control_Props Activation_Claims Xpc_Claims
begin

text \<open>
  The properties of the control endpoint (\<^verbatim>\<open>launchctl_server.c\<close>), its command-line client
  (\<^verbatim>\<open>launchctl.c\<close>) and the supervisor process (\<^verbatim>\<open>catbsd-init.c\<close>).
\<close>

section \<open>The supervisor process\<close>

text \<open>C28: The registry stays well-formed for the whole life of the process.  From boot, through any
  number of turns of the event loop, with reloads, requests of any content, exits and restarts in any
  order: labels are unique and not empty, every job has arguments and a throttle that is not
  negative, and a job has a pid exactly while it is running.\<close>

theorem supervisor_well_formed:
  assumes "fork_ok os" "boot os h env sos cfg dir control w = (reg, srv, w1)"
    and "\<not> g_do_shutdown fl" "main_loop os h dir srv sig evs fl reg w1 = Some (reg', w')"
  shows "distinct (map j_label (jobs reg')) \<and>
     (\<forall>j \<in> set (jobs reg'). j_label j \<noteq> [] \<and> j_argv j \<noteq> [] \<and> 0 \<le> sint (j_throttle_ms j) \<and>
        (if j_state j = Running then 0 < j_pid j else j_pid j = -1))"
  using main_loop_ok [OF assms(1) boot_ok [OF assms(1,2)] assms(3,4)] by (simp add: jobs_ok_def job_ok_def)

definition demo_paths :: path_env where
  "demo_paths = \<lparr>runtime_dir = None, uid = 0, mkdir_ok = (\<lambda>_. True)\<rparr>"

definition demo_sockets :: socket_os where
  "demo_sockets = \<lparr>os_socket = -1, os_open = 4, os_flock = OsOk, os_bind = OsOk, os_bind_again = OsOk,
     os_listen = OsOk, os_connect = OsOk\<rparr>"

definition demo_event :: "bool \<Rightarrow> loop_event" where
  "demo_event stop = \<lparr>ev_signals = (if stop then [SIGHUP, SIGTERM] else [SIGHUP]),
     ev_clock = (\<lambda>k. (int k, 0)), ev_accepts = [], ev_rxs = [], ev_txs = []\<rparr>"

definition demo_flags :: signal_flags where
  "demo_flags = \<lparr>g_do_shutdown = False, g_do_reload = False\<rparr>"

definition demo_signals :: "nat list \<Rightarrow> signal_flags \<Rightarrow> signal_flags option" where
  "demo_signals = deliver_all (\<lambda>_. True) (setup_signals (\<lambda>_. SigDefault))"

lemma demo_signals_simps:
  "demo_signals [SIGHUP, SIGTERM] demo_flags = Some \<lparr>g_do_shutdown = True, g_do_reload = True\<rparr>"
  "demo_signals [SIGHUP] demo_flags = Some \<lparr>g_do_shutdown = False, g_do_reload = True\<rparr>"
  "\<not> g_do_shutdown demo_flags"
  by (simp_all add: demo_signals_def deliver_def handle_shutdown_def handle_reload_def demo_flags_def)

lemma demo_boot:
  "fst (snd (boot (demo_os StillAlive) h demo_paths demo_sockets config_defaults ''/d'' ''ctl'' t)) = None"
  by (simp add: boot_def Let_def lctl_server_create_def catbsd_xpc_connection_create_listener_def
      demo_paths_def demo_sockets_def resolve_path_def SUN_PATH_def snprintf_s_def split: prod.splits)

theorem supervisor_well_formed_witness:
  "\<exists>reg srv w1 reg' w'. boot (demo_os StillAlive) demo_host demo_paths demo_sockets config_defaults
       ''/d'' ''ctl'' 50 = (reg, srv, w1) \<and>
     main_loop (demo_os StillAlive) demo_host ''/d'' srv demo_signals [demo_event False, demo_event True]
       demo_flags reg w1 = Some (reg', w') \<and> distinct (map j_label (jobs reg'))"
proof -
  obtain reg srv w1 where b: "boot (demo_os StillAlive) demo_host demo_paths demo_sockets config_defaults
       ''/d'' ''ctl'' 50 = (reg, srv, w1)" by (metis prod.exhaust)
  have s: "srv = None" using demo_boot [of demo_host 50] b by simp
  obtain r1 v1 where d: "do_reload (demo_os StillAlive) demo_host reg ''/d'' w1 = (r1, v1)"
    by (metis prod.exhaust)
  obtain c r2 w2 where t: "launch_registry_tick (demo_os StillAlive) r1 v1 = (c, r2, w2)" by (metis prod.exhaust)
  have m: "main_loop (demo_os StillAlive) demo_host ''/d'' srv demo_signals
      [demo_event False, demo_event True] demo_flags reg w1 = Some (r2, os_usleep (demo_os StillAlive) 10000 w2)"
    by (simp add: demo_event_def demo_signals_simps demo_flags_def [symmetric] loop_body_def s d t)
  show ?thesis using supervisor_well_formed [OF demo_os_fork b _ m] b m demo_signals_simps(3) by blast
qed

section \<open>Reloading\<close>

text \<open>C27: A reload only adds.  The jobs that are there keep their places and all of their state; new jobs come
  behind them, loaded and not started, under labels that were free; and nothing is done to the system but that
  socket files are removed.  Among these are, for every job file that was loaded before, the files of its
  sockets, although the job may be running and still listens on them.\<close>

theorem reload_only_adds:
  assumes "do_reload os h reg dir w = (reg', w')"
  shows "\<exists>new paths. reg' = reg\<lparr>jobs := jobs reg @ new\<rparr> \<and> w' = fold (os_unlink os) paths w \<and>
     (\<forall>j \<in> set new. j_state j = Loaded \<and> j_label j \<notin> j_label ` set (jobs reg)) \<and>
     (\<forall>nms. h_dir h dir = Inr nms \<longrightarrow>
        (\<forall>nm \<in> set nms. \<forall>j. plist_suffix nm \<and>
           job_file h (default_throttle_ms reg) (name_path dir nm) = Some j \<and>
           j_label j \<in> j_label ` set (jobs reg) \<longrightarrow> s_path ` set (j_sockets j) \<subseteq> set paths))"
proof (cases "h_dir h dir")
  case (Inl e)
  then show ?thesis
    using assms
    by (intro exI [of _ "[]"]) (simp add: do_reload_def launch_registry_load_dir_def)
next
  case (Inr nms)
  obtain l f m where "load_names os h dir 512 nms (0, 0, [], reg, w) = (l, f, m, reg', w')"
    using assms Inr by (auto simp: do_reload_def launch_registry_load_dir_def split: prod.splits)
  from load_names_adds [OF this] Inr show ?thesis by simp
qed

text \<open>For the witness: the world is the list of files that were removed.\<close>

definition unlink_os :: "string list os" where
  "unlink_os =
     \<lparr>os_mono_ms = Pair 0, os_usleep = (\<lambda>n t. t), os_kill = (\<lambda>p s t. t), os_waitpid = (\<lambda>p t. (StillAlive, t)),
      os_waitpid_block = (\<lambda>p t. t), os_fork = Pair (Inr 41), os_socket = Pair (Inr 5),
      os_unlink = (\<lambda>p t. t @ [p]), os_bind_listen = (\<lambda>f p t. (None, t)), os_close = (\<lambda>f t. t),
      os_environ = (\<lambda>t. [])\<rparr>"

lemma unlink_os_fold: "fold (os_unlink unlink_os) paths t = t @ paths"
  by (induction paths arbitrary: t) (auto simp: unlink_os_def)

theorem reload_only_adds_witness:
  "\<exists>reg' w'. do_reload unlink_os demo_host (demo_registry ((demo_job Always Running 7 0)\<lparr>j_label := ''web''\<rparr>)) ''/d'' [] =
       (reg', w') \<and> j_state (jobs reg' ! 0) = Running \<and> j_pid (jobs reg' ! 0) = 7 \<and> ''/run/web'' \<in> set w'"
proof -
  let ?reg = "demo_registry ((demo_job Always Running 7 0)\<lparr>j_label := ''web''\<rparr>)"
  obtain reg' w' where r: "do_reload unlink_os demo_host ?reg ''/d'' [] = (reg', w')" by fastforce
  obtain j where j: "job_file demo_host (default_throttle_ms ?reg) (name_path ''/d'' ''web.plist'') = Some j"
    "j_label j = ''web''" "s_path ` set (j_sockets j) = {''/run/web''}" by (rule demo_job_file)
  have "h_dir demo_host ''/d'' = Inr [''web.plist'']" "plist_suffix ''web.plist''"
    by (simp_all add: demo_host_def plist_suffix_def)
  moreover obtain new paths where n: "reg' = ?reg\<lparr>jobs := jobs ?reg @ new\<rparr>" "w' = fold (os_unlink unlink_os) paths []"
    "\<forall>nms. h_dir demo_host ''/d'' = Inr nms \<longrightarrow>
        (\<forall>nm \<in> set nms. \<forall>j. plist_suffix nm \<and>
           job_file demo_host (default_throttle_ms ?reg) (name_path ''/d'' nm) = Some j \<and>
           j_label j \<in> j_label ` set (jobs ?reg) \<longrightarrow> s_path ` set (j_sockets j) \<subseteq> set paths)"
    using reload_only_adds [OF r] by blast
  moreover have "''web'' \<in> j_label ` set (jobs ?reg)" by (simp add: demo_registry_def)
  ultimately have "''/run/web'' \<in> set paths" using j by fastforce
  moreover have "w' = paths" using n(2) by (simp add: unlink_os_fold)
  moreover have "jobs reg' ! 0 = (demo_job Always Running 7 0)\<lparr>j_label := ''web''\<rparr>"
    using n(1) by (simp add: demo_registry_def)
  ultimately show ?thesis using r by (simp add: demo_job_def)
qed

section \<open>Requests\<close>

text \<open>C29: The text of \<^verbatim>\<open>list\<close> is the header and a line for each job, cut to the 16384-byte buffer; no
  job, label or number makes the code write outside the buffer.\<close>

theorem list_text_exact:
  "list_text js = Some (take 16383
     (list_line ''LABEL'' ''PID'' ''STATE'' @
      (if js = [] then ''(no jobs loaded)'' @ [CHR 0x0A] else concat (map job_line js))))"
  using list_text_eq [of js] by (simp only: LIST_BUF_def list_header_def) simp

text \<open>C30: Every request gets one answer, whatever it contains.  The answer has a code of the
  protocol; a refusal (bad verb or argument, no such job, already in that state) leaves the registry and
  the system as they were, and so does any verb but the four commands.  A job file that is refused leaves
  the registry as it was, and does nothing to the system but remove socket files.\<close>

theorem every_request_answered:
  assumes "clock_ok os time"
  shows "\<exists>rep reg' w' code. dispatch os h req reg w = Some (Some rep, reg', w') \<and>
     catbsd_xpc_dictionary_get_int64 (Some rep) (Some LCTL_KEY_CODE) = (CATBSD_XPC_SUCCESS, Some code) \<and>
     (if code \<in> {LCTL_E_NOTFOUND, LCTL_E_ALREADY, LCTL_E_BADVERB, LCTL_E_BADARG}
      then reg' = reg \<and> w' = w
      else if code = LCTL_E_PLIST then reg' = reg \<and> (\<exists>paths. w' = fold (os_unlink os) paths w)
      else code \<in> {LCTL_OK, LCTL_E_INTERNAL}) \<and>
     (request_verb req \<in> Some ` {LCTL_VERB_LOAD, LCTL_VERB_UNLOAD, LCTL_VERB_START, LCTL_VERB_STOP} \<or>
      reg' = reg \<and> w' = w)"
proof -
  obtain rep reg' w' where d: "dispatch os h req reg w = Some (rep, reg', w')"
    "good_answer os reg w (rep, reg', w')" using dispatch_good [OF assms, of h req reg w] by auto
  then obtain r code where r: "rep = Some r" "reply_code (Some r) = Some code"
    "code = LCTL_OK \<or> code = LCTL_E_INTERNAL \<or> code \<in> refusals \<and> reg' = reg \<and> w' = w \<or>
     code = LCTL_E_PLIST \<and> reg' = reg \<and> only_unlinks os w w'"
    by (auto simp: good_answer_def)
  have "catbsd_xpc_dictionary_get_int64 (Some r) (Some LCTL_KEY_CODE) = (CATBSD_XPC_SUCCESS, Some code)"
    using r(2) by (auto simp: reply_code_def catbsd_xpc_dictionary_get_int64_def get_scalar_def
        split: option.splits)
  then show ?thesis
    using d(1) r dispatch_query [OF d(1)]
    by (intro exI [of _ r] exI [of _ reg'] exI [of _ w'] exI [of _ code])
      (auto simp: refusals_def lctl_codes only_unlinks_def)
qed

theorem every_request_answered_witness:
  "\<exists>rep. dispatch (demo_os StillAlive) demo_host ping (demo_registry (demo_job Always Running 7 0)) 50 =
     Some (Some rep, demo_registry (demo_job Always Running 7 0), 50)"
proof -
  have "request_verb ping = None"
    by (simp add: request_verb_def ping_def catbsd_xpc_dictionary_create_def
        catbsd_xpc_dictionary_get_string_def get_scalar_def lctl_keys)
  then show ?thesis
    using every_request_answered [OF demo_os_clock, of StillAlive demo_host ping
        "demo_registry (demo_job Always Running 7 0)" 50] by auto
qed

text \<open>C31: The client prints what the dispatcher answered.  If the client's request goes out, reaches
  the server in any pieces, and the answer goes out and reaches the client in any pieces, then the
  server has carried out exactly the request that was sent, and the exit code and the output of the
  command are those of the dispatcher's answer to it.\<close>

theorem control_round_trip:
  assumes "catbsd_xpc_connection_create env sos (Some LCTL_SERVICE_NAME) = (Some (conn_alloc f nm), err, acts)"
    and "wire_ok msg" "send_locked msg 1 False txs = Some (CATBSD_XPC_SUCCESS, msg', sent, txs')"
    and "clean srxs" "stream srxs = sent"
    and "dispatch os h (received msg') reg w = Some (Some rep, reg', w')" "wire_ok rep"
    and "send_locked rep 1 True stxs = Some (CATBSD_XPC_SUCCESS, rep', back, stxs')"
    and "clean crxs" "stream crxs = back"
  shows "\<exists>acts'. handle_request os h reg (conn_alloc g nm') srxs stxs w = Some (reg', w', back, acts') \<and>
     run_command env sos (Some msg) out txs crxs =
       Some (case check_reply (Some rep) of
               (rc, text) \<Rightarrow> (rc, if rc = 0 then out (Some (received rep')) else [], text))"
proof -
  have m: "msg' = msg\<lparr>msg_id := 1, is_reply := False\<rparr>" "sent = frame msg'"
    using assms(2,3) by (auto simp: send_locked_def Let_def serialize_frame dest!: io_write_full_prefix)
  have r: "rep' = rep\<lparr>msg_id := 1, is_reply := True\<rparr>" "back = frame rep'"
    using assms(7,8) by (auto simp: send_locked_def Let_def serialize_frame dest!: io_write_full_prefix)
  have wm: "wire_ok msg'" "wire_ok rep'" using m(1) r(1) assms(2,7) by simp_all
  from frame_read_received [OF assms(4) _ wm(1), of "[]"] obtain e where
    "frame_read srxs = Some (CATBSD_XPC_SUCCESS, Some (received msg'), e)" using assms(5) m(2) by auto
  then have recv: "catbsd_xpc_connection_receive_message (conn_alloc g nm') srxs =
      Some (CATBSD_XPC_SUCCESS, conn_alloc g nm', Some (received msg'), e)"
    by (simp add: catbsd_xpc_connection_receive_message_def conn_alloc_def)
  have "catbsd_xpc_connection_reply (conn_alloc g nm') (received msg') rep stxs =
      Some (CATBSD_XPC_SUCCESS, conn_alloc g nm', rep', back, stxs')"
    using assms(8) m(1)
    by (simp add: catbsd_xpc_connection_reply_def catbsd_xpc_message_get_id_def conn_alloc_def fail_unless_ok_def)
  then have server: "\<exists>acts'. handle_request os h reg (conn_alloc g nm') srxs stxs w = Some (reg', w', back, acts')"
    by (simp add: handle_request_def recv assms(6))
  let ?c = "conn_alloc f nm"
  have "answers 1 rep'" using r(1) by (simp add: answers_def)
  from await_reply_clean [OF assms(9), of "[]" rep' "[]" 1 "?c\<lparr>next_id := 2\<rparr>"] this wm(2) assms(10) r(2)
  obtain e2 where aw: "await_reply 1 (?c\<lparr>next_id := 2\<rparr>) crxs =
      Some (CATBSD_XPC_SUCCESS, ?c\<lparr>next_id := 2\<rparr>, Some (received rep'), e2)"
    by (auto simp: conn_alloc_def)
  have "catbsd_xpc_connection_send_message_with_reply_sync ?c msg txs crxs =
      Some (CATBSD_XPC_SUCCESS, ?c\<lparr>next_id := 2\<rparr>, Some (received rep'), sent, e2)"
    using assms(3) aw by (simp add: catbsd_xpc_connection_send_message_with_reply_sync_def Let_def conn_alloc_def)
  then have "roundtrip env sos msg txs crxs = Some (0, Some (received rep'), [], sent)"
    by (simp add: roundtrip_def assms(1))
  moreover have "check_reply (Some (received rep')) = check_reply (Some rep)"
    by (simp add: check_reply_def catbsd_xpc_dictionary_get_int64_def catbsd_xpc_dictionary_get_string_def
        get_scalar_def r(1))
  ultimately show ?thesis using server by (simp add: run_command_def split: prod.splits)
qed

lemma length_frame: "length (frame d) = XPC_HEADER_SIZE + payload_size (entries d)"
  by (simp add: frame_def)

lemma frame_nonempty: "frame d \<noteq> []"
  using length_frame [of d] by (auto simp: XPC_HEADER_SIZE_def)

lemma send_locked_once:
  assumes "wire_ok d" "length (frame (d\<lparr>msg_id := i, is_reply := r\<rparr>)) \<le> n" "0 < n"
  shows "send_locked d i r [TxSent n] =
     Some (CATBSD_XPC_SUCCESS, d\<lparr>msg_id := i, is_reply := r\<rparr>, frame (d\<lparr>msg_id := i, is_reply := r\<rparr>), [])"
  using assms
  by (cases "frame (d\<lparr>msg_id := i, is_reply := r\<rparr>)") (simp_all add: frame_nonempty send_locked_def Let_def serialize_frame)

definition demo_connect :: socket_os where
  "demo_connect = demo_sockets\<lparr>os_socket := 3\<rparr>"

definition bad_verb_reply :: xpc_object where
  "bad_verb_reply = catbsd_xpc_dictionary_create\<lparr>entries :=
     [(LCTL_KEY_CODE, XInt64 LCTL_E_BADVERB), (LCTL_KEY_ERROR, XString (to_bytes (''missing '' @ quoted ''verb'')))]\<rparr>"

lemma bad_verb_reply_ok: "wire_ok bad_verb_reply" "payload_size (entries bad_verb_reply) = 41"
  by (simp_all add: wire_ok_def bad_verb_reply_def catbsd_xpc_dictionary_create_def keys_ok_def pair_ok_def
      entry_ok_def CATBSD_XPC_MAX_MESSAGE_def XPC_HEADER_SIZE_def value_size_def lctl_keys quoted_def)

theorem control_round_trip_witness:
  "run_command demo_paths demo_connect (Some ping) (\<lambda>_. ''done'') [TxSent 1000]
     [RecvData (frame (bad_verb_reply\<lparr>msg_id := 1, is_reply := True\<rparr>))] =
   Some (1, [], ''error: missing '' @ quoted ''verb'' @ NL)"
proof -
  have c: "\<exists>acts. catbsd_xpc_connection_create demo_paths demo_connect (Some LCTL_SERVICE_NAME) =
      (Some (conn_alloc 3 (Some LCTL_SERVICE_NAME)), CATBSD_XPC_SUCCESS, acts)"
    by (simp add: catbsd_xpc_connection_create_def demo_paths_def demo_connect_def demo_sockets_def
        LCTL_SERVICE_NAME_def resolve_path_def SUN_PATH_def snprintf_s_def dec_nat.simps Let_def)
  have s: "send_locked ping 1 False [TxSent 1000] = Some (CATBSD_XPC_SUCCESS, ping\<lparr>msg_id := 1, is_reply := False\<rparr>,
      frame (ping\<lparr>msg_id := 1, is_reply := False\<rparr>), [])"
    by (rule send_locked_once [OF ping_ok]) (simp_all add: ping_frame)
  have d: "dispatch (demo_os StillAlive) demo_host (received (ping\<lparr>msg_id := 1, is_reply := False\<rparr>))
      launch_registry_create 50 = Some (Some bad_verb_reply, launch_registry_create, 50)"
    by (simp add: dispatch_def catbsd_xpc_dictionary_get_string_def get_scalar_def ping_def
        catbsd_xpc_dictionary_create_def lctl_keys reply_err_entries bad_verb_reply_def quoted_def
        CATBSD_XPC_MAX_MESSAGE_def)
  have r: "send_locked bad_verb_reply 1 True [TxSent 1000] = Some (CATBSD_XPC_SUCCESS,
      bad_verb_reply\<lparr>msg_id := 1, is_reply := True\<rparr>, frame (bad_verb_reply\<lparr>msg_id := 1, is_reply := True\<rparr>), [])"
    by (rule send_locked_once [OF bad_verb_reply_ok(1)])
      (simp_all add: length_frame bad_verb_reply_ok(2) XPC_HEADER_SIZE_def)
  have t: "check_reply (Some bad_verb_reply) = (1, ''error: missing '' @ quoted ''verb'' @ NL)"
    by (simp add: check_reply_def bad_verb_reply_def catbsd_xpc_dictionary_get_int64_def get_scalar_def
        catbsd_xpc_dictionary_get_string_def catbsd_xpc_dictionary_create_def lctl_keys lctl_codes quoted_def)
  obtain acts where c': "catbsd_xpc_connection_create demo_paths demo_connect (Some LCTL_SERVICE_NAME) =
      (Some (conn_alloc 3 (Some LCTL_SERVICE_NAME)), CATBSD_XPC_SUCCESS, acts)" using c by blast
  show ?thesis
    using control_round_trip [OF c' ping_ok s, of "[RecvData (frame (ping\<lparr>msg_id := 1, is_reply := False\<rparr>))]",
        OF _ _ d bad_verb_reply_ok(1) r,
        of "[RecvData (frame (bad_verb_reply\<lparr>msg_id := 1, is_reply := True\<rparr>))]" 4 None "\<lambda>_. ''done''"]
    by (simp add: frame_nonempty t)
qed

section \<open>Boot and shutdown\<close>

lemma apply_args_fields:
  "daemon_dir (config_apply_args args cfg) = daemon_dir cfg"
  "control_socket (config_apply_args args cfg) = control_socket cfg"
  "single_user_shell (config_apply_args args cfg) = single_user_shell cfg"
  "shutdown_timeout_ms (config_apply_args args cfg) = shutdown_timeout_ms cfg"
  "single_user (config_apply_args args cfg) = (single_user cfg \<or> set args \<inter> {''-s'', ''--single-user''} \<noteq> {})"
  "log_level (config_apply_args args cfg) =
     (if set args \<inter> {''-v'', ''--verbose''} \<noteq> {} then 2 else log_level cfg)"
  by (induction args cfg rule: config_apply_args.induct) (auto simp: Let_def)

text \<open>Where a setting comes from.  A flag beats the environment, the environment beats the file,
  the file beats the defaults; single-user mode can only be turned on; the shutdown timeout comes from
  the file alone.\<close>

lemma config_precedence:
  "let file = config_load_file h config_defaults (config_path args); cfg = init_configure h env args in
   daemon_dir cfg = (case env_value env ''CATBSD_INIT_DAEMON_DIR'' of
       Some v \<Rightarrow> strncpy_into 512 v | None \<Rightarrow> daemon_dir file) \<and>
   control_socket cfg = (case env_value env ''CATBSD_INIT_CONTROL_SOCKET'' of
       Some v \<Rightarrow> strncpy_into 512 v | None \<Rightarrow> control_socket file) \<and>
   single_user_shell cfg = (case env_value env ''CATBSD_INIT_SINGLE_USER_SHELL'' of
       Some v \<Rightarrow> strncpy_into 256 v | None \<Rightarrow> single_user_shell file) \<and>
   single_user cfg = (single_user file \<or> set args \<inter> {''-s'', ''--single-user''} \<noteq> {} \<or>
      (case env_value env ''CATBSD_INIT_SINGLE_USER'' of Some v \<Rightarrow> atoi v \<noteq> 0 | None \<Rightarrow> False)) \<and>
   log_level cfg = (if set args \<inter> {''-v'', ''--verbose''} \<noteq> {} then 2
      else case env_value env ''CATBSD_INIT_LOG_LEVEL'' of Some v \<Rightarrow> atoi v | None \<Rightarrow> log_level file) \<and>
   shutdown_timeout_ms cfg = shutdown_timeout_ms file"
  by (auto simp: Let_def init_configure_def apply_args_fields config_apply_env_def merge_string_def
      split: option.splits)

lemma stop_jobs_none: "\<forall>j \<in> set js. j_state j \<noteq> Running \<Longrightarrow> stop_jobs os js t w = Some (js, 0, w)"
  by (induction js) simp_all

lemma shutdown_returns:
  assumes "clock_ok os time" "jobs_ok reg"
  shows "\<exists>n reg' w'. launch_registry_stop_all os reg timeout w = Some (n, reg', w') \<and>
     (\<forall>j \<in> set (jobs reg'). j_state j \<noteq> Running) \<and>
     do_shutdown os reg srv timeout w =
       Some (n, lctl_server_destroy srv, fold (job_free os) (jobs reg') w')"
proof -
  obtain n reg' w' where s: "launch_registry_stop_all os reg timeout w = Some (n, reg', w')"
    "list_all2 (\<lambda>j j'. if j_state j = Running then j_state j' = Stopped \<and> j_pid j' = -1 \<and>
        j_label j' = j_label j else j' = j) (jobs reg) (jobs reg')"
    using stop_all_ends [OF assms, of timeout w] by blast
  have "\<forall>j \<in> set (jobs reg'). j_state j \<noteq> Running"
    using s(2) by (fastforce simp: list_all2_conv_all_nth in_set_conv_nth split: if_splits)
  then show ?thesis
    using s(1) by (auto simp: do_shutdown_def launch_registry_free_def launch_registry_stop_all_def stop_jobs_none)
qed

text \<open>A poll that may not wait finds its deadline over before it looks at the socket.\<close>

lemma poll_zero:
  assumes "clock_monotonic clk"
  shows "lctl_server_poll os h srv reg 0 clk accs rxs txs w =
     Some (if is_listener (srv_listener srv) then 0 else -1, reg, w, [])"
  by (simp add: lctl_server_poll_def catbsd_xpc_connection_accept_def accept_zero_never [OF assms] xpc_codes)

lemma loop_body_no_server:
  "clock_monotonic (ev_clock ev) \<Longrightarrow>
   loop_body os h dir srv ev reload reg w = loop_body os h dir None ev reload reg w"
  by (cases srv) (simp_all add: loop_body_def Let_def poll_zero)

lemma main_loop_no_server:
  "\<forall>ev \<in> set evs. clock_monotonic (ev_clock ev) \<Longrightarrow>
   main_loop os h dir srv sig evs fl reg w = main_loop os h dir None sig evs fl reg w"
  by (induction evs arbitrary: fl reg w)
    (auto simp: loop_body_no_server [of _ os h dir srv] simp del: split_paired_All split: option.splits)

lemma loop_body_returns: "\<exists>r. loop_body os h dir None ev reload reg w = Some r"
  by (simp add: loop_body_def Let_def split: prod.splits)

text \<open>A signal that is handled, or whose default action does not end the process.\<close>

definition harmless :: "(nat \<Rightarrow> bool) \<Rightarrow> loop_event \<Rightarrow> bool" where
  "harmless kills ev =
     list_all (\<lambda>s. s \<in> {SIGTERM, SIGINT, SIGHUP, SIGPIPE} \<or> \<not> kills s) (ev_signals ev)"

lemma main_loop_returns:
  assumes "\<forall>ev \<in> set evs. harmless kills ev"
    and "\<exists>ev \<in> set evs. SIGTERM \<in> set (ev_signals ev) \<or> SIGINT \<in> set (ev_signals ev)"
  shows "\<exists>r. main_loop os h dir None (deliver_all kills (setup_signals tbl)) evs fl reg w = Some r"
  using assms
proof (induction evs arbitrary: fl reg w)
  case (Cons ev evs)
  obtain fl1 where d: "deliver_all kills (setup_signals tbl) (ev_signals ev) fl = Some fl1"
    using deliver_all_some [of "ev_signals ev" kills tbl fl] Cons.prems(1) by (auto simp: harmless_def list_all_iff)
  show ?case
  proof (cases "g_do_shutdown fl1")
    case True
    then show ?thesis using d by simp
  next
    case False
    then have "SIGTERM \<notin> set (ev_signals ev)" "SIGINT \<notin> set (ev_signals ev)"
      using deliver_all_shutdown [OF d] by blast+
    then have "\<exists>r. main_loop os h dir None (deliver_all kills (setup_signals tbl)) evs fl2 reg1 w1 = Some r" for fl2 reg1 w1
      using Cons by auto
    moreover obtain reg1 w1 where "loop_body os h dir None ev (g_do_reload fl1) reg w = Some (reg1, w1)"
      using loop_body_returns [of os h dir ev "g_do_reload fl1" reg w] by auto
    ultimately show ?thesis using d False by simp
  qed
qed simp

text \<open>C33: The process shuts down when told to.  Once a \<^verbatim>\<open>SIGTERM\<close> or \<^verbatim>\<open>SIGINT\<close> comes, among any other signals
  that the process handles or that are ignored by default, the loop ends, every job is stopped however
  long it resists, the server and all jobs are freed, and the process exits with code 0, whatever the
  control socket's clients do.\<close>

theorem init_shuts_down:
  assumes "clock_ok os time" "fork_ok os"
    and "\<not> single_user (init_configure h (iw_environ iw) args)"
    and "daemon_dir (init_configure h (iw_environ iw) args) = Some dir"
    and "control_socket (init_configure h (iw_environ iw) args) = Some control"
    and "\<forall>ev \<in> set evs. harmless (iw_kills iw) ev \<and> clock_monotonic (ev_clock ev)"
    and "\<exists>ev \<in> set evs. SIGTERM \<in> set (ev_signals ev) \<or> SIGINT \<in> set (ev_signals ev)"
  shows "\<exists>reg srv w1 reg1 w2 n reg2 w3.
     boot os h env sos (init_configure h (iw_environ iw) args) dir control
       (mount_essential (iw_system iw) (iw_pid iw) w) = (reg, srv, w1) \<and>
     main_loop os h dir srv (deliver_all (iw_kills iw) (setup_signals (iw_signals iw))) evs
       \<lparr>g_do_shutdown = False, g_do_reload = False\<rparr> reg w1 = Some (reg1, w2) \<and>
     launch_registry_stop_all os reg1 (shutdown_timeout_ms (init_configure h (iw_environ iw) args)) w2 =
       Some (n, reg2, w3) \<and>
     (\<forall>j \<in> set (jobs reg2). j_state j \<noteq> Running) \<and>
     init_main os h env sos iw args evs w =
       Some (0, lctl_server_destroy srv, fold (job_free os) (jobs reg2) w3)"
proof -
  let ?cfg = "init_configure h (iw_environ iw) args"
  let ?sig = "deliver_all (iw_kills iw) (setup_signals (iw_signals iw))"
  let ?fl = "\<lparr>g_do_shutdown = False, g_do_reload = False\<rparr>"
  obtain reg srv w1 where b: "boot os h env sos ?cfg dir control (mount_essential (iw_system iw) (iw_pid iw) w) =
      (reg, srv, w1)" by (metis prod.exhaust)
  obtain reg1 w2 where m: "main_loop os h dir srv ?sig evs ?fl reg w1 = Some (reg1, w2)"
    using main_loop_returns [OF _ assms(7), of "iw_kills iw" os h dir "iw_signals iw" ?fl reg w1]
      main_loop_no_server [of evs os h dir srv ?sig ?fl reg w1] assms(6) by auto
  have "jobs_ok reg1" by (rule main_loop_ok [OF assms(2) boot_ok [OF assms(2) b] _ m]) simp
  then obtain n reg2 w3 where s: "launch_registry_stop_all os reg1 (shutdown_timeout_ms ?cfg) w2 = Some (n, reg2, w3)"
    "\<forall>j \<in> set (jobs reg2). j_state j \<noteq> Running"
    "do_shutdown os reg1 srv (shutdown_timeout_ms ?cfg) w2 =
       Some (n, lctl_server_destroy srv, fold (job_free os) (jobs reg2) w3)"
    using shutdown_returns [OF assms(1)] by blast
  have "init_main os h env sos iw args evs w = Some (0, lctl_server_destroy srv, fold (job_free os) (jobs reg2) w3)"
    using assms(3-5) b m s(3) by (simp add: init_main_def Let_def)
  then show ?thesis using b m s(1,2) by blast
qed

lemma demo_clock_monotonic: "clock_monotonic (\<lambda>k. (int k, 0))"
  by (auto simp: clock_monotonic_def)

definition demo_init :: "nat init_world" where
  "demo_init = \<lparr>iw_environ = [], iw_pid = 1, iw_system = (\<lambda>c t. (0, t + 1)), iw_signals = (\<lambda>_. SigDefault),
     iw_kills = (\<lambda>_. True), iw_shell = \<lparr>sh_fork = -1, sh_junk = ExitCode 0, sh_waits = []\<rparr>\<rparr>"

theorem init_shuts_down_witness:
  "\<exists>acts w'. init_main (demo_os StillAlive) (demo_host\<lparr>h_file := \<lambda>p. CannotOpen ''''\<rparr>) demo_paths demo_sockets
     demo_init [''-v''] [(demo_event False)\<lparr>ev_accepts := [AcceptPeer 7]\<rparr>,
       demo_event True] 50 = Some (0, acts, w')"
proof -
  let ?h = "demo_host\<lparr>h_file := \<lambda>p. CannotOpen ''''\<rparr>"
  let ?evs = "[(demo_event False)\<lparr>ev_accepts := [AcceptPeer 7]\<rparr>, demo_event True]"
  have c: "init_configure ?h [] [''-v''] = config_defaults\<lparr>log_level := 2\<rparr>"
    by (simp add: init_configure_def config_path_def config_load_file_def plist_parse_file_def
        config_apply_env_def env_value_def merge_string_def config_defaults_def)
  have 1: "\<not> single_user (init_configure ?h (iw_environ demo_init) [''-v''])"
    by (simp add: demo_init_def c config_defaults_def)
  have 2: "daemon_dir (init_configure ?h (iw_environ demo_init) [''-v'']) = Some ''/etc/catbsd/daemons''"
    by (simp add: demo_init_def c config_defaults_def strncpy_into_def)
  have 3: "control_socket (init_configure ?h (iw_environ demo_init) [''-v'']) = Some []"
    by (simp add: demo_init_def c config_defaults_def)
  have 4: "\<forall>ev \<in> set ?evs. harmless (iw_kills demo_init) ev \<and> clock_monotonic (ev_clock ev)"
    by (simp add: demo_event_def demo_clock_monotonic harmless_def)
  have 5: "\<exists>ev \<in> set ?evs. SIGTERM \<in> set (ev_signals ev) \<or> SIGINT \<in> set (ev_signals ev)"
    by (simp add: demo_event_def)
  from init_shuts_down [OF demo_os_clock demo_os_fork 1 2 3 4 5] show ?thesis by blast
qed

text \<open>C34: The supervisor never answers its control socket.  The loop polls with a timeout of 0; the
  deadline is then over before the socket is looked at, so a loop with a server behaves as a loop
  without one, whoever waits to connect.  With a timeout that is not over at the first look, the same
  client is answered.\<close>

theorem init_never_accepts:
  assumes "\<forall>ev \<in> set evs. clock_monotonic (ev_clock ev)"
  shows "main_loop os h dir srv sig evs fl reg w = main_loop os h dir None sig evs fl reg w \<and>
     (is_listener (srv_listener s) \<and> deadline_remaining_ms (deadline_set (clk 0) t) (clk 1) \<noteq> -2 \<longrightarrow>
      lctl_server_poll os h s reg t clk [AcceptPeer p] rxs txs w =
        map_option (\<lambda>(reg', w', sent, acts). (1, reg', w', sent))
          (handle_request os h reg (conn_alloc p (name (srv_listener s))) rxs txs w))"
  using main_loop_no_server [OF assms]
  by (auto simp: lctl_server_poll_def catbsd_xpc_connection_accept_def)

theorem init_never_accepts_witness:
  "main_loop (demo_os StillAlive) demo_host ''/d''
     (Some \<lparr>srv_listener = (conn_alloc 5 None)\<lparr>is_listener := True\<rparr>, srv_socket_path = ''ctl''\<rparr>)
     demo_signals [(demo_event False)\<lparr>ev_accepts := [AcceptPeer 7], ev_rxs := [RecvEof]\<rparr>, demo_event True] demo_flags launch_registry_create 50 =
   main_loop (demo_os StillAlive) demo_host ''/d'' None demo_signals
     [(demo_event False)\<lparr>ev_accepts := [AcceptPeer 7], ev_rxs := [RecvEof]\<rparr>, demo_event True] demo_flags launch_registry_create 50"
  by (rule init_never_accepts [THEN conjunct1]) (simp add: demo_event_def demo_clock_monotonic)

end
