(* ===== verification/Defaults.thy ===== *)
theory Defaults
  imports Prelude
begin

text \<open>
  The preference tool, \<^verbatim>\<open>src/src/darwin-compat/defaults-demo/defaults-demo.c\<close>: a domain is a property
  list file whose dictionary is edited as an XML tree of libxml2.

  The tree is what the code walks: elements with a name and children, text, and other nodes (comments and
  the like).  Attributes play no part.  The functions of libxml2, the files and the directories are fields
  of a record.  The messages to the user are left out; what \<^verbatim>\<open>read\<close> prints is a result.
\<close>

section \<open>The tree and the system\<close>

datatype xml = XElem string "xml list" | XText string | XOther string

fun is_elem :: "xml \<Rightarrow> bool" where
  "is_elem (XElem nm cs) = True"
| "is_elem (XText s) = False"
| "is_elem (XOther s) = False"

definition is_named :: "string \<Rightarrow> xml \<Rightarrow> bool" where
  "is_named nm n = (case n of XElem nm' cs \<Rightarrow> nm' = nm | _ \<Rightarrow> False)"

text \<open>A document is its root element, if it has one; \<open>x_read\<close> gives \<open>None\<close> for a file that is no XML.\<close>

type_synonym xml_doc = "xml option"

record 'w prefs_env =
  p_home :: "string option"
  p_stat :: "string \<Rightarrow> 'w \<Rightarrow> bool"
  p_mkdir :: "string \<Rightarrow> 'w \<Rightarrow> bool \<times> 'w"
  p_access :: "string \<Rightarrow> 'w \<Rightarrow> bool"
  x_read :: "string \<Rightarrow> 'w \<Rightarrow> xml_doc option"
  x_save :: "string \<Rightarrow> xml \<Rightarrow> 'w \<Rightarrow> bool \<times> 'w"
  x_content :: "xml \<Rightarrow> string"
  x_child :: "string \<Rightarrow> string option \<Rightarrow> xml"

section \<open>Paths\<close>

definition PREFS_DIR :: string where "PREFS_DIR = ''Library/Preferences''"
definition MAX_PATH :: nat where "MAX_PATH = 1024"

definition get_prefs_dir :: "'w prefs_env \<Rightarrow> nat \<Rightarrow> 'w \<Rightarrow> string option \<times> 'w" where
  "get_prefs_dir env len w =
     (case p_home env of
        None \<Rightarrow> (None, w)
      | Some home \<Rightarrow>
          let path = snprintf_s len (home @ ''/'' @ PREFS_DIR) in
          if p_stat env path w then (Some path, w)
          else (case p_mkdir env path w of (ok, w1) \<Rightarrow> (if ok then Some path else None, w1)))"

definition get_plist_path :: "'w prefs_env \<Rightarrow> string \<Rightarrow> nat \<Rightarrow> 'w \<Rightarrow> string option \<times> 'w" where
  "get_plist_path env domain len w =
     (case get_prefs_dir env MAX_PATH w of
        (None, w1) \<Rightarrow> (None, w1)
      | (Some dir, w1) \<Rightarrow> (Some (snprintf_s len (dir @ ''/'' @ domain @ ''.plist'')), w1))"

section \<open>The dictionary of a document\<close>

definition create_plist_doc :: "'w prefs_env \<Rightarrow> xml_doc" where
  "create_plist_doc env = Some (XElem ''plist'' [x_child env ''dict'' None])"

text \<open>The first \<^verbatim>\<open>dict\<close> below the root: what precedes it, its children, and what follows it.\<close>

fun split_dict :: "xml list \<Rightarrow> (xml list \<times> xml list \<times> xml list) option" where
  "split_dict [] = None"
| "split_dict (n # ns) =
     (case n of
        XElem nm cs \<Rightarrow>
          if nm = ''dict'' then Some ([], cs, ns)
          else map_option (\<lambda>(b, d, a). (n # b, d, a)) (split_dict ns)
      | _ \<Rightarrow> map_option (\<lambda>(b, d, a). (n # b, d, a)) (split_dict ns))"

definition get_dict_node :: "xml_doc \<Rightarrow> (string \<times> xml list \<times> xml list \<times> xml list) option" where
  "get_dict_node doc =
     (case doc of
        Some (XElem root cs) \<Rightarrow> map_option (\<lambda>(b, d, a). (root, b, d, a)) (split_dict cs)
      | _ \<Rightarrow> None)"

definition put_dict :: "string \<times> xml list \<times> xml list \<times> xml list \<Rightarrow> xml list \<Rightarrow> xml" where
  "put_dict r d' = (case r of (root, b, d, a) \<Rightarrow> XElem root (b @ XElem ''dict'' d' # a))"

text \<open>The walk to the next element: it is unlinked, or it is the value.\<close>

fun drop_elem :: "xml list \<Rightarrow> xml list" where
  "drop_elem [] = []"
| "drop_elem (n # ns) = (if is_elem n then ns else n # drop_elem ns)"

fun first_elem :: "xml list \<Rightarrow> xml option" where
  "first_elem [] = None"
| "first_elem (n # ns) = (if is_elem n then Some n else first_elem ns)"

text \<open>The search loop of \<^verbatim>\<open>write_pref\<close> and \<^verbatim>\<open>delete_pref\<close>, and whether the key was there.\<close>

fun remove_key :: "(xml \<Rightarrow> string) \<Rightarrow> string \<Rightarrow> xml list \<Rightarrow> xml list \<times> bool" where
  "remove_key getc key [] = ([], False)"
| "remove_key getc key (n # ns) =
     (if is_named ''key'' n \<and> getc n = key then (drop_elem ns, True)
      else (case remove_key getc key ns of (ns', found) \<Rightarrow> (n # ns', found)))"

text \<open>The search loop of \<^verbatim>\<open>read_pref\<close>; the first node with the key ends it.\<close>

fun find_value :: "(xml \<Rightarrow> string) \<Rightarrow> string \<Rightarrow> xml list \<Rightarrow> string option" where
  "find_value getc key [] = None"
| "find_value getc key (n # ns) =
     (if is_named ''key'' n \<and> getc n = key then map_option getc (first_elem ns)
      else find_value getc key ns)"

section \<open>The commands\<close>

definition write_pref :: "'w prefs_env \<Rightarrow> string \<Rightarrow> string \<Rightarrow> string \<Rightarrow> 'w \<Rightarrow> int \<times> 'w" where
  "write_pref env domain key value w =
     (case get_plist_path env domain MAX_PATH w of
        (None, w1) \<Rightarrow> (-1, w1)
      | (Some path, w1) \<Rightarrow>
          let doc = (case (if p_access env path w1 then x_read env path w1 else None) of
                       None \<Rightarrow> create_plist_doc env
                     | Some d \<Rightarrow> d) in
          case get_dict_node doc of
            None \<Rightarrow> (-1, w1)
          | Some (root, b, d, a) \<Rightarrow>
              (case x_save env path
                      (put_dict (root, b, d, a)
                        (fst (remove_key (x_content env) key d) @
                         [x_child env ''key'' (Some key), x_child env ''string'' (Some value)])) w1 of
                 (ok, w2) \<Rightarrow> (if ok then 0 else -1, w2)))"

text \<open>The dictionary that \<^verbatim>\<open>read_pref\<close> and \<^verbatim>\<open>delete_pref\<close> work on.\<close>

definition open_domain ::
  "'w prefs_env \<Rightarrow> string \<Rightarrow> 'w \<Rightarrow> (string \<times> string \<times> xml list \<times> xml list \<times> xml list) option \<times> 'w" where
  "open_domain env domain w =
     (case get_plist_path env domain MAX_PATH w of
        (None, w1) \<Rightarrow> (None, w1)
      | (Some path, w1) \<Rightarrow>
          if \<not> p_access env path w1 then (None, w1)
          else
            (case x_read env path w1 of
               None \<Rightarrow> (None, w1)
             | Some doc \<Rightarrow> (map_option (\<lambda>r. (path, r)) (get_dict_node doc), w1)))"

definition read_pref :: "'w prefs_env \<Rightarrow> string \<Rightarrow> string \<Rightarrow> 'w \<Rightarrow> int \<times> string option \<times> 'w" where
  "read_pref env domain key w =
     (case open_domain env domain w of
        (None, w1) \<Rightarrow> (-1, None, w1)
      | (Some (path, root, b, d, a), w1) \<Rightarrow>
          (case find_value (x_content env) key d of
             None \<Rightarrow> (-1, None, w1)
           | Some v \<Rightarrow> (0, Some v, w1)))"

definition delete_pref :: "'w prefs_env \<Rightarrow> string \<Rightarrow> string \<Rightarrow> 'w \<Rightarrow> int \<times> 'w" where
  "delete_pref env domain key w =
     (case open_domain env domain w of
        (None, w1) \<Rightarrow> (-1, w1)
      | (Some (path, root, b, d, a), w1) \<Rightarrow>
          (case remove_key (x_content env) key d of
             (d', found) \<Rightarrow>
               if \<not> found then (-1, w1)
               else (case x_save env path (put_dict (root, b, d, a) d') w1 of
                       (ok, w2) \<Rightarrow> (if ok then 0 else -1, w2))))"

text \<open>The command \<^verbatim>\<open>domains\<close> runs, with the directory unquoted.\<close>

definition list_domains :: "'w prefs_env \<Rightarrow> 'w \<Rightarrow> int \<times> string option \<times> 'w" where
  "list_domains env w =
     (case get_prefs_dir env MAX_PATH w of
        (None, w1) \<Rightarrow> (-1, None, w1)
      | (Some dir, w1) \<Rightarrow>
          (0, Some (snprintf_s (MAX_PATH + 50)
                 (''ls -1 '' @ dir @ ''/*.plist 2>/dev/null | sed '' @ [CHR 0x27] @ ''s/.*'' @ [CHR 0x5C] @
                  ''///;s/'' @ [CHR 0x5C] @ ''.plist$//'' @ [CHR 0x27])), w1))"

text \<open>\<^verbatim>\<open>main\<close>: the arguments after the program name; the result, what it prints or runs, and the world.\<close>

definition defaults_main :: "'w prefs_env \<Rightarrow> string list \<Rightarrow> 'w \<Rightarrow> int \<times> string option \<times> 'w" where
  "defaults_main env args w =
     (case args of
        [] \<Rightarrow> (1, None, w)
      | cmd # rest \<Rightarrow>
          if cmd = ''write'' then
            (if length rest < 3 then (1, None, w)
             else (case write_pref env (rest ! 0) (rest ! 1) (rest ! 2) w of (rc, w') \<Rightarrow> (rc, None, w')))
          else if cmd = ''read'' then
            (if length rest < 2 then (1, None, w) else read_pref env (rest ! 0) (rest ! 1) w)
          else if cmd = ''delete'' then
            (if length rest < 2 then (1, None, w)
             else (case delete_pref env (rest ! 0) (rest ! 1) w of (rc, w') \<Rightarrow> (rc, None, w')))
          else if cmd = ''domains'' then list_domains env w
          else (1, None, w))"

end
