(* ===== verification/Defaults_Props.thy ===== *)
theory Defaults_Props
  imports Defaults
begin

text \<open>
  What the preference tool relies on of libxml2 and of the file system, and lemmas on the walk over the
  children of a dictionary: seen as pairs of a key and a value, a write is an update and a deletion
  removes the pair.
\<close>

section \<open>Documented behaviour of the environment\<close>

text \<open>Printable ASCII text without the characters that XML reserves in character data.\<close>

definition printable :: "string \<Rightarrow> bool" where
  "printable s = (\<forall>c \<in> set s. 32 \<le> (of_char c :: nat) \<and> (of_char c :: nat) < 127)"

definition plain :: "string \<Rightarrow> bool" where
  "plain s = (printable s \<and> CHR ''&'' \<notin> set s \<and> CHR ''<'' \<notin> set s)"

fun xml_escape :: "string \<Rightarrow> string" where
  "xml_escape [] = []"
| "xml_escape (c # s) =
     (if c = CHR ''&'' then ''&amp;'' else if c = CHR ''<'' then ''&lt;'' else [c]) @ xml_escape s"

lemma xml_escape_plain: "plain s \<Longrightarrow> xml_escape s = s"
  by (induction s) (auto simp: plain_def printable_def)

text \<open>The elements of a dictionary by name and content; what a saved file keeps.\<close>

definition elems :: "xml list \<Rightarrow> xml list" where
  "elems ns = filter is_elem ns"

fun elem_name :: "xml \<Rightarrow> string" where
  "elem_name (XElem nm cs) = nm"
| "elem_name (XText s) = []"
| "elem_name (XOther s) = []"

definition outline :: "(xml \<Rightarrow> string) \<Rightarrow> xml list \<Rightarrow> (string \<times> string) list" where
  "outline getc ns = map (\<lambda>n. (elem_name n, getc n)) (elems ns)"

text \<open>An element that holds no element.\<close>

fun leaf :: "xml \<Rightarrow> bool" where
  "leaf (XElem nm cs) = (\<forall>c \<in> set cs. \<not> is_elem c)"
| "leaf (XText s) = True"
| "leaf (XOther s) = True"

definition dict_of :: "xml_doc \<Rightarrow> xml list option" where
  "dict_of doc = map_option (\<lambda>(root, b, d, a). d) (get_dict_node doc)"

text \<open>\<^verbatim>\<open>xmlNewChild\<close> takes its content with the special characters escaped.\<close>

definition child_law :: "'w prefs_env \<Rightarrow> bool" where
  "child_law env =
     ((\<forall>nm s. printable s \<longrightarrow> x_content env (x_child env nm (Some (xml_escape s))) = s) \<and>
      (\<forall>nm. x_child env nm None = XElem nm []) \<and>
      (\<forall>nm s. \<exists>cs. x_child env nm (Some s) = XElem nm cs \<and> leaf (XElem nm cs)))"

text \<open>A save, if it succeeds, can be read back, with the same elements in the dictionary, as long as
  these are leaves with printable contents; only elements that hold elements are indented.\<close>

definition save_law :: "'w prefs_env \<Rightarrow> bool" where
  "save_law env =
     (\<forall>p t w w' d. x_save env p t w = (True, w') \<longrightarrow> dict_of (Some t) = Some d \<longrightarrow>
        (\<forall>e \<in> set (outline (x_content env) d). printable (snd e)) \<longrightarrow> (\<forall>n \<in> set d. leaf n) \<longrightarrow>
        p_access env p w' \<and>
        (\<exists>t' d'. x_read env p w' = Some (Some t') \<and> dict_of (Some t') = Some d' \<and> (\<forall>n \<in> set d'. leaf n) \<and>
           outline (x_content env) d' = outline (x_content env) d))"

text \<open>Directories stay where they are, and making one leaves the files alone.\<close>

definition dir_law :: "'w prefs_env \<Rightarrow> bool" where
  "dir_law env =
     ((\<forall>p t w ok w' d. x_save env p t w = (ok, w') \<longrightarrow> p_stat env d w \<longrightarrow> p_stat env d w') \<and>
      (\<forall>d w ok w' p. p_mkdir env d w = (ok, w') \<longrightarrow>
         (ok \<longrightarrow> p_stat env d w') \<and> p_access env p w' = p_access env p w \<and> x_read env p w' = x_read env p w))"

definition xml_ok :: "'w prefs_env \<Rightarrow> bool" where
  "xml_ok env = (child_law env \<and> save_law env \<and> dir_law env)"

section \<open>The walk, on outlines\<close>

fun out_find :: "string \<Rightarrow> (string \<times> string) list \<Rightarrow> string option" where
  "out_find k [] = None"
| "out_find k ((nm, s) # es) =
     (if nm = ''key'' \<and> s = k then (case es of [] \<Rightarrow> None | e # es' \<Rightarrow> Some (snd e)) else out_find k es)"

fun out_remove :: "string \<Rightarrow> (string \<times> string) list \<Rightarrow> (string \<times> string) list" where
  "out_remove k [] = []"
| "out_remove k ((nm, s) # es) =
     (if nm = ''key'' \<and> s = k then List.tl es else (nm, s) # out_remove k es)"

lemma is_named_elem: "is_named nm n = (is_elem n \<and> elem_name n = nm)"
  by (cases n) (auto simp: is_named_def)

lemma outline_simps [simp]:
  "outline getc [] = []"
  "outline getc (n # ns) = (if is_elem n then [(elem_name n, getc n)] else []) @ outline getc ns"
  "outline getc (xs @ ys) = outline getc xs @ outline getc ys"
  by (auto simp: outline_def elems_def)

lemma first_elem_outline:
  "map_option getc (first_elem ns) = (case outline getc ns of [] \<Rightarrow> None | e # es \<Rightarrow> Some (snd e))"
  by (induction ns) auto

lemma drop_elem_outline: "outline getc (drop_elem ns) = List.tl (outline getc ns)"
  by (induction ns) auto

lemma find_value_outline: "find_value getc k ns = out_find k (outline getc ns)"
  by (induction ns) (auto simp: is_named_elem first_elem_outline)

lemma remove_key_outline: "outline getc (fst (remove_key getc k ns)) = out_remove k (outline getc ns)"
  by (induction ns) (auto simp: is_named_elem drop_elem_outline split: prod.splits)

lemma remove_key_found: "snd (remove_key getc k ns) = ((''key'', k) \<in> set (outline getc ns))"
  by (induction ns) (auto simp: is_named_elem split: prod.splits)

section \<open>Pairs\<close>

text \<open>A well-formed dictionary: keys and values take turns, no key twice.\<close>

definition out_pairs :: "(string \<times> string \<times> string) list \<Rightarrow> (string \<times> string) list" where
  "out_pairs ps = concat (map (\<lambda>(k, t, v). [(''key'', k), (t, v)]) ps)"

definition pairs_ok :: "(string \<times> string \<times> string) list \<Rightarrow> bool" where
  "pairs_ok ps = (distinct (map fst ps) \<and>
     (\<forall>(k, t, v) \<in> set ps. t \<noteq> ''key'' \<and> printable k \<and> printable v))"

definition pairs_map :: "(string \<times> string \<times> string) list \<Rightarrow> string \<rightharpoonup> string" where
  "pairs_map ps = map_of (map (\<lambda>(k, t, v). (k, v)) ps)"

lemma out_pairs_simps [simp]:
  "out_pairs [] = []" "out_pairs ((k, t, v) # ps) = (''key'', k) # (t, v) # out_pairs ps"
  "out_pairs (ps @ qs) = out_pairs ps @ out_pairs qs"
  by (simp_all add: out_pairs_def)

lemma out_find_pairs: "\<forall>(k, t, v) \<in> set ps. t \<noteq> ''key'' \<Longrightarrow> out_find k (out_pairs ps) = pairs_map ps k"
  by (induction ps) (auto simp: pairs_map_def)

lemma out_remove_pairs:
  "pairs_ok ps \<Longrightarrow> out_remove k (out_pairs ps) = out_pairs (filter (\<lambda>p. fst p \<noteq> k) ps)"
proof (induction ps)
  case (Cons p ps)
  obtain k' t v where p: "p = (k', t, v)" by (cases p) auto
  have ok: "pairs_ok ps" "t \<noteq> ''key''" "k' \<notin> fst ` set ps" using Cons.prems by (auto simp: pairs_ok_def p)
  show ?case
  proof (cases "k' = k")
    case True
    then have "filter (\<lambda>p. fst p \<noteq> k) ps = ps" using ok(3) by (intro filter_True) force
    then show ?thesis using True by (simp add: p)
  qed (use Cons.IH [OF ok(1)] ok(2) in \<open>simp add: p\<close>)
qed simp

lemma pairs_map_remove: "pairs_map (filter (\<lambda>p. fst p \<noteq> k) ps) = (pairs_map ps)(k := None)"
  by (induction ps) (auto simp: pairs_map_def fun_eq_iff)

lemma pairs_map_write: "pairs_map (filter (\<lambda>p. fst p \<noteq> k) ps @ [(k, t, v)]) = (pairs_map ps)(k \<mapsto> v)"
proof -
  have "pairs_map (qs @ [(k, t, v)]) = (\<lambda>l. if l = k \<and> pairs_map qs k = None then Some v else pairs_map qs l)" for qs
    by (auto simp: pairs_map_def map_add_def fun_eq_iff split: option.splits)
  then show ?thesis by (simp add: pairs_map_remove fun_eq_iff)
qed

lemma pairs_map_dom: "dom (pairs_map ps) = fst ` set ps"
proof (induction ps)
  case (Cons p ps)
  have "pairs_map (p # ps) = (pairs_map ps)(fst p \<mapsto> snd (snd p))"
    by (cases p) (simp add: pairs_map_def)
  then have "dom (pairs_map (p # ps)) = insert (fst p) (dom (pairs_map ps))" by (simp only: dom_fun_upd) simp
  then show ?case using Cons by simp
qed (simp add: pairs_map_def)

lemma pairs_ok_remove: "pairs_ok ps \<Longrightarrow> pairs_ok (filter (\<lambda>p. fst p \<noteq> k) ps)"
  by (auto simp: pairs_ok_def distinct_map_filter)

lemma pairs_ok_write:
  "pairs_ok ps \<Longrightarrow> printable k \<Longrightarrow> printable v \<Longrightarrow> t \<noteq> ''key'' \<Longrightarrow>
   pairs_ok (filter (\<lambda>p. fst p \<noteq> k) ps @ [(k, t, v)])"
  by (auto simp: pairs_ok_def distinct_map_filter)

lemma out_pairs_printable: "pairs_ok ps \<Longrightarrow> e \<in> set (out_pairs ps) \<Longrightarrow> printable (snd e)"
  by (induction ps) (auto simp: pairs_ok_def)

section \<open>Domains\<close>

text \<open>The file of a domain holds these pairs; a domain without a file holds none.\<close>

definition domain_rep :: "'w prefs_env \<Rightarrow> string \<Rightarrow> 'w \<Rightarrow> (string \<times> string \<times> string) list \<Rightarrow> bool" where
  "domain_rep env domain w ps =
     (pairs_ok ps \<and>
      (\<exists>path w1. get_plist_path env domain MAX_PATH w = (Some path, w1) \<and>
         (if p_access env path w1
          then \<exists>doc d. x_read env path w1 = Some doc \<and> dict_of doc = Some d \<and> (\<forall>n \<in> set d. leaf n) \<and>
                 outline (x_content env) d = out_pairs ps
          else ps = [])))"

text \<open>The directory of a path that was found is there from then on, so the path is found again.\<close>

lemma get_plist_path_again:
  assumes "dir_law env" "get_plist_path env domain n w = (Some path, w1)"
  shows "get_plist_path env domain n w1 = (Some path, w1)"
    and "x_save env p t w1 = (ok, w2) \<Longrightarrow> get_plist_path env domain n w2 = (Some path, w2)"
proof -
  obtain dir where d: "get_prefs_dir env MAX_PATH w = (Some dir, w1)"
    "path = snprintf_s n (dir @ ''/'' @ domain @ ''.plist'')"
    using assms(2) by (auto simp: get_plist_path_def split: prod.splits option.splits)
  then obtain home where h: "p_home env = Some home" "dir = snprintf_s MAX_PATH (home @ ''/'' @ PREFS_DIR)"
    by (auto simp: get_prefs_dir_def Let_def split: option.splits prod.splits if_splits)
  have s: "p_stat env dir w1"
    using d(1) h assms(1)
    by (auto simp: get_prefs_dir_def dir_law_def Let_def split: prod.splits if_splits)
  then show "get_plist_path env domain n w1 = (Some path, w1)"
    using h d(2) by (simp add: get_plist_path_def get_prefs_dir_def)
  assume x: "x_save env p t w1 = (ok, w2)"
  have "p_stat env dir w2" using s x assms(1) unfolding dir_law_def by blast
  then show "get_plist_path env domain n w2 = (Some path, w2)"
    using h d(2) by (simp add: get_plist_path_def get_prefs_dir_def)
qed

lemma split_dict_put: "split_dict cs = Some (b, d, a) \<Longrightarrow> split_dict (b @ XElem ''dict'' d' # a) = Some (b, d', a)"
  by (induction cs arbitrary: b) (auto split: xml.splits if_splits)

lemma get_put_dict: "get_dict_node doc = Some r \<Longrightarrow> dict_of (Some (put_dict r d')) = Some d'"
  by (cases r) (auto simp: get_dict_node_def put_dict_def dict_of_def split_dict_put
      split: option.splits xml.splits)

lemma drop_elem_subset: "set (drop_elem ns) \<subseteq> set ns"
  by (induction ns) auto

lemma remove_key_subset: "set (fst (remove_key getc k ns)) \<subseteq> set ns"
proof (induction ns)
  case (Cons n ns)
  then show ?case using drop_elem_subset [of ns] by (auto split: prod.splits)
qed simp

text \<open>What a successful save of a dictionary leaves.\<close>

lemma save_rep:
  assumes "xml_ok env" "get_plist_path env domain MAX_PATH w = (Some path, w1)"
    and "get_dict_node doc = Some r" "x_save env path (put_dict r d) w1 = (True, w2)"
    and "\<forall>n \<in> set d. leaf n" "outline (x_content env) d = out_pairs ps" "pairs_ok ps"
  shows "domain_rep env domain w2 ps"
proof -
  have "dict_of (Some (put_dict r d)) = Some d" using get_put_dict [OF assms(3)] .
  moreover have "\<forall>e \<in> set (outline (x_content env) d). printable (snd e)"
    using out_pairs_printable [OF assms(7)] assms(6) by simp
  ultimately have "p_access env path w2 \<and> (\<exists>t' d'. x_read env path w2 = Some (Some t') \<and>
      dict_of (Some t') = Some d' \<and> (\<forall>n \<in> set d'. leaf n) \<and>
      outline (x_content env) d' = outline (x_content env) d)"
    using assms(1,4,5) unfolding xml_ok_def save_law_def by blast
  moreover have "get_plist_path env domain MAX_PATH w2 = (Some path, w2)"
    using get_plist_path_again(2) [OF _ assms(2,4)] assms(1) by (simp add: xml_ok_def)
  ultimately show ?thesis using assms(6,7) unfolding domain_rep_def by auto
qed

lemma open_domain_rep:
  assumes "domain_rep env domain w ps"
  obtains path w1 where "get_plist_path env domain MAX_PATH w = (Some path, w1)"
    "\<not> p_access env path w1" "ps = []" "open_domain env domain w = (None, w1)"
  | path w1 doc root b d a where "get_plist_path env domain MAX_PATH w = (Some path, w1)"
    "p_access env path w1" "x_read env path w1 = Some doc" "get_dict_node doc = Some (root, b, d, a)"
    "\<forall>n \<in> set d. leaf n" "outline (x_content env) d = out_pairs ps"
    "open_domain env domain w = (Some (path, root, b, d, a), w1)"
proof -
  obtain path w1 where p: "get_plist_path env domain MAX_PATH w = (Some path, w1)"
    "if p_access env path w1
     then \<exists>doc d. x_read env path w1 = Some doc \<and> dict_of doc = Some d \<and> (\<forall>n \<in> set d. leaf n) \<and>
            outline (x_content env) d = out_pairs ps
     else ps = []"
    using assms unfolding domain_rep_def by blast
  show thesis
  proof (cases "p_access env path w1")
    case True
    then obtain doc d where r: "x_read env path w1 = Some doc" "dict_of doc = Some d"
      "\<forall>n \<in> set d. leaf n" "outline (x_content env) d = out_pairs ps" using p(2) by auto
    obtain root b a where g: "get_dict_node doc = Some (root, b, d, a)"
      using r(2) by (auto simp: dict_of_def)
    show thesis
      using \<open>p_access env path w1\<close> p(1) r g by (intro that(2)) (auto simp: open_domain_def)
  next
    case False
    then show thesis using p by (intro that(1)) (auto simp: open_domain_def)
  qed
qed

lemma read_rep:
  assumes "domain_rep env domain w ps"
  shows "\<exists>w1. read_pref env domain k w =
     (case pairs_map ps k of Some v \<Rightarrow> (0, Some v, w1) | None \<Rightarrow> (-1, None, w1))"
proof -
  have t: "\<forall>(k, t, v) \<in> set ps. t \<noteq> ''key''" using assms by (auto simp: domain_rep_def pairs_ok_def)
  from assms show ?thesis
  proof (cases rule: open_domain_rep)
    case (1 path w1)
    then show ?thesis by (simp add: read_pref_def pairs_map_def)
  next
    case (2 path w1 doc root b d a)
    then show ?thesis
      by (auto simp: read_pref_def find_value_outline out_find_pairs [OF t] split: option.split)
  qed
qed

lemma delete_rep:
  assumes "xml_ok env" "domain_rep env domain w ps" "delete_pref env domain k w = (0, w')"
  shows "k \<in> fst ` set ps \<and> domain_rep env domain w' (filter (\<lambda>p. fst p \<noteq> k) ps)"
  using assms(2)
proof (cases rule: open_domain_rep)
  case (2 path w1 doc root b d a)
  have ok: "pairs_ok ps" using assms(2) by (simp add: domain_rep_def)
  obtain d' found where r: "remove_key (x_content env) k d = (d', found)" by fastforce
  have s: "found" "x_save env path (put_dict (root, b, d, a) d') w1 = (True, w')"
    using assms(3) 2(7) r by (auto simp: delete_pref_def split: if_splits prod.splits)
  have o: "outline (x_content env) d' = out_pairs (filter (\<lambda>p. fst p \<noteq> k) ps)"
    using remove_key_outline [of "x_content env" k d] r 2(6) out_remove_pairs [OF ok] by simp
  have "\<forall>n \<in> set d'. leaf n" using remove_key_subset [of "x_content env" k d] r 2(5) by auto
  then have "domain_rep env domain w' (filter (\<lambda>p. fst p \<noteq> k) ps)"
    by (rule save_rep [OF assms(1) 2(1,4) s(2) _ o pairs_ok_remove [OF ok]])
  moreover have "(''key'', k) \<in> set (out_pairs ps)"
    using remove_key_found [of "x_content env" k d] r s(1) 2(6) by simp
  moreover have "(''key'', k) \<in> set (out_pairs qs) \<Longrightarrow> pairs_ok qs \<Longrightarrow> k \<in> fst ` set qs" for qs
    by (induction qs) (auto simp: pairs_ok_def)
  ultimately show ?thesis using ok by blast
qed (use assms(3) in \<open>simp add: delete_pref_def\<close>)

lemma write_rep:
  assumes "xml_ok env" "domain_rep env domain w ps" "plain k" "printable v"
    and "write_pref env domain k (xml_escape v) w = (0, w')"
  shows "domain_rep env domain w' (filter (\<lambda>p. fst p \<noteq> k) ps @ [(k, ''string'', v)])"
proof -
  have ok: "pairs_ok ps" using assms(2) by (simp add: domain_rep_def)
  have k: "printable k" "xml_escape k = k" using assms(3) by (simp_all add: plain_def xml_escape_plain)
  let ?new = "[x_child env ''key'' (Some k), x_child env ''string'' (Some (xml_escape v))]"
  have child: "is_elem (x_child env nm (Some s))" "elem_name (x_child env nm (Some s)) = nm"
    "leaf (x_child env nm (Some s))" for nm s
    using assms(1) unfolding xml_ok_def child_law_def by (metis is_elem.simps(1), metis elem_name.simps(1), metis)
  have c: "x_content env (x_child env nm (Some (xml_escape s))) = s" if "printable s" for nm s
    using assms(1) that unfolding xml_ok_def child_law_def by blast
  have new: "outline (x_content env) ?new = out_pairs [(k, ''string'', v)]"
    using c [OF k(1), of "''key''"] c [OF assms(4)] by (simp add: child k(2))
  have step: "domain_rep env domain w' (filter (\<lambda>p. fst p \<noteq> k) ps @ [(k, ''string'', v)])"
    if g: "get_plist_path env domain MAX_PATH w = (Some path, w1)" "get_dict_node doc = Some (root, b, d, a)"
      "\<forall>n \<in> set d. leaf n" "outline (x_content env) d = out_pairs ps"
      "x_save env path (put_dict (root, b, d, a) (fst (remove_key (x_content env) k d) @ ?new)) w1 = (True, w')"
    for path w1 doc root b d a
  proof (rule save_rep [OF assms(1) g(1,2,5)])
    show "\<forall>n \<in> set (fst (remove_key (x_content env) k d) @ ?new). leaf n"
      using remove_key_subset [of "x_content env" k d] g(3) child(3) by auto
    show "outline (x_content env) (fst (remove_key (x_content env) k d) @ ?new) =
        out_pairs (filter (\<lambda>p. fst p \<noteq> k) ps @ [(k, ''string'', v)])"
      using new by (simp add: remove_key_outline g(4) out_remove_pairs [OF ok] del: outline_simps(2))
    show "pairs_ok (filter (\<lambda>p. fst p \<noteq> k) ps @ [(k, ''string'', v)])"
      by (rule pairs_ok_write [OF ok k(1) assms(4)]) simp
  qed
  from assms(2) show ?thesis
  proof (cases rule: open_domain_rep)
    case (1 path w1)
    have g: "get_dict_node (create_plist_doc env) = Some (''plist'', [], [], [])"
      using assms(1) by (simp add: create_plist_doc_def get_dict_node_def xml_ok_def child_law_def)
    then have "x_save env path (put_dict (''plist'', [], [], []) (fst (remove_key (x_content env) k []) @ ?new)) w1 =
        (True, w')"
      using assms(5) 1 by (auto simp: write_pref_def Let_def split: prod.splits if_splits)
    from step [OF 1(1) g _ _ this] show ?thesis using 1(3) by simp
  next
    case (2 path w1 doc root b d a)
    then have "x_save env path (put_dict (root, b, d, a) (fst (remove_key (x_content env) k d) @ ?new)) w1 =
        (True, w')"
      using assms(5) by (auto simp: write_pref_def Let_def split: prod.splits if_splits)
    from step [OF 2(1,4,5,6) this] show ?thesis .
  qed
qed

end
