(* ===== verification/Shell_Tools.thy ===== *)
theory Shell_Tools
  imports Prelude
begin

text \<open>
  The command-line tools that build a command for the shell, under \<^verbatim>\<open>src/src/darwin-compat/\<close>:
  \<^verbatim>\<open>ditto-demo\<close>, \<^verbatim>\<open>open-demo\<close>, \<^verbatim>\<open>say-demo\<close>, \<^verbatim>\<open>screencapture-demo\<close> and \<^verbatim>\<open>networksetup-demo\<close>.

  A tool gives its result and what it does: the commands it passes to \<^verbatim>\<open>system\<close>, whose result for a
  command is the argument \<open>sys\<close>, and the directories it makes.  The messages to the user are left out.
\<close>

datatype tool_act = RunCmd string | MakeDir string

definition sq :: "string \<Rightarrow> string" where
  "sq s = [CHR 0x27] @ s @ [CHR 0x27]"

definition strncat_into :: "nat \<Rightarrow> string \<Rightarrow> string \<Rightarrow> string" where
  "strncat_into cap cmd s = cmd @ take (cap - length cmd - 1) s"

section \<open>ditto\<close>

text \<open>\<open>st\<close> is what \<^verbatim>\<open>stat\<close> gives: nothing, or whether the path is a directory.\<close>

definition copy_path ::
  "(string \<Rightarrow> bool option) \<Rightarrow> (string \<Rightarrow> int) \<Rightarrow> string \<Rightarrow> string \<Rightarrow> bool \<Rightarrow> int \<times> tool_act list" where
  "copy_path st sys src dst preserve =
     (case st src of
        None \<Rightarrow> (-1, [])
      | Some dir \<Rightarrow>
          let cmd = snprintf_s 2048
                ((if dir then (if preserve then ''cp -Rp '' else ''cp -R '')
                  else (if preserve then ''cp -p '' else ''cp '')) @ sq src @ '' '' @ sq dst)
          in (sys cmd, [RunCmd cmd]))"

definition create_archive :: "(string \<Rightarrow> int) \<Rightarrow> string \<Rightarrow> string \<Rightarrow> int \<times> tool_act list" where
  "create_archive sys src dst =
     (let cmd = snprintf_s 2048 (''zip -r '' @ sq dst @ '' '' @ sq src @ '' > /dev/null 2>&1'')
      in (sys cmd, [RunCmd cmd]))"

definition extract_archive :: "(string \<Rightarrow> int) \<Rightarrow> string \<Rightarrow> string \<Rightarrow> int \<times> tool_act list" where
  "extract_archive sys src dst =
     (let cmd = snprintf_s 2048 (''unzip -q '' @ sq src @ '' -d '' @ sq dst)
      in (sys cmd, [MakeDir dst, RunCmd cmd]))"

text \<open>The argument loop: \<open>Inl\<close> is the help option.\<close>

fun ditto_args ::
  "string list \<Rightarrow> bool \<times> bool \<times> string option \<times> string option \<Rightarrow>
   unit + bool \<times> bool \<times> string option \<times> string option" where
  "ditto_args [] s = Inr s"
| "ditto_args (a # as) (create, extract, src, dst) =
     (if a = ''-c'' then ditto_args as (True, extract, src, dst)
      else if a = ''-x'' then ditto_args as (create, True, src, dst)
      else if a = ''-k'' then ditto_args as (create, extract, src, dst)
      else if a = ''-h'' \<or> a = ''--help'' then Inl ()
      else if src = None then ditto_args as (create, extract, Some a, dst)
      else if dst = None then ditto_args as (create, extract, src, Some a)
      else ditto_args as (create, extract, src, dst))"

definition ditto_main ::
  "(string \<Rightarrow> bool option) \<Rightarrow> (string \<Rightarrow> int) \<Rightarrow> string list \<Rightarrow> int \<times> tool_act list" where
  "ditto_main st sys args =
     (if length args < 2 then (1, [])
      else
        (case ditto_args args (False, False, None, None) of
           Inl _ \<Rightarrow> (0, [])
         | Inr (create, extract, Some src, Some dst) \<Rightarrow>
             if create then create_archive sys src dst
             else if extract then extract_archive sys src dst
             else copy_path st sys src dst True
         | Inr _ \<Rightarrow> (1, [])))"

section \<open>open\<close>

definition open_target ::
  "(string \<Rightarrow> int) \<Rightarrow> string \<Rightarrow> string option \<Rightarrow> bool \<Rightarrow> int \<times> tool_act list" where
  "open_target sys target app reveal =
     (let cat = strncat_into 2048;
          cmd0 = snprintf_s 2048 ''open'';
          cmd1 = (case app of
                    None \<Rightarrow> cmd0
                  | Some a \<Rightarrow> cat (cat (cat cmd0 ('' -a '' @ [CHR 0x27])) a) [CHR 0x27]);
          cmd2 = (if reveal then cat cmd1 '' -R'' else cmd1);
          cmd = cat (cat (cat cmd2 ('' '' @ [CHR 0x27])) target) [CHR 0x27]
      in (sys cmd, [RunCmd cmd]))"

text \<open>The argument loop: \<open>Inl\<close> is the result of an early return.\<close>

fun open_args ::
  "string list \<Rightarrow> string option \<times> string option \<times> bool \<Rightarrow> int + string option \<times> string option \<times> bool" where
  "open_args [] s = Inr s"
| "open_args (a # as) (app, target, reveal) =
     (if a = ''-a'' then
        (case as of [] \<Rightarrow> Inl 1 | b # bs \<Rightarrow> open_args bs (Some b, target, reveal))
      else if a = ''-R'' then open_args as (app, target, True)
      else if a = ''-h'' \<or> a = ''--help'' then Inl 0
      else open_args as (app, Some a, reveal))"

definition open_main :: "(string \<Rightarrow> int) \<Rightarrow> string list \<Rightarrow> int \<times> tool_act list" where
  "open_main sys args =
     (if args = [] then (1, [])
      else
        (case open_args args (None, None, False) of
           Inl rc \<Rightarrow> (rc, [])
         | Inr (app, None, reveal) \<Rightarrow> (1, [])
         | Inr (app, Some target, reveal) \<Rightarrow> open_target sys target app reveal))"

section \<open>say\<close>

definition speak_text :: "(string \<Rightarrow> int) \<Rightarrow> string \<Rightarrow> string option \<Rightarrow> int \<times> tool_act list" where
  "speak_text sys text voice =
     (let cmd = snprintf_s 1024
            (case voice of Some v \<Rightarrow> ''say -v '' @ sq v @ '' '' @ sq text | None \<Rightarrow> ''say '' @ sq text)
      in (sys cmd, [RunCmd cmd]))"

text \<open>The first argument that is no option is the text and ends the loop.\<close>

fun say_args :: "string list \<Rightarrow> string option \<Rightarrow> int + string option \<times> string option" where
  "say_args [] voice = Inr (voice, None)"
| "say_args (a # as) voice =
     (if a = ''-v'' then (case as of [] \<Rightarrow> Inl 1 | b # bs \<Rightarrow> say_args bs (Some b))
      else if a = ''--voice-list'' then Inl 0
      else if a = ''-h'' \<or> a = ''--help'' then Inl 0
      else Inr (voice, Some a))"

definition say_main :: "(string \<Rightarrow> int) \<Rightarrow> string list \<Rightarrow> int \<times> tool_act list" where
  "say_main sys args =
     (if args = [] then (1, [])
      else
        (case say_args args None of
           Inl rc \<Rightarrow> (rc, [])
         | Inr (voice, None) \<Rightarrow> (1, [])
         | Inr (voice, Some text) \<Rightarrow> speak_text sys text voice))"

section \<open>screencapture\<close>

text \<open>\<open>stamp\<close> is the name made of the local time, used when no file is given.\<close>

definition capture_screen ::
  "(string \<Rightarrow> int) \<Rightarrow> string \<Rightarrow> string option \<Rightarrow> bool \<Rightarrow> bool \<Rightarrow> bool \<Rightarrow> int \<times> tool_act list" where
  "capture_screen sys stamp filename interactive window clipboard =
     (let cat = strncat_into 1024;
          file = (case filename of None \<Rightarrow> snprintf_s 256 stamp | Some f \<Rightarrow> f);
          cmd0 = snprintf_s 1024 ''screencapture'';
          cmd1 = (if interactive then cat cmd0 '' -i'' else cmd0);
          cmd2 = (if window then cat cmd1 '' -w'' else cmd1);
          cmd = (if clipboard then cat cmd2 '' -c''
                 else cat (cat (cat cmd2 ('' '' @ [CHR 0x27])) file) [CHR 0x27])
      in (sys cmd, [RunCmd cmd]))"

fun capture_args ::
  "string list \<Rightarrow> bool \<times> bool \<times> bool \<times> string option \<Rightarrow> unit + bool \<times> bool \<times> bool \<times> string option" where
  "capture_args [] s = Inr s"
| "capture_args (a # as) (interactive, window, clipboard, filename) =
     (if a = ''-i'' then capture_args as (True, window, clipboard, filename)
      else if a = ''-w'' then capture_args as (interactive, True, clipboard, filename)
      else if a = ''-c'' then capture_args as (interactive, window, True, filename)
      else if a = ''-h'' \<or> a = ''--help'' then Inl ()
      else capture_args as (interactive, window, clipboard, Some a))"

definition capture_main :: "(string \<Rightarrow> int) \<Rightarrow> string \<Rightarrow> string list \<Rightarrow> int \<times> tool_act list" where
  "capture_main sys stamp args =
     (case capture_args args (False, False, False, None) of
        Inl _ \<Rightarrow> (0, [])
      | Inr (interactive, window, clipboard, filename) \<Rightarrow>
          capture_screen sys stamp filename interactive window clipboard)"

section \<open>networksetup\<close>

text \<open>The result of the command only decides what is printed.\<close>

definition list_services :: "int \<times> tool_act list" where
  "list_services =
     (0, [RunCmd ''networksetup -listallnetworkservices 2>/dev/null | tail -n +2''])"

definition get_info :: "string \<Rightarrow> int \<times> tool_act list" where
  "get_info service =
     (0, [RunCmd (snprintf_s 512 (''networksetup -getinfo '' @ sq service @ '' 2>/dev/null''))])"

definition get_dns :: "string \<Rightarrow> int \<times> tool_act list" where
  "get_dns service =
     (0, [RunCmd (snprintf_s 512 (''networksetup -getdnsservers '' @ sq service @ '' 2>/dev/null''))])"

definition networksetup_main :: "string list \<Rightarrow> int \<times> tool_act list" where
  "networksetup_main args =
     (case args of
        [] \<Rightarrow> (1, [])
      | cmd # rest \<Rightarrow>
          if cmd = ''-listallnetworkservices'' then list_services
          else if cmd = ''-getinfo'' then
            (case rest of [] \<Rightarrow> (1, []) | service # _ \<Rightarrow> get_info service)
          else if cmd = ''-getdnsservers'' then
            (case rest of [] \<Rightarrow> (1, []) | service # _ \<Rightarrow> get_dns service)
          else if cmd = ''-h'' \<or> cmd = ''--help'' then (0, [])
          else (1, []))"

end
