(* ===== verification/Shell_Claims.thy ===== *)
theory Shell_Claims
  imports Shell_Tools
begin

text \<open>
  What a shell makes of the commands of the tools: a reference reader for a fragment of the shell's
  grammar -- words, single quotes, operators -- and the property that the arguments of a tool reach the
  program it runs.
\<close>

section \<open>The reference reader\<close>

datatype sh_token = Word string | Operator char

text \<open>\<open>None\<close> is an unterminated quote, or a character with a meaning outside the fragment.\<close>

definition sh_flush :: "string option \<Rightarrow> sh_token list \<Rightarrow> sh_token list" where
  "sh_flush cur ts = (case cur of None \<Rightarrow> ts | Some w \<Rightarrow> Word w # ts)"

definition sh_extend :: "string option \<Rightarrow> string \<Rightarrow> string" where
  "sh_extend cur s = (case cur of None \<Rightarrow> s | Some w \<Rightarrow> w @ s)"

definition sh_operators :: "char set" where
  "sh_operators = {CHR '';'', CHR ''|'', CHR ''&'', CHR ''<'', CHR ''>'', CHR ''('', CHR '')'', CHR 0x0A}"

definition sh_special :: "char set" where
  "sh_special = {CHR ''$'', CHR 0x60, CHR 0x22, CHR 0x5C, CHR ''*'', CHR ''?'', CHR ''['', CHR ''#'', CHR ''~''}"

fun sh_read :: "bool \<Rightarrow> string option \<Rightarrow> string \<Rightarrow> sh_token list option" where
  "sh_read quote cur [] = (if quote then None else Some (sh_flush cur []))"
| "sh_read quote cur (c # s) =
     (if quote then
        (if c = CHR 0x27 then sh_read False cur s else sh_read True (Some (sh_extend cur [c])) s)
      else if c = CHR 0x27 then sh_read True (Some (sh_extend cur [])) s
      else if c = CHR '' '' then map_option (sh_flush cur) (sh_read False None s)
      else if c \<in> sh_operators then map_option (\<lambda>ts. sh_flush cur (Operator c # ts)) (sh_read False None s)
      else if c \<in> sh_special then None
      else sh_read False (Some (sh_extend cur [c])) s)"

definition sh_tokens :: "string \<Rightarrow> sh_token list option" where
  "sh_tokens cmd = sh_read False None cmd"

definition unquoted :: "string \<Rightarrow> bool" where
  "unquoted s = (CHR 0x27 \<notin> set s)"

definition word_char :: "char \<Rightarrow> bool" where
  "word_char c = (c \<noteq> CHR 0x27 \<and> c \<noteq> CHR '' '' \<and> c \<notin> sh_operators \<and> c \<notin> sh_special)"

section \<open>Reading quotes and words\<close>

lemma sh_flush_simps [simp]: "sh_flush None ts = ts" "sh_flush (Some w) = (#) (Word w)"
  by (simp_all add: sh_flush_def fun_eq_iff)

lemma sh_extend_simps [simp]: "sh_extend None s = s" "sh_extend (Some w) s = w @ s"
  by (simp_all add: sh_extend_def)

lemma sh_read_quote:
  "unquoted s \<Longrightarrow> sh_read True (Some w) (s @ CHR 0x27 # r) = sh_read False (Some (w @ s)) r"
  by (induction s arbitrary: w) (auto simp: unquoted_def)

lemma sh_read_sq: "unquoted s \<Longrightarrow> sh_read False None (sq s @ r) = sh_read False (Some s) r"
  by (simp add: sq_def sh_read_quote)

lemma sh_read_word:
  "list_all word_char s \<Longrightarrow> s \<noteq> [] \<Longrightarrow> sh_read False cur (s @ r) = sh_read False (Some (sh_extend cur s)) r"
proof (induction s arbitrary: cur)
  case (Cons c s)
  then show ?case by (cases "s = []"; cases cur) (auto simp: word_char_def)
qed simp

text \<open>A lone apostrophe at the end opens a quote that nothing closes.\<close>

lemma sh_read_lone: "unquoted s \<Longrightarrow> sh_read False cur (s @ [CHR 0x27]) = None"
  by (induction s arbitrary: cur) (auto simp: unquoted_def)

lemmas sh_sets = sh_operators_def sh_special_def

lemma sq_lengths [simp]: "length (sq s) = length s + 2"
  by (simp add: sq_def)

lemma strncat_fits: "length cmd + length s < cap \<Longrightarrow> strncat_into cap cmd s = cmd @ s"
  by (simp add: strncat_into_def)

lemma snprintf_fits: "length s < cap \<Longrightarrow> snprintf_s cap s = s"
  by (simp add: snprintf_s_def)

section \<open>Arguments\<close>



text \<open>An apostrophe ends the quoting.  A file whose name has one can make \<^verbatim>\<open>ditto\<close> run a command of
  that name's choice; and a text with a single apostrophe is no command at all for the shell, so that
  \<^verbatim>\<open>say\<close> cannot speak it.\<close>

lemma apostrophe_ends_quoting:
  assumes "unquoted a" "list_all word_char evil" "evil \<noteq> []" "unquoted dst"
    and "length a + length evil + length dst \<le> 900" "length t + length u \<le> 900" "unquoted t" "unquoted u"
  shows "(\<exists>cmd. copy_path (\<lambda>_. Some False) sys
        (a @ [CHR 0x27] @ '';'' @ evil @ '';'' @ [CHR 0x27]) dst True = (sys cmd, [RunCmd cmd]) \<and>
      sh_tokens cmd = Some ([Word ''cp'', Word ''-p'', Word a, Operator CHR '';'', Word evil,
        Operator CHR '';'', Word [], Word dst])) \<and>
     (\<exists>cmd. speak_text sys (t @ [CHR 0x27] @ u) None = (sys cmd, [RunCmd cmd]) \<and> sh_tokens cmd = None)"
  using assms sh_read_lone [OF assms(8)]
  by (simp add: copy_path_def speak_text_def sh_tokens_def Let_def snprintf_fits sh_sets sq_def
      sh_read_quote sh_read_word)

end
