(* ===== verification/Clipboard.thy ===== *)
theory Clipboard
  imports Prelude
begin

text \<open>
  The clipboard tools, \<^verbatim>\<open>pbcopy-demo.c\<close> and \<^verbatim>\<open>pbpaste-demo.c\<close> under \<^verbatim>\<open>src/src/darwin-compat/\<close>.

  A stream that is read is its bytes and whether it ends with an error; \<^verbatim>\<open>fread\<close> gives fewer bytes than
  asked for only at its end.  A pipe to a program is whether it opens, how many bytes it takes, and the
  status it closes with.  Allocation succeeds, and the messages to the user are left out.
\<close>

record input_stream =
  in_bytes :: "byte list"
  in_error :: bool

record pipe =
  p_opens :: bool
  p_takes :: "nat \<Rightarrow> nat"
  p_status :: int

section \<open>pbcopy\<close>

definition MAX_CLIPBOARD_SIZE :: nat where "MAX_CLIPBOARD_SIZE = 10 * 1024 * 1024"
definition CHUNK :: nat where "CHUNK = 4096"

text \<open>The result and the bytes the clipboard program was given, if it was started.\<close>

definition copy_to_clipboard :: "pipe \<Rightarrow> byte list \<Rightarrow> int \<times> byte list option" where
  "copy_to_clipboard pb data =
     (if \<not> p_opens pb then (-1, None)
      else
        let written = min (p_takes pb (length data)) (length data) in
        if written \<noteq> length data then (-1, Some (take written data))
        else if p_status pb \<noteq> 0 then (-1, Some data)
        else (0, Some data))"

text \<open>The reading loop: \<open>buf\<close> is what was read, \<open>cap\<close> the size of the buffer.  \<open>None\<close> is an error.\<close>

function read_input :: "byte list \<Rightarrow> nat \<Rightarrow> input_stream \<Rightarrow> byte list option" where
  "read_input buf cap inp =
     (let cap' = (if cap < length buf + CHUNK then length buf + CHUNK else cap) in
      if cap < length buf + CHUNK \<and> MAX_CLIPBOARD_SIZE < cap' then None
      else
        let got = take CHUNK (in_bytes inp); rest = inp\<lparr>in_bytes := drop CHUNK (in_bytes inp)\<rparr> in
        if length got < CHUNK then (if in_error inp then None else Some (buf @ got))
        else read_input (buf @ got) cap' rest)"
  by pat_completeness auto
termination
  by (relation "measure (\<lambda>(buf, cap, inp). length (in_bytes inp))") (auto simp: CHUNK_def)

declare read_input.simps [simp del]

definition copy_stdin :: "pipe \<Rightarrow> input_stream \<Rightarrow> int \<times> byte list option" where
  "copy_stdin pb inp =
     (case read_input [] 0 inp of None \<Rightarrow> (-1, None) | Some data \<Rightarrow> copy_to_clipboard pb data)"

definition pbcopy_main :: "pipe \<Rightarrow> bool \<Rightarrow> input_stream \<Rightarrow> string list \<Rightarrow> int \<times> byte list option" where
  "pbcopy_main pb tty inp args =
     (case args of
        a # as \<Rightarrow> (if a = ''-h'' \<or> a = ''--help'' then 0 else 1, None)
      | [] \<Rightarrow> if tty then (1, None) else copy_stdin pb inp)"

section \<open>pbpaste\<close>

text \<open>The copying loop: whether every write was complete, and what was written.  \<open>takes\<close> is what the
  output takes of a chunk.\<close>

function paste_loop :: "(nat \<Rightarrow> nat) \<Rightarrow> byte list \<Rightarrow> bool \<times> byte list" where
  "paste_loop takes bs =
     (if bs = [] then (True, [])
      else
        let chunk = take CHUNK bs; written = min (takes (length chunk)) (length chunk) in
        if written \<noteq> length chunk then (False, take written chunk)
        else (case paste_loop takes (drop CHUNK bs) of (ok, out) \<Rightarrow> (ok, chunk @ out)))"
  by pat_completeness auto
termination
  by (relation "measure (\<lambda>(takes, bs). length bs)") (auto simp: CHUNK_def)

declare paste_loop.simps [simp del]

definition paste_from_clipboard :: "pipe \<Rightarrow> (nat \<Rightarrow> nat) \<Rightarrow> byte list \<Rightarrow> int \<times> byte list" where
  "paste_from_clipboard pb takes content =
     (if \<not> p_opens pb then (-1, [])
      else
        (case paste_loop takes content of
           (ok, out) \<Rightarrow> (if \<not> ok then -1 else if p_status pb \<noteq> 0 then -1 else 0, out)))"

definition pbpaste_main ::
  "pipe \<Rightarrow> (nat \<Rightarrow> nat) \<Rightarrow> byte list \<Rightarrow> string list \<Rightarrow> int \<times> byte list" where
  "pbpaste_main pb takes content args =
     (case args of
        a # as \<Rightarrow> (if a = ''-h'' \<or> a = ''--help'' then 0 else 1, [])
      | [] \<Rightarrow> paste_from_clipboard pb takes content)"

section \<open>Facts\<close>

lemma read_input_exact:
  "length buf mod CHUNK = 0 \<Longrightarrow> cap \<le> length buf \<Longrightarrow> length buf \<le> MAX_CLIPBOARD_SIZE \<Longrightarrow>
   read_input buf cap inp =
     (if in_error inp \<or> MAX_CLIPBOARD_SIZE \<le> length buf + length (in_bytes inp) then None
      else Some (buf @ in_bytes inp))"
proof (induction buf cap inp rule: read_input.induct)
  case (1 buf cap inp)
  let ?n = "length buf" and ?bs = "in_bytes inp"
  have cap: "cap < ?n + CHUNK" using 1(3) by (simp add: CHUNK_def)
  have "?n = ?n div CHUNK * CHUNK" using 1(2) by (metis add_0_right div_mult_mod_eq)
  then obtain k where k: "?n = k * CHUNK" by blast
  have M: "MAX_CLIPBOARD_SIZE = 2560 * CHUNK" by (simp add: MAX_CLIPBOARD_SIZE_def CHUNK_def)
  show ?case
  proof (cases "MAX_CLIPBOARD_SIZE < ?n + CHUNK")
    case True
    then have "\<not> k < 2560" by (auto simp: k M CHUNK_def)
    then have "MAX_CLIPBOARD_SIZE \<le> ?n" by (simp add: k M CHUNK_def)
    then show ?thesis using True cap by (simp add: read_input.simps [of buf])
  next
    case False
    show ?thesis
    proof (cases "length ?bs < CHUNK")
      case True
      then show ?thesis using False cap by (auto simp: read_input.simps [of buf] Let_def min_def)
    next
      case long: False
      have step: "read_input buf cap inp =
          read_input (buf @ take CHUNK ?bs) (?n + CHUNK) (inp\<lparr>in_bytes := drop CHUNK ?bs\<rparr>)"
        using False cap long by (simp add: read_input.simps [of buf] Let_def)
      have "read_input (buf @ take CHUNK ?bs) (?n + CHUNK) (inp\<lparr>in_bytes := drop CHUNK ?bs\<rparr>) =
          (if in_error inp \<or> MAX_CLIPBOARD_SIZE \<le> ?n + length ?bs then None else Some (buf @ ?bs))"
        using 1(1) [OF refl _ refl refl] False cap long k by (simp add: min_def)
      then show ?thesis using step by simp
    qed
  qed
qed

lemma paste_loop_all:
  "\<forall>n. takes n = n \<Longrightarrow> paste_loop takes bs = (True, bs)"
  by (induction takes bs rule: paste_loop.induct) (auto simp: paste_loop.simps Let_def)

text \<open>Text goes through the clipboard unchanged.  \<^verbatim>\<open>pbcopy\<close> hands its whole input to the clipboard if
  it is shorter than 10 MiB, whatever its length in chunks, and nothing at all otherwise -- an input of
  exactly the limit is refused too; \<^verbatim>\<open>pbpaste\<close> prints all of what is there.\<close>

lemma clipboard_round_trip:
  assumes "p_opens pb" "\<forall>n. p_takes pb n = n" "p_status pb = 0" "\<not> in_error inp" "\<forall>n. takes n = n"
  shows "pbcopy_main pb False inp [] =
       (if length (in_bytes inp) < MAX_CLIPBOARD_SIZE then (0, Some (in_bytes inp)) else (-1, None)) \<and>
     pbpaste_main pb takes content [] = (0, content)"
proof -
  have p: "paste_loop takes content = (True, content)" by (rule paste_loop_all [OF assms(5)])
  have r: "read_input [] 0 inp =
      (if MAX_CLIPBOARD_SIZE \<le> length (in_bytes inp) then None else Some (in_bytes inp))"
    using read_input_exact [of "[]" 0 inp] assms(4) by simp
  show ?thesis
    using assms(1-3) p r
    by (simp add: pbcopy_main_def copy_stdin_def copy_to_clipboard_def pbpaste_main_def
        paste_from_clipboard_def)
qed

end
