(* ===== verification/Xattr.thy ===== *)
theory Xattr
  imports Prelude
begin

text \<open>
  The tool for extended attributes, \<^verbatim>\<open>src/src/darwin-compat/xattr-demo/xattr-demo.c\<close>.

  The system calls are fields of a record of functions on an unspecified world.  Reading outside a
  buffer has the result \<open>None\<close>.  What the tool prints of a file is a result; its other messages are left
  out.  Allocation succeeds.
\<close>

section \<open>The tool\<close>

text \<open>A call with no buffer gives the size, or a negative number; a call with a buffer of a size gives what
  it put there, or nothing.\<close>

record 'w xattr_os =
  xo_list_size :: "string \<Rightarrow> 'w \<Rightarrow> int \<times> 'w"
  xo_list :: "string \<Rightarrow> nat \<Rightarrow> 'w \<Rightarrow> string option \<times> 'w"
  xo_size :: "string \<Rightarrow> string \<Rightarrow> 'w \<Rightarrow> int \<times> 'w"
  xo_get :: "string \<Rightarrow> string \<Rightarrow> nat \<Rightarrow> 'w \<Rightarrow> string option \<times> 'w"
  xo_set :: "string \<Rightarrow> string \<Rightarrow> string \<Rightarrow> 'w \<Rightarrow> bool \<times> 'w"
  xo_remove :: "string \<Rightarrow> string \<Rightarrow> 'w \<Rightarrow> bool \<times> 'w"

definition MAX_ATTR_SIZE :: nat where "MAX_ATTR_SIZE = 65536"

text \<open>The walk over the buffer of names; \<^verbatim>\<open>strlen\<close> of a name without a NUL leaves the buffer.\<close>

function names_loop :: "string \<Rightarrow> string list option" where
  "names_loop buf =
     (if buf = [] then Some []
      else if CHR 0x00 \<notin> set buf then None
      else map_option ((#) (c_str buf)) (names_loop (drop (length (c_str buf) + 1) buf)))"
  by pat_completeness auto
termination by (relation "measure length") auto

declare names_loop.simps [simp del]

text \<open>The result, the names printed, and the world.\<close>

definition list_attrs :: "'w xattr_os \<Rightarrow> string \<Rightarrow> 'w \<Rightarrow> (int \<times> string list \<times> 'w) option" where
  "list_attrs os path w =
     (case xo_list_size os path w of
        (n, w1) \<Rightarrow>
          if n < 0 then Some (-1, [], w1)
          else if n = 0 then Some (0, [], w1)
          else
            (case xo_list os path (nat n) w1 of
               (None, w2) \<Rightarrow> Some (-1, [], w2)
             | (Some buf, w2) \<Rightarrow> map_option (\<lambda>names. (0, names, w2)) (names_loop buf)))"

definition print_attr :: "'w xattr_os \<Rightarrow> string \<Rightarrow> string \<Rightarrow> 'w \<Rightarrow> int \<times> string option \<times> 'w" where
  "print_attr os path attr w =
     (case xo_size os path attr w of
        (n, w1) \<Rightarrow>
          if n < 0 then (-1, None, w1)
          else if int MAX_ATTR_SIZE < n then (-1, None, w1)
          else
            (case xo_get os path attr (nat n) w1 of
               (None, w2) \<Rightarrow> (-1, None, w2)
             | (Some v, w2) \<Rightarrow> (0, Some (c_str v), w2)))"

definition write_attr :: "'w xattr_os \<Rightarrow> string \<Rightarrow> string \<Rightarrow> string \<Rightarrow> 'w \<Rightarrow> int \<times> 'w" where
  "write_attr os path attr v w =
     (case xo_set os path attr v w of (ok, w1) \<Rightarrow> (if ok then 0 else -1, w1))"

definition delete_attr :: "'w xattr_os \<Rightarrow> string \<Rightarrow> string \<Rightarrow> 'w \<Rightarrow> int \<times> 'w" where
  "delete_attr os path attr w =
     (case xo_remove os path attr w of (ok, w1) \<Rightarrow> (if ok then 0 else -1, w1))"

text \<open>The removing loop, with the number removed.\<close>

fun clear_loop :: "'w xattr_os \<Rightarrow> string \<Rightarrow> string list \<Rightarrow> nat \<Rightarrow> 'w \<Rightarrow> nat \<times> 'w" where
  "clear_loop os path [] count w = (count, w)"
| "clear_loop os path (a # as) count w =
     (case xo_remove os path a w of
        (ok, w1) \<Rightarrow> clear_loop os path as (if ok then count + 1 else count) w1)"

definition clear_attrs :: "'w xattr_os \<Rightarrow> string \<Rightarrow> 'w \<Rightarrow> (int \<times> nat \<times> 'w) option" where
  "clear_attrs os path w =
     (case xo_list_size os path w of
        (n, w1) \<Rightarrow>
          if n < 0 then Some (-1, 0, w1)
          else if n = 0 then Some (0, 0, w1)
          else
            (case xo_list os path (nat n) w1 of
               (None, w2) \<Rightarrow> Some (-1, 0, w2)
             | (Some buf, w2) \<Rightarrow>
                 map_option (\<lambda>names. case clear_loop os path names 0 w2 of (c, w3) \<Rightarrow> (0, c, w3))
                   (names_loop buf)))"

text \<open>\<^verbatim>\<open>main\<close>: the result, the lines printed, and the world.\<close>

definition xattr_main :: "'w xattr_os \<Rightarrow> string list \<Rightarrow> 'w \<Rightarrow> (int \<times> string list \<times> 'w) option" where
  "xattr_main os args w =
     (case args of
        [] \<Rightarrow> Some (1, [], w)
      | opt # rest \<Rightarrow>
          if opt = ''-l'' then
            (if length rest < 1 then Some (1, [], w) else list_attrs os (rest ! 0) w)
          else if opt = ''-p'' then
            (if length rest < 2 then Some (1, [], w)
             else (case print_attr os (rest ! 1) (rest ! 0) w of
                     (rc, out, w') \<Rightarrow> Some (rc, case out of None \<Rightarrow> [] | Some v \<Rightarrow> [v], w')))
          else if opt = ''-w'' then
            (if length rest < 3 then Some (1, [], w)
             else (case write_attr os (rest ! 2) (rest ! 0) (rest ! 1) w of (rc, w') \<Rightarrow> Some (rc, [], w')))
          else if opt = ''-d'' then
            (if length rest < 2 then Some (1, [], w)
             else (case delete_attr os (rest ! 1) (rest ! 0) w of (rc, w') \<Rightarrow> Some (rc, [], w')))
          else if opt = ''-c'' then
            (if length rest < 1 then Some (1, [], w)
             else map_option (\<lambda>(rc, c, w'). (rc, [], w')) (clear_attrs os (rest ! 0) w))
          else if opt = ''-h'' \<or> opt = ''--help'' then Some (0, [], w)
          else Some (1, [], w))"

section \<open>Documented behaviour of the system calls\<close>

text \<open>\<open>attrs w path\<close> are the attributes of a file, in the order in which they are listed.  A list of names
  has a NUL after each; setting and removing change one attribute.\<close>

definition name_buffer :: "(string \<times> string) list \<Rightarrow> string" where
  "name_buffer m = concat (map (\<lambda>(a, v). a @ [CHR 0x00]) m)"

definition attrs_ok :: "(string \<times> string) list \<Rightarrow> bool" where
  "attrs_ok m = (distinct (map fst m) \<and> (\<forall>(a, v) \<in> set m. nul_free a))"

definition xattr_ok :: "'w xattr_os \<Rightarrow> ('w \<Rightarrow> string \<Rightarrow> (string \<times> string) list) \<Rightarrow> bool" where
  "xattr_ok os attrs =
     ((\<forall>w p. attrs_ok (attrs w p)) \<and>
      (\<forall>w p. xo_list_size os p w = (int (length (name_buffer (attrs w p))), w)) \<and>
      (\<forall>w p n. length (name_buffer (attrs w p)) \<le> n \<longrightarrow> xo_list os p n w = (Some (name_buffer (attrs w p)), w)) \<and>
      (\<forall>w p a v. map_of (attrs w p) a = Some v \<longrightarrow>
         xo_size os p a w = (int (length v), w) \<and> (\<forall>n \<ge> length v. xo_get os p a n w = (Some v, w))) \<and>
      (\<forall>w p a v w'. xo_set os p a v w = (True, w') \<longrightarrow> map_of (attrs w' p) = (map_of (attrs w p))(a \<mapsto> v)) \<and>
      (\<forall>p a w. \<exists>w'. xo_remove os p a w = (map_of (attrs w p) a \<noteq> None, w') \<and>
         map_of (attrs w' p) = (map_of (attrs w p))(a := None)))"

lemma names_loop_buffer: "\<forall>(a, v) \<in> set m. nul_free a \<Longrightarrow> names_loop (name_buffer m) = Some (map fst m)"
proof (induction m)
  case Nil
  then show ?case by (simp add: name_buffer_def names_loop.simps)
next
  case (Cons p m)
  obtain a v where p: "p = (a, v)" by fastforce
  have n: "nul_free a" using Cons.prems by (simp add: p)
  have b: "name_buffer (p # m) = a @ CHR 0x00 # name_buffer m" by (simp add: name_buffer_def p)
  have c: "c_str (a @ CHR 0x00 # name_buffer m) = a" by (rule c_str_append_nul [OF n])
  have "names_loop (name_buffer m) = Some (map fst m)" using Cons by auto
  then show ?case unfolding b by (subst names_loop.simps) (simp add: c p)
qed

lemma name_buffer_Nil: "name_buffer m = [] \<longleftrightarrow> m = []"
  by (cases m) (auto simp: name_buffer_def)

lemma xattr_remove:
  assumes "xattr_ok os attrs"
  obtains w' where "xo_remove os p a w = (map_of (attrs w p) a \<noteq> None, w')"
    "map_of (attrs w' p) = (map_of (attrs w p))(a := None)"
proof -
  have "\<exists>w'. xo_remove os p a w = (map_of (attrs w p) a \<noteq> None, w') \<and>
      map_of (attrs w' p) = (map_of (attrs w p))(a := None)"
    using assms by (simp only: xattr_ok_def)
  then show thesis using that by blast
qed

lemma clear_loop_removes:
  assumes "xattr_ok os attrs"
  shows "distinct as \<Longrightarrow> set as \<subseteq> dom (map_of (attrs w p)) \<Longrightarrow>
     \<exists>w'. clear_loop os p as count w = (count + length as, w') \<and>
       map_of (attrs w' p) = (\<lambda>a. if a \<in> set as then None else map_of (attrs w p) a)"
proof (induction as arbitrary: count w)
  case (Cons a as)
  obtain w1 where r: "xo_remove os p a w = (map_of (attrs w p) a \<noteq> None, w1)"
    "map_of (attrs w1 p) = (map_of (attrs w p))(a := None)" by (rule xattr_remove [OF assms])
  have "set as \<subseteq> dom (map_of (attrs w1 p))" using Cons.prems by (auto simp: r(2))
  from Cons.IH [OF _ this, of "count + 1"] Cons.prems obtain w' where
    w: "clear_loop os p as (count + 1) w1 = (count + 1 + length as, w')"
    "map_of (attrs w' p) = (\<lambda>x. if x \<in> set as then None else map_of (attrs w1 p) x)" by auto
  have "map_of (attrs w p) a \<noteq> None" using Cons.prems by auto
  then have "clear_loop os p (a # as) count w = (count + length (a # as), w')" using r(1) w(1) by simp
  moreover have "map_of (attrs w' p) = (\<lambda>x. if x \<in> set (a # as) then None else map_of (attrs w p) x)"
    by (rule ext) (simp add: w(2) r(2))
  ultimately show ?case by blast
qed simp

text \<open>The tool shows and changes exactly the attributes of the file.  Listing prints their names, and
  like clearing never reads beyond the list it was given; clearing removes all and counts them; a value
  that was written is printed again if it has at most 65536 bytes, while a longer one is written but
  never printed.\<close>

lemma attributes_exact:
  assumes "xattr_ok os attrs"
  shows "list_attrs os p w = Some (0, map fst (attrs w p), w) \<and>
     (\<exists>w'. clear_attrs os p w = Some (0, length (attrs w p), w') \<and> attrs w' p = []) \<and>
     (write_attr os p a v w = (0, w'') \<and> nul_free v \<longrightarrow>
        print_attr os p a w'' =
          (if length v \<le> MAX_ATTR_SIZE then (0, Some v, w'') else (-1, None, w'')))"
proof (intro conjI impI)
  have size: "xo_list_size os p w = (int (length (name_buffer (attrs w p))), w)"
    and list: "xo_list os p (length (name_buffer (attrs w p))) w = (Some (name_buffer (attrs w p)), w)"
    and m: "attrs_ok (attrs w p)" using assms unfolding xattr_ok_def by auto
  have names: "names_loop (name_buffer (attrs w p)) = Some (map fst (attrs w p))"
    using m by (intro names_loop_buffer) (auto simp: attrs_ok_def)
  show "list_attrs os p w = Some (0, map fst (attrs w p), w)"
    using name_buffer_Nil [of "attrs w p"] by (auto simp: list_attrs_def size list names)
  have d: "distinct (map fst (attrs w p))" using m by (simp add: attrs_ok_def)
  have s: "set (map fst (attrs w p)) \<subseteq> dom (map_of (attrs w p))" by (simp add: dom_map_of_conv_image_fst)
  from clear_loop_removes [OF assms d s, of 0] obtain w' where
    c: "clear_loop os p (map fst (attrs w p)) 0 w = (length (attrs w p), w')"
    "map_of (attrs w' p) = (\<lambda>a. if a \<in> set (map fst (attrs w p)) then None else map_of (attrs w p) a)" by auto
  have "map_of (attrs w' p) = (\<lambda>a. None)" using c(2) by (auto simp: fun_eq_iff map_of_eq_None_iff)
  then have "attrs w' p = []" by (metis map_of_eq_empty_iff)
  then show "\<exists>w'. clear_attrs os p w = Some (0, length (attrs w p), w') \<and> attrs w' p = []"
    using name_buffer_Nil [of "attrs w p"] c(1) by (auto simp: clear_attrs_def size list names)
next
  assume w: "write_attr os p a v w = (0, w'') \<and> nul_free v"
  then have "xo_set os p a v w = (True, w'')" by (auto simp: write_attr_def split: prod.splits if_splits)
  then have "map_of (attrs w'' p) a = Some v" using assms unfolding xattr_ok_def by simp
  then have "xo_size os p a w'' = (int (length v), w'')" "xo_get os p a (length v) w'' = (Some v, w'')"
    using assms unfolding xattr_ok_def by auto
  then show "print_attr os p a w'' =
      (if length v \<le> MAX_ATTR_SIZE then (0, Some v, w'') else (-1, None, w''))"
    using w by (simp add: print_attr_def)
qed

text \<open>A store with one file.\<close>

definition demo_attrs :: "(string \<times> string) list \<Rightarrow> (string \<times> string) list" where
  "demo_attrs m = (if attrs_ok m then m else [])"

definition demo_xattr :: "(string \<times> string) list xattr_os" where
  "demo_xattr =
     \<lparr>xo_list_size = (\<lambda>p m. (int (length (name_buffer (demo_attrs m))), m)),
      xo_list = (\<lambda>p n m. (Some (name_buffer (demo_attrs m)), m)),
      xo_size = (\<lambda>p a m. (case map_of (demo_attrs m) a of None \<Rightarrow> -1 | Some v \<Rightarrow> int (length v), m)),
      xo_get = (\<lambda>p a n m. (map_of (demo_attrs m) a, m)),
      xo_set = (\<lambda>p a v m. if nul_free a then (True, (a, v) # filter (\<lambda>x. fst x \<noteq> a) (demo_attrs m)) else (False, m)),
      xo_remove = (\<lambda>p a m. (map_of (demo_attrs m) a \<noteq> None, filter (\<lambda>x. fst x \<noteq> a) (demo_attrs m)))\<rparr>"

lemma demo_attrs_ok: "attrs_ok (demo_attrs m)"
  by (simp add: demo_attrs_def attrs_ok_def)

lemma demo_attrs_filter: "demo_attrs (filter (\<lambda>x. fst x \<noteq> a) (demo_attrs m)) = filter (\<lambda>x. fst x \<noteq> a) (demo_attrs m)"
  using demo_attrs_ok [of m] by (auto simp: demo_attrs_def attrs_ok_def distinct_map_filter)

lemma demo_attrs_set:
  "nul_free a \<Longrightarrow> demo_attrs ((a, v) # filter (\<lambda>x. fst x \<noteq> a) (demo_attrs m)) =
     (a, v) # filter (\<lambda>x. fst x \<noteq> a) (demo_attrs m)"
  using demo_attrs_ok [of m] by (auto simp: demo_attrs_def attrs_ok_def distinct_map_filter)

lemma map_of_filter_ne: "map_of (filter (\<lambda>x. fst x \<noteq> a) m) = (map_of m)(a := None)"
  by (induction m) (auto simp: fun_eq_iff)

lemma demo_xattr_ok: "xattr_ok demo_xattr (\<lambda>m p. demo_attrs m)"
  unfolding xattr_ok_def
proof (intro conjI allI impI)
  fix m :: "(string \<times> string) list" and p a v w'
  assume "xo_set demo_xattr p a v m = (True, w')"
  then have "nul_free a" "w' = (a, v) # filter (\<lambda>x. fst x \<noteq> a) (demo_attrs m)"
    by (auto simp: demo_xattr_def split: if_splits)
  then show "map_of (demo_attrs w') = (map_of (demo_attrs m))(a \<mapsto> v)"
    by (simp add: demo_attrs_set map_of_filter_ne)
next
  fix p a and m :: "(string \<times> string) list"
  show "\<exists>w'. xo_remove demo_xattr p a m = (map_of (demo_attrs m) a \<noteq> None, w') \<and>
      map_of (demo_attrs w') = (map_of (demo_attrs m))(a := None)"
    by (simp add: demo_xattr_def demo_attrs_filter map_of_filter_ne)
qed (simp_all add: demo_xattr_def demo_attrs_ok)

lemma attributes_exact_demo:
  "list_attrs demo_xattr ''f'' [(''tag'', ''red''), (''note'', ''x'')] =
     Some (0, [''tag'', ''note''], [(''tag'', ''red''), (''note'', ''x'')])"
proof -
  have "demo_attrs [(''tag'', ''red''), (''note'', ''x'')] = [(''tag'', ''red''), (''note'', ''x'')]"
    by (simp add: demo_attrs_def attrs_ok_def nul_free_def)
  then show ?thesis
    using attributes_exact [OF demo_xattr_ok, of "''f''" "[(''tag'', ''red''), (''note'', ''x'')]"] by simp
qed

end
