(* ===== verification/Launchd_Demo.thy ===== *)
theory Launchd_Demo
  imports Mach_Claims
begin

text \<open>
  The launchd demonstration, \<^verbatim>\<open>src/src/darwin-compat/launchd-demo/launchd-demo.c\<close>: a table of daemons, each
  with a port of the Mach emulation.

  The state is the table and the port registry.  What \<^verbatim>\<open>kqueue\<close>, \<^verbatim>\<open>fork\<close> and \<^verbatim>\<open>close\<close> give are arguments;
  the child, which sleeps for ever, is not followed.  The messages to the user are left out.
\<close>

section \<open>The table\<close>

record daemon =
  d_name :: string
  d_pid :: int
  d_port :: int
  d_active :: bool

type_synonym daemon_state = "daemon list \<times> registry"

definition MAX_DAEMONS :: nat where "MAX_DAEMONS = 32"
definition MAX_NAME_LEN :: nat where "MAX_NAME_LEN = 256"

fun find_daemon :: "string \<Rightarrow> daemon list \<Rightarrow> nat option" where
  "find_daemon nm [] = None"
| "find_daemon nm (d # ds) =
     (if d_name d = nm then Some 0 else map_option Suc (find_daemon nm ds))"

definition start_daemon ::
  "int \<Rightarrow> int \<Rightarrow> bool \<Rightarrow> string \<Rightarrow> daemon_state \<Rightarrow> int \<times> daemon_state" where
  "start_daemon kq fork ok nm s =
     (case s of (ds, reg) \<Rightarrow>
        if MAX_DAEMONS \<le> length ds then (-1, s)
        else if find_daemon nm ds \<noteq> None then (-1, s)
        else
          (case mach_port_allocate kq reg of
             (rc, None, reg1) \<Rightarrow> (-1, ds, reg1)
           | (rc, Some port, reg1) \<Rightarrow>
               if rc \<noteq> KERN_SUCCESS then (-1, ds, reg1)
               else if fork < 0 then (-1, ds, snd (mach_port_deallocate ok port reg1))
               else
                 (0, ds @ [\<lparr>d_name = take (MAX_NAME_LEN - 1) nm, d_pid = fork, d_port = port,
                            d_active = True\<rparr>], reg1)))"

text \<open>The result, the process that is sent \<^verbatim>\<open>SIGTERM\<close> and waited for, and the state.\<close>

definition stop_daemon :: "bool \<Rightarrow> string \<Rightarrow> daemon_state \<Rightarrow> int \<times> int option \<times> daemon_state" where
  "stop_daemon ok nm s =
     (case s of (ds, reg) \<Rightarrow>
        (case find_daemon nm ds of
           None \<Rightarrow> (-1, None, s)
         | Some i \<Rightarrow>
             let d = ds ! i in
             if \<not> d_active d then (-1, None, s)
             else (0, Some (d_pid d), ds[i := d\<lparr>d_active := False\<rparr>],
                   snd (mach_port_deallocate ok (d_port d) reg))))"

text \<open>The rows of the listing.\<close>

definition list_daemons :: "daemon_state \<Rightarrow> (string \<times> int \<times> int \<times> string) list" where
  "list_daemons s =
     map (\<lambda>d. (d_name d, d_pid d, d_port d, if d_active d then ''Running'' else ''Stopped'')) (fst s)"

text \<open>\<^verbatim>\<open>main\<close>: a process starts with an empty table, runs one command, and ends.\<close>

definition launchd_demo_main :: "int \<Rightarrow> int \<Rightarrow> bool \<Rightarrow> string list \<Rightarrow> int" where
  "launchd_demo_main kq fork ok args =
     (case args of
        [] \<Rightarrow> 1
      | cmd # rest \<Rightarrow>
          if cmd = ''start'' then
            (case rest of [] \<Rightarrow> 1 | nm # _ \<Rightarrow> fst (start_daemon kq fork ok nm ([], [])))
          else if cmd = ''stop'' then
            (case rest of [] \<Rightarrow> 1 | nm # _ \<Rightarrow> fst (stop_daemon ok nm ([], [])))
          else if cmd = ''list'' then 0
          else if cmd = ''help'' then 0
          else 1)"

section \<open>Sequences of calls\<close>

datatype daemon_call = DaemonStart string int int | DaemonStop string

definition live_ports :: "daemon list \<Rightarrow> int set" where
  "live_ports ds = d_port ` set (filter d_active ds)"

text \<open>The system gives a descriptor that is not open.\<close>

definition daemon_step :: "daemon_state \<Rightarrow> daemon_call \<Rightarrow> daemon_state" where
  "daemon_step s c =
     (case c of
        DaemonStart nm kq fork \<Rightarrow>
          if kq \<le> 0 \<or> kq \<in> live_ports (fst s) then s else snd (start_daemon kq fork True nm s)
      | DaemonStop nm \<Rightarrow> snd (snd (stop_daemon True nm s)))"

definition table_ok :: "daemon_state \<Rightarrow> bool" where
  "table_ok s =
     (registry_ok (snd s) \<and> fst ` set (snd s) = live_ports (fst s) \<and> length (fst s) \<le> MAX_DAEMONS \<and>
      (\<forall>d \<in> set (fst s). 0 < d_port d) \<and> distinct (map d_port (filter d_active (fst s))))"

lemma find_daemon_None: "find_daemon nm ds = None \<longleftrightarrow> nm \<notin> d_name ` set ds"
  by (induction ds) auto

lemma find_daemon_Some: "find_daemon nm ds = Some i \<Longrightarrow> i < length ds \<and> d_name (ds ! i) = nm"
  by (induction ds arbitrary: i) (auto split: if_splits)

lemma remove_fresh: "p \<notin> fst ` set reg \<Longrightarrow> port_entry_remove p (fst (port_entry_get reg p)) = reg"
  using keys_find [of reg] by (auto simp: port_entry_get_def split: option.split)

lemma start_ok_table:
  assumes "table_ok (ds, reg)" "0 < kq" "kq \<notin> live_ports ds"
  shows "table_ok (snd (start_daemon kq fork ok nm (ds, reg)))"
proof (cases "MAX_DAEMONS \<le> length ds \<or> find_daemon nm ds \<noteq> None")
  case False
  have new: "kq \<notin> fst ` set reg" using assms(1,3) by (simp add: table_ok_def)
  then have get: "port_entry_get reg kq = ((kq, fresh_entry) # reg, fresh_entry)"
    using keys_find [of reg] by (auto simp: port_entry_get_def split: option.split)
  have b: "\<not> bad_name kq" using assms(2) by (simp add: bad_name_def kern_codes)
  show ?thesis
  proof (cases "fork < 0")
    case True
    then show ?thesis
      using False assms remove_fresh [OF new] b
      by (auto simp: start_daemon_def mach_port_allocate_def mach_port_deallocate_def kern_codes)
  next
    case fork: False
    let ?d = "\<lparr>d_name = take (MAX_NAME_LEN - 1) nm, d_pid = fork, d_port = kq, d_active = True\<rparr>"
    have s: "snd (start_daemon kq fork ok nm (ds, reg)) = (ds @ [?d], (kq, fresh_entry) # reg)"
      using False fork assms(2) by (auto simp: start_daemon_def mach_port_allocate_def get)
    have "live_ports (ds @ [?d]) = insert kq (live_ports ds)" by (auto simp: live_ports_def)
    moreover have "kq \<notin> d_port ` set (filter d_active ds)" using assms(3) by (simp add: live_ports_def)
    ultimately show ?thesis
      using assms new False unfolding s by (auto simp: table_ok_def registry_ok_def)
  qed
qed (use assms(1) in \<open>auto simp: start_daemon_def\<close>)

lemma stop_ok_table:
  assumes "table_ok (ds, reg)"
  shows "table_ok (snd (snd (stop_daemon ok nm (ds, reg))))"
proof (cases "find_daemon nm ds")
  case (Some i)
  show ?thesis
  proof (cases "d_active (ds ! i)")
    case True
    have i: "i < length ds" using find_daemon_Some [OF Some] by simp
    define d where "d = ds ! i"
    define xs where "xs = take i ds"
    define ys where "ys = drop (Suc i) ds"
    have ds: "ds = xs @ d # ys" "ds[i := d\<lparr>d_active := False\<rparr>] = xs @ d\<lparr>d_active := False\<rparr> # ys"
      using i by (simp_all add: d_def xs_def ys_def id_take_nth_drop upd_conv_take_nth_drop)
    have a: "d_active d" using True by (simp add: d_def)
    have s: "snd (snd (stop_daemon ok nm (ds, reg))) =
        (xs @ d\<lparr>d_active := False\<rparr> # ys, snd (mach_port_deallocate ok (d_port d) reg))"
      using Some a ds(2) by (simp add: stop_daemon_def Let_def d_def)
    have t: "registry_ok reg" "fst ` set reg = live_ports ds" "length ds \<le> MAX_DAEMONS"
      "\<forall>d \<in> set ds. 0 < d_port d" "distinct (map d_port (filter d_active ds))"
      using assms by (simp_all add: table_ok_def)
    have b: "\<not> bad_name (d_port d)" using t(4) ds(1) by (auto simp: bad_name_def kern_codes)
    have "live_ports (xs @ d\<lparr>d_active := False\<rparr> # ys) = set (map d_port (filter d_active (xs @ ys)))"
      by (simp add: live_ports_def image_Un)
    moreover have "live_ports ds = insert (d_port d) (set (map d_port (filter d_active (xs @ ys))))"
      using a unfolding ds(1) live_ports_def by (simp add: image_Un)
    moreover have "d_port d \<notin> set (map d_port (filter d_active (xs @ ys)))"
      using t(5) a unfolding ds(1) by (simp only: filter_append filter.simps if_True) simp
    ultimately have "live_ports (xs @ d\<lparr>d_active := False\<rparr> # ys) = live_ports ds - {d_port d}" by simp
    then show ?thesis
      using t a b unfolding s
      by (auto simp: table_ok_def mach_port_deallocate_def keys_remove port_store.ok_remove ds(1))
  qed (use assms Some in \<open>simp add: stop_daemon_def\<close>)
qed (use assms in \<open>simp add: stop_daemon_def\<close>)

interpretation daemon_table: invariant_machine daemon_step table_ok
proof
  fix s c
  assume ok: "table_ok s"
  show "table_ok (daemon_step s c)"
  proof (cases c)
    case (DaemonStart nm kq fork)
    then show ?thesis
      using ok start_ok_table [of "fst s" "snd s" kq fork True nm] by (simp add: daemon_step_def)
  next
    case (DaemonStop nm)
    then show ?thesis using ok stop_ok_table [of "fst s" "snd s" True nm] by (simp add: daemon_step_def)
  qed
qed

lemma table_ok_start: "table_ok ([], [])"
  by (simp add: table_ok_def registry_ok_def live_ports_def)

lemma stopped_not_restarted:
  assumes "stop_daemon ok nm (ds, reg) = (0, r, s')"
  shows "fst (start_daemon kq fork ok' nm s') = -1"
proof -
  obtain i where i: "find_daemon nm ds = Some i" "fst s' = ds[i := (ds ! i)\<lparr>d_active := False\<rparr>]"
    using assms by (auto simp: stop_daemon_def Let_def split: option.splits if_splits)
  have l: "i < length ds" "d_name (ds ! i) = nm" using find_daemon_Some [OF i(1)] by auto
  then have "(ds ! i)\<lparr>d_active := False\<rparr> \<in> set (fst s')" by (simp add: i(2) set_update_memI)
  then have "nm \<in> d_name ` set (fst s')" using l(2) by (intro image_eqI) simp_all
  then have "find_daemon nm (fst s') \<noteq> None" by (simp only: find_daemon_None) simp
  then show ?thesis by (cases s') (simp add: start_daemon_def)
qed

text \<open>No port leaks, and no daemon comes back.  After any starts and stops the table holds at most 32
  daemons, and the registry has a port for each running one and no other.  But a stopped daemon keeps
  its row, so its name cannot be started again; and as every process begins with an empty table, the
  command \<^verbatim>\<open>stop\<close> always fails.\<close>

lemma daemon_ports_exact:
  assumes "foldl daemon_step ([], []) calls = (ds, reg)"
  shows "length ds \<le> MAX_DAEMONS \<and>
     {p. port_entry_find reg p \<noteq> None} = d_port ` set (filter d_active ds) \<and>
     (\<forall>nm r s' kq fork. stop_daemon True nm (ds, reg) = (0, r, s') \<longrightarrow>
        fst (start_daemon kq fork True nm s') = -1) \<and>
     launchd_demo_main kq fork True [''stop'', nm] = -1"
proof -
  have "table_ok (ds, reg)"
    using daemon_table.inv_run [OF table_ok_start, of calls] assms by simp
  then have "length ds \<le> MAX_DAEMONS" "fst ` set reg = live_ports ds" by (simp_all add: table_ok_def)
  then show ?thesis
    using stopped_not_restarted [of True] keys_find [of reg]
    by (auto simp: live_ports_def launchd_demo_main_def stop_daemon_def)
qed

end
