(* ===== verification/Info_Tools.thy ===== *)
theory Info_Tools
  imports Defaults Shell_Tools Catbsd_Init
begin

text \<open>
  The tools that print or wait, under \<^verbatim>\<open>src/src/darwin-compat/\<close>: \<^verbatim>\<open>plutil-demo\<close>, \<^verbatim>\<open>scutil-demo\<close>,
  \<^verbatim>\<open>caffeinate-demo\<close>, \<^verbatim>\<open>afplay-demo\<close>, \<^verbatim>\<open>sw_vers-demo\<close>; and the stand-ins for Darwin system calls,
  \<^verbatim>\<open>shims/darwin_syscalls.c\<close>.

  What the system tells is an argument.  Usage texts, banners and progress messages are left out.
\<close>

section \<open>plutil\<close>

text \<open>The text printed for a node; nodes of a tree are printed with two blanks for each level.\<close>

definition NEWLINE :: string where "NEWLINE = [CHR 0x0A]"

fun print_plist_node :: "(xml \<Rightarrow> string) \<Rightarrow> nat \<Rightarrow> xml \<Rightarrow> string" where
  "print_plist_node getc indent (XText s) = []"
| "print_plist_node getc indent (XOther s) = []"
| "print_plist_node getc indent (XElem nm cs) =
     concat (replicate indent ''  '') @
     (if nm = ''key'' then ''Key: '' @ getc (XElem nm cs) @ NEWLINE
      else if nm = ''string'' then ''String: '' @ getc (XElem nm cs) @ NEWLINE
      else if nm = ''integer'' then ''Integer: '' @ getc (XElem nm cs) @ NEWLINE
      else if nm = ''true'' then ''Boolean: true'' @ NEWLINE
      else if nm = ''false'' then ''Boolean: false'' @ NEWLINE
      else if nm = ''dict'' then
        ''Dictionary:'' @ NEWLINE @
        concat (map (\<lambda>c. if is_elem c then print_plist_node getc (indent + 1) c else []) cs)
      else if nm = ''array'' then
        ''Array:'' @ NEWLINE @
        concat (map (\<lambda>c. if is_elem c then print_plist_node getc (indent + 1) c else []) cs)
      else [])"

text \<open>\<open>read\<close> gives a document for a file, which is a root element or empty.\<close>

definition validate_plist :: "(string \<Rightarrow> xml_doc option) \<Rightarrow> string \<Rightarrow> bool" where
  "validate_plist read file =
     (case read file of
        None \<Rightarrow> False
      | Some None \<Rightarrow> False
      | Some (Some root) \<Rightarrow> is_named ''plist'' root)"

definition print_plist :: "(xml \<Rightarrow> string) \<Rightarrow> (string \<Rightarrow> xml_doc option) \<Rightarrow> string \<Rightarrow> int \<times> string" where
  "print_plist getc read file =
     (case read file of
        None \<Rightarrow> (-1, [])
      | Some None \<Rightarrow> (-1, [])
      | Some (Some root) \<Rightarrow>
          (0, NEWLINE @ ''=== Property List: '' @ file @ '' ==='' @ NEWLINE @ NEWLINE @
              (case root of
                 XElem nm cs \<Rightarrow> concat (map (\<lambda>c. if is_elem c then print_plist_node getc 0 c else []) cs)
               | _ \<Rightarrow> []) @ NEWLINE))"

definition plutil_main ::
  "(xml \<Rightarrow> string) \<Rightarrow> (string \<Rightarrow> xml_doc option) \<Rightarrow> string list \<Rightarrow> int \<times> string" where
  "plutil_main getc read args =
     (case args of
        [] \<Rightarrow> (1, [])
      | cmd # rest \<Rightarrow>
          if cmd = ''-lint'' then
            (case rest of [] \<Rightarrow> (1, []) | file # _ \<Rightarrow> (if validate_plist read file then 0 else 1, []))
          else if cmd = ''-p'' then
            (case rest of [] \<Rightarrow> (1, []) | file # _ \<Rightarrow> print_plist getc read file)
          else if cmd = ''-help'' then (0, [])
          else (1, []))"

text \<open>Elements the tool does not know, such as \<^verbatim>\<open>real\<close>, \<^verbatim>\<open>date\<close> and \<^verbatim>\<open>data\<close>, leave blanks and no line.\<close>

lemma print_unknown:
  "nm \<notin> {''key'', ''string'', ''integer'', ''true'', ''false'', ''dict'', ''array''} \<Longrightarrow>
   set (print_plist_node getc n (XElem nm cs)) \<subseteq> {CHR '' ''}"
  by auto

text \<open>A document that is accepted has \<^verbatim>\<open>plist\<close> for its root, and nothing else is looked at.\<close>

lemma lint_accepts: "fst (plutil_main getc read [''-lint'', file]) = 0 \<longleftrightarrow> (\<exists>cs. read file = Some (Some (XElem ''plist'' cs)))"
  by (auto simp: plutil_main_def validate_plist_def is_named_def split: option.splits xml.splits)

section \<open>scutil\<close>

record system_names =
  sn_hostname :: "string option"
  sn_uname :: "(string \<times> string \<times> string \<times> string \<times> string) option"

text \<open>The result and the line printed; the fields of \<^verbatim>\<open>uname\<close> are the system, the node, the release, the
  version and the machine.\<close>

definition get_computer_name :: "system_names \<Rightarrow> int \<times> string option" where
  "get_computer_name sn =
     (case sn_hostname sn of
        None \<Rightarrow> (-1, None)
      | Some nm \<Rightarrow> (0, Some (takeWhile (\<lambda>c. c \<noteq> CHR ''.'') nm)))"

definition get_local_hostname :: "system_names \<Rightarrow> int \<times> string option" where
  "get_local_hostname sn = (case sn_hostname sn of None \<Rightarrow> (-1, None) | Some nm \<Rightarrow> (0, Some nm))"

definition get_hostname :: "system_names \<Rightarrow> int \<times> string option" where
  "get_hostname sn = (case sn_uname sn of None \<Rightarrow> (-1, None) | Some (s, node, r) \<Rightarrow> (0, Some node))"

definition show_all :: "system_names \<Rightarrow> string list" where
  "show_all sn =
     [''=== System Configuration ==='', []] @
     (case sn_hostname sn of
        None \<Rightarrow> []
      | Some nm \<Rightarrow> [''ComputerName: '' @ nm, ''LocalHostName: '' @ nm, ''HostName: '' @ nm]) @
     (case sn_uname sn of
        None \<Rightarrow> []
      | Some (s, node, r, v, m) \<Rightarrow>
          [''System: '' @ s, ''Release: '' @ r, ''Version: '' @ v, ''Machine: '' @ m])"

definition scutil_main :: "system_names \<Rightarrow> string list \<Rightarrow> int \<times> string list" where
  "scutil_main sn args =
     (let line = (\<lambda>(rc, out). (rc, case out of None \<Rightarrow> [] | Some l \<Rightarrow> [l])) in
      case args of
        [] \<Rightarrow> (0, show_all sn)
      | opt # rest \<Rightarrow>
          if opt = ''--get'' then
            (case rest of
               [] \<Rightarrow> (1, [])
             | key # _ \<Rightarrow>
                 if key = ''ComputerName'' then line (get_computer_name sn)
                 else if key = ''LocalHostName'' then line (get_local_hostname sn)
                 else if key = ''HostName'' then line (get_hostname sn)
                 else (1, []))
          else if opt = ''-h'' \<or> opt = ''--help'' then (0, [])
          else (1, []))"

section \<open>caffeinate\<close>

text \<open>What \<^verbatim>\<open>waitpid\<close> with \<^verbatim>\<open>WNOHANG\<close> gives; a status word of an exit is the code times 256, of a signal its
  number.\<close>

datatype poll_result = StillRuns | Gone int | WaitFails

definition WEXITSTATUS :: "int \<Rightarrow> int" where
  "WEXITSTATUS status = status div 256 mod 256"

text \<open>The waiting loop: the status, with the one before the loop if no call filled it, and the seconds
  slept; \<open>None\<close> if the process runs for ever.\<close>

fun wait_command :: "int \<Rightarrow> nat \<Rightarrow> poll_result list \<Rightarrow> (int \<times> nat) option" where
  "wait_command status slept [] = None"
| "wait_command status slept (r # rs) =
     (case r of
        StillRuns \<Rightarrow> wait_command status (slept + 1) rs
      | Gone st \<Rightarrow> Some (st, slept)
      | WaitFails \<Rightarrow> Some (status, slept))"

text \<open>The parent, with its result and the seconds slept; \<open>junk\<close> is what the uninitialised variable holds.  The
  child becomes the command, or exits with 1.\<close>

definition caffeinate_run :: "int \<Rightarrow> int \<Rightarrow> poll_result list \<Rightarrow> (int \<times> nat) option" where
  "caffeinate_run fork junk rs =
     (if fork < 0 then Some (-1, 0)
      else map_option (\<lambda>(status, slept). (WEXITSTATUS status, slept)) (wait_command junk 0 rs))"

text \<open>The timed loop: the seconds slept; \<open>run i\<close> is whether the flag is still set before second \<open>i\<close>.\<close>

fun timed_loop :: "(nat \<Rightarrow> bool) \<Rightarrow> nat \<Rightarrow> nat \<Rightarrow> nat" where
  "timed_loop run i 0 = i"
| "timed_loop run i (Suc n) = (if run i then timed_loop run (i + 1) n else i)"

definition caffeinate_seconds :: "(nat \<Rightarrow> bool) \<Rightarrow> string \<Rightarrow> nat" where
  "caffeinate_seconds run arg = timed_loop run 0 (nat (atoi arg))"

lemma timed_loop_bounds: "i \<le> timed_loop run i n \<and> timed_loop run i n \<le> i + n"
proof (induction n arbitrary: i)
  case 0
  show ?case by simp
next
  case (Suc n)
  show ?case using Suc.IH [of "i + 1"] by auto
qed

lemma timed_loop_all: "(\<forall>j. run j) \<Longrightarrow> timed_loop run i n = i + n"
  by (induction n arbitrary: i) auto

text \<open>Without arguments the tool waits until a signal comes, which may be never.\<close>

partial_function (option) keep_awake :: "(nat \<Rightarrow> bool) \<Rightarrow> nat \<Rightarrow> nat option" where
  "keep_awake run count = (if run count then keep_awake run (count + 1) else Some count)"

text \<open>How the tool ends, and the seconds it sleeps: \<open>started\<close> is what \<^verbatim>\<open>fork\<close> and the polls of a command give.\<close>

definition caffeinate_main ::
  "(nat \<Rightarrow> bool) \<Rightarrow> (string list \<Rightarrow> int \<times> poll_result list) \<Rightarrow> int \<Rightarrow> string list \<Rightarrow>
     (int \<times> nat) option" where
  "caffeinate_main run started junk args =
     (case args of
        [] \<Rightarrow> map_option (Pair 0) (keep_awake run 0)
      | opt # rest \<Rightarrow>
          if opt = ''-h'' \<or> opt = ''--help'' then Some (0, 0)
          else if opt = ''-t'' then
            (case rest of [] \<Rightarrow> Some (1, 0) | arg # _ \<Rightarrow> Some (0, caffeinate_seconds run arg))
          else (case started args of (fork, rs) \<Rightarrow> caffeinate_run fork junk rs))"

text \<open>The wait ends exactly at the first second at which the flag is clear.\<close>

lemma keep_awake_run: "(\<forall>j. i \<le> j \<and> j < i + n \<longrightarrow> run j) \<Longrightarrow> \<not> run (i + n) \<Longrightarrow> keep_awake run i = Some (i + n)"
proof (induction n arbitrary: i)
  case 0
  then show ?case by (simp add: keep_awake.simps)
next
  case (Suc n)
  have "run i" using Suc.prems(1) by simp
  moreover have "keep_awake run (i + 1) = Some (i + 1 + n)"
    using Suc.prems by (intro Suc.IH) auto
  ultimately show ?case by (subst keep_awake.simps) simp
qed

lemma keep_awake_found:
  assumes "keep_awake run i = Some k"
  shows "i \<le> k \<and> \<not> run k"
proof (rule keep_awake.raw_induct [OF _ assms, where P = "\<lambda>run i k. i \<le> k \<and> \<not> run k"])
  fix f :: "(nat \<Rightarrow> bool) \<Rightarrow> nat \<Rightarrow> nat option" and r n y
  assume rec: "\<And>r n y. f r n = Some y \<Longrightarrow> n \<le> y \<and> \<not> r y"
    and body: "(if r n then f r (n + 1) else Some n) = Some y"
  show "n \<le> y \<and> \<not> r y" using body rec [of r "n + 1" y] by (auto split: if_splits)
qed

lemma caffeinate_timed:
  "(\<forall>j. run j) \<Longrightarrow> caffeinate_main run started junk (''-t'' # arg # rest) = Some (0, nat (atoi arg))"
  by (simp add: caffeinate_main_def caffeinate_seconds_def timed_loop_all)

text \<open>An exit code is passed on; a command that was killed by a signal is reported as a success.\<close>

lemma wait_command_gone:
  "wait_command junk k (replicate n StillRuns @ [Gone st]) = Some (st, k + n)"
  by (induction n arbitrary: k) auto

lemma caffeinate_exit:
  "0 \<le> fork \<Longrightarrow> 0 \<le> c \<Longrightarrow> c < 256 \<Longrightarrow>
   caffeinate_run fork junk (replicate n StillRuns @ [Gone (c * 256)]) = Some (c, n)"
  by (simp add: caffeinate_run_def WEXITSTATUS_def wait_command_gone)

lemma caffeinate_killed:
  "0 \<le> fork \<Longrightarrow> 0 < s \<Longrightarrow> s < 128 \<Longrightarrow>
   caffeinate_run fork junk (replicate n StillRuns @ [Gone s]) = Some (0, n)"
  by (simp add: caffeinate_run_def WEXITSTATUS_def wait_command_gone)

section \<open>sw\_vers\<close>

definition CATBSD_VERSION :: string where "CATBSD_VERSION = ''0.1.0-alpha''"
definition CATBSD_BUILD :: string where "CATBSD_BUILD = ''24A1''"
definition CATBSD_NAME :: string where "CATBSD_NAME = ''CatBSD Darwin Utilities Toolkit''"

text \<open>What \<^verbatim>\<open>uname\<close> leaves in its structure, whose result is not looked at; the lines printed, or \<open>None\<close>
  where the program exits with 1.\<close>

record utsname =
  sysname :: string
  nodename :: string
  release :: string
  machine :: string

definition print_info :: "utsname \<Rightarrow> string \<Rightarrow> string list option" where
  "print_info uts key =
     (if key = ''ProductName'' then Some [CATBSD_NAME]
      else if key = ''ProductVersion'' then Some [CATBSD_VERSION]
      else if key = ''BuildVersion'' then Some [CATBSD_BUILD]
      else if key = ''ProductBuildVersion'' then Some [CATBSD_BUILD]
      else if key = ''KernelVersion'' then Some [sysname uts @ '' '' @ release uts]
      else if key = ''Architecture'' then Some [machine uts]
      else None)"

definition print_all :: "utsname \<Rightarrow> string list" where
  "print_all uts =
     [''ProductName:            '' @ CATBSD_NAME,
      ''ProductVersion:         '' @ CATBSD_VERSION,
      ''BuildVersion:           '' @ CATBSD_BUILD,
      ''KernelVersion:          '' @ sysname uts @ '' '' @ release uts,
      ''Architecture:           '' @ machine uts,
      ''Hostname:               '' @ nodename uts]"

definition sw_vers_main :: "utsname \<Rightarrow> string list \<Rightarrow> int \<times> string list" where
  "sw_vers_main uts args =
     (let info = (\<lambda>key. case print_info uts key of None \<Rightarrow> (1, []) | Some ls \<Rightarrow> (0, ls)) in
      case args of
        [] \<Rightarrow> (0, print_all uts)
      | opt # rest \<Rightarrow>
          if opt = ''-productName'' then info ''ProductName''
          else if opt = ''-productVersion'' then info ''ProductVersion''
          else if opt = ''-buildVersion'' then info ''BuildVersion''
          else if opt = ''-kernelVersion'' then info ''KernelVersion''
          else if opt = ''-architecture'' then info ''Architecture''
          else if opt = ''-banner'' \<or> opt = ''-h'' \<or> opt = ''--help'' then (0, [])
          else (1, []))"

text \<open>Every option asks for a key that is known: the error exit for an unknown key is never taken.\<close>

lemma sw_vers_options:
  "fst (sw_vers_main uts args) = 0 \<longleftrightarrow>
     args = [] \<or> hd args \<in> {''-productName'', ''-productVersion'', ''-buildVersion'', ''-kernelVersion'',
       ''-architecture'', ''-banner'', ''-h'', ''--help''}"
  by (cases args) (simp_all add: sw_vers_main_def Let_def print_info_def)

section \<open>afplay\<close>

text \<open>The operations of \<^verbatim>\<open>float\<close> that are used: \<^verbatim>\<open>atof\<close>, the comparisons with 0 and 1, and \<^verbatim>\<open>%.2f\<close>.  The
  initial volume is negative: \<open>None\<close>.\<close>

record 'f float_ops =
  f_parse :: "string \<Rightarrow> 'f"
  f_below_0 :: "'f \<Rightarrow> bool"
  f_above_1 :: "'f \<Rightarrow> bool"
  f_from_0 :: "'f \<Rightarrow> bool"
  f_show :: "'f \<Rightarrow> string"

definition play_audio ::
  "'f float_ops \<Rightarrow> (string \<Rightarrow> int) \<Rightarrow> string \<Rightarrow> 'f option \<Rightarrow> int \<Rightarrow> int \<times> tool_act list" where
  "play_audio fo sys file volume duration =
     (let cat = strncat_into 1024;
          cmd0 = snprintf_s 1024 ''afplay'';
          cmd1 = (case volume of
                    None \<Rightarrow> cmd0
                  | Some v \<Rightarrow> if f_from_0 fo v then cat cmd0 (snprintf_s 64 ('' -v '' @ f_show fo v)) else cmd0);
          cmd2 = (if 0 < duration then cat cmd1 (snprintf_s 64 ('' -t '' @ dec_int duration)) else cmd1);
          cmd = cat (cat (cat cmd2 ('' '' @ [CHR 0x27])) file) [CHR 0x27]
      in (sys cmd, [RunCmd cmd]))"

fun afplay_args ::
  "'f float_ops \<Rightarrow> string list \<Rightarrow> 'f option \<times> int \<times> string option \<Rightarrow> int + 'f option \<times> int \<times> string option" where
  "afplay_args fo [] s = Inr s"
| "afplay_args fo (a # as) (volume, duration, file) =
     (if a = ''-v'' then
        (case as of
           [] \<Rightarrow> Inl 1
         | b # bs \<Rightarrow>
             let v = f_parse fo b in
             if f_below_0 fo v \<or> f_above_1 fo v then Inl 1
             else afplay_args fo bs (Some v, duration, file))
      else if a = ''-t'' then
        (case as of
           [] \<Rightarrow> Inl 1
         | b # bs \<Rightarrow> if atoi b \<le> 0 then Inl 1 else afplay_args fo bs (volume, atoi b, file))
      else if a = ''-h'' \<or> a = ''--help'' then Inl 0
      else afplay_args fo as (volume, duration, Some a))"

definition afplay_main ::
  "'f float_ops \<Rightarrow> (string \<Rightarrow> int) \<Rightarrow> (string \<Rightarrow> bool) \<Rightarrow> string list \<Rightarrow> int \<times> tool_act list" where
  "afplay_main fo sys exists args =
     (if args = [] then (1, [])
      else
        (case afplay_args fo args (None, -1, None) of
           Inl rc \<Rightarrow> (rc, [])
         | Inr (volume, duration, None) \<Rightarrow> (1, [])
         | Inr (volume, duration, Some file) \<Rightarrow>
             if \<not> exists file then (1, []) else play_audio fo sys file volume duration))"

section \<open>System calls\<close>

text \<open>The clock gives seconds and nanoseconds, or fails.\<close>

definition darwin_absolute_time :: "(int \<times> int) option \<Rightarrow> u64" where
  "darwin_absolute_time clock =
     (case clock of None \<Rightarrow> 0 | Some (s, n) \<Rightarrow> word_of_int s * 1000000000 + word_of_int n)"

definition darwin_absolute_to_nanoseconds :: "u64 \<Rightarrow> u64" where
  "darwin_absolute_to_nanoseconds t = t"

text \<open>What \<^verbatim>\<open>pthread_self\<close> and \<^verbatim>\<open>getpagesize\<close> give is an argument.\<close>

definition darwin_thread_self :: "u64 \<Rightarrow> u64" where
  "darwin_thread_self thread = thread"

definition darwin_vm_page_size :: "u32 \<Rightarrow> u64" where
  "darwin_vm_page_size n = scast n"

definition darwin_pthread_setname_np :: "string option \<Rightarrow> int" where
  "darwin_pthread_setname_np nm = (if nm = None then -1 else 0)"

datatype pid_errno = PidEINVAL | PidENOSPC | PidESRCH | PidSysctl

record bsdinfo =
  pbi_pid :: int
  pbi_ppid :: int
  pbi_uid :: nat
  pbi_status :: nat
  pbi_comm :: string

definition BSDINFO_SIZE :: nat where "BSDINFO_SIZE = 80"
definition DARWIN_PROC_PIDTBSDINFO :: int where "DARWIN_PROC_PIDTBSDINFO = 3"

text \<open>The error, or the number of bytes and what is written to the buffer.  \<open>sysctl\<close> fails, has no such
  process, or gives the process; the size is converted to \<^verbatim>\<open>size_t\<close> before it is compared.\<close>

definition darwin_proc_pidinfo ::
  "(int \<Rightarrow> bsdinfo option option) \<Rightarrow> int \<Rightarrow> int \<Rightarrow> bool \<Rightarrow> int \<Rightarrow> pid_errno + int \<times> bsdinfo" where
  "darwin_proc_pidinfo sysctl pid flavor has_buffer buffersize =
     (if \<not> has_buffer \<or> pid < 0 then Inl PidEINVAL
      else if flavor \<noteq> DARWIN_PROC_PIDTBSDINFO then Inl PidEINVAL
      else if unat (word_of_int buffersize :: u64) < BSDINFO_SIZE then Inl PidENOSPC
      else
        (case sysctl pid of
           None \<Rightarrow> Inl PidSysctl
         | Some None \<Rightarrow> Inl PidESRCH
         | Some (Some k) \<Rightarrow> Inr (int BSDINFO_SIZE, k\<lparr>pbi_comm := take 63 (pbi_comm k)\<rparr>)))"

text \<open>A size that is not negative is checked; a negative one passes as a huge one, and the buffer is
  written whatever it holds.\<close>

lemma pidinfo_small:
  "0 \<le> sz \<Longrightarrow> sz < 80 \<Longrightarrow> darwin_proc_pidinfo sysctl pid flavor b sz \<in> {Inl PidEINVAL, Inl PidENOSPC}"
  by (auto simp: darwin_proc_pidinfo_def BSDINFO_SIZE_def unat_eq_nat_uint take_bit_int_eq_self uint_word_of_int)

lemma pidinfo_negative:
  "sysctl pid = Some (Some k) \<Longrightarrow> 0 \<le> pid \<Longrightarrow>
   darwin_proc_pidinfo sysctl pid DARWIN_PROC_PIDTBSDINFO True (-1) =
     Inr (80, k\<lparr>pbi_comm := take 63 (pbi_comm k)\<rparr>)"
  by (simp add: darwin_proc_pidinfo_def BSDINFO_SIZE_def unsigned_minus_1_eq_mask mask_eq_exp_minus_1)

end
