(* ===== verification/Blocks_Runtime.thy ===== *)
theory Blocks_Runtime
  imports Prelude
begin

text \<open>
  The Blocks runtime, \<^verbatim>\<open>src/src/darwin-compat/blocks/runtime.c\<close> and \<^verbatim>\<open>Block_private.h\<close>: reference counts that
  latch, copying and releasing of blocks and of \<^verbatim>\<open>__block\<close> variables, and the entry points that the
  helpers generated by the compiler call.

  Memory is a map from addresses to blocks and variables; an address is never used twice, so an access
  to freed memory has no result.  A collector, which only a call of \<^verbatim>\<open>_Block_use_GC\<close> puts in place, is a
  record of functions on that memory.
\<close>

section \<open>Flags\<close>

definition BLOCK_REFCOUNT_MASK :: u32 where "BLOCK_REFCOUNT_MASK = 0xffff"
definition BLOCK_NEEDS_FREE :: u32 where "BLOCK_NEEDS_FREE = 0x1000000"
definition BLOCK_HAS_COPY_DISPOSE :: u32 where "BLOCK_HAS_COPY_DISPOSE = 0x2000000"
definition BLOCK_HAS_CTOR :: u32 where "BLOCK_HAS_CTOR = 0x4000000"
definition BLOCK_IS_GC :: u32 where "BLOCK_IS_GC = 0x8000000"
definition BLOCK_IS_GLOBAL :: u32 where "BLOCK_IS_GLOBAL = 0x10000000"
definition BLOCK_HAS_DESCRIPTOR :: u32 where "BLOCK_HAS_DESCRIPTOR = 0x20000000"
definition BLOCK_FIELD_IS_OBJECT :: u32 where "BLOCK_FIELD_IS_OBJECT = 3"
definition BLOCK_FIELD_IS_BLOCK :: u32 where "BLOCK_FIELD_IS_BLOCK = 7"
definition BLOCK_FIELD_IS_BYREF :: u32 where "BLOCK_FIELD_IS_BYREF = 8"
definition BLOCK_FIELD_IS_WEAK :: u32 where "BLOCK_FIELD_IS_WEAK = 16"
definition BLOCK_BYREF_CALLER :: u32 where "BLOCK_BYREF_CALLER = 128"
definition WANTS_ONE :: u32 where "WANTS_ONE = 0x10000"

lemmas block_flags = BLOCK_REFCOUNT_MASK_def BLOCK_NEEDS_FREE_def BLOCK_HAS_COPY_DISPOSE_def
  BLOCK_IS_GC_def BLOCK_IS_GLOBAL_def BLOCK_HAS_CTOR_def

lemmas field_flags = BLOCK_FIELD_IS_OBJECT_def BLOCK_FIELD_IS_BLOCK_def BLOCK_FIELD_IS_BYREF_def
  BLOCK_FIELD_IS_WEAK_def BLOCK_BYREF_CALLER_def

text \<open>\<^verbatim>\<open>flags & m\<close> as a condition, and the count of references.\<close>

definition has :: "u32 \<Rightarrow> u32 \<Rightarrow> bool" where
  "has w m = (w AND m \<noteq> 0)"

definition refcount :: "u32 \<Rightarrow> nat" where
  "refcount w = unat (w AND BLOCK_REFCOUNT_MASK)"

text \<open>The counters that latch: what is returned, and the new value.  (What other threads do between the
  read and the exchange is the subject of the last section.)\<close>

definition latching_incr_int :: "u32 \<Rightarrow> u32 \<times> u32" where
  "latching_incr_int w =
     (if w AND BLOCK_REFCOUNT_MASK = BLOCK_REFCOUNT_MASK then (BLOCK_REFCOUNT_MASK, w) else (w + 1, w + 1))"

definition latching_decr_int :: "u32 \<Rightarrow> u32 \<times> u32" where
  "latching_decr_int w =
     (if w AND BLOCK_REFCOUNT_MASK = BLOCK_REFCOUNT_MASK then (BLOCK_REFCOUNT_MASK, w)
      else if w AND BLOCK_REFCOUNT_MASK = 0 then (0, w)
      else (w - 1, w - 1))"

lemma refcount_mod: "refcount w = unat w mod 65536"
proof -
  have "w AND BLOCK_REFCOUNT_MASK = take_bit 16 w"
    by (simp add: BLOCK_REFCOUNT_MASK_def take_bit_eq_mask mask_eq_exp_minus_1)
  moreover have "unat (take_bit 16 w) = take_bit 16 (unat w)" by (rule unsigned_take_bit_eq)
  ultimately show ?thesis by (simp add: refcount_def take_bit_eq_mod [of 16 "unat w"])
qed

lemma refcount_less: "refcount w < 65536"
  by (simp add: refcount_mod)

lemma latched_iff: "w AND BLOCK_REFCOUNT_MASK = BLOCK_REFCOUNT_MASK \<longleftrightarrow> refcount w = 65535"
  by (auto simp: refcount_def BLOCK_REFCOUNT_MASK_def word_unat_eq_iff)

lemma refcount_zero_iff: "w AND BLOCK_REFCOUNT_MASK = 0 \<longleftrightarrow> refcount w = 0"
  by (simp add: refcount_def unat_eq_zero)

lemma mod_add_small: "(a::nat) mod m + k < m \<Longrightarrow> (a + k) mod m = a mod m + k \<and> (a + k) div m = a div m"
proof -
  assume s: "a mod m + k < m"
  define q r where "q = a div m" and "r = a mod m"
  have e: "a + k = (r + k) + q * m" using div_mult_mod_eq [of a m] by (simp add: q_def r_def)
  have "r + k < m" "m \<noteq> 0" using s by (auto simp: r_def)
  then have "((r + k) + q * m) mod m = r + k \<and> ((r + k) + q * m) div m = q" by simp
  then show ?thesis unfolding e unfolding q_def r_def .
qed

lemma unat_add_small:
  "refcount w + k < 65536 \<Longrightarrow> unat (w + of_nat k) = unat w + k"
proof -
  assume s: "refcount w + k < 65536"
  have w: "unat w < 4294967296" using unsigned_less [of w] by simp
  have "unat w div 65536 < 65536" using w by (simp add: less_mult_imp_div_less)
  then have "unat w + k < 4294967296"
    using s mult_div_mod_eq [of 65536 "unat w"] unfolding refcount_mod by linarith
  then show ?thesis by (simp add: unat_word_ariths unat_of_nat)
qed

lemma refcount_add: "refcount w + k < 65536 \<Longrightarrow> refcount (w + of_nat k) = refcount w + k"
  using mod_add_small [of "unat w" 65536 k] unat_add_small [of w k] by (simp add: refcount_mod)

lemma high_add: "refcount w + k < 65536 \<Longrightarrow> drop_bit 16 (w + of_nat k) = drop_bit 16 w"
proof -
  assume s: "refcount w + k < 65536"
  have d: "unat (drop_bit 16 v) = unat v div 65536" for v :: u32
  proof -
    have "unat (drop_bit 16 v) = drop_bit 16 (take_bit LENGTH(32) (unat v))" by (rule unsigned_drop_bit_eq)
    moreover have "unat v < 2 ^ LENGTH(32)" by (rule unsigned_less)
    then have "take_bit LENGTH(32) (unat v) = unat v" by (rule take_bit_nat_eq_self)
    ultimately show ?thesis by (simp add: drop_bit_eq_div)
  qed
  have "unat (drop_bit 16 (w + of_nat k)) = unat (drop_bit 16 w)"
    unfolding d unat_add_small [OF s] using mod_add_small [of "unat w" 65536 k] s by (simp add: refcount_mod)
  then show ?thesis by (simp only: word_unat_eq_iff)
qed

text \<open>The flags lie above the count.\<close>

lemma high_bits:
  "drop_bit 16 v = drop_bit 16 w \<Longrightarrow> m AND BLOCK_REFCOUNT_MASK = 0 \<Longrightarrow> v AND m = w AND (m::u32)"
proof (rule bit_eqI)
  fix i
  assume d: "drop_bit 16 v = drop_bit 16 w" and m: "m AND BLOCK_REFCOUNT_MASK = 0"
  show "bit (v AND m) i \<longleftrightarrow> bit (w AND m) i"
  proof (cases "i < 16")
    case True
    have e: "BLOCK_REFCOUNT_MASK = mask 16" by (simp add: BLOCK_REFCOUNT_MASK_def mask_eq_exp_minus_1)
    have "bit BLOCK_REFCOUNT_MASK i" unfolding e using True by (simp only: bit_mask_iff) simp
    then have "\<not> bit m i" using m by (metis bit_0_eq bit_and_iff bot_apply bot_bool_def)
    then show ?thesis by (simp add: bit_and_iff)
  next
    case False
    then have "bit v i = bit (drop_bit 16 v) (i - 16)" "bit w i = bit (drop_bit 16 w) (i - 16)"
      by (simp_all add: bit_drop_bit_eq)
    then show ?thesis using d by (simp add: bit_and_iff)
  qed
qed

lemma has_add:
  assumes "refcount w + k < 65536"
  shows "has (w + of_nat k) BLOCK_NEEDS_FREE = has w BLOCK_NEEDS_FREE"
    "has (w + of_nat k) BLOCK_HAS_COPY_DISPOSE = has w BLOCK_HAS_COPY_DISPOSE"
    "has (w + of_nat k) BLOCK_IS_GC = has w BLOCK_IS_GC"
    "has (w + of_nat k) BLOCK_IS_GLOBAL = has w BLOCK_IS_GLOBAL"
  by (simp_all add: has_def block_flags high_bits [OF high_add [OF assms], unfolded block_flags])

section \<open>Memory\<close>

text \<open>The classes that \<^verbatim>\<open>data.c\<close> defines; another value of an \<^verbatim>\<open>isa\<close> field is an address, 0 for \<^verbatim>\<open>NULL\<close>.\<close>

datatype isa = NSConcreteStackBlock | NSConcreteMallocBlock | NSConcreteAutoBlock | NSConcreteFinalizingBlock
  | NSConcreteGlobalBlock | NSConcreteWeakBlockVariable | OtherIsa u64

text \<open>A descriptor, with the address it has in the image of the program.\<close>

record Block_descriptor =
  bd_address :: u64
  bd_reserved :: u64
  bd_size :: u64
  bd_copy :: u64
  bd_dispose :: u64

text \<open>The copy and dispose helpers are code that the compiler generates for a block, or for a \<^verbatim>\<open>__block\<close>
  variable: for each imported variable that needs it, one call of \<^verbatim>\<open>_Block_object_assign\<close> or
  \<^verbatim>\<open>_Block_object_dispose\<close> with the variable and flags.  So a helper is a list of indices and flags; the
  code addresses in descriptors and in variables are only printed.\<close>

type_synonym helper = "(nat \<times> u32) list"

record Block_layout =
  bl_isa :: isa
  bl_flags :: u32
  bl_invoke :: u64
  bl_descriptor :: Block_descriptor
  bl_helper :: helper
  bl_vars :: "nat list"

record Block_byref =
  by_isa :: isa
  by_forwarding :: nat
  by_flags :: u32
  by_size :: u32
  by_keep :: u64
  by_destroy :: u64
  by_helper :: helper
  by_vars :: "nat list"

datatype cell = Block Block_layout | Byref Block_byref

text \<open>Calls of the functions of \<^verbatim>\<open>_Block_use_RR\<close>, and what a collector was asked: for memory, with or
  without a reference, and to count or not to count references to a block.\<close>

datatype obj_call = Retain nat | Release nat | Allocated nat bool | HasRefcount nat bool

text \<open>The cells, the next address \<^verbatim>\<open>malloc\<close> gives, how often it still succeeds, and the calls so far.\<close>

record heap =
  cells :: "nat \<Rightarrow> cell option"
  next_addr :: nat
  room :: nat
  calls :: "obj_call list"

text \<open>The functions that \<^verbatim>\<open>_Block_use_GC\<close> is given: allocation (the result 0 is \<^verbatim>\<open>NULL\<close>), the counting of
  references, assignments through a write barrier and the copying of the bits of a variable.  What they do
  is up to the collector, and can depend on all calls so far.\<close>

record 'h gc_callouts =
  gc_alloc :: "'h \<Rightarrow> u64 \<Rightarrow> bool \<Rightarrow> bool \<Rightarrow> nat \<times> 'h"
  gc_setHasRefcount :: "'h \<Rightarrow> nat \<Rightarrow> bool \<Rightarrow> 'h"
  gc_assign :: "'h \<Rightarrow> nat \<times> nat \<Rightarrow> nat \<Rightarrow> 'h option"
  gc_assign_weak :: "'h \<Rightarrow> nat \<times> nat \<Rightarrow> nat \<Rightarrow> 'h option"
  gc_memmove :: "'h \<Rightarrow> nat \<Rightarrow> nat \<Rightarrow> 'h option"

text \<open>The variables of the runtime: whether \<^verbatim>\<open>_Block_retain_object\<close> and \<^verbatim>\<open>_Block_release_object\<close> are those of
  \<^verbatim>\<open>_Block_use_RR\<close>; the collector, with \<^verbatim>\<open>isGC\<close> where there is one.\<close>

record memory = heap +
  use_rr :: bool
  gc :: "heap gc_callouts option"

definition with_heap :: "memory \<Rightarrow> heap \<Rightarrow> memory" where
  "with_heap m h = heap.extend h (memory.fields (use_rr m) (gc m))"

definition log_call :: "obj_call \<Rightarrow> heap \<Rightarrow> heap" where
  "log_call c h = h\<lparr>calls := calls h @ [c]\<rparr>"

definition block_at :: "'a heap_scheme \<Rightarrow> nat \<Rightarrow> Block_layout option" where
  "block_at m a = (case cells m a of Some (Block b) \<Rightarrow> Some b | _ \<Rightarrow> None)"

definition byref_at :: "'a heap_scheme \<Rightarrow> nat \<Rightarrow> Block_byref option" where
  "byref_at m a = (case cells m a of Some (Byref v) \<Rightarrow> Some v | _ \<Rightarrow> None)"

definition put :: "'a heap_scheme \<Rightarrow> nat \<Rightarrow> cell \<Rightarrow> 'a heap_scheme" where
  "put m a c = m\<lparr>cells := (cells m)(a \<mapsto> c)\<rparr>"

definition dealloc :: "'a heap_scheme \<Rightarrow> nat \<Rightarrow> 'a heap_scheme" where
  "dealloc m a = m\<lparr>cells := (cells m)(a := None)\<rparr>"

definition malloc :: "'a heap_scheme \<Rightarrow> (nat \<times> 'a heap_scheme) option" where
  "malloc m =
     (if room m = 0 then None
      else Some (next_addr m, m\<lparr>next_addr := next_addr m + 1, room := room m - 1\<rparr>))"

fun vars_of :: "cell \<Rightarrow> nat list" where
  "vars_of (Block b) = bl_vars b"
| "vars_of (Byref v) = by_vars v"

fun set_var :: "nat \<Rightarrow> nat \<Rightarrow> cell \<Rightarrow> cell" where
  "set_var i x (Block b) = Block (b\<lparr>bl_vars := (bl_vars b)[i := x]\<rparr>)"
| "set_var i x (Byref v) = Byref (v\<lparr>by_vars := (by_vars v)[i := x]\<rparr>)"

text \<open>Reading and writing an imported variable, given by its cell and its index; the write is
  \<^verbatim>\<open>_Block_assign_default\<close>.\<close>

definition read_var :: "'a heap_scheme \<Rightarrow> nat \<Rightarrow> nat \<Rightarrow> nat option" where
  "read_var m a i =
     (case cells m a of None \<Rightarrow> None | Some c \<Rightarrow> if i < length (vars_of c) then Some (vars_of c ! i) else None)"

definition assign_default :: "'a heap_scheme \<Rightarrow> nat \<times> nat \<Rightarrow> nat \<Rightarrow> 'a heap_scheme option" where
  "assign_default m d x =
     (case cells m (fst d) of
        None \<Rightarrow> None
      | Some c \<Rightarrow> if snd d < length (vars_of c) then Some (put m (fst d) (set_var (snd d) x c)) else None)"

definition retain_object :: "memory \<Rightarrow> nat \<Rightarrow> memory" where
  "retain_object m p = (if use_rr m then m\<lparr>calls := calls m @ [Retain p]\<rparr> else m)"

definition release_object :: "memory \<Rightarrow> nat \<Rightarrow> memory" where
  "release_object m p = (if use_rr m then m\<lparr>calls := calls m @ [Release p]\<rparr> else m)"

text \<open>\<^verbatim>\<open>_Block_memmove_default\<close> and \<^verbatim>\<open>_Block_memmove_gc_broken\<close>, for what lies behind the header of a
  \<^verbatim>\<open>__block\<close> variable: all of it at once, and word by word.\<close>

definition memmove_default :: "'a heap_scheme \<Rightarrow> nat \<Rightarrow> nat \<Rightarrow> 'a heap_scheme option" where
  "memmove_default m d s =
     Option.bind (byref_at m d) (\<lambda>dst. Option.bind (byref_at m s) (\<lambda>src.
       Some (put m d (Byref (dst\<lparr>by_vars := by_vars src\<rparr>)))))"

fun copy_words :: "nat list \<Rightarrow> 'a heap_scheme \<Rightarrow> nat \<Rightarrow> nat \<Rightarrow> 'a heap_scheme option" where
  "copy_words [] m d s = Some m"
| "copy_words (i # is) m d s =
     Option.bind (read_var m s i) (\<lambda>x. Option.bind (assign_default m (d, i) x) (\<lambda>m'. copy_words is m' d s))"

definition memmove_gc_broken :: "'a heap_scheme \<Rightarrow> nat \<Rightarrow> nat \<Rightarrow> 'a heap_scheme option" where
  "memmove_gc_broken m d s =
     Option.bind (byref_at m s) (\<lambda>src. copy_words [0..<length (by_vars src)] m d s)"

section \<open>Collector\<close>

text \<open>What the pointers of the runtime lead to, without a collector and with one.\<close>

definition Byref_flag_initial_value :: "memory \<Rightarrow> u32" where
  "Byref_flag_initial_value m = (case gc m of None \<Rightarrow> BLOCK_NEEDS_FREE OR 2 | Some g \<Rightarrow> BLOCK_IS_GC)"

definition Block_allocator :: "memory \<Rightarrow> u64 \<Rightarrow> bool \<Rightarrow> bool \<Rightarrow> nat \<times> memory" where
  "Block_allocator m sz one object =
     (case gc m of
        None \<Rightarrow> (case malloc m of None \<Rightarrow> (0, m) | Some r \<Rightarrow> r)
      | Some g \<Rightarrow>
          (case gc_alloc g (heap.truncate m) sz one object of
             (r, h) \<Rightarrow> (r, with_heap m (log_call (Allocated r one) h))))"

definition Block_deallocator :: "memory \<Rightarrow> nat \<Rightarrow> memory" where
  "Block_deallocator m a = (case gc m of None \<Rightarrow> dealloc m a | Some g \<Rightarrow> m)"

definition Block_assign :: "memory \<Rightarrow> nat \<times> nat \<Rightarrow> nat \<Rightarrow> memory option" where
  "Block_assign m d x =
     (case gc m of
        None \<Rightarrow> assign_default m d x
      | Some g \<Rightarrow> map_option (with_heap m) (gc_assign g (heap.truncate m) d x))"

definition Block_assign_weak :: "memory \<Rightarrow> nat \<times> nat \<Rightarrow> nat \<Rightarrow> memory option" where
  "Block_assign_weak m d x =
     (case gc m of
        None \<Rightarrow> assign_default m d x
      | Some g \<Rightarrow> map_option (with_heap m) (gc_assign_weak g (heap.truncate m) d x))"

definition Block_memmove :: "memory \<Rightarrow> nat \<Rightarrow> nat \<Rightarrow> memory option" where
  "Block_memmove m d s =
     (case gc m of
        None \<Rightarrow> memmove_default m d s
      | Some g \<Rightarrow> map_option (with_heap m) (gc_memmove g (heap.truncate m) d s))"

definition Block_setHasRefcount :: "memory \<Rightarrow> nat \<Rightarrow> bool \<Rightarrow> memory" where
  "Block_setHasRefcount m a b =
     (case gc m of None \<Rightarrow> m | Some g \<Rightarrow> with_heap m (log_call (HasRefcount a b) (gc_setHasRefcount g (heap.truncate m) a b)))"

definition Block_use_GC :: "heap gc_callouts \<Rightarrow> memory \<Rightarrow> memory" where
  "Block_use_GC g m = m\<lparr>gc := Some g, use_rr := False\<rparr>"

text \<open>The transitional entry takes no function that copies bits.\<close>

definition Block_use_GC5 :: "heap gc_callouts \<Rightarrow> memory \<Rightarrow> memory" where
  "Block_use_GC5 g m = Block_use_GC (g\<lparr>gc_memmove := memmove_gc_broken\<rparr>) m"

definition Block_use_RR :: "memory \<Rightarrow> memory" where
  "Block_use_RR m = m\<lparr>use_rr := True\<rparr>"

text \<open>Without a collector.\<close>

lemma no_gc:
  assumes "gc m = None"
  shows "Block_assign m = assign_default m" "Block_assign_weak m = assign_default m"
    "Block_deallocator m = dealloc m" "Block_setHasRefcount m a b = m" "Block_memmove m = memmove_default m"
    "Byref_flag_initial_value m = BLOCK_NEEDS_FREE OR 2"
    "Block_allocator m sz one object = (case malloc m of None \<Rightarrow> (0, m) | Some r \<Rightarrow> r)"
  using assms
  by (simp_all add: fun_eq_iff Block_assign_def Block_assign_weak_def Block_deallocator_def
      Block_setHasRefcount_def Block_memmove_def Byref_flag_initial_value_def Block_allocator_def)

lemma gc_put [simp]: "gc (put m a c) = gc m" "gc (dealloc m a) = gc m"
  by (simp_all add: put_def dealloc_def)

lemma gc_objects [simp]: "gc (retain_object m p) = gc m" "gc (release_object m p) = gc m"
  by (simp_all add: retain_object_def release_object_def)

lemma gc_with_heap [simp]: "gc (with_heap m h) = gc m" "use_rr (with_heap m h) = use_rr m"
  by (cases h; simp add: with_heap_def heap.defs memory.defs)+

section \<open>Copying\<close>

text \<open>\<^verbatim>\<open>(*copy)(dst, src)\<close>, over the entry point \<open>assign\<close>.\<close>

fun copy_helper ::
  "(memory \<Rightarrow> nat \<times> nat \<Rightarrow> nat \<Rightarrow> u32 \<Rightarrow> memory option) \<Rightarrow> helper \<Rightarrow> memory \<Rightarrow> nat \<Rightarrow> nat \<Rightarrow> memory option" where
  "copy_helper assign [] m dst src = Some m"
| "copy_helper assign ((i, fl) # hs) m dst src =
     Option.bind (read_var m src i) (\<lambda>x.
       Option.bind (assign m (dst, i) x fl) (\<lambda>m'. copy_helper assign hs m' dst src))"

text \<open>\<open>None\<close> is an access to memory that is not there; the result 0 is \<^verbatim>\<open>NULL\<close>.\<close>

definition Block_copy_internal ::
  "(memory \<Rightarrow> nat \<times> nat \<Rightarrow> nat \<Rightarrow> u32 \<Rightarrow> memory option) \<Rightarrow> memory \<Rightarrow> nat \<Rightarrow> u32 \<Rightarrow> (nat \<times> memory) option" where
  "Block_copy_internal assign m arg flags =
     (let wants_one = (flags AND WANTS_ONE = WANTS_ONE) in
      if arg = 0 then Some (0, m)
      else
        (case block_at m arg of
           None \<Rightarrow> None
         | Some b \<Rightarrow>
             if has (bl_flags b) BLOCK_NEEDS_FREE then
               Some (arg, put m arg (Block (b\<lparr>bl_flags := snd (latching_incr_int (bl_flags b))\<rparr>)))
             else if has (bl_flags b) BLOCK_IS_GC then
               Some (arg,
                 if wants_one then
                   (case latching_incr_int (bl_flags b) of
                      (n, fl) \<Rightarrow>
                        let m1 = put m arg (Block (b\<lparr>bl_flags := fl\<rparr>)) in
                        if n AND BLOCK_REFCOUNT_MASK = 1 then Block_setHasRefcount m1 arg True else m1)
                 else m)
             else if has (bl_flags b) BLOCK_IS_GLOBAL then Some (arg, m)
             else if gc m = None then
               (case malloc m of
                  None \<Rightarrow> Some (0, m)
                | Some (r, m1) \<Rightarrow>
                    let fl = (bl_flags b AND NOT BLOCK_REFCOUNT_MASK) OR (BLOCK_NEEDS_FREE OR 1);
                        m2 = put m1 r (Block (b\<lparr>bl_flags := fl, bl_isa := NSConcreteMallocBlock\<rparr>))
                    in if has fl BLOCK_HAS_COPY_DISPOSE
                       then map_option (Pair r) (copy_helper assign (bl_helper b) m2 r arg)
                       else Some (r, m2))
             else
               (let ctor = has (bl_flags b) BLOCK_HAS_CTOR in
                case Block_allocator m (bd_size (bl_descriptor b)) wants_one ctor of
                  (r, m1) \<Rightarrow>
                    if r = 0 then Some (0, m1)
                    else
                      let fl = (bl_flags b AND NOT (BLOCK_NEEDS_FREE OR BLOCK_REFCOUNT_MASK)) OR
                            (if wants_one then BLOCK_IS_GC OR 1 else BLOCK_IS_GC);
                          m2 = put m1 r (Block (b\<lparr>bl_flags := fl\<rparr>))
                      in Option.bind
                           (if has fl BLOCK_HAS_COPY_DISPOSE then copy_helper assign (bl_helper b) m2 r arg else Some m2)
                           (\<lambda>m3. Option.bind (block_at m3 r) (\<lambda>res.
                              Some (r, put m3 r (Block (res\<lparr>bl_isa :=
                                (if ctor then NSConcreteFinalizingBlock else NSConcreteAutoBlock)\<rparr>))))))))"

text \<open>The fields that a helper does not copy stay as the allocator left them, here 0.  A failure of it is
  not looked at.\<close>

definition Block_byref_assign_copy ::
  "(memory \<Rightarrow> nat \<times> nat \<Rightarrow> nat \<Rightarrow> u32 \<Rightarrow> memory option) \<Rightarrow> memory \<Rightarrow> nat \<times> nat \<Rightarrow> nat \<Rightarrow> u32 \<Rightarrow> memory option" where
  "Block_byref_assign_copy assign m dest arg flags =
     Option.bind (byref_at m arg) (\<lambda>src.
     Option.bind (byref_at m (by_forwarding src)) (\<lambda>fwd.
     Option.bind
       (if has (by_flags fwd) BLOCK_IS_GC then Some m
        else if by_flags fwd AND BLOCK_REFCOUNT_MASK = 0 then
          (let weak = (flags AND (BLOCK_FIELD_IS_BYREF OR BLOCK_FIELD_IS_WEAK) =
                          (BLOCK_FIELD_IS_BYREF OR BLOCK_FIELD_IS_WEAK));
               help = has (by_flags src) BLOCK_HAS_COPY_DISPOSE
           in case Block_allocator m (scast (by_size src)) False weak of
                (c, m1) \<Rightarrow>
                  if c = 0 then None
                  else
                    let copy = \<lparr>by_isa = (if weak then NSConcreteWeakBlockVariable else OtherIsa 0),
                          by_forwarding = c, by_flags = by_flags src OR Byref_flag_initial_value m,
                          by_size = by_size src, by_keep = by_keep src, by_destroy = by_destroy src,
                          by_helper = by_helper src, by_vars = replicate (length (by_vars src)) 0\<rparr>;
                        m2 = put (put m1 c (Byref copy)) arg (Byref (src\<lparr>by_forwarding := c\<rparr>))
                    in if help then copy_helper assign (by_helper src) m2 c arg else Block_memmove m2 c arg)
        else if has (by_flags fwd) BLOCK_NEEDS_FREE then
          Some (put m (by_forwarding src) (Byref (fwd\<lparr>by_flags := snd (latching_incr_int (by_flags fwd))\<rparr>)))
        else Some m) (\<lambda>m'.
     Option.bind (byref_at m' arg) (\<lambda>src'. Block_assign m' dest (by_forwarding src')))))"

text \<open>The entry point of the helpers; the fuel bounds how deep blocks that are still on the stack are
  nested in each other.\<close>

fun Block_object_assign :: "nat \<Rightarrow> memory \<Rightarrow> nat \<times> nat \<Rightarrow> nat \<Rightarrow> u32 \<Rightarrow> memory option" where
  "Block_object_assign 0 m dest object flags = None"
| "Block_object_assign (Suc n) m dest object flags =
     (if flags AND BLOCK_BYREF_CALLER = BLOCK_BYREF_CALLER then
        (if flags AND BLOCK_FIELD_IS_WEAK = BLOCK_FIELD_IS_WEAK then Block_assign_weak m dest object
         else Block_assign m dest object)
      else if flags AND BLOCK_FIELD_IS_BYREF = BLOCK_FIELD_IS_BYREF then
        Block_byref_assign_copy (Block_object_assign n) m dest object flags
      else if flags AND BLOCK_FIELD_IS_BLOCK = BLOCK_FIELD_IS_BLOCK then
        Option.bind (Block_copy_internal (Block_object_assign n) m object flags)
          (\<lambda>(r, m'). Block_assign m' dest r)
      else if flags AND BLOCK_FIELD_IS_OBJECT = BLOCK_FIELD_IS_OBJECT then
        Block_assign (retain_object m object) dest object
      else Some m)"

definition Block_copy :: "nat \<Rightarrow> memory \<Rightarrow> nat \<Rightarrow> (nat \<times> memory) option" where
  "Block_copy n m arg = Block_copy_internal (Block_object_assign n) m arg WANTS_ONE"

definition Block_copy_collectable :: "nat \<Rightarrow> memory \<Rightarrow> nat \<Rightarrow> (nat \<times> memory) option" where
  "Block_copy_collectable n m arg = Block_copy_internal (Block_object_assign n) m arg 0"

definition Block_size :: "memory \<Rightarrow> nat \<Rightarrow> u64 option" where
  "Block_size m arg = map_option (\<lambda>b. bd_size (bl_descriptor b)) (block_at m arg)"

section \<open>Releasing\<close>

text \<open>\<^verbatim>\<open>(*dispose)(block)\<close>, over the entry point \<open>dispose\<close>.\<close>

fun dispose_helper ::
  "(memory \<Rightarrow> nat \<Rightarrow> u32 \<Rightarrow> memory option) \<Rightarrow> helper \<Rightarrow> memory \<Rightarrow> nat \<Rightarrow> memory option" where
  "dispose_helper dispose [] m a = Some m"
| "dispose_helper dispose ((i, fl) # hs) m a =
     Option.bind (read_var m a i) (\<lambda>x. Option.bind (dispose m x fl) (\<lambda>m'. dispose_helper dispose hs m' a))"

definition Block_byref_release ::
  "(memory \<Rightarrow> nat \<Rightarrow> u32 \<Rightarrow> memory option) \<Rightarrow> memory \<Rightarrow> nat \<Rightarrow> memory option" where
  "Block_byref_release dispose m arg =
     Option.bind (byref_at m arg) (\<lambda>src. let a = by_forwarding src in
     Option.bind (byref_at m a) (\<lambda>s.
       if \<not> has (by_flags s) BLOCK_NEEDS_FREE then Some m
       else if by_flags s AND BLOCK_REFCOUNT_MASK = 0 then Some m
       else
         (case latching_decr_int (by_flags s) of
            (r, fl) \<Rightarrow>
              let m1 = put m a (Byref (s\<lparr>by_flags := fl\<rparr>)) in
              if r AND BLOCK_REFCOUNT_MASK = 0 then
                Option.bind
                  (if has fl BLOCK_HAS_COPY_DISPOSE then dispose_helper dispose (by_helper s) m1 a else Some m1)
                  (\<lambda>m2. Some (Block_deallocator m2 a))
              else Some m1)))"

definition Block_release_with ::
  "(memory \<Rightarrow> nat \<Rightarrow> u32 \<Rightarrow> memory option) \<Rightarrow> memory \<Rightarrow> nat \<Rightarrow> memory option" where
  "Block_release_with dispose m arg =
     (if arg = 0 then Some m
      else
        Option.bind (block_at m arg) (\<lambda>b.
          case latching_decr_int (bl_flags b) of
            (r, fl) \<Rightarrow>
              let m1 = put m arg (Block (b\<lparr>bl_flags := fl\<rparr>)) in
              if r AND BLOCK_REFCOUNT_MASK \<noteq> 0 then Some m1
              else if has fl BLOCK_IS_GC then Some (Block_setHasRefcount m1 arg False)
              else if has fl BLOCK_NEEDS_FREE then
                Option.bind
                  (if has fl BLOCK_HAS_COPY_DISPOSE then dispose_helper dispose (bl_helper b) m1 arg else Some m1)
                  (\<lambda>m2. Some (Block_deallocator m2 arg))
              else Some m1))"

definition Block_destroy ::
  "(memory \<Rightarrow> nat \<Rightarrow> u32 \<Rightarrow> memory option) \<Rightarrow> memory \<Rightarrow> nat \<Rightarrow> memory option" where
  "Block_destroy dispose m arg =
     (if arg = 0 then Some m
      else
        Option.bind (block_at m arg) (\<lambda>b.
          if has (bl_flags b) BLOCK_IS_GC then Some m else Block_release_with dispose m arg))"

text \<open>The fuel bounds how deep a release goes on to blocks whose last reference is in a freed one.\<close>

fun Block_object_dispose :: "nat \<Rightarrow> memory \<Rightarrow> nat \<Rightarrow> u32 \<Rightarrow> memory option" where
  "Block_object_dispose 0 m object flags = None"
| "Block_object_dispose (Suc n) m object flags =
     (if has flags BLOCK_FIELD_IS_BYREF then Block_byref_release (Block_object_dispose n) m object
      else if flags AND (BLOCK_FIELD_IS_BLOCK OR BLOCK_BYREF_CALLER) = BLOCK_FIELD_IS_BLOCK then
        Block_destroy (Block_object_dispose n) m object
      else if flags AND (BLOCK_FIELD_IS_WEAK OR BLOCK_FIELD_IS_BLOCK OR BLOCK_BYREF_CALLER) =
          BLOCK_FIELD_IS_OBJECT then
        Some (release_object m object)
      else Some m)"

definition Block_release :: "nat \<Rightarrow> memory \<Rightarrow> nat \<Rightarrow> memory option" where
  "Block_release n m arg = Block_release_with (Block_object_dispose n) m arg"

end
