(* ===== verification/Blocks_Props.thy ===== *)
theory Blocks_Props
  imports Blocks_Runtime
begin

text \<open>
  Properties of the Blocks runtime: what the copy of a block takes from the variables it captures, its
  last release gives back.
\<close>

section \<open>Counting\<close>

lemma latching_incr_add:
  assumes "refcount w + k < 65535"
  shows "latching_incr_int (w + of_nat k) = (w + of_nat (Suc k), w + of_nat (Suc k))"
proof -
  have "refcount (w + of_nat k) \<noteq> 65535" using refcount_add [of w k] assms by simp
  then show ?thesis unfolding latching_incr_int_def latched_iff by (simp add: add.assoc add.commute [of 1])
qed

lemma latching_decr_add:
  assumes "refcount w + Suc k < 65535"
  shows "latching_decr_int (w + of_nat (Suc k)) = (w + of_nat k, w + of_nat k)"
proof -
  have "refcount (w + of_nat (Suc k)) = refcount w + Suc k" using refcount_add [of w "Suc k"] assms by simp
  then have "refcount (w + of_nat (Suc k)) \<noteq> 65535" "refcount (w + of_nat (Suc k)) \<noteq> 0" using assms by simp_all
  then have "latching_decr_int (w + of_nat (Suc k)) = (w + of_nat (Suc k) - 1, w + of_nat (Suc k) - 1)"
    unfolding latching_decr_int_def latched_iff refcount_zero_iff by (simp del: of_nat_Suc)
  then show ?thesis by (simp add: algebra_simps)
qed

text \<open>A count that has latched stays: the block is never freed.\<close>

lemma latched_stays:
  "refcount w = 65535 \<Longrightarrow> latching_incr_int w = (BLOCK_REFCOUNT_MASK, w) \<and> latching_decr_int w = (BLOCK_REFCOUNT_MASK, w)"
  by (simp add: latching_incr_int_def latching_decr_int_def latched_iff)

fun add_flags :: "nat \<Rightarrow> cell \<Rightarrow> cell" where
  "add_flags k (Block b) = Block (b\<lparr>bl_flags := bl_flags b + of_nat k\<rparr>)"
| "add_flags k (Byref v) = Byref (v\<lparr>by_flags := by_flags v + of_nat k\<rparr>)"

lemma vars_add_flags [simp]: "vars_of (add_flags k c) = vars_of c"
  by (cases c) simp_all

lemma add_flags_0 [simp]: "add_flags 0 c = c"
  by (cases c) simp_all

text \<open>Memory in which cells have more references than in \<open>m\<close>.\<close>

definition raise :: "(nat \<Rightarrow> cell option) \<Rightarrow> (nat \<Rightarrow> nat) \<Rightarrow> nat \<Rightarrow> cell option" where
  "raise cs f = (\<lambda>a. map_option (add_flags (f a)) (cs a))"

lemma raise_0 [simp]: "raise cs (\<lambda>_. 0) = cs"
  by (rule ext) (simp add: raise_def option.map_ident_strong)

lemma raise_None [simp]: "cs a = None \<Longrightarrow> raise cs f a = None"
  by (simp add: raise_def)

lemma raise_upd: "raise cs f a = Some c \<Longrightarrow> cs a = Some c0 \<Longrightarrow> (raise cs f)(a \<mapsto> add_flags k c0) = raise cs (f(a := k))"
  by (auto simp: raise_def)

section \<open>Captured variables\<close>

text \<open>What a heap block may capture: an object; nothing, a block that is on the heap or global; a
  \<^verbatim>\<open>__block\<close> variable that has moved to the heap.  \<open>k\<close> more references do not make a count latch.\<close>

definition counted :: "nat \<Rightarrow> u32 \<Rightarrow> bool" where
  "counted k w = (has w BLOCK_NEEDS_FREE \<and> \<not> has w BLOCK_IS_GC \<and> 0 < refcount w \<and> refcount w + k < 65535)"

definition capture_ok :: "nat \<Rightarrow> (nat \<Rightarrow> cell option) \<Rightarrow> nat \<Rightarrow> u32 \<Rightarrow> bool" where
  "capture_ok k cs x fl =
     (if fl = BLOCK_FIELD_IS_OBJECT then True
      else if fl = BLOCK_FIELD_IS_BLOCK then
        x = 0 \<or>
        (case cs x of
           Some (Block b) \<Rightarrow>
             counted k (bl_flags b) \<or>
             \<not> has (bl_flags b) BLOCK_NEEDS_FREE \<and> \<not> has (bl_flags b) BLOCK_IS_GC \<and>
             has (bl_flags b) BLOCK_IS_GLOBAL \<and> refcount (bl_flags b) = 0
         | _ \<Rightarrow> False)
      else if fl \<in> {BLOCK_FIELD_IS_BYREF, BLOCK_FIELD_IS_BYREF OR BLOCK_FIELD_IS_WEAK} then
        (case cs x of
           Some (Byref v) \<Rightarrow>
             (case cs (by_forwarding v) of
                Some (Byref u) \<Rightarrow> counted k (by_flags u) \<and> by_forwarding u = by_forwarding v
              | _ \<Rightarrow> False)
         | _ \<Rightarrow> False)
      else False)"

text \<open>The cell that is counted for a captured variable, and what a copy of the block stores for it.\<close>

definition target :: "(nat \<Rightarrow> cell option) \<Rightarrow> nat \<Rightarrow> u32 \<Rightarrow> nat option" where
  "target cs x fl =
     (if fl = BLOCK_FIELD_IS_OBJECT then None
      else if fl = BLOCK_FIELD_IS_BLOCK then
        (case cs x of
           Some (Block b) \<Rightarrow> if x \<noteq> 0 \<and> has (bl_flags b) BLOCK_NEEDS_FREE then Some x else None
         | _ \<Rightarrow> None)
      else (case cs x of Some (Byref v) \<Rightarrow> Some (by_forwarding v) | _ \<Rightarrow> None))"

definition stored :: "(nat \<Rightarrow> cell option) \<Rightarrow> nat \<Rightarrow> u32 \<Rightarrow> nat" where
  "stored cs x fl =
     (if fl = BLOCK_FIELD_IS_OBJECT \<or> fl = BLOCK_FIELD_IS_BLOCK then x
      else (case cs x of Some (Byref v) \<Rightarrow> by_forwarding v | _ \<Rightarrow> x))"

definition bump :: "nat option \<Rightarrow> (nat \<Rightarrow> nat) \<Rightarrow> nat \<Rightarrow> nat" where
  "bump t f = (case t of None \<Rightarrow> f | Some a \<Rightarrow> f(a := Suc (f a)))"

text \<open>One call of \<^verbatim>\<open>_Block_object_assign\<close> for such a variable counts its target and stores.\<close>

lemma assign_default_upd:
  "cells M r = Some c \<Longrightarrow> i < length (vars_of c) \<Longrightarrow>
   assign_default M (r, i) x = Some (put M r (set_var i x c))"
  by (simp add: assign_default_def)

lemma counted_add:
  assumes "counted k w" "j \<le> k"
  shows "has (w + of_nat j) BLOCK_NEEDS_FREE" "\<not> has (w + of_nat j) BLOCK_IS_GC"
    "w + of_nat j AND BLOCK_REFCOUNT_MASK \<noteq> 0"
    "j < k \<Longrightarrow> latching_incr_int (w + of_nat j) = (w + of_nat (Suc j), w + of_nat (Suc j))"
proof -
  have s: "refcount w + j < 65535" using assms by (simp add: counted_def)
  show "has (w + of_nat j) BLOCK_NEEDS_FREE" "\<not> has (w + of_nat j) BLOCK_IS_GC"
    using has_add [of w j] s assms(1) by (simp_all add: counted_def)
  show "w + of_nat j AND BLOCK_REFCOUNT_MASK \<noteq> 0"
    using refcount_add [of w j] s assms(1) by (simp add: refcount_zero_iff counted_def)
  show "latching_incr_int (w + of_nat j) = (w + of_nat (Suc j), w + of_nat (Suc j))"
    by (rule latching_incr_add [OF s])
qed

lemma capture_cases:
  assumes "capture_ok k cs x fl"
  obtains (object) "fl = BLOCK_FIELD_IS_OBJECT" "target cs x fl = None" "stored cs x fl = x"
  | (null) "fl = BLOCK_FIELD_IS_BLOCK" "x = 0" "target cs x fl = None" "stored cs x fl = x"
  | (heap) b where "fl = BLOCK_FIELD_IS_BLOCK" "x \<noteq> 0" "cs x = Some (Block b)" "counted k (bl_flags b)"
      "target cs x fl = Some x" "stored cs x fl = x"
  | (global) b where "fl = BLOCK_FIELD_IS_BLOCK" "x \<noteq> 0" "cs x = Some (Block b)"
      "\<not> has (bl_flags b) BLOCK_NEEDS_FREE" "\<not> has (bl_flags b) BLOCK_IS_GC"
      "has (bl_flags b) BLOCK_IS_GLOBAL" "refcount (bl_flags b) = 0" "target cs x fl = None" "stored cs x fl = x"
  | (byref) v u where "fl = BLOCK_FIELD_IS_BYREF \<or> fl = BLOCK_FIELD_IS_BYREF OR BLOCK_FIELD_IS_WEAK"
      "cs x = Some (Byref v)" "cs (by_forwarding v) = Some (Byref u)" "counted k (by_flags u)"
      "by_forwarding u = by_forwarding v" "target cs x fl = Some (by_forwarding v)"
      "stored cs x fl = by_forwarding v"
proof -
  consider (o) "fl = BLOCK_FIELD_IS_OBJECT" | (b) "fl = BLOCK_FIELD_IS_BLOCK"
    | (v) "fl = BLOCK_FIELD_IS_BYREF \<or> fl = BLOCK_FIELD_IS_BYREF OR BLOCK_FIELD_IS_WEAK"
    using assms by (auto simp: capture_ok_def split: if_splits)
  then show thesis
  proof cases
    case o
    then show thesis by (intro object) (simp_all add: target_def stored_def)
  next
    case b
    show thesis
    proof (cases "x = 0")
      case True
      then show thesis using b by (intro null) (auto simp: target_def stored_def field_flags split: option.splits cell.splits)
    next
      case False
      then obtain bl where c: "cs x = Some (Block bl)"
        using assms b by (auto simp: capture_ok_def field_flags split: option.splits cell.splits)
      show thesis
      proof (cases "counted k (bl_flags bl)")
        case True
        then show thesis using False b c by (intro heap) (simp_all add: target_def stored_def field_flags counted_def)
      next
        case no: False
        then show thesis using False b c assms
          by (intro global [of bl]) (simp_all add: capture_ok_def target_def stored_def field_flags)
      qed
    qed
  next
    case v
    then have n: "fl \<noteq> BLOCK_FIELD_IS_OBJECT" "fl \<noteq> BLOCK_FIELD_IS_BLOCK" by (auto simp: field_flags)
    then obtain w where w: "cs x = Some (Byref w)"
      using assms v by (auto simp: capture_ok_def split: option.splits cell.splits)
    then have c: "case cs (by_forwarding w) of
        Some (Byref u) \<Rightarrow> counted k (by_flags u) \<and> by_forwarding u = by_forwarding w | _ \<Rightarrow> False"
      using assms v n by (auto simp: capture_ok_def)
    then obtain u where "cs (by_forwarding w) = Some (Byref u)" by (auto split: option.splits cell.splits)
    with c w have "cs x = Some (Byref w)" "cs (by_forwarding w) = Some (Byref u)"
        "counted k (by_flags u)" "by_forwarding u = by_forwarding w" by simp_all
    then show thesis using v n by (intro byref [of w u]) (auto simp: target_def stored_def)
  qed
qed

lemma field_tests:
  "BLOCK_FIELD_IS_OBJECT AND BLOCK_BYREF_CALLER \<noteq> BLOCK_BYREF_CALLER"
  "BLOCK_FIELD_IS_BLOCK AND BLOCK_BYREF_CALLER \<noteq> BLOCK_BYREF_CALLER"
  "BLOCK_FIELD_IS_BYREF AND BLOCK_BYREF_CALLER \<noteq> BLOCK_BYREF_CALLER"
  "(BLOCK_FIELD_IS_BYREF OR BLOCK_FIELD_IS_WEAK) AND BLOCK_BYREF_CALLER \<noteq> BLOCK_BYREF_CALLER"
  "BLOCK_FIELD_IS_OBJECT AND BLOCK_FIELD_IS_BYREF \<noteq> BLOCK_FIELD_IS_BYREF"
  "BLOCK_FIELD_IS_BLOCK AND BLOCK_FIELD_IS_BYREF \<noteq> BLOCK_FIELD_IS_BYREF"
  "(BLOCK_FIELD_IS_BYREF OR BLOCK_FIELD_IS_WEAK) AND BLOCK_FIELD_IS_BYREF = BLOCK_FIELD_IS_BYREF"
  "BLOCK_FIELD_IS_OBJECT AND BLOCK_FIELD_IS_BLOCK \<noteq> BLOCK_FIELD_IS_BLOCK"
  by (simp_all add: field_flags)

lemma bump_cell:
  "cs x = Some c \<Longrightarrow> x \<noteq> r \<Longrightarrow>
   ((raise cs f)(r \<mapsto> d))(x \<mapsto> add_flags (Suc (f x)) c) = (raise cs (f(x := Suc (f x))))(r \<mapsto> d)"
  by (auto simp: raise_def fun_eq_iff)

text \<open>Blocks that are not counted keep their flags.\<close>

definition spares :: "(nat \<Rightarrow> cell option) \<Rightarrow> (nat \<Rightarrow> nat) \<Rightarrow> bool" where
  "spares cs f = (\<forall>x b. cs x = Some (Block b) \<longrightarrow> \<not> has (bl_flags b) BLOCK_NEEDS_FREE \<longrightarrow> f x = 0)"

lemma spares_bump: "capture_ok k cs x fl \<Longrightarrow> spares cs f \<Longrightarrow> spares cs (bump (target cs x fl) f)"
  by (erule capture_cases) (auto simp: spares_def bump_def counted_def)

lemma assign_capture:
  assumes ok: "capture_ok k cs x fl" and M: "cells M = (raise cs f)(r \<mapsto> Block b)"
    and f: "\<forall>a. f a < k" and r: "cs r = None" and i: "i < length (bl_vars b)" and sp: "spares cs f"
    and gc [simp]: "gc M = None"
  shows "\<exists>M'. Block_object_assign (Suc n) M (r, i) x fl = Some M' \<and> gc M' = None \<and>
     cells M' = (raise cs (bump (target cs x fl) f))
       (r \<mapsto> Block (b\<lparr>bl_vars := (bl_vars b)[i := stored cs x fl]\<rparr>))"
  using ok
proof (cases rule: capture_cases)
  case object
  then show ?thesis
    using i M by (simp add: no_gc field_tests assign_default_def retain_object_def put_def bump_def)
next
  case null
  then show ?thesis
    using i M by (simp add: no_gc field_tests assign_default_def Block_copy_internal_def put_def bump_def)
next
  case (heap bl)
  then have xr: "x \<noteq> r" using r by auto
  then have at: "block_at M x = Some (bl\<lparr>bl_flags := bl_flags bl + of_nat (f x)\<rparr>)"
    using heap M by (simp add: block_at_def raise_def)
  have fk: "f x \<le> k" "f x < k" using f by (auto intro: less_imp_le)
  note c = counted_add [OF heap(4) fk(1)]
  have "Block_copy_internal (Block_object_assign n) M x fl =
      Some (x, put M x (add_flags (Suc (f x)) (Block bl)))"
    using heap(2) c(1,2) c(4) [OF fk(2)] at by (simp add: Block_copy_internal_def del: of_nat_Suc)
  moreover have "cells (put M x (add_flags (Suc (f x)) (Block bl))) = (raise cs (f(x := Suc (f x))))(r \<mapsto> Block b)"
    using bump_cell [of cs x _ r f] heap(3) xr M by (simp add: put_def del: add_flags.simps)
  ultimately show ?thesis
    using heap i by (simp add: no_gc field_tests assign_default_def put_def bump_def del: add_flags.simps)
next
  case (global bl)
  then have "x \<noteq> r" using r by auto
  moreover have "f x = 0" using sp global by (simp add: spares_def)
  ultimately have at: "block_at M x = Some bl"
    using global M by (simp add: block_at_def raise_def)
  then show ?thesis
    using global i M by (simp add: no_gc field_tests assign_default_def Block_copy_internal_def put_def bump_def)
next
  case (byref v u)
  let ?t = "by_forwarding v"
  have tr: "?t \<noteq> r" "x \<noteq> r" using r byref by auto
  have src: "byref_at M x = Some (v\<lparr>by_flags := by_flags v + of_nat (f x)\<rparr>)"
    and at: "byref_at M ?t = Some (u\<lparr>by_flags := by_flags u + of_nat (f ?t)\<rparr>)"
    using byref tr M by (simp_all add: byref_at_def raise_def)
  have fk: "f ?t \<le> k" "f ?t < k" using f by (auto intro: less_imp_le)
  note c = counted_add [OF byref(4) fk(1)]
  let ?M = "put M ?t (add_flags (Suc (f ?t)) (Byref u))"
  have cM: "cells ?M = (raise cs (f(?t := Suc (f ?t))))(r \<mapsto> Block b)"
    using bump_cell [of cs ?t _ r f] byref(3) tr M by (simp add: put_def del: add_flags.simps)
  have src': "\<exists>fl'. byref_at ?M x = Some (v\<lparr>by_flags := fl'\<rparr>)"
    unfolding byref_at_def cM using byref tr by (auto simp: raise_def)
  have "Block_byref_assign_copy (Block_object_assign n) M (r, i) x fl = assign_default ?M (r, i) ?t"
    using c(1,2,3) c(4) [OF fk(2)] src at src' by (auto simp: Block_byref_assign_copy_def no_gc simp del: of_nat_Suc)
  then have "Block_object_assign (Suc n) M (r, i) x fl = assign_default ?M (r, i) ?t"
    using byref(1) by (auto simp: field_tests)
  moreover have "assign_default ?M (r, i) ?t = Some (put ?M r (set_var i ?t (Block b)))"
    by (rule assign_default_upd) (simp_all add: cM i del: add_flags.simps)
  ultimately show ?thesis
    unfolding byref(6,7) using cM by (simp add: put_def bump_def del: add_flags.simps Block_object_assign.simps)
qed

lemma dispose_tests:
  "\<not> has BLOCK_FIELD_IS_OBJECT BLOCK_FIELD_IS_BYREF" "\<not> has BLOCK_FIELD_IS_BLOCK BLOCK_FIELD_IS_BYREF"
  "has BLOCK_FIELD_IS_BYREF BLOCK_FIELD_IS_BYREF"
  "has (BLOCK_FIELD_IS_BYREF OR BLOCK_FIELD_IS_WEAK) BLOCK_FIELD_IS_BYREF"
  "BLOCK_FIELD_IS_OBJECT AND (BLOCK_FIELD_IS_BLOCK OR BLOCK_BYREF_CALLER) \<noteq> BLOCK_FIELD_IS_BLOCK"
  "BLOCK_FIELD_IS_BLOCK AND (BLOCK_FIELD_IS_BLOCK OR BLOCK_BYREF_CALLER) = BLOCK_FIELD_IS_BLOCK"
  "BLOCK_FIELD_IS_OBJECT AND (BLOCK_FIELD_IS_WEAK OR BLOCK_FIELD_IS_BLOCK OR BLOCK_BYREF_CALLER) =
     BLOCK_FIELD_IS_OBJECT"
  by (simp_all add: has_def field_flags)

lemma drop_cell:
  "cs x = Some c \<Longrightarrow> x \<noteq> r \<Longrightarrow>
   ((raise cs (f(x := k)))(r \<mapsto> d))(x \<mapsto> add_flags (f x) c) = (raise cs f)(r \<mapsto> d)"
  by (auto simp: raise_def fun_eq_iff)

lemma counted_drop:
  assumes "counted k w" "j < k"
  shows "latching_decr_int (w + of_nat (Suc j)) = (w + of_nat j, w + of_nat j)"
    "w + of_nat j AND BLOCK_REFCOUNT_MASK \<noteq> 0" "w + of_nat (Suc j) AND BLOCK_REFCOUNT_MASK \<noteq> 0"
    "has (w + of_nat (Suc j)) BLOCK_NEEDS_FREE" "\<not> has (w + of_nat (Suc j)) BLOCK_IS_GC"
  using latching_decr_add [of w j] counted_add [OF assms(1), of j] counted_add [OF assms(1), of "Suc j"] assms
  by (simp_all add: counted_def del: of_nat_Suc)

lemma dispose_capture:
  assumes ok: "capture_ok k cs x fl" and M: "cells M = (raise cs (bump (target cs x fl) f))(r \<mapsto> Block b)"
    and f: "\<forall>a. f a < k" and r: "cs r = None" and sp: "spares cs f"
  shows "\<exists>M'. Block_object_dispose (Suc n) M (stored cs x fl) fl = Some M' \<and> gc M' = gc M \<and>
     cells M' = (raise cs f)(r \<mapsto> Block b)"
  using ok
proof (cases rule: capture_cases)
  case object
  then show ?thesis using M by (simp add: dispose_tests release_object_def bump_def)
next
  case null
  then show ?thesis using M by (simp add: dispose_tests Block_destroy_def bump_def)
next
  case (heap bl)
  then have xr: "x \<noteq> r" using r by auto
  have M': "cells M = (raise cs (f(x := Suc (f x))))(r \<mapsto> Block b)" using M heap by (simp add: bump_def)
  then have at: "block_at M x = Some (bl\<lparr>bl_flags := bl_flags bl + of_nat (Suc (f x))\<rparr>)"
    using heap xr by (simp add: block_at_def raise_def del: of_nat_Suc)
  have fk: "f x < k" using f by blast
  have "Block_object_dispose (Suc n) M (stored cs x fl) fl = Some (put M x (add_flags (f x) (Block bl)))"
    using heap(1,2,6) counted_drop [OF heap(4) fk] at
    by (simp add: dispose_tests Block_destroy_def Block_release_with_def del: of_nat_Suc)
  then show ?thesis
    using drop_cell [of cs x _ r f] heap(3) xr M' by (simp add: put_def del: add_flags.simps)
next
  case (global bl)
  then have "x \<noteq> r" using r by auto
  moreover have "f x = 0" using sp global by (simp add: spares_def)
  ultimately have at: "block_at M x = Some bl" and self: "cells M x = Some (Block bl)"
    using global M by (simp_all add: block_at_def raise_def bump_def)
  have "bl_flags bl AND BLOCK_REFCOUNT_MASK = 0" using global by (simp add: refcount_zero_iff)
  then have "latching_decr_int (bl_flags bl) = (0, bl_flags bl)"
    by (simp add: latching_decr_int_def BLOCK_REFCOUNT_MASK_def)
  moreover have "put M x (Block bl) = M" using self by (simp add: put_def fun_upd_idem)
  ultimately have "Block_object_dispose (Suc n) M (stored cs x fl) fl = Some M"
    using global at by (simp add: dispose_tests Block_destroy_def Block_release_with_def)
  then show ?thesis using M global by (simp add: bump_def del: Block_object_dispose.simps)
next
  case (byref v u)
  let ?t = "by_forwarding v"
  have tr: "?t \<noteq> r" using r byref by auto
  have M': "cells M = (raise cs (f(?t := Suc (f ?t))))(r \<mapsto> Block b)" using M byref by (simp add: bump_def)
  then have at: "byref_at M ?t = Some (u\<lparr>by_flags := by_flags u + of_nat (Suc (f ?t))\<rparr>)"
    using byref tr by (simp add: byref_at_def raise_def del: of_nat_Suc)
  have fk: "f ?t < k" using f by blast
  have "Block_byref_release (Block_object_dispose n) M ?t = Some (put M ?t (add_flags (f ?t) (Byref u)))"
    using counted_drop [OF byref(4) fk] at byref(5)
    by (simp add: Block_byref_release_def Let_def del: of_nat_Suc)
  then have "Block_object_dispose (Suc n) M (stored cs x fl) fl = Some (put M ?t (add_flags (f ?t) (Byref u)))"
    unfolding byref(7) using byref(1) by (auto simp: dispose_tests)
  then show ?thesis
    using drop_cell [of cs ?t _ r f] byref(3) tr M' by (simp add: put_def del: add_flags.simps)
qed

section \<open>Helpers\<close>

fun bumps :: "(nat \<Rightarrow> cell option) \<Rightarrow> nat list \<Rightarrow> helper \<Rightarrow> (nat \<Rightarrow> nat) \<Rightarrow> nat \<Rightarrow> nat" where
  "bumps cs vs [] f = f"
| "bumps cs vs ((i, fl) # hs) f = bumps cs vs hs (bump (target cs (vs ! i) fl) f)"

fun storeds :: "(nat \<Rightarrow> cell option) \<Rightarrow> nat list \<Rightarrow> helper \<Rightarrow> nat list \<Rightarrow> nat list" where
  "storeds cs vs [] ws = ws"
| "storeds cs vs ((i, fl) # hs) ws = storeds cs vs hs (ws[i := stored cs (vs ! i) fl])"

lemma bump_commute: "bump s (bump t f) = bump t (bump s f)"
  by (auto simp: bump_def fun_eq_iff split: option.splits)

lemma bumps_bump: "bumps cs vs hs (bump t f) = bump t (bumps cs vs hs f)"
  by (induction hs arbitrary: f) (auto simp: bump_commute [of _ t])

lemma bumps_le: "bumps cs vs hs f a \<le> f a + length hs"
proof (induction hs arbitrary: f)
  case (Cons h hs)
  obtain i fl where h: "h = (i, fl)" by fastforce
  have "bump (target cs (vs ! i) fl) f a \<le> Suc (f a)" by (simp add: bump_def split: option.split)
  then show ?case using Cons [of "bump (target cs (vs ! i) fl) f"] by (simp add: h)
qed simp

lemma length_storeds [simp]: "length (storeds cs vs hs ws) = length ws"
  by (induction hs arbitrary: ws) auto

lemma storeds_other: "i \<notin> set (map fst hs) \<Longrightarrow> storeds cs vs hs ws ! i = ws ! i"
  by (induction hs arbitrary: ws) auto

lemma storeds_nth:
  "distinct (map fst hs) \<Longrightarrow> (i, fl) \<in> set hs \<Longrightarrow> i < length ws \<Longrightarrow>
   storeds cs vs hs ws ! i = stored cs (vs ! i) fl"
proof (induction hs arbitrary: ws)
  case (Cons h hs)
  obtain j gl where h: "h = (j, gl)" by fastforce
  show ?case
  proof (cases "(i, fl) = h")
    case True
    then show ?thesis using Cons.prems h by (simp add: storeds_other)
  next
    case False
    then show ?thesis using Cons h by auto
  qed
qed simp

definition captures_ok :: "nat \<Rightarrow> (nat \<Rightarrow> cell option) \<Rightarrow> nat list \<Rightarrow> helper \<Rightarrow> bool" where
  "captures_ok k cs vs hs = list_all (\<lambda>(i, fl). i < length vs \<and> capture_ok k cs (vs ! i) fl) hs"

lemma spares_bumps: "captures_ok k cs vs hs \<Longrightarrow> spares cs f \<Longrightarrow> spares cs (bumps cs vs hs f)"
  by (induction hs arbitrary: f) (auto simp: captures_ok_def dest: spares_bump)

lemma copy_helper_ok:
  assumes "captures_ok k cs vs hs" "cells M = (raise cs f)(r \<mapsto> Block b)" "length (bl_vars b) = length vs"
    and "\<forall>x. f x + length hs \<le> k" "spares cs f" "cs r = None" "cs a = Some (Block b0)" "bl_vars b0 = vs"
    and "gc M = None"
  shows "\<exists>M'. copy_helper (Block_object_assign (Suc n)) hs M r a = Some M' \<and> gc M' = None \<and>
     cells M' = (raise cs (bumps cs vs hs f))(r \<mapsto> Block (b\<lparr>bl_vars := storeds cs vs hs (bl_vars b)\<rparr>))"
  using assms(1-5,9)
proof (induction hs arbitrary: M f b)
  case (Cons h hs)
  obtain i fl where h: "h = (i, fl)" by fastforce
  have ok: "capture_ok k cs (vs ! i) fl" and i: "i < length vs"
    using Cons.prems(1) by (simp_all add: captures_ok_def h)
  have ar: "a \<noteq> r" using assms(6,7) by auto
  have rd: "read_var M a i = Some (vs ! i)"
    using i ar Cons.prems(2) assms(7,8) by (simp add: read_var_def raise_def)
  have fk: "\<forall>x. f x < k"
  proof
    fix x show "f x < k" using Cons.prems(4) [rule_format, of x] by simp
  qed
  obtain M1 where M1: "Block_object_assign (Suc n) M (r, i) (vs ! i) fl = Some M1" "gc M1 = None"
      "cells M1 = (raise cs (bump (target cs (vs ! i) fl) f))
        (r \<mapsto> Block (b\<lparr>bl_vars := (bl_vars b)[i := stored cs (vs ! i) fl]\<rparr>))"
    using assign_capture [OF ok Cons.prems(2) fk assms(6) _ Cons.prems(5,6), of i n] i Cons.prems(3) by auto
  have "\<forall>x. bump (target cs (vs ! i) fl) f x + length hs \<le> k"
  proof
    fix x
    have "bump (target cs (vs ! i) fl) f x \<le> Suc (f x)" by (simp add: bump_def split: option.split)
    then show "bump (target cs (vs ! i) fl) f x + length hs \<le> k"
      using Cons.prems(4) [rule_format, of x] by simp
  qed
  with Cons.IH [OF _ M1(3) _ _ _ M1(2)] Cons.prems(1,3) spares_bump [OF ok Cons.prems(5)]
  show ?case using rd M1(1) by (auto simp: h captures_ok_def simp del: Block_object_assign.simps)
qed simp

lemma dispose_helper_ok:
  assumes "captures_ok k cs vs hs" "cells M = (raise cs (bumps cs vs hs f))(r \<mapsto> Block b)"
    and "\<forall>(i, fl) \<in> set hs. i < length (bl_vars b) \<and> bl_vars b ! i = stored cs (vs ! i) fl"
    and "\<forall>x. f x + length hs \<le> k" "spares cs f" "cs r = None"
  shows "\<exists>M'. dispose_helper (Block_object_dispose (Suc n)) hs M r = Some M' \<and> gc M' = gc M \<and>
     cells M' = (raise cs f)(r \<mapsto> Block b)"
  using assms(1-4)
proof (induction hs arbitrary: M)
  case (Cons h hs)
  obtain i fl where h: "h = (i, fl)" by fastforce
  let ?g = "bumps cs vs hs f"
  have ok: "capture_ok k cs (vs ! i) fl" and oks: "captures_ok k cs vs hs"
    using Cons.prems(1) by (simp_all add: captures_ok_def h)
  have rd: "read_var M r i = Some (stored cs (vs ! i) fl)"
    using Cons.prems(2,3) by (simp add: read_var_def h)
  have fk: "\<forall>x. ?g x < k"
  proof
    fix x show "?g x < k" using Cons.prems(4) [rule_format, of x] bumps_le [of cs vs hs f x] by simp
  qed
  have c: "cells M = (raise cs (bump (target cs (vs ! i) fl) ?g))(r \<mapsto> Block b)"
    using Cons.prems(2) unfolding h bumps.simps bumps_bump .
  obtain M1 where M1: "Block_object_dispose (Suc n) M (stored cs (vs ! i) fl) fl = Some M1" "gc M1 = gc M"
      "cells M1 = (raise cs ?g)(r \<mapsto> Block b)"
    using dispose_capture [OF ok c fk assms(6) spares_bumps [OF oks assms(5)]] by blast
  have "\<forall>x. f x + length hs \<le> k"
  proof
    fix x show "f x + length hs \<le> k" using Cons.prems(4) [rule_format, of x] by simp
  qed
  with Cons.IH [OF oks M1(3)] Cons.prems(3)
  show ?case using rd M1(1,2) by (simp add: h del: Block_object_dispose.simps)
qed simp

section \<open>Copies and releases balance\<close>

lemma has_or: "has (x OR y) m \<longleftrightarrow> has x m \<or> has y m"
  unfolding has_def bit.conj_disj_distrib2 by (auto simp: bit_eq_iff bit_or_iff)

lemma has_masked: "m AND BLOCK_REFCOUNT_MASK = 0 \<Longrightarrow> has (x AND NOT BLOCK_REFCOUNT_MASK) m = has x m"
proof -
  assume "m AND BLOCK_REFCOUNT_MASK = 0"
  then have "NOT BLOCK_REFCOUNT_MASK AND m = m"
    by (auto simp: bit_eq_iff bit_and_iff bit_not_iff)
  then show ?thesis by (simp add: has_def and.assoc)
qed

definition heap_flags :: "u32 \<Rightarrow> u32" where
  "heap_flags w = (w AND NOT BLOCK_REFCOUNT_MASK) OR (BLOCK_NEEDS_FREE OR 1)"

lemma heap_flags_simps:
  "refcount (heap_flags w) = 1" "has (heap_flags w) BLOCK_NEEDS_FREE"
  "has (heap_flags w) BLOCK_IS_GC = has w BLOCK_IS_GC"
  "has (heap_flags w) BLOCK_HAS_COPY_DISPOSE = has w BLOCK_HAS_COPY_DISPOSE"
proof -
  have "heap_flags w AND BLOCK_REFCOUNT_MASK = 1"
    by (simp add: heap_flags_def bit.conj_disj_distrib2 and.assoc) (simp add: block_flags)
  then show "refcount (heap_flags w) = 1" by (simp add: refcount_def)
  show "has (heap_flags w) BLOCK_NEEDS_FREE" by (simp add: heap_flags_def has_or) (simp add: has_def block_flags)
  show "has (heap_flags w) BLOCK_IS_GC = has w BLOCK_IS_GC"
    "has (heap_flags w) BLOCK_HAS_COPY_DISPOSE = has w BLOCK_HAS_COPY_DISPOSE"
    unfolding heap_flags_def has_or
    by (subst has_masked; simp add: block_flags has_def)+
qed

text \<open>A block on the stack with captured variables as above, and a \<^verbatim>\<open>malloc\<close> that succeeds,
  without a collector.\<close>

definition copyable :: "memory \<Rightarrow> nat \<Rightarrow> bool" where
  "copyable m a =
     (gc m = None \<and> 0 < room m \<and> 0 < next_addr m \<and> cells m (next_addr m) = None \<and> a \<noteq> 0 \<and>
      (case block_at m a of
         None \<Rightarrow> False
       | Some b \<Rightarrow>
           \<not> has (bl_flags b) BLOCK_NEEDS_FREE \<and> \<not> has (bl_flags b) BLOCK_IS_GC \<and>
           \<not> has (bl_flags b) BLOCK_IS_GLOBAL \<and> distinct (map fst (bl_helper b)) \<and>
           captures_ok (length (bl_helper b)) (cells m) (bl_vars b) (bl_helper b)))"

text \<open>Copies (\<open>True\<close>) and releases (\<open>False\<close>) of the block \<open>r\<close>; they keep it if the count, \<open>c\<close> at first,
  stays positive and does not latch.\<close>

fun block_run :: "nat \<Rightarrow> memory \<Rightarrow> nat \<Rightarrow> bool list \<Rightarrow> memory option" where
  "block_run n m r [] = Some m"
| "block_run n m r (True # ops) = Option.bind (Block_copy n m r) (\<lambda>(p, m'). block_run n m' r ops)"
| "block_run n m r (False # ops) = Option.bind (Block_release n m r) (\<lambda>m'. block_run n m' r ops)"

fun keeps :: "nat \<Rightarrow> bool list \<Rightarrow> bool" where
  "keeps c [] = True"
| "keeps c (True # ops) = (c < 65534 \<and> keeps (c + 1) ops)"
| "keeps c (False # ops) = (1 < c \<and> keeps (c - 1) ops)"

fun balance :: "nat \<Rightarrow> bool list \<Rightarrow> nat" where
  "balance c [] = c"
| "balance c (True # ops) = balance (c + 1) ops"
| "balance c (False # ops) = balance (c - 1) ops"

text \<open>The block \<open>bb\<close> at \<open>r\<close> with \<open>c\<close> references, beside the cells \<open>cs\<close>.\<close>

definition holds_block :: "(nat \<Rightarrow> cell option) \<Rightarrow> nat \<Rightarrow> Block_layout \<Rightarrow> nat \<Rightarrow> memory \<Rightarrow> bool" where
  "holds_block cs r bb c m =
     (gc m = None \<and> 0 < c \<and> c < 65535 \<and> r \<noteq> 0 \<and> refcount (bl_flags bb) = 1 \<and> has (bl_flags bb) BLOCK_NEEDS_FREE \<and>
      \<not> has (bl_flags bb) BLOCK_IS_GC \<and> cells m = cs(r \<mapsto> add_flags (c - 1) (Block bb)))"

lemma holds_block_at:
  assumes "holds_block cs r bb c m"
  shows "block_at m r = Some (bb\<lparr>bl_flags := bl_flags bb + of_nat (c - 1)\<rparr>)"
    "refcount (bl_flags bb + of_nat (c - 1)) = c"
    "has (bl_flags bb + of_nat (c - 1)) BLOCK_NEEDS_FREE" "\<not> has (bl_flags bb + of_nat (c - 1)) BLOCK_IS_GC"
  using assms refcount_add [of "bl_flags bb" "c - 1"] has_add [of "bl_flags bb" "c - 1"]
  by (auto simp: holds_block_def block_at_def)

lemma copy_held:
  assumes "holds_block cs r bb c m" "c < 65534"
  shows "\<exists>m'. Block_copy n m r = Some (r, m') \<and> holds_block cs r bb (c + 1) m'"
proof -
  note h = assms(1) [unfolded holds_block_def]
  have "latching_incr_int (bl_flags bb + of_nat (c - 1)) = (bl_flags bb + of_nat c, bl_flags bb + of_nat c)"
    using latching_incr_add [of "bl_flags bb" "c - 1"] h assms(2) by simp
  then have "Block_copy n m r = Some (r, put m r (add_flags c (Block bb)))"
    using h holds_block_at [OF assms(1)] by (simp add: Block_copy_def Block_copy_internal_def)
  then show ?thesis using h assms(2) by (simp add: holds_block_def put_def)
qed

lemma release_held:
  assumes "holds_block cs r bb c m" "1 < c"
  shows "\<exists>m'. Block_release n m r = Some m' \<and> holds_block cs r bb (c - 1) m'"
proof -
  note h = assms(1) [unfolded holds_block_def]
  obtain d where d: "c = Suc (Suc d)" using assms(2) by (metis less_natE plus_1_eq_Suc add_Suc_right add_0_right less_imp_Suc_add)
  have "latching_decr_int (bl_flags bb + of_nat (Suc d)) = (bl_flags bb + of_nat d, bl_flags bb + of_nat d)"
    using latching_decr_add [of "bl_flags bb" d] h d by simp
  moreover have "bl_flags bb + of_nat d AND BLOCK_REFCOUNT_MASK \<noteq> 0"
    using refcount_add [of "bl_flags bb" d] h d by (simp add: refcount_zero_iff)
  ultimately have "Block_release n m r = Some (put m r (add_flags d (Block bb)))"
    using h holds_block_at(1) [OF assms(1)] d by (simp add: Block_release_def Block_release_with_def del: of_nat_Suc)
  then show ?thesis using h d by (simp add: holds_block_def put_def)
qed

lemma run_held:
  "keeps c ops \<Longrightarrow> holds_block cs r bb c m \<Longrightarrow>
   \<exists>m'. block_run n m r ops = Some m' \<and> holds_block cs r bb (balance c ops) m'"
proof (induction n m r ops arbitrary: c rule: block_run.induct)
  case (2 n m r ops)
  obtain m' where "Block_copy n m r = Some (r, m')" "holds_block cs r bb (c + 1) m'"
    using copy_held [OF 2(3)] 2(2) by auto
  then show ?case using 2 by auto
next
  case (3 n m r ops)
  obtain m' where "Block_release n m r = Some m'" "holds_block cs r bb (c - 1) m'"
    using release_held [OF 3(3)] 3(2) by auto
  then show ?case using 3 by auto
qed auto

definition copied_block :: "(nat \<Rightarrow> cell option) \<Rightarrow> Block_layout \<Rightarrow> Block_layout" where
  "copied_block cs b =
     b\<lparr>bl_flags := heap_flags (bl_flags b), bl_isa := NSConcreteMallocBlock,
       bl_vars := (if has (bl_flags b) BLOCK_HAS_COPY_DISPOSE
                   then storeds cs (bl_vars b) (bl_helper b) (bl_vars b) else bl_vars b)\<rparr>"

definition taken :: "(nat \<Rightarrow> cell option) \<Rightarrow> Block_layout \<Rightarrow> nat \<Rightarrow> nat" where
  "taken cs b =
     (if has (bl_flags b) BLOCK_HAS_COPY_DISPOSE then bumps cs (bl_vars b) (bl_helper b) (\<lambda>_. 0) else (\<lambda>_. 0))"

lemma copyable_block:
  assumes "copyable m a"
  obtains b where "block_at m a = Some b" "cells m a = Some (Block b)" "a \<noteq> 0"
    "\<not> has (bl_flags b) BLOCK_NEEDS_FREE" "\<not> has (bl_flags b) BLOCK_IS_GC" "\<not> has (bl_flags b) BLOCK_IS_GLOBAL"
    "distinct (map fst (bl_helper b))" "captures_ok (length (bl_helper b)) (cells m) (bl_vars b) (bl_helper b)"
proof -
  obtain b where "block_at m a = Some b" using assms by (auto simp: copyable_def split: option.splits)
  then show thesis
    using assms by (intro that [of b]) (auto simp: copyable_def block_at_def split: option.splits cell.splits)
qed

lemma copy_stack_block:
  assumes "copyable m a" "block_at m a = Some b"
  shows "\<exists>m1. Block_copy (Suc n) m a = Some (next_addr m, m1) \<and>
     holds_block (raise (cells m) (taken (cells m) b)) (next_addr m) (copied_block (cells m) b) 1 m1"
proof -
  let ?r = "next_addr m" and ?cs = "cells m"
  have b: "cells m a = Some (Block b)" "a \<noteq> 0" "\<not> has (bl_flags b) BLOCK_NEEDS_FREE"
      "\<not> has (bl_flags b) BLOCK_IS_GC" "\<not> has (bl_flags b) BLOCK_IS_GLOBAL"
      "captures_ok (length (bl_helper b)) ?cs (bl_vars b) (bl_helper b)"
    using copyable_block [OF assms(1)] assms(2) by (metis option.inject)+
  have m: "0 < room m" "?r \<noteq> 0" "?cs ?r = None" "gc m = None" using assms(1) by (auto simp: copyable_def)
  let ?nb = "b\<lparr>bl_flags := heap_flags (bl_flags b), bl_isa := NSConcreteMallocBlock\<rparr>"
  let ?M = "put (m\<lparr>next_addr := ?r + 1, room := room m - 1\<rparr>) ?r (Block ?nb)"
  have copy: "Block_copy (Suc n) m a =
      (if has (bl_flags b) BLOCK_HAS_COPY_DISPOSE
       then map_option (Pair ?r) (copy_helper (Block_object_assign (Suc n)) (bl_helper b) ?M ?r a)
       else Some (?r, ?M))"
    using b m assms(2)
    by (simp add: Block_copy_def Block_copy_internal_def malloc_def Let_def heap_flags_def [symmetric]
        heap_flags_simps del: Block_object_assign.simps)
  have held: "holds_block (raise ?cs (taken ?cs b)) ?r (copied_block ?cs b) 1 m1"
    if "cells m1 = (raise ?cs (taken ?cs b))(?r \<mapsto> Block (copied_block ?cs b))" "gc m1 = None" for m1
    using that m b by (simp add: holds_block_def copied_block_def heap_flags_simps del: add_flags.simps)
  show ?thesis
  proof (cases "has (bl_flags b) BLOCK_HAS_COPY_DISPOSE")
    case True
    obtain m1 where "copy_helper (Block_object_assign (Suc n)) (bl_helper b) ?M ?r a = Some m1" "gc m1 = None"
        "cells m1 = (raise ?cs (bumps ?cs (bl_vars b) (bl_helper b) (\<lambda>_. 0)))
          (?r \<mapsto> Block (?nb\<lparr>bl_vars := storeds ?cs (bl_vars b) (bl_helper b) (bl_vars ?nb)\<rparr>))"
      using copy_helper_ok [OF b(6), of ?M "\<lambda>_. 0" ?r ?nb a b n] b(1) m(3,4)
      by (auto simp: put_def spares_def)
    then show ?thesis
      using copy True held by (simp add: taken_def copied_block_def)
  next
    case False
    then show ?thesis using copy held m(4) by (simp add: taken_def copied_block_def put_def)
  qed
qed

lemma last_count:
  assumes "refcount w = 1"
  shows "latching_decr_int w = (w - 1, w - 1)" "w - 1 AND BLOCK_REFCOUNT_MASK = 0"
    "has (w - 1) BLOCK_NEEDS_FREE = has w BLOCK_NEEDS_FREE" "has (w - 1) BLOCK_IS_GC = has w BLOCK_IS_GC"
    "has (w - 1) BLOCK_HAS_COPY_DISPOSE = has w BLOCK_HAS_COPY_DISPOSE"
proof -
  have "w \<noteq> 0" using assms by (auto simp: refcount_mod)
  then have u: "unat w = Suc (unat (w - 1))" using unat_eq_zero [of w] by (simp add: unat_minus_one)
  then have "refcount (w - 1) = 0"
    using assms unfolding refcount_mod u by (metis One_nat_def Suc_inject mod_Suc nat.distinct(1))
  then show "w - 1 AND BLOCK_REFCOUNT_MASK = 0"
      "has (w - 1) BLOCK_NEEDS_FREE = has w BLOCK_NEEDS_FREE" "has (w - 1) BLOCK_IS_GC = has w BLOCK_IS_GC"
      "has (w - 1) BLOCK_HAS_COPY_DISPOSE = has w BLOCK_HAS_COPY_DISPOSE"
    using has_add [of "w - 1" 1] by (simp_all add: refcount_zero_iff)
  show "latching_decr_int w = (w - 1, w - 1)"
    unfolding latching_decr_int_def latched_iff refcount_zero_iff using assms by simp
qed

lemma last_release:
  assumes "copyable m a" "block_at m a = Some b"
    and "holds_block (raise (cells m) (taken (cells m) b)) (next_addr m) (copied_block (cells m) b) 1 M"
  shows "\<exists>M'. Block_release (Suc n) M (next_addr m) = Some M' \<and> cells M' = cells m"
proof -
  let ?r = "next_addr m" and ?cs = "cells m" and ?bb = "copied_block (cells m) b"
  note h = assms(3) [unfolded holds_block_def]
  have b: "distinct (map fst (bl_helper b))" "captures_ok (length (bl_helper b)) ?cs (bl_vars b) (bl_helper b)"
    using copyable_block [OF assms(1)] assms(2) by (metis option.inject)+
  have r: "?cs ?r = None" using assms(1) by (simp add: copyable_def)
  have at: "block_at M ?r = Some ?bb" using holds_block_at(1) [OF assms(3)] by simp
  define w where "w = bl_flags ?bb"
  have w: "refcount w = 1" "has w BLOCK_NEEDS_FREE" "\<not> has w BLOCK_IS_GC" using h by (simp_all add: w_def)
  let ?fb = "?bb\<lparr>bl_flags := w - 1\<rparr>"
  let ?M1 = "put M ?r (Block ?fb)"
  have M1: "cells ?M1 = (raise ?cs (taken ?cs b))(?r \<mapsto> Block ?fb)" using h by (simp add: put_def)
  have hs: "bl_helper ?bb = bl_helper b" by (simp add: copied_block_def)
  have rel: "Block_release (Suc n) M ?r =
      Option.bind (if has w BLOCK_HAS_COPY_DISPOSE
                   then dispose_helper (Block_object_dispose (Suc n)) (bl_helper b) ?M1 ?r else Some ?M1)
        (\<lambda>m2. Some (Block_deallocator m2 ?r))"
    using h at w last_count [OF w(1)]
    by (simp add: Block_release_def Block_release_with_def Let_def hs w_def [symmetric]
        del: Block_object_dispose.simps)
  have hcd: "has w BLOCK_HAS_COPY_DISPOSE = has (bl_flags b) BLOCK_HAS_COPY_DISPOSE"
    by (simp add: w_def copied_block_def heap_flags_simps)
  have "\<exists>m2. (if has w BLOCK_HAS_COPY_DISPOSE
          then dispose_helper (Block_object_dispose (Suc n)) (bl_helper b) ?M1 ?r else Some ?M1) = Some m2 \<and>
        gc m2 = None \<and> cells m2 = ?cs(?r \<mapsto> Block ?fb)"
  proof (cases "has w BLOCK_HAS_COPY_DISPOSE")
    case True
    have "\<forall>(i, fl) \<in> set (bl_helper b). i < length (bl_vars ?fb) \<and> bl_vars ?fb ! i = stored ?cs (bl_vars b ! i) fl"
      using True hcd b(2) storeds_nth [OF b(1)]
      by (auto simp: copied_block_def captures_ok_def list_all_iff)
    then show ?thesis
      using dispose_helper_ok [OF b(2), of ?M1 "\<lambda>_. 0" ?r ?fb n] M1 True hcd r h
      by (auto simp: taken_def spares_def)
  next
    case False
    then show ?thesis using M1 hcd h by (simp add: taken_def)
  qed
  then show ?thesis using r by (auto simp: rel no_gc dealloc_def fun_upd_idem_iff)
qed

lemma run_append:
  "block_run n m r (xs @ ys) = Option.bind (block_run n m r xs) (\<lambda>m'. block_run n m' r ys)"
  by (induction n m r xs rule: block_run.induct) (auto split: bind_splits prod.splits)

lemma keeps_releases: "0 < c \<Longrightarrow> keeps c (replicate (c - 1) False) \<and> balance c (replicate (c - 1) False) = 1"
proof (induction c)
  case (Suc c)
  then show ?case by (cases c) simp_all
qed simp

lemma balance_pos: "keeps c ops \<Longrightarrow> 0 < c \<Longrightarrow> 0 < balance c ops"
  by (induction c ops rule: keeps.induct) auto

end
