(* ===== verification/Blocks_Threads.thy ===== *)
theory Blocks_Threads
  imports Blocks_Runtime
begin

text \<open>
  Threads that copy and release one block at the same time (\<^verbatim>\<open>latching_incr_int\<close>, \<^verbatim>\<open>latching_decr_int\<close> and
  \<^verbatim>\<open>_Block_release\<close> of \<^verbatim>\<open>src/src/darwin-compat/blocks/runtime.c\<close>), as a step relation with its invariant.
\<close>

section \<open>Threads that count\<close>

text \<open>Where a thread is in \<^verbatim>\<open>latching_incr_int\<close> or in \<^verbatim>\<open>latching_decr_int\<close> on the flags of one block: before
  the read, or with the value it has read; and in \<^verbatim>\<open>_Block_release\<close> after the count has reached zero.\<close>

datatype rc_pc = Idle | WantIncr | Incr u32 | WantDecr | Decr u32 | Dispose

text \<open>\<open>holds t\<close> is the number of references that thread \<open>t\<close> has.\<close>

record rc_state =
  rc_flags :: u32
  holds :: "nat \<Rightarrow> nat"
  rc_pc :: "nat \<Rightarrow> rc_pc"
  frees :: nat

definition pc_to :: "nat \<Rightarrow> rc_pc \<Rightarrow> rc_state \<Rightarrow> rc_state" where
  "pc_to t p s = s\<lparr>rc_pc := (rc_pc s)(t := p)\<rparr>"

definition own :: "nat \<Rightarrow> nat \<Rightarrow> rc_state \<Rightarrow> rc_state" where
  "own t k s = s\<lparr>holds := (holds s)(t := k)\<rparr>"

text \<open>The threads below \<open>n\<close> copy and release the block while they have a reference, and hand references
  to each other.  The exchange of the value that was read for the new one succeeds if the flags still
  have that value.\<close>

inductive rc_step :: "nat \<Rightarrow> rc_state \<Rightarrow> rc_state \<Rightarrow> bool" for n where
  copy: "t < n \<Longrightarrow> rc_pc s t = Idle \<Longrightarrow> 0 < holds s t \<Longrightarrow> rc_step n s (pc_to t WantIncr s)"
| incr_read: "t < n \<Longrightarrow> rc_pc s t = WantIncr \<Longrightarrow> rc_step n s (pc_to t (Incr (rc_flags s)) s)"
| incr_latched: "t < n \<Longrightarrow> rc_pc s t = Incr old \<Longrightarrow> old AND BLOCK_REFCOUNT_MASK = BLOCK_REFCOUNT_MASK \<Longrightarrow>
    rc_step n s (pc_to t Idle (own t (holds s t + 1) s))"
| incr_cas: "t < n \<Longrightarrow> rc_pc s t = Incr old \<Longrightarrow> old AND BLOCK_REFCOUNT_MASK \<noteq> BLOCK_REFCOUNT_MASK \<Longrightarrow>
    rc_flags s = old \<Longrightarrow> rc_step n s (pc_to t Idle (own t (holds s t + 1) (s\<lparr>rc_flags := old + 1\<rparr>)))"
| incr_retry: "t < n \<Longrightarrow> rc_pc s t = Incr old \<Longrightarrow> old AND BLOCK_REFCOUNT_MASK \<noteq> BLOCK_REFCOUNT_MASK \<Longrightarrow>
    rc_flags s \<noteq> old \<Longrightarrow> rc_step n s (pc_to t WantIncr s)"
| release: "t < n \<Longrightarrow> rc_pc s t = Idle \<Longrightarrow> 0 < holds s t \<Longrightarrow> rc_step n s (pc_to t WantDecr s)"
| decr_read: "t < n \<Longrightarrow> rc_pc s t = WantDecr \<Longrightarrow> rc_step n s (pc_to t (Decr (rc_flags s)) s)"
| decr_latched: "t < n \<Longrightarrow> rc_pc s t = Decr old \<Longrightarrow> old AND BLOCK_REFCOUNT_MASK = BLOCK_REFCOUNT_MASK \<Longrightarrow>
    rc_step n s (pc_to t Idle (own t (holds s t - 1) s))"
| decr_zero: "t < n \<Longrightarrow> rc_pc s t = Decr old \<Longrightarrow> old AND BLOCK_REFCOUNT_MASK = 0 \<Longrightarrow>
    rc_step n s (pc_to t Dispose (own t (holds s t - 1) s))"
| decr_cas: "t < n \<Longrightarrow> rc_pc s t = Decr old \<Longrightarrow> old AND BLOCK_REFCOUNT_MASK \<noteq> BLOCK_REFCOUNT_MASK \<Longrightarrow>
    old AND BLOCK_REFCOUNT_MASK \<noteq> 0 \<Longrightarrow> rc_flags s = old \<Longrightarrow>
    rc_step n s (pc_to t (if (old - 1) AND BLOCK_REFCOUNT_MASK = 0 then Dispose else Idle)
      (own t (holds s t - 1) (s\<lparr>rc_flags := old - 1\<rparr>)))"
| decr_retry: "t < n \<Longrightarrow> rc_pc s t = Decr old \<Longrightarrow> old AND BLOCK_REFCOUNT_MASK \<noteq> BLOCK_REFCOUNT_MASK \<Longrightarrow>
    old AND BLOCK_REFCOUNT_MASK \<noteq> 0 \<Longrightarrow> rc_flags s \<noteq> old \<Longrightarrow> rc_step n s (pc_to t WantDecr s)"
| dispose: "t < n \<Longrightarrow> rc_pc s t = Dispose \<Longrightarrow>
    rc_step n s (pc_to t Idle (s\<lparr>frees := frees s + (if has (rc_flags s) BLOCK_NEEDS_FREE then 1 else 0)\<rparr>))"
| give: "t < n \<Longrightarrow> u < n \<Longrightarrow> t \<noteq> u \<Longrightarrow> rc_pc s t = Idle \<Longrightarrow> 0 < holds s t \<Longrightarrow>
    rc_step n s (own u (holds s u + 1) (own t (holds s t - 1) s))"

inductive_cases rc_stepE: "rc_step n s s'"

definition rc_start :: "u32 \<Rightarrow> rc_state" where
  "rc_start w = \<lparr>rc_flags = w, holds = (\<lambda>t. if t = 0 then refcount w else 0), rc_pc = (\<lambda>_. Idle), frees = 0\<rparr>"

definition total_refs :: "nat \<Rightarrow> rc_state \<Rightarrow> nat" where
  "total_refs n s = (\<Sum>t \<in> {..<n}. holds s t)"

definition counting :: "rc_pc \<Rightarrow> bool" where
  "counting p = (p \<noteq> Idle \<and> p \<noteq> Dispose)"

definition read_value :: "rc_pc \<Rightarrow> u32 option" where
  "read_value p = (case p of Incr old \<Rightarrow> Some old | Decr old \<Rightarrow> Some old | _ \<Rightarrow> None)"

text \<open>The four phases: latched; counted; reached zero, with one thread about to free; freed.\<close>

definition rc_phase :: "nat \<Rightarrow> rc_state \<Rightarrow> bool" where
  "rc_phase n s =
     (let c = refcount (rc_flags s); N = total_refs n s in
      (c = 65535 \<and> frees s = 0 \<and> (\<forall>t. rc_pc s t \<noteq> Dispose)) \<or>
      (c = N \<and> 0 < N \<and> N < 65535 \<and> frees s = 0 \<and> (\<forall>t. rc_pc s t \<noteq> Dispose)) \<or>
      (c = 0 \<and> N = 0 \<and> frees s = 0 \<and> (\<exists>t. \<forall>u. rc_pc s u = Dispose \<longleftrightarrow> u = t)) \<or>
      (c = 0 \<and> N = 0 \<and> frees s = 1 \<and> (\<forall>t. rc_pc s t \<noteq> Dispose)))"

definition rc_ok :: "nat \<Rightarrow> rc_state \<Rightarrow> bool" where
  "rc_ok n s =
     (has (rc_flags s) BLOCK_NEEDS_FREE \<and> rc_phase n s \<and>
      (\<forall>t. rc_pc s t \<noteq> Idle \<longrightarrow> t < n) \<and>
      (\<forall>t. counting (rc_pc s t) \<longrightarrow> 0 < holds s t) \<and>
      (\<forall>t old. read_value (rc_pc s t) = Some old \<longrightarrow>
         0 < refcount old \<and> (refcount old = 65535 \<longrightarrow> refcount (rc_flags s) = 65535)))"

lemma pc_to_simps [simp]:
  "rc_flags (pc_to t p s) = rc_flags s" "holds (pc_to t p s) = holds s" "rc_pc (pc_to t p s) = (rc_pc s)(t := p)"
  "frees (pc_to t p s) = frees s"
  by (simp_all add: pc_to_def)

lemma own_simps [simp]:
  "rc_flags (own t k s) = rc_flags s" "holds (own t k s) = (holds s)(t := k)" "rc_pc (own t k s) = rc_pc s"
  "frees (own t k s) = frees s"
  by (simp_all add: own_def)

lemma sum_upd: "t < (n::nat) \<Longrightarrow> (\<Sum>u \<in> {..<n}. (f(t := x)) u) + f t = (\<Sum>u \<in> {..<n}. f u) + (x::nat)"
proof -
  assume t: "t < n"
  have "(\<Sum>u \<in> {..<n} - {t}. (f(t := x)) u) = (\<Sum>u \<in> {..<n} - {t}. f u)" by (rule sum.cong) auto
  moreover have "sum g {..<n} = g t + sum g ({..<n} - {t})" for g :: "nat \<Rightarrow> nat"
    using t by (intro sum.remove) auto
  from this [of f] this [of "f(t := x)"] have "sum f {..<n} = f t + sum f ({..<n} - {t})"
    "sum (f(t := x)) {..<n} = x + sum (f(t := x)) ({..<n} - {t})" by simp_all
  ultimately show ?thesis by linarith
qed

lemma total_pc [simp]: "total_refs n (pc_to t p s) = total_refs n s"
  by (simp add: total_refs_def)

lemma total_flags [simp]: "total_refs n (s\<lparr>rc_flags := w\<rparr>) = total_refs n s" "total_refs n (s\<lparr>frees := k\<rparr>) = total_refs n s"
  by (simp_all add: total_refs_def)

lemma total_own: "t < n \<Longrightarrow> total_refs n (own t k s) + holds s t = total_refs n s + k"
  using sum_upd [of t n "holds s" k] by (simp add: total_refs_def)

lemma holds_le_total: "t < n \<Longrightarrow> holds s t \<le> total_refs n s"
  by (simp add: total_refs_def member_le_sum)

lemma refcount_pred:
  assumes "0 < refcount w"
  shows "refcount (w - 1) = refcount w - 1" "has (w - 1) BLOCK_NEEDS_FREE = has w BLOCK_NEEDS_FREE"
proof -
  have "w \<noteq> 0" using assms by (auto simp: refcount_mod)
  then have u: "unat w = Suc (unat (w - 1))" using unat_eq_zero [of w] by (simp add: unat_minus_one)
  have s: "Suc (refcount (w - 1)) = refcount w"
    using assms unfolding refcount_mod u by (simp add: mod_Suc split: if_splits)
  then show "refcount (w - 1) = refcount w - 1" by simp
  have "refcount (w - 1) + 1 < 65536" using s refcount_less [of w] by simp
  from has_add(1) [OF this] show "has (w - 1) BLOCK_NEEDS_FREE = has w BLOCK_NEEDS_FREE" by simp
qed

lemma refcount_succ:
  assumes "w AND BLOCK_REFCOUNT_MASK \<noteq> BLOCK_REFCOUNT_MASK"
  shows "refcount (w + 1) = refcount w + 1" "has (w + 1) BLOCK_NEEDS_FREE = has w BLOCK_NEEDS_FREE"
proof -
  have "refcount w + 1 < 65536" using assms refcount_less [of w] by (simp add: latched_iff)
  then show "refcount (w + 1) = refcount w + 1" "has (w + 1) BLOCK_NEEDS_FREE = has w BLOCK_NEEDS_FREE"
    using refcount_add [of w 1] has_add(1) [of w 1] by simp_all
qed

text \<open>A thread that counts is in one of the first two phases.\<close>

lemma counting_phase:
  assumes "rc_ok n s" "t < n" "counting (rc_pc s t)"
  shows "0 < holds s t" "0 < total_refs n s" "frees s = 0" "\<forall>u. rc_pc s u \<noteq> Dispose"
    "refcount (rc_flags s) = 65535 \<or> refcount (rc_flags s) = total_refs n s \<and> total_refs n s < 65535"
proof -
  show h: "0 < holds s t" using assms(1,3) by (auto simp: rc_ok_def)
  then show N: "0 < total_refs n s" using holds_le_total [OF assms(2), of s] by simp
  have "rc_phase n s" using assms(1) by (simp add: rc_ok_def)
  with N show "frees s = 0" "\<forall>u. rc_pc s u \<noteq> Dispose"
      "refcount (rc_flags s) = 65535 \<or> refcount (rc_flags s) = total_refs n s \<and> total_refs n s < 65535"
    by (auto simp: rc_phase_def Let_def)
qed

lemma phase_pc [simp]:
  "rc_pc s t \<noteq> Dispose \<Longrightarrow> p \<noteq> Dispose \<Longrightarrow> rc_phase n (pc_to t p s) = rc_phase n s"
proof -
  assume p: "rc_pc s t \<noteq> Dispose" "p \<noteq> Dispose"
  then have d: "((rc_pc s)(t := p)) u = Dispose \<longleftrightarrow> rc_pc s u = Dispose" for u by simp
  show ?thesis by (simp only: rc_phase_def pc_to_simps total_pc d)
qed

text \<open>A step that only moves a thread within the counting.\<close>

lemma rc_ok_at:
  assumes "rc_ok n s" "t < n" "rc_pc s t \<noteq> Dispose" "p \<noteq> Dispose" "counting p \<Longrightarrow> 0 < holds s t"
    and "\<And>old. read_value p = Some old \<Longrightarrow>
      0 < refcount old \<and> (refcount old = 65535 \<longrightarrow> refcount (rc_flags s) = 65535)"
  shows "rc_ok n (pc_to t p s)"
  using assms by (auto simp: rc_ok_def)

lemma read_ok:
  assumes "rc_ok n s" "t < n" "counting (rc_pc s t)" "p = Incr (rc_flags s) \<or> p = Decr (rc_flags s)"
  shows "rc_ok n (pc_to t p s)"
proof (rule rc_ok_at [OF assms(1,2)])
  note c = counting_phase [OF assms(1-3)]
  show "rc_pc s t \<noteq> Dispose" using assms(3) by (simp add: counting_def)
  show "p \<noteq> Dispose" using assms(4) by auto
  show "0 < holds s t" by (rule c(1))
  show "0 < refcount old \<and> (refcount old = 65535 \<longrightarrow> refcount (rc_flags s) = 65535)"
    if "read_value p = Some old" for old
    using that assms(4) c(2,5) by (auto simp: read_value_def)
qed

text \<open>The steps that end the counting: the flags and the references of the thread change together.\<close>

lemma rc_ok_end:
  assumes "rc_ok n s" "t < n" "counting (rc_pc s t)" "p = Idle \<or> p = Dispose"
    and "has w BLOCK_NEEDS_FREE" "refcount (rc_flags s) = 65535 \<longrightarrow> refcount w = 65535"
    and "rc_phase n (pc_to t p (own t k (s\<lparr>rc_flags := w\<rparr>)))"
  shows "rc_ok n (pc_to t p (own t k (s\<lparr>rc_flags := w\<rparr>)))"
  using assms unfolding rc_ok_def by (auto simp: counting_def read_value_def)

lemma end_latched:
  assumes "rc_ok n s" "t < n" "counting (rc_pc s t)" "refcount (rc_flags s) = 65535"
  shows "rc_ok n (pc_to t Idle (own t k s))"
proof -
  note c = counting_phase [OF assms(1-3)]
  have "rc_phase n (pc_to t Idle (own t k (s\<lparr>rc_flags := rc_flags s\<rparr>)))"
    using c(3,4) assms(4) by (simp add: rc_phase_def Let_def)
  then have "rc_ok n (pc_to t Idle (own t k (s\<lparr>rc_flags := rc_flags s\<rparr>)))"
    using assms by (intro rc_ok_end) (auto simp: rc_ok_def)
  then show ?thesis by simp
qed

lemma end_incr:
  assumes "rc_ok n s" "t < n" "counting (rc_pc s t)" "rc_flags s AND BLOCK_REFCOUNT_MASK \<noteq> BLOCK_REFCOUNT_MASK"
  shows "rc_ok n (pc_to t Idle (own t (holds s t + 1) (s\<lparr>rc_flags := rc_flags s + 1\<rparr>)))"
proof -
  note c = counting_phase [OF assms(1-3)] and r = refcount_succ [OF assms(4)]
  have l: "refcount (rc_flags s) \<noteq> 65535" using assms(4) by (simp add: latched_iff)
  then have N: "refcount (rc_flags s) = total_refs n s" "total_refs n s < 65535" using c(5) by simp_all
  have "total_refs n (own t (holds s t + 1) (s\<lparr>rc_flags := rc_flags s + 1\<rparr>)) = total_refs n s + 1"
    using total_own [OF assms(2), of "holds s t + 1" "s\<lparr>rc_flags := rc_flags s + 1\<rparr>"] by simp
  then have "rc_phase n (pc_to t Idle (own t (holds s t + 1) (s\<lparr>rc_flags := rc_flags s + 1\<rparr>)))"
    using c(3,4) N r(1) by (simp add: rc_phase_def Let_def) linarith
  then show ?thesis
    using assms(1-3) l r(2) by (intro rc_ok_end) (auto simp: rc_ok_def)
qed

lemma end_decr:
  assumes "rc_ok n s" "t < n" "counting (rc_pc s t)" "rc_flags s AND BLOCK_REFCOUNT_MASK \<noteq> BLOCK_REFCOUNT_MASK"
  shows "rc_ok n (pc_to t (if (rc_flags s - 1) AND BLOCK_REFCOUNT_MASK = 0 then Dispose else Idle)
    (own t (holds s t - 1) (s\<lparr>rc_flags := rc_flags s - 1\<rparr>)))" (is "rc_ok n ?s")
proof -
  note c = counting_phase [OF assms(1-3)]
  have l: "refcount (rc_flags s) \<noteq> 65535" using assms(4) by (simp add: latched_iff)
  then have N: "refcount (rc_flags s) = total_refs n s" "total_refs n s < 65535" using c(5) by simp_all
  with c(2) have r: "refcount (rc_flags s - 1) = total_refs n s - 1"
      "has (rc_flags s - 1) BLOCK_NEEDS_FREE = has (rc_flags s) BLOCK_NEEDS_FREE"
    using refcount_pred [of "rc_flags s"] by simp_all
  have T: "total_refs n (own t (holds s t - 1) (s\<lparr>rc_flags := rc_flags s - 1\<rparr>)) = total_refs n s - 1"
    using total_own [OF assms(2), of "holds s t - 1" "s\<lparr>rc_flags := rc_flags s - 1\<rparr>"] c(1) by simp
  have "rc_phase n ?s"
  proof (cases "total_refs n s = 1")
    case True
    then have "(rc_flags s - 1) AND BLOCK_REFCOUNT_MASK = 0" using r(1) by (simp add: refcount_zero_iff)
    moreover have "\<exists>v. \<forall>u. ((rc_pc s)(t := Dispose)) u = Dispose \<longleftrightarrow> u = v" using c(4) by auto
    ultimately show ?thesis using True T r(1) c(3) by (simp add: rc_phase_def Let_def)
  next
    case False
    then have "(rc_flags s - 1) AND BLOCK_REFCOUNT_MASK \<noteq> 0" using r(1) c(2) by (simp add: refcount_zero_iff)
    moreover have "0 < total_refs n s - 1" "total_refs n s - 1 < 65535" using False c(2) N(2) by auto
    ultimately show ?thesis using T r(1) c(3,4) by (simp add: rc_phase_def Let_def)
  qed
  then show ?thesis using assms(1-3) l r(2) by (intro rc_ok_end) (auto simp: rc_ok_def)
qed

lemma rc_ok_dispose:
  assumes "rc_ok n s" "t < n" "rc_pc s t = Dispose"
  shows "rc_ok n (pc_to t Idle (s\<lparr>frees := frees s + (if has (rc_flags s) BLOCK_NEEDS_FREE then 1 else 0)\<rparr>))"
proof -
  have h: "has (rc_flags s) BLOCK_NEEDS_FREE" and ph: "rc_phase n s" using assms(1) by (simp_all add: rc_ok_def)
  then have p: "refcount (rc_flags s) = 0" "total_refs n s = 0" "frees s = 0" "\<forall>u. rc_pc s u = Dispose \<longleftrightarrow> u = t"
    using assms(3) by (auto simp: rc_phase_def Let_def)
  have "\<not> counting (rc_pc s u)" for u
  proof
    assume u: "counting (rc_pc s u)"
    then have "u < n" "0 < holds s u" using assms(1) by (auto simp: rc_ok_def counting_def)
    then show False using holds_le_total [of u n s] p(2) by simp
  qed
  then have "\<forall>u. u \<noteq> t \<longrightarrow> rc_pc s u = Idle" using p(4) by (auto simp: counting_def)
  then show ?thesis
    using assms(1) h p by (auto simp: rc_ok_def rc_phase_def Let_def counting_def read_value_def split: rc_pc.splits)
qed

lemma rc_ok_give:
  assumes "rc_ok n s" "t < n" "u < n" "t \<noteq> u" "rc_pc s t = Idle" "0 < holds s t"
  shows "rc_ok n (own u (holds s u + 1) (own t (holds s t - 1) s))" (is "rc_ok n ?s")
proof -
  have "total_refs n (own t (holds s t - 1) s) + 1 = total_refs n s"
    using total_own [OF assms(2), of "holds s t - 1" s] assms(6) by simp
  then have "total_refs n ?s = total_refs n s"
    using total_own [OF assms(3), of "holds s u + 1" "own t (holds s t - 1) s"] assms(4) by simp
  then have "rc_phase n ?s = rc_phase n s" by (simp add: rc_phase_def)
  then show ?thesis using assms by (auto simp: rc_ok_def counting_def)
qed

lemma read_value_ok:
  "rc_ok n s \<Longrightarrow> read_value (rc_pc s t) = Some old \<Longrightarrow>
   0 < refcount old \<and> (refcount old = 65535 \<longrightarrow> refcount (rc_flags s) = 65535)"
  by (simp add: rc_ok_def)

lemma rc_ok_step [step_inv]: "rc_step n s s' \<Longrightarrow> rc_ok n s \<Longrightarrow> rc_ok n s'"
proof (induction rule: rc_step.induct)
  case (incr_latched t s old)
  then have "refcount (rc_flags s) = 65535"
    using read_value_ok [of n s t old] by (simp add: read_value_def latched_iff)
  then show ?case using end_latched [of n s t] incr_latched by (simp add: counting_def)
next
  case (decr_latched t s old)
  then have "refcount (rc_flags s) = 65535"
    using read_value_ok [of n s t old] by (simp add: read_value_def latched_iff)
  then show ?case using end_latched [of n s t] decr_latched by (simp add: counting_def)
next
  case (incr_cas t s old)
  then show ?case using end_incr [of n s t] by (simp add: counting_def)
next
  case (decr_cas t s old)
  then show ?case using end_decr [of n s t] by (simp add: counting_def)
next
  case (decr_zero t s old)
  then have "0 < refcount old" using read_value_ok [of n s t old] by (simp add: read_value_def)
  with decr_zero show ?case by (simp add: refcount_zero_iff)
next
  case (dispose t s)
  then show ?case using rc_ok_dispose by blast
next
  case (give t u s)
  then show ?case using rc_ok_give by blast
next
  case (incr_read t s)
  then show ?case by (intro read_ok) (auto simp: counting_def)
next
  case (decr_read t s)
  then show ?case by (intro read_ok) (auto simp: counting_def)
qed (auto intro!: rc_ok_at simp: counting_def read_value_def rc_ok_def)

lemma rc_ok_start: "has w BLOCK_NEEDS_FREE \<Longrightarrow> 0 < refcount w \<Longrightarrow> refcount w < 65535 \<Longrightarrow> 0 < n \<Longrightarrow> rc_ok n (rc_start w)"
  by (simp add: rc_ok_def rc_start_def rc_phase_def total_refs_def counting_def read_value_def sum.delta)

end
