(* ===== verification/Blocks_Claims.thy ===== *)
theory Blocks_Claims
  imports Blocks_Props Blocks_Threads
begin

text \<open>
  The properties of the Blocks runtime (\<^verbatim>\<open>src/src/darwin-compat/blocks/runtime.c\<close>).
\<close>

section \<open>The life of a block\<close>

text \<open>How many variables of a block capture the cell \<open>x\<close>.\<close>

definition captures_of :: "(nat \<Rightarrow> cell option) \<Rightarrow> Block_layout \<Rightarrow> nat \<Rightarrow> nat" where
  "captures_of cs b x =
     (if has (bl_flags b) BLOCK_HAS_COPY_DISPOSE
      then length (filter (\<lambda>(i, fl). target cs (bl_vars b ! i) fl = Some x) (bl_helper b)) else 0)"

lemma bumps_count:
  "bumps cs vs hs f x = f x + length (filter (\<lambda>(i, fl). target cs (vs ! i) fl = Some x) hs)"
  by (induction hs arbitrary: f) (auto simp: bump_def split: option.splits)

lemma taken_captures: "taken cs b = captures_of cs b"
  by (rule ext) (simp add: taken_def captures_of_def bumps_count)


text \<open>A block on the stack at 1 that captures an object, the block at 2, and the variable at 3.\<close>

definition demo_descriptor :: Block_descriptor where
  "demo_descriptor = \<lparr>bd_address = 0x1000, bd_reserved = 0, bd_size = 56, bd_copy = 0x2000, bd_dispose = 0x3000\<rparr>"

definition demo_block :: Block_layout where
  "demo_block = \<lparr>bl_isa = NSConcreteStackBlock, bl_flags = BLOCK_HAS_COPY_DISPOSE, bl_invoke = 0x4000,
     bl_descriptor = demo_descriptor,
     bl_helper = [(0, BLOCK_FIELD_IS_OBJECT), (1, BLOCK_FIELD_IS_BLOCK), (2, BLOCK_FIELD_IS_BYREF)],
     bl_vars = [77, 2, 3]\<rparr>"

definition demo_memory :: memory where
  "demo_memory =
     \<lparr>cells = [1 \<mapsto> Block demo_block,
        2 \<mapsto> Block \<lparr>bl_isa = NSConcreteMallocBlock, bl_flags = BLOCK_NEEDS_FREE OR 1, bl_invoke = 0x4000,
             bl_descriptor = demo_descriptor, bl_helper = [], bl_vars = []\<rparr>,
        3 \<mapsto> Byref \<lparr>by_isa = OtherIsa 0, by_forwarding = 3, by_flags = BLOCK_NEEDS_FREE OR 2, by_size = 32, by_keep = 0,
             by_destroy = 0, by_helper = [], by_vars = [5]\<rparr>],
      next_addr = 4, room = 10, calls = [], use_rr = True, gc = None\<rparr>"


section \<open>Variables shared by blocks\<close>

text \<open>A \<^verbatim>\<open>__block\<close> variable moves to the heap with the first block that captures it, and has a reference
  from the frame that declared it and one from the block.  Once the block is released and the frame has
  disposed of its own, it is freed, and nothing is left but the forwarding pointer in the frame.\<close>

lemma demo_byref_lifetime:
  "let m = \<lparr>cells = [1 \<mapsto> Block (demo_block\<lparr>bl_helper := [(0, BLOCK_FIELD_IS_BYREF)], bl_vars := [2]\<rparr>),
        2 \<mapsto> Byref \<lparr>by_isa = OtherIsa 0, by_forwarding = 2, by_flags = 0, by_size = 32, by_keep = 0,
             by_destroy = 0, by_helper = [], by_vars = [5]\<rparr>],
        next_addr = 3, room = k, calls = [], use_rr = False, gc = None\<rparr>
   in (k = 2 \<longrightarrow>
        map_option (\<lambda>m'. (cells m' 2, cells m' 3, cells m' 4))
          (Option.bind (Block_copy (Suc (Suc n)) m 1) (\<lambda>(r, m1). Option.bind (Block_release (Suc (Suc n)) m1 r) (\<lambda>m2.
             Block_object_dispose (Suc (Suc n)) m2 2 BLOCK_FIELD_IS_BYREF))) =
        Some (Some (Byref \<lparr>by_isa = OtherIsa 0, by_forwarding = 4, by_flags = 0, by_size = 32, by_keep = 0,
          by_destroy = 0, by_helper = [], by_vars = [5]\<rparr>), None, None)) \<and>
      (k = 1 \<longrightarrow> Block_copy (Suc (Suc n)) m 1 = None) \<and> (k = 0 \<longrightarrow> Block_copy (Suc (Suc n)) m 1 = Some (0, m))"
  by (simp add: Let_def Block_copy_def Block_copy_internal_def block_at_def byref_at_def malloc_def
      put_def dealloc_def read_var_def assign_default_def Block_byref_assign_copy_def Block_release_def
      Block_release_with_def Block_byref_release_def latching_decr_int_def demo_block_def has_def block_flags
      field_flags no_gc memmove_default_def)

section \<open>Threads\<close>

text \<open>C40: A block that threads share is freed once, and never under somebody's hands. However threads
  interleave that copy and release it while they have a reference and hand references to each other,
  it is freed at most once; when it is, or is about to be, nobody has a reference or is in the middle of
  counting; and when nobody is left it has been freed, unless the count has latched.\<close>

theorem block_freed_once:
  assumes "has w BLOCK_NEEDS_FREE" "0 < refcount w" "refcount w < 65535" "0 < n"
    and "(rc_step n)\<^sup>*\<^sup>* (rc_start w) s"
  shows "frees s \<le> 1 \<and>
     (frees s = 1 \<or> (\<exists>t. rc_pc s t = Dispose) \<longrightarrow> (\<forall>t < n. holds s t = 0 \<and> \<not> counting (rc_pc s t))) \<and>
     ((\<forall>t < n. holds s t = 0 \<and> rc_pc s t = Idle) \<longrightarrow> frees s = 1 \<or> refcount (rc_flags s) = 65535)"
proof -
  have ok: "rc_ok n s"
    using assms(5) by (induction rule: rtranclp_induct) (auto intro: rc_ok_start [OF assms(1-4)] rc_ok_step)
  then have ph: "rc_phase n s" by (simp add: rc_ok_def)
  have z: "holds s t = 0 \<and> \<not> counting (rc_pc s t)" if "total_refs n s = 0" "t < n" for t
    using that holds_le_total [of t n s] ok by (auto simp: rc_ok_def)
  have n: "total_refs n s = 0" if "\<forall>t < n. holds s t = 0" using that by (simp add: total_refs_def)
  have d: "rc_pc s t = Dispose \<Longrightarrow> t < n" for t using ok by (auto simp: rc_ok_def)
  have "frees s = 1 \<or> refcount (rc_flags s) = 65535" if i: "\<forall>t < n. holds s t = 0 \<and> rc_pc s t = Idle"
  proof -
    have "rc_pc s t \<noteq> Dispose" for t using i d [of t] by auto
    then show ?thesis using ph n i by (auto simp: rc_phase_def Let_def)
  qed
  moreover have "frees s \<le> 1" using ph by (auto simp: rc_phase_def Let_def)
  moreover have "total_refs n s = 0" if "frees s = 1 \<or> (\<exists>t. rc_pc s t = Dispose)"
    using ph that by (auto simp: rc_phase_def Let_def)
  ultimately show ?thesis using z by blast
qed

text \<open>One thread copies, hands the copy to another, and both release.\<close>

definition demo_rc :: "u32 \<Rightarrow> nat \<times> rc_pc \<Rightarrow> nat \<times> rc_pc \<Rightarrow> nat \<Rightarrow> rc_state" where
  "demo_rc w a b k =
     \<lparr>rc_flags = w, holds = (\<lambda>t. if t = 0 then fst a else if t = 1 then fst b else 0),
      rc_pc = (\<lambda>t. if t = 0 then snd a else if t = 1 then snd b else Idle), frees = k\<rparr>"

lemma demo_rc_simps:
  "rc_flags (demo_rc w a b k) = w" "holds (demo_rc w a b k) 0 = fst a" "holds (demo_rc w a b k) 1 = fst b"
  "rc_pc (demo_rc w a b k) 0 = snd a" "rc_pc (demo_rc w a b k) 1 = snd b" "frees (demo_rc w a b k) = k"
  "pc_to 0 p (demo_rc w a b k) = demo_rc w (fst a, p) b k" "pc_to 1 p (demo_rc w a b k) = demo_rc w a (fst b, p) k"
  "own 0 i (demo_rc w a b k) = demo_rc w (i, snd a) b k" "own 1 i (demo_rc w a b k) = demo_rc w a (i, snd b) k"
  "(demo_rc w a b k)\<lparr>rc_flags := v\<rparr> = demo_rc v a b k" "(demo_rc w a b k)\<lparr>frees := j\<rparr> = demo_rc w a b j"
  by (auto simp: demo_rc_def pc_to_def own_def fun_eq_iff)

lemma demo_rc_run: "(rc_step 2)\<^sup>*\<^sup>* (rc_start 0x1000001) (demo_rc 0x1000000 (0, Idle) (0, Idle) 1)"
proof -
  let ?w = "0x1000001 :: u32" and ?v = "0x1000002 :: u32"
  note mask = BLOCK_REFCOUNT_MASK_def demo_rc_simps [simplified]
  have "rc_start ?w = demo_rc ?w (1, Idle) (0, Idle) 0"
    by (auto simp: rc_start_def demo_rc_def refcount_def BLOCK_REFCOUNT_MASK_def fun_eq_iff)
  moreover have "rc_step 2 (demo_rc ?w (1, Idle) (0, Idle) 0) (demo_rc ?w (1, WantIncr) (0, Idle) 0)"
    using copy [of 0 2 "demo_rc ?w (1, Idle) (0, Idle) 0"] by (simp add: mask)
  moreover have "rc_step 2 (demo_rc ?w (1, WantIncr) (0, Idle) 0) (demo_rc ?w (1, Incr ?w) (0, Idle) 0)"
    using incr_read [of 0 2 "demo_rc ?w (1, WantIncr) (0, Idle) 0"] by (simp add: mask)
  moreover have "rc_step 2 (demo_rc ?w (1, Incr ?w) (0, Idle) 0) (demo_rc ?v (Suc (Suc 0), Idle) (0, Idle) 0)"
    using incr_cas [of 0 2 "demo_rc ?w (1, Incr ?w) (0, Idle) 0" ?w] by (simp add: mask)
  moreover have "rc_step 2 (demo_rc ?v (Suc (Suc 0), Idle) (0, Idle) 0) (demo_rc ?v (1, Idle) (1, Idle) 0)"
    using give [of 0 2 1 "demo_rc ?v (Suc (Suc 0), Idle) (0, Idle) 0"] by (simp add: mask)
  moreover have "rc_step 2 (demo_rc ?v (1, Idle) (1, Idle) 0) (demo_rc ?v (1, Idle) (1, WantDecr) 0)"
    using release [of 1 2 "demo_rc ?v (1, Idle) (1, Idle) 0"] by (simp add: mask)
  moreover have "rc_step 2 (demo_rc ?v (1, Idle) (1, WantDecr) 0) (demo_rc ?v (1, Idle) (1, Decr ?v) 0)"
    using decr_read [of 1 2 "demo_rc ?v (1, Idle) (1, WantDecr) 0"] by (simp add: mask)
  moreover have "rc_step 2 (demo_rc ?v (1, Idle) (1, Decr ?v) 0) (demo_rc ?w (1, Idle) (0, Idle) 0)"
    using decr_cas [of 1 2 "demo_rc ?v (1, Idle) (1, Decr ?v) 0" ?v] by (simp add: mask)
  moreover have "rc_step 2 (demo_rc ?w (1, Idle) (0, Idle) 0) (demo_rc ?w (1, WantDecr) (0, Idle) 0)"
    using release [of 0 2 "demo_rc ?w (1, Idle) (0, Idle) 0"] by (simp add: mask)
  moreover have "rc_step 2 (demo_rc ?w (1, WantDecr) (0, Idle) 0) (demo_rc ?w (1, Decr ?w) (0, Idle) 0)"
    using decr_read [of 0 2 "demo_rc ?w (1, WantDecr) (0, Idle) 0"] by (simp add: mask)
  moreover have "rc_step 2 (demo_rc ?w (1, Decr ?w) (0, Idle) 0) (demo_rc 0x1000000 (0, Dispose) (0, Idle) 0)"
    using decr_cas [of 0 2 "demo_rc ?w (1, Decr ?w) (0, Idle) 0" ?w] by (simp add: mask)
  moreover have "rc_step 2 (demo_rc 0x1000000 (0, Dispose) (0, Idle) 0) (demo_rc 0x1000000 (0, Idle) (0, Idle) 1)"
    using dispose [of 0 2 "demo_rc 0x1000000 (0, Dispose) (0, Idle) 0"] by (simp add: mask has_def BLOCK_NEEDS_FREE_def)
  ultimately show ?thesis by (simp only:)
qed

theorem block_freed_once_witness:
  "frees (demo_rc 0x1000000 (0, Idle) (0, Idle) 1) = 1 \<and> holds (demo_rc 0x1000000 (0, Idle) (0, Idle) 1) 0 = 0 \<and>
     holds (demo_rc 0x1000000 (0, Idle) (0, Idle) 1) 1 = 0"
proof -
  have "has 0x1000001 BLOCK_NEEDS_FREE" "0 < refcount 0x1000001" "refcount 0x1000001 < 65535"
    by (simp_all add: has_def BLOCK_NEEDS_FREE_def refcount_def BLOCK_REFCOUNT_MASK_def)
  from block_freed_once [OF this _ demo_rc_run] show ?thesis by (simp add: demo_rc_simps)
qed

end
