(* ===== verification/Blocks_Collector.thy ===== *)
theory Blocks_Collector
  imports Blocks_Props
begin

text \<open>
  The Blocks runtime with a collector (\<^verbatim>\<open>_Block_use_GC\<close> of \<^verbatim>\<open>src/src/darwin-compat/blocks/runtime.c\<close>): the
  runtime frees nothing, a copy takes no references to what it captures, and the collector knows of each
  block whether somebody counts references to it.
\<close>

section \<open>Collectors\<close>

text \<open>What the runtime relies on: memory that is not in use, assignments that assign, and no other changes.\<close>

definition collector_ok :: "heap gc_callouts \<Rightarrow> bool" where
  "collector_ok g =
     ((\<forall>h sz one object r h'. gc_alloc g h sz one object = (r, h') \<longrightarrow>
         (r = 0 \<or> cells h r = None) \<and> cells h' = cells h \<and> calls h' = calls h) \<and>
      (\<forall>h a b. cells (gc_setHasRefcount g h a b) = cells h \<and> calls (gc_setHasRefcount g h a b) = calls h) \<and>
      (\<forall>h d x h1. assign_default h d x = Some h1 \<longrightarrow>
         (\<exists>h'. gc_assign g h d x = Some h' \<and> cells h' = cells h1 \<and> calls h' = calls h)))"

text \<open>Such as one that never collects.\<close>

definition plain_collector :: "heap gc_callouts" where
  "plain_collector =
     \<lparr>gc_alloc = (\<lambda>h sz one object.
        case malloc h of
          None \<Rightarrow> (0, h)
        | Some (r, h') \<Rightarrow> if cells h r = None then (r, h') else (0, h)),
      gc_setHasRefcount = (\<lambda>h a b. h), gc_assign = assign_default, gc_assign_weak = assign_default,
      gc_memmove = memmove_gc_broken\<rparr>"

lemma plain_collector_ok: "collector_ok plain_collector"
  by (auto simp: collector_ok_def plain_collector_def malloc_def assign_default_def put_def
      split: option.splits if_splits)

text \<open>What the collector was last told of the block \<open>a\<close>: whether references to it are counted.\<close>

definition told :: "nat \<Rightarrow> bool \<Rightarrow> obj_call list \<Rightarrow> bool" where
  "told a t cs =
     foldl (\<lambda>t c. case c of
         Allocated r one \<Rightarrow> if r = a then one else t
       | HasRefcount r b \<Rightarrow> if r = a then b else t
       | _ \<Rightarrow> t) t cs"

lemma told_append [simp]:
  "told a t (cs @ [Allocated r one]) = (if r = a then one else told a t cs)"
  "told a t (cs @ [HasRefcount r b]) = (if r = a then b else told a t cs)"
  "told a t (cs @ [Retain p]) = told a t cs" "told a t (cs @ [Release p]) = told a t cs"
  by (simp_all add: told_def)

lemma with_heap_simps [simp]:
  "cells (with_heap m h) = cells h" "calls (with_heap m h) = calls h"
  "cells (heap.truncate m) = cells m" "calls (heap.truncate m) = calls m"
  "cells (log_call c h) = cells h" "calls (log_call c h) = calls h @ [c]"
  by (simp_all add: with_heap_def heap.defs memory.defs log_call_def)

lemma setHasRefcount_gc:
  assumes "gc m = Some g" "collector_ok g"
  shows "cells (Block_setHasRefcount m a b) = cells m" "gc (Block_setHasRefcount m a b) = Some g"
    "calls (Block_setHasRefcount m a b) = calls m @ [HasRefcount a b]"
  using assms by (simp_all add: Block_setHasRefcount_def collector_ok_def)

section \<open>Counting\<close>

datatype gc_op = Copy_one | Copy_collectable | Release_one

fun gc_run :: "nat \<Rightarrow> memory \<Rightarrow> nat \<Rightarrow> gc_op list \<Rightarrow> memory option" where
  "gc_run n m a [] = Some m"
| "gc_run n m a (Copy_one # ops) = Option.bind (Block_copy n m a) (\<lambda>(p, m'). gc_run n m' a ops)"
| "gc_run n m a (Copy_collectable # ops) =
     Option.bind (Block_copy_collectable n m a) (\<lambda>(p, m'). gc_run n m' a ops)"
| "gc_run n m a (Release_one # ops) = Option.bind (Block_release n m a) (\<lambda>m'. gc_run n m' a ops)"

fun gc_count :: "nat \<Rightarrow> gc_op list \<Rightarrow> nat" where
  "gc_count c [] = c"
| "gc_count c (Copy_one # ops) = gc_count (c + 1) ops"
| "gc_count c (Copy_collectable # ops) = gc_count c ops"
| "gc_count c (Release_one # ops) = gc_count (c - 1) ops"

text \<open>A block of the collector with \<open>c\<close> references, of which the collector knows.\<close>

definition gc_block :: "heap gc_callouts \<Rightarrow> bool \<Rightarrow> nat \<Rightarrow> (nat \<Rightarrow> cell option) \<Rightarrow> Block_layout \<Rightarrow> nat \<Rightarrow> memory \<Rightarrow> bool" where
  "gc_block g t a cs b c m =
     (gc m = Some g \<and> a \<noteq> 0 \<and> told a t (calls m) = (0 < c) \<and>
      (\<exists>w. cells m = cs(a \<mapsto> Block (b\<lparr>bl_flags := w\<rparr>)) \<and> refcount w = c \<and> has w BLOCK_IS_GC \<and>
        \<not> has w BLOCK_NEEDS_FREE))"

lemma gc_blockI:
  assumes "gc m = Some g" "a \<noteq> 0" "told a t (calls m) = (0 < c)" "cells m = cs(a \<mapsto> Block b)"
    and "refcount (bl_flags b) = c" "has (bl_flags b) BLOCK_IS_GC" "\<not> has (bl_flags b) BLOCK_NEEDS_FREE"
  shows "gc_block g t a cs b c m"
  using assms by (auto simp: gc_block_def intro!: exI [of _ "bl_flags b"])

lemma latching_incr_count:
  assumes "refcount w < 65535" "has w BLOCK_IS_GC" "\<not> has w BLOCK_NEEDS_FREE"
  obtains v where "latching_incr_int w = (v, v)" "refcount v = refcount w + 1"
    "has v BLOCK_IS_GC" "\<not> has v BLOCK_NEEDS_FREE" "v AND BLOCK_REFCOUNT_MASK = 1 \<longleftrightarrow> refcount w = 0"
proof
  show "latching_incr_int w = (w + 1, w + 1)" using latching_incr_add [of w 0] assms by simp
  show r: "refcount (w + 1) = refcount w + 1" using refcount_add [of w 1] assms by simp
  show "has (w + 1) BLOCK_IS_GC" "\<not> has (w + 1) BLOCK_NEEDS_FREE" using has_add [of w 1] assms by simp_all
  have "w + 1 AND BLOCK_REFCOUNT_MASK = 1 \<longleftrightarrow> refcount (w + 1) = 1"
    by (simp add: refcount_def word_unat_eq_iff)
  then show "w + 1 AND BLOCK_REFCOUNT_MASK = 1 \<longleftrightarrow> refcount w = 0" by (simp add: r)
qed

lemma latching_decr_count:
  assumes "refcount w < 65535" "has w BLOCK_IS_GC" "\<not> has w BLOCK_NEEDS_FREE"
  obtains u v where "latching_decr_int w = (u, v)" "refcount v = refcount w - 1"
    "has v BLOCK_IS_GC" "\<not> has v BLOCK_NEEDS_FREE" "u AND BLOCK_REFCOUNT_MASK = 0 \<longleftrightarrow> refcount w \<le> 1"
proof (cases "refcount w = 0")
  case True
  then have "latching_decr_int w = (0, w)" unfolding latching_decr_int_def latched_iff refcount_zero_iff by simp
  then show thesis using that [of 0 w] True assms by simp
next
  case False
  have w: "unat w = Suc (unat (w - 1))"
    using False unat_eq_zero [of w] by (auto simp: refcount_mod unat_minus_one)
  have c: "refcount (w - 1) = refcount w - 1"
    using False unfolding refcount_mod w by (auto simp: mod_Suc split: if_splits)
  have "has (w - 1) BLOCK_IS_GC" "\<not> has (w - 1) BLOCK_NEEDS_FREE"
    using has_add [of "w - 1" 1] c assms by simp_all
  moreover have "latching_decr_int w = (w - 1, w - 1)"
    unfolding latching_decr_int_def latched_iff refcount_zero_iff using assms False by simp
  moreover have "w - 1 AND BLOCK_REFCOUNT_MASK = 0 \<longleftrightarrow> refcount w \<le> 1"
    unfolding refcount_zero_iff c using False by auto
  ultimately show thesis using that c by blast
qed

lemma block_at_upd [simp]: "cells m = cs(a \<mapsto> Block b) \<Longrightarrow> block_at m a = Some b"
  by (simp add: block_at_def)

lemma copy_gc_block:
  assumes "gc_block g t a cs b c m" "collector_ok g" "c < 65535"
  shows "\<exists>m'. Block_copy n m a = Some (a, m') \<and> gc_block g t a cs b (c + 1) m'"
proof -
  obtain w where m: "gc m = Some g" "a \<noteq> 0" "told a t (calls m) = (0 < c)" "cells m = cs(a \<mapsto> Block (b\<lparr>bl_flags := w\<rparr>))"
    and w: "refcount w = c" "has w BLOCK_IS_GC" "\<not> has w BLOCK_NEEDS_FREE"
    using assms(1) by (auto simp: gc_block_def)
  obtain v where v: "latching_incr_int w = (v, v)" "refcount v = refcount w + 1" "has v BLOCK_IS_GC"
      "\<not> has v BLOCK_NEEDS_FREE" "v AND BLOCK_REFCOUNT_MASK = 1 \<longleftrightarrow> refcount w = 0"
    using latching_incr_count w assms(3) by blast
  let ?m = "put m a (Block (b\<lparr>bl_flags := v\<rparr>))"
  let ?n = "if c = 0 then Block_setHasRefcount ?m a True else ?m"
  have "Block_copy n m a = Some (a, ?n)"
    using m(2) block_at_upd [OF m(4)] w v by (simp add: Block_copy_def Block_copy_internal_def Let_def WANTS_ONE_def)
  moreover have "gc ?m = Some g" using m by simp
  then have "gc_block g t a cs b (c + 1) ?n"
    using m v w assms(2) setHasRefcount_gc [of ?m g a True] by (auto simp: gc_block_def put_def)
  ultimately show ?thesis by blast
qed

lemma collectable_gc_block:
  "gc_block g t a cs b c m \<Longrightarrow> Block_copy_collectable n m a = Some (a, m)"
  by (auto simp: gc_block_def Block_copy_collectable_def Block_copy_internal_def Let_def WANTS_ONE_def)

lemma release_gc_block:
  assumes "gc_block g t a cs b c m" "collector_ok g" "c < 65535"
  shows "\<exists>m'. Block_release n m a = Some m' \<and> gc_block g t a cs b (c - 1) m'"
proof -
  obtain w where m: "gc m = Some g" "a \<noteq> 0" "told a t (calls m) = (0 < c)" "cells m = cs(a \<mapsto> Block (b\<lparr>bl_flags := w\<rparr>))"
    and w: "refcount w = c" "has w BLOCK_IS_GC" "\<not> has w BLOCK_NEEDS_FREE"
    using assms(1) by (auto simp: gc_block_def)
  obtain u v where v: "latching_decr_int w = (u, v)" "refcount v = refcount w - 1" "has v BLOCK_IS_GC"
      "\<not> has v BLOCK_NEEDS_FREE" "u AND BLOCK_REFCOUNT_MASK = 0 \<longleftrightarrow> refcount w \<le> 1"
    using latching_decr_count w assms(3) by blast
  let ?m = "put m a (Block (b\<lparr>bl_flags := v\<rparr>))"
  let ?n = "if c \<le> 1 then Block_setHasRefcount ?m a False else ?m"
  have "Block_release n m a = Some ?n"
    using m(2) block_at_upd [OF m(4)] w v by (simp add: Block_release_def Block_release_with_def Let_def)
  moreover have "gc ?m = Some g" using m by simp
  then have "gc_block g t a cs b (c - 1) ?n"
    using m v w assms(2) setHasRefcount_gc [of ?m g a False] by (auto simp: gc_block_def put_def)
  ultimately show ?thesis by blast
qed

text \<open>However a block of the collector is copied and released, it stays and nothing else changes; its count
  is exact, with a release too many ignored; and the collector knows whether it is positive.\<close>

theorem collector_told:
  assumes "collector_ok g" "gc_block g t a cs b c m" "c + length (filter (\<lambda>p. p = Copy_one) ops) < 65535"
  shows "\<exists>m'. gc_run n m a ops = Some m' \<and> gc_block g t a cs b (gc_count c ops) m'"
  using assms(2,3)
proof (induction n m a ops arbitrary: c rule: gc_run.induct)
  case (2 n m a ops)
  obtain m' where "Block_copy n m a = Some (a, m')" "gc_block g t a cs b (c + 1) m'"
    using copy_gc_block [OF 2(2) assms(1)] 2(3) by auto
  then show ?case using 2 by simp
next
  case (3 n m a ops)
  then show ?case using collectable_gc_block [OF 3(2)] by simp
next
  case (4 n m a ops)
  obtain m' where "Block_release n m a = Some m'" "gc_block g t a cs b (c - 1) m'"
    using release_gc_block [OF 4(2) assms(1)] 4(3) by auto
  then show ?case using 4 by simp
qed auto

section \<open>Copying from the stack\<close>

text \<open>What a block may capture under a collector: an object; nothing, a global block or one of the collector;
  a \<^verbatim>\<open>__block\<close> variable that the collector has.\<close>

definition gc_capture_ok :: "(nat \<Rightarrow> cell option) \<Rightarrow> nat \<Rightarrow> u32 \<Rightarrow> bool" where
  "gc_capture_ok cs x fl =
     (if fl = BLOCK_FIELD_IS_OBJECT then True
      else if fl = BLOCK_FIELD_IS_BLOCK then
        x = 0 \<or>
        (case cs x of
           Some (Block b) \<Rightarrow>
             \<not> has (bl_flags b) BLOCK_NEEDS_FREE \<and> (has (bl_flags b) BLOCK_IS_GC \<or> has (bl_flags b) BLOCK_IS_GLOBAL)
         | _ \<Rightarrow> False)
      else if fl \<in> {BLOCK_FIELD_IS_BYREF, BLOCK_FIELD_IS_BYREF OR BLOCK_FIELD_IS_WEAK} then
        (case cs x of
           Some (Byref v) \<Rightarrow>
             (case cs (by_forwarding v) of Some (Byref u) \<Rightarrow> has (by_flags u) BLOCK_IS_GC | _ \<Rightarrow> False)
         | _ \<Rightarrow> False)
      else False)"

lemma gc_capture_cases:
  assumes "gc_capture_ok cs x fl"
  obtains (object) "fl = BLOCK_FIELD_IS_OBJECT" "stored cs x fl = x"
  | (null) "fl = BLOCK_FIELD_IS_BLOCK" "x = 0" "stored cs x fl = x"
  | (block) b where "fl = BLOCK_FIELD_IS_BLOCK" "x \<noteq> 0" "cs x = Some (Block b)"
      "\<not> has (bl_flags b) BLOCK_NEEDS_FREE" "has (bl_flags b) BLOCK_IS_GC \<or> has (bl_flags b) BLOCK_IS_GLOBAL"
      "stored cs x fl = x"
  | (byref) v u where "fl = BLOCK_FIELD_IS_BYREF \<or> fl = BLOCK_FIELD_IS_BYREF OR BLOCK_FIELD_IS_WEAK"
      "cs x = Some (Byref v)" "cs (by_forwarding v) = Some (Byref u)" "has (by_flags u) BLOCK_IS_GC"
      "stored cs x fl = by_forwarding v"
proof -
  consider (o) "fl = BLOCK_FIELD_IS_OBJECT" | (b) "fl = BLOCK_FIELD_IS_BLOCK"
    | (v) "fl = BLOCK_FIELD_IS_BYREF \<or> fl = BLOCK_FIELD_IS_BYREF OR BLOCK_FIELD_IS_WEAK"
    using assms by (auto simp: gc_capture_ok_def split: if_splits)
  then show thesis
  proof cases
    case o
    then show thesis by (intro object) (simp_all add: stored_def)
  next
    case b
    then show thesis using assms null block
      by (auto simp: gc_capture_ok_def stored_def field_flags split: option.splits cell.splits)
  next
    case v
    then have n: "fl \<noteq> BLOCK_FIELD_IS_OBJECT" "fl \<noteq> BLOCK_FIELD_IS_BLOCK" by (auto simp: field_flags)
    then obtain w where w: "cs x = Some (Byref w)"
      using assms v by (auto simp: gc_capture_ok_def split: option.splits cell.splits)
    then have c: "case cs (by_forwarding w) of Some (Byref u) \<Rightarrow> has (by_flags u) BLOCK_IS_GC | _ \<Rightarrow> False"
      using assms v n by (auto simp: gc_capture_ok_def)
    then obtain u where "cs (by_forwarding w) = Some (Byref u)" by (auto split: option.splits cell.splits)
    with c v n w show thesis by (intro byref [of w u]) (auto simp: stored_def)
  qed
qed

lemma assign_gc:
  assumes "gc M = Some g" "collector_ok g" "cells M r = Some (Block b)" "i < length (bl_vars b)"
  shows "\<exists>M'. Block_assign M (r, i) x = Some M' \<and> gc M' = Some g \<and> calls M' = calls M \<and>
     cells M' = (cells M)(r \<mapsto> Block (b\<lparr>bl_vars := (bl_vars b)[i := x]\<rparr>))"
proof -
  let ?h = "heap.truncate M"
  have "assign_default ?h (r, i) x = Some (put ?h r (Block (b\<lparr>bl_vars := (bl_vars b)[i := x]\<rparr>)))"
    using assms by (simp add: assign_default_def)
  then obtain h' where h: "gc_assign g ?h (r, i) x = Some h'" "calls h' = calls ?h"
      "cells h' = cells (put ?h r (Block (b\<lparr>bl_vars := (bl_vars b)[i := x]\<rparr>)))"
    using assms(2) unfolding collector_ok_def by meson
  then show ?thesis using assms(1) by (simp add: Block_assign_def put_def)
qed

text \<open>One call of \<^verbatim>\<open>_Block_object_assign\<close> counts nothing.\<close>

lemma gc_assign_capture:
  assumes ok: "gc_capture_ok cs x fl" and M: "cells M = cs(r \<mapsto> Block b)" and r: "cs r = None"
    and i: "i < length (bl_vars b)" and g: "gc M = Some g" "collector_ok g"
  shows "\<exists>M'. Block_object_assign (Suc n) M (r, i) x fl = Some M' \<and> gc M' = Some g \<and>
     told a t (calls M') = told a t (calls M) \<and>
     cells M' = cs(r \<mapsto> Block (b\<lparr>bl_vars := (bl_vars b)[i := stored cs x fl]\<rparr>))"
proof -
  have set: "\<exists>M'. Block_assign N (r, i) y = Some M' \<and> gc M' = Some g \<and> calls M' = calls N \<and>
      cells M' = cs(r \<mapsto> Block (b\<lparr>bl_vars := (bl_vars b)[i := y]\<rparr>))"
    if "gc N = Some g" "cells N = cells M" for N y
    using assign_gc [OF that(1) g(2), of r b i y] that(2) M i by auto
  from ok show ?thesis
  proof (cases rule: gc_capture_cases)
    case object
    have "gc (retain_object M x) = Some g" "cells (retain_object M x) = cells M"
        "told a t (calls (retain_object M x)) = told a t (calls M)"
      using g by (simp_all add: retain_object_def)
    then show ?thesis using set [of "retain_object M x" x] object by (auto simp: field_tests)
  next
    case null
    then show ?thesis using set [of M x] g by (auto simp: field_tests Block_copy_internal_def)
  next
    case (block bl)
    then have "x \<noteq> r" using r by auto
    then have "block_at M x = Some bl" using block M by (simp add: block_at_def)
    then have "Block_copy_internal (Block_object_assign n) M x fl = Some (x, M)"
      using block by (auto simp: Block_copy_internal_def WANTS_ONE_def field_flags)
    then show ?thesis using set [of M x] g block by (auto simp: field_tests)
  next
    case (byref v u)
    then have "by_forwarding v \<noteq> r" "x \<noteq> r" using r by auto
    then have "byref_at M x = Some v" "byref_at M (by_forwarding v) = Some u"
      using byref M by (simp_all add: byref_at_def)
    then have "Block_byref_assign_copy (Block_object_assign n) M (r, i) x fl = Block_assign M (r, i) (by_forwarding v)"
      using byref(4) by (simp add: Block_byref_assign_copy_def)
    then have "Block_object_assign (Suc n) M (r, i) x fl = Block_assign M (r, i) (by_forwarding v)"
      using byref(1) by (auto simp: field_tests)
    then show ?thesis using set [of M "by_forwarding v"] g byref(5) by (auto simp del: Block_object_assign.simps)
  qed
qed

lemma gc_copy_helper:
  assumes "list_all (\<lambda>(i, fl). i < length vs \<and> gc_capture_ok cs (vs ! i) fl) hs"
    and "cells M = cs(r \<mapsto> Block b)" "length (bl_vars b) = length vs" "gc M = Some g"
    and "cs r = None" "cs a = Some (Block b0)" "bl_vars b0 = vs" "collector_ok g"
  shows "\<exists>M'. copy_helper (Block_object_assign (Suc n)) hs M r a = Some M' \<and> gc M' = Some g \<and>
     told q t (calls M') = told q t (calls M) \<and>
     cells M' = cs(r \<mapsto> Block (b\<lparr>bl_vars := storeds cs vs hs (bl_vars b)\<rparr>))"
  using assms(1-4)
proof (induction hs arbitrary: M b)
  case (Cons h hs)
  obtain i fl where h: "h = (i, fl)" by fastforce
  have "a \<noteq> r" using assms(5,6) by auto
  then have rd: "read_var M a i = Some (vs ! i)"
    using Cons.prems(1,2) assms(6,7) by (simp add: read_var_def h)
  obtain M1 where M1: "Block_object_assign (Suc n) M (r, i) (vs ! i) fl = Some M1" "gc M1 = Some g"
      "told q t (calls M1) = told q t (calls M)"
      "cells M1 = cs(r \<mapsto> Block (b\<lparr>bl_vars := (bl_vars b)[i := stored cs (vs ! i) fl]\<rparr>))"
    using gc_assign_capture [OF _ Cons.prems(2) assms(5) _ Cons.prems(4) assms(8), of "vs ! i" fl i n q t] Cons.prems(1,3)
    by (auto simp: h simp del: Block_object_assign.simps)
  show ?case
    using Cons.IH [OF _ M1(4) _ M1(2)] Cons.prems(1,3) rd M1(1,3)
    by (auto simp: h simp del: Block_object_assign.simps)
qed simp

text \<open>A copy of a block on the stack, if there is memory for it, is a block of the collector with one
  reference, of which the collector knows; nothing that it captures is counted, and nothing else changes.\<close>

theorem collector_copy:
  assumes "gc m = Some g" "collector_ok g" "a \<noteq> 0" "block_at m a = Some b"
    and "\<not> has (bl_flags b) BLOCK_NEEDS_FREE" "\<not> has (bl_flags b) BLOCK_IS_GC" "\<not> has (bl_flags b) BLOCK_IS_GLOBAL"
    and "list_all (\<lambda>(i, fl). i < length (bl_vars b) \<and> gc_capture_ok (cells m) (bl_vars b ! i) fl) (bl_helper b)"
  shows "\<exists>r m1. Block_copy (Suc n) m a = Some (r, m1) \<and>
     (r = 0 \<and> cells m1 = cells m \<or>
      (\<exists>nb. cells m r = None \<and> gc_block g t r (cells m) nb 1 m1 \<and>
        bl_isa nb = (if has (bl_flags b) BLOCK_HAS_CTOR then NSConcreteFinalizingBlock else NSConcreteAutoBlock) \<and>
        bl_vars nb = (if has (bl_flags b) BLOCK_HAS_COPY_DISPOSE
                      then storeds (cells m) (bl_vars b) (bl_helper b) (bl_vars b) else bl_vars b)))"
proof -
  let ?ctor = "has (bl_flags b) BLOCK_HAS_CTOR"
  have ca: "cells m a = Some (Block b)"
    using assms(4) by (auto simp: block_at_def split: option.splits cell.splits)
  obtain r m1 where al: "Block_allocator m (bd_size (bl_descriptor b)) True ?ctor = (r, m1)" by fastforce
  obtain r0 h where h: "gc_alloc g (heap.truncate m) (bd_size (bl_descriptor b)) True ?ctor = (r0, h)" by fastforce
  have "r0 = 0 \<or> cells m r0 = None" "cells h = cells m"
    using assms(2) h unfolding collector_ok_def by (metis with_heap_simps(3))+
  then have m1: "gc m1 = Some g" "cells m1 = cells m" "told r t (calls m1)" "r = 0 \<or> cells m r = None"
    using al h assms(1) by (auto simp: Block_allocator_def)
  show ?thesis
  proof (cases "r = 0")
    case True
    then show ?thesis using assms al m1
      by (simp add: Block_copy_def Block_copy_internal_def Let_def del: Block_object_assign.simps)
  next
    case r: False
    define w where "w = (bl_flags b AND NOT (BLOCK_NEEDS_FREE OR BLOCK_REFCOUNT_MASK)) OR (BLOCK_IS_GC OR 1)"
    have w: "refcount w = 1" "has w BLOCK_IS_GC" "\<not> has w BLOCK_NEEDS_FREE"
        "has w BLOCK_HAS_COPY_DISPOSE = has (bl_flags b) BLOCK_HAS_COPY_DISPOSE"
    proof -
      have "w AND BLOCK_REFCOUNT_MASK = 1"
        by (simp add: w_def bit.conj_disj_distrib2 and.assoc) (simp add: block_flags)
      then show "refcount w = 1" by (simp add: refcount_def)
      show "has w BLOCK_IS_GC" unfolding w_def has_or by (simp add: has_def block_flags)
      show "\<not> has w BLOCK_NEEDS_FREE" unfolding w_def has_or by (simp add: has_def block_flags and.assoc)
      show "has w BLOCK_HAS_COPY_DISPOSE = has (bl_flags b) BLOCK_HAS_COPY_DISPOSE"
        unfolding w_def has_or by (simp add: has_def block_flags and.assoc)
    qed
    let ?nb = "b\<lparr>bl_flags := w\<rparr>"
    let ?M = "put m1 r (Block ?nb)"
    let ?vs = "if has w BLOCK_HAS_COPY_DISPOSE then storeds (cells m) (bl_vars b) (bl_helper b) (bl_vars b) else bl_vars b"
    let ?isa = "if ?ctor then NSConcreteFinalizingBlock else NSConcreteAutoBlock"
    have M: "cells ?M = (cells m)(r \<mapsto> Block ?nb)" "gc ?M = Some g" using m1 by (simp_all add: put_def)
    have free: "cells m r = None" using m1(4) r by simp
    obtain M3 where M3: "(if has w BLOCK_HAS_COPY_DISPOSE
           then copy_helper (Block_object_assign (Suc n)) (bl_helper b) ?M r a else Some ?M) = Some M3"
        "gc M3 = Some g" "told r t (calls M3)" "cells M3 = (cells m)(r \<mapsto> Block (?nb\<lparr>bl_vars := ?vs\<rparr>))"
      using gc_copy_helper [OF assms(8) M(1) _ M(2) free ca refl assms(2), of n r t] M m1(3)
      by (cases "has w BLOCK_HAS_COPY_DISPOSE") (auto simp: put_def)
    let ?m = "put M3 r (Block (?nb\<lparr>bl_vars := ?vs, bl_isa := ?isa\<rparr>))"
    have "Block_copy (Suc n) m a = Some (r, ?m)"
      using assms(1,3-7) al r M3(1) block_at_upd [OF M3(4)]
      by (simp add: Block_copy_def Block_copy_internal_def Let_def w_def [symmetric]
          del: Block_object_assign.simps bit.de_Morgan_disj)
    moreover have "gc_block g t r (cells m) (?nb\<lparr>bl_vars := ?vs, bl_isa := ?isa\<rparr>) 1 ?m"
      by (rule gc_blockI) (use M3 w r in \<open>simp_all add: put_def\<close>)
    ultimately show ?thesis using free w(4) by fastforce
  qed
qed

end
