(* ===== verification/Blocks_Debug.thy ===== *)
theory Blocks_Debug
  imports Blocks_Runtime
begin

text \<open>
  The dumps of blocks and variables, \<^verbatim>\<open>_Block_dump\<close> and \<^verbatim>\<open>_Block_byref_dump\<close> of
  \<^verbatim>\<open>src/src/darwin-compat/blocks/runtime.c\<close>, which print into static buffers of 512 and 256 bytes without
  looking at their ends.  How \<^verbatim>\<open>%p\<close> prints an address is an argument.
\<close>

section \<open>Blocks\<close>

fun hex_nat :: "nat \<Rightarrow> string" where
  "hex_nat n =
     (let d = [''0123456789abcdef'' ! (n mod 16)] in if n < 16 then d else hex_nat (n div 16) @ d)"

declare hex_nat.simps [simp del]

definition line :: "string \<Rightarrow> string \<Rightarrow> string" where
  "line s t = s @ t @ [CHR 0x0A]"

text \<open>\<open>weak\<close> is the address of \<^verbatim>\<open>_NSConcreteWeakBlockVariable\<close>, which is no class of a block.\<close>

fun isa_text :: "(u64 \<Rightarrow> string) \<Rightarrow> u64 \<Rightarrow> isa \<Rightarrow> string" where
  "isa_text show_ptr weak NSConcreteStackBlock = line ''isa: stack Block'' ''''"
| "isa_text show_ptr weak NSConcreteMallocBlock = line ''isa: malloc heap Block'' ''''"
| "isa_text show_ptr weak NSConcreteAutoBlock = line ''isa: GC heap Block'' ''''"
| "isa_text show_ptr weak NSConcreteGlobalBlock = line ''isa: global Block'' ''''"
| "isa_text show_ptr weak NSConcreteFinalizingBlock = line ''isa: finalizing Block'' ''''"
| "isa_text show_ptr weak NSConcreteWeakBlockVariable = line ''isa?: '' (show_ptr weak)"
| "isa_text show_ptr weak (OtherIsa p) = (if p = 0 then line ''isa: NULL'' '''' else line ''isa?: '' (show_ptr p))"

definition flags_text :: "u32 \<Rightarrow> string" where
  "flags_text w =
     ''flags:'' @
     (if has w BLOCK_HAS_DESCRIPTOR then '' HASDESCRIPTOR'' else '''') @
     (if has w BLOCK_NEEDS_FREE then '' FREEME'' else '''') @
     (if has w BLOCK_IS_GC then '' ISGC'' else '''') @
     (if has w BLOCK_HAS_COPY_DISPOSE then '' HASHELP'' else '''') @
     (if has w BLOCK_HAS_CTOR then '' HASCTOR'' else '''')"

definition descriptor_text :: "(u64 \<Rightarrow> string) \<Rightarrow> u32 \<Rightarrow> Block_descriptor \<Rightarrow> string" where
  "descriptor_text show_ptr w dp =
     line ''descriptor: '' (show_ptr (bd_address dp)) @
     line ''descriptor->reserved: '' (dec_nat (unat (bd_reserved dp))) @
     line ''descriptor->size: '' (dec_nat (unat (bd_size dp))) @
     (if has w BLOCK_HAS_COPY_DISPOSE then
        line ''descriptor->copy helper: '' (show_ptr (bd_copy dp)) @
        line ''descriptor->dispose helper: '' (show_ptr (bd_dispose dp))
      else '''')"

definition block_text :: "(u64 \<Rightarrow> string) \<Rightarrow> u64 \<Rightarrow> nat \<Rightarrow> Block_layout \<Rightarrow> string" where
  "block_text show_ptr weak block closure =
     ''^'' @ line (show_ptr (of_nat block)) '' (new layout) ='' @
     isa_text show_ptr weak (bl_isa closure) @
     flags_text (bl_flags closure) @ [CHR 0x0A] @
     line ''refcount: '' (dec_nat (unat (bl_flags closure AND BLOCK_REFCOUNT_MASK))) @
     line ''invoke: '' (show_ptr (bl_invoke closure)) @
     descriptor_text show_ptr (bl_flags closure) (bl_descriptor closure)"

text \<open>The text in the buffer, or the message with which the process exits.\<close>

datatype dump = Dumped string | Exits string

definition Block_dump :: "(u64 \<Rightarrow> string) \<Rightarrow> u64 \<Rightarrow> memory \<Rightarrow> nat \<Rightarrow> dump option" where
  "Block_dump show_ptr weak m block =
     (if block = 0 then Some (Dumped (line ''NULL passed to _Block_dump'' ''''))
      else
        map_option (\<lambda>closure.
          if \<not> has (bl_flags closure) BLOCK_HAS_DESCRIPTOR then
            Exits (line ''Block compiled by obsolete compiler, please recompile source for this Block'' '''')
          else Dumped (block_text show_ptr weak block closure))
          (block_at m block))"

section \<open>Variables\<close>

definition byref_text :: "(u64 \<Rightarrow> string) \<Rightarrow> nat \<Rightarrow> Block_byref \<Rightarrow> string" where
  "byref_text show_ptr src v =
     ''byref data block '' @ line (show_ptr (of_nat src)) '' contents:'' @
     line ''  forwarding: '' (show_ptr (of_nat (by_forwarding v))) @
     line ''  flags: 0x'' (hex_nat (unat (by_flags v))) @
     line ''  size: '' (dec_int (sint (by_size v))) @
     (if has (by_flags v) BLOCK_HAS_COPY_DISPOSE then
        line ''  copy helper: '' (show_ptr (by_keep v)) @ line ''  dispose helper: '' (show_ptr (by_destroy v))
      else '''')"

definition Block_byref_dump :: "(u64 \<Rightarrow> string) \<Rightarrow> memory \<Rightarrow> nat \<Rightarrow> string option" where
  "Block_byref_dump show_ptr m src = map_option (byref_text show_ptr src) (byref_at m src)"

section \<open>The buffers are large enough\<close>

lemma length_line [simp]: "length (line s t) = length s + length t + 1"
  by (simp add: line_def)

lemma hex_nat_length: "n < 16 ^ Suc k \<Longrightarrow> length (hex_nat n) \<le> Suc k"
proof (induction k arbitrary: n)
  case 0
  then show ?case by (subst hex_nat.simps) simp
next
  case (Suc k)
  then have "n div 16 < 16 ^ Suc k" by (simp add: less_mult_imp_div_less)
  then show ?case using Suc.IH [of "n div 16"] by (subst hex_nat.simps) (auto simp: Let_def)
qed

lemma hex_nat_u32: "length (hex_nat (unat (w :: u32))) \<le> 8"
proof -
  have "unat w < 2 ^ LENGTH(32)" by (rule unsigned_less)
  then have "unat w < 16 ^ Suc 7" by simp
  then show ?thesis using hex_nat_length by fastforce
qed

lemma flags_text_length: "length (flags_text w) \<le> 48"
  by (simp add: flags_text_def)

text \<open>An address has at most 18 characters, as \<^verbatim>\<open>0x\<close> and 16 digits do.\<close>

lemma isa_text_length: "(\<And>p. length (show_ptr p) \<le> 18) \<Longrightarrow> length (isa_text show_ptr weak i) \<le> 25"
  by (cases i) auto

lemma descriptor_text_length:
  assumes "\<And>p. length (show_ptr p) \<le> 18"
  shows "length (descriptor_text show_ptr w dp) \<le> 210"
  using assms [of "bd_address dp"] assms [of "bd_copy dp"] assms [of "bd_dispose dp"]
    dec_nat_u64 [of "bd_reserved dp"] dec_nat_u64 [of "bd_size dp"]
  by (simp add: descriptor_text_def)

lemma block_text_length:
  assumes "\<And>p. length (show_ptr p) \<le> 18"
  shows "length (block_text show_ptr weak block b) < 512"
  using isa_text_length [of show_ptr weak "bl_isa b", OF assms] flags_text_length [of "bl_flags b"]
    descriptor_text_length [of show_ptr "bl_flags b" "bl_descriptor b", OF assms]
    assms [of "of_nat block"] assms [of "bl_invoke b"]
    dec_nat_u32 [of "bl_flags b AND BLOCK_REFCOUNT_MASK"]
  by (simp add: block_text_def)

lemma byref_text_length:
  assumes "\<And>p. length (show_ptr p) \<le> 18"
  shows "length (byref_text show_ptr src v) < 256"
  using assms [of "of_nat src"] assms [of "of_nat (by_forwarding v)"] assms [of "by_keep v"]
    assms [of "by_destroy v"] hex_nat_u32 [of "by_flags v"] dec_int_i32 [of "by_size v"]
  by (simp add: byref_text_def)

theorem block_dump_fits:
  assumes "\<And>p. length (show_ptr p) \<le> 18" "Block_dump show_ptr weak m block = Some (Dumped s)"
  shows "length s < 512"
  using assms(2) block_text_length [OF assms(1)] by (auto simp: Block_dump_def split: if_splits)

theorem byref_dump_fits:
  assumes "\<And>p. length (show_ptr p) \<le> 18" "Block_byref_dump show_ptr m src = Some s"
  shows "length s < 256"
  using assms(2) byref_text_length [OF assms(1)] by (auto simp: Block_byref_dump_def)

end
