(* ===== verification/Spec2Isabelle.thy ===== *)
theory Spec2Isabelle
  imports Plist_Claims Plist_Memory_Claims Launch_Memory_Claims Xpc_Claims Xpc_Memory_Claims Mach_Claims Launch_Claims Activation_Claims Control_Claims
    Defaults_Claims Shell_Claims Clipboard Xattr Launchd_Demo Info_Tools Blocks_Claims
    Blocks_Collector Blocks_Debug
begin

text \<open>
  CatBSD: a verification library for the Darwin-compatible service management of CatBSD, written in C
  under \<^verbatim>\<open>src/src/darwin-compat/\<close> and \<^verbatim>\<open>src/src/catbsd-init/\<close>.

  \<^bold>\<open>The program.\<close>  \<^verbatim>\<open>catbsd-init\<close> is a service supervisor.  It reads job files, which are XML property
  lists (\<^verbatim>\<open>launchd/plist_lite.c\<close>), into a registry of jobs (\<^verbatim>\<open>launchd/launch_job.c\<close>), starts and restarts
  their processes, hands them listening sockets, and answers \<^verbatim>\<open>launchctl\<close> requests over a control socket
  (\<^verbatim>\<open>launchd/launchctl_server.c\<close>, \<^verbatim>\<open>launchd/launchctl_proto.h\<close>, \<^verbatim>\<open>launchctl-demo/launchctl.c\<close>).  Requests and
  replies are message dictionaries sent over Unix sockets (\<^verbatim>\<open>shims/xpc_shim.c\<close>).  Beside it there is an
  emulation of Mach ports over kqueue (\<^verbatim>\<open>shims/mach_port.c\<close>), and a set of command-line tools, each a
  program of its own (\<^verbatim>\<open>*-demo/\<close>).

  \<^bold>\<open>Theories.\<close>
  \<^item> Prelude: machine integers, C strings, \<^verbatim>\<open>snprintf\<close> and decimal numbers, and the facts on lists that
    the components share.  Interfaces: the contracts, as locales -- a keyed store, a store with removal,
    a queue, a byte codec, a machine with an invariant -- each interpreted where its provider is.
  \<^item> Plist_Parser (the reader of \<^verbatim>\<open>plist_lite.c\<close>, function by function, and its accessors), Plist_Props
    (every step of the reader moves on, so the fuel is enough), Plist_Render (a writer of documents,
    the reference for the reader), Plist_Claims.
  \<^item> C_Memory: allocated memory when any allocation may fail, and who owns which block; the base of the
    theories named _Memory.
  \<^item> Plist_Memory (the reader once more, with the blocks it allocates and frees when any allocation may
    fail), Plist_Ownership (which code owns which block: triples with a frame), Plist_Memory_Props and
    Plist_Memory_Safe (the triples of the operations), Plist_Memory_Refine (with enough memory it is the
    reader of Plist_Parser), Plist_Memory_Claims.
  \<^item> Xpc_Object (dictionaries, their setters and getters), Xpc_Wire (the frame: sizes, encoding, the
    checked decoder), Xpc_Describe (\<^verbatim>\<open>copy_description\<close> and the API as a sequence of calls), Xpc_Io (deadlines,
    \<^verbatim>\<open>io_write_full\<close>, \<^verbatim>\<open>io_read_full\<close>, \<^verbatim>\<open>frame_read\<close>), Xpc_Connection (creation, sending, receiving, the
    pending queue, accepting), Xpc_Delivery (streams of frames), Xpc_Threads (synchronous calls of
    several threads, as a step relation), Xpc_Listener (several processes that own, leave or take over a
    name, as a step relation), Xpc_Claims.
  \<^item> Xpc_Memory (dictionaries once more, as lists linked by pointers in memory whose allocations may fail),
    Xpc_Memory_Props (which list of entries a chain of pointers is), Xpc_Memory_Safe (the setters, removal and
    release follow Xpc_Object), Xpc_Memory_Wire (so do decoding, encoding, iteration and descriptions),
    Xpc_Memory_Claims.
  \<^item> Mach_Port (the port table, rights, queues, wakeups), Mach_Claims.
  \<^item> Launch_Job (job files to jobs), Launch_Supervise (start, stop, tick, run, wait), Launch_Registry
    (load, unload, all jobs, socket activation), Launch_Props (invariants and the passage of time),
    Launch_Refine (the registry as a map from labels to definitions), Launch_Claims, Activation_Claims.
  \<^item> Launch_Memory (the loading of job files once more, with the blocks of jobs and of the registry when any
    allocation may fail), Launch_Memory_Props and Launch_Memory_Safe (who owns which block after every
    step), Launch_Memory_Refine (with enough memory it is the loading of Launch_Registry),
    Launch_Memory_Claims.
  \<^item> Launchctl_Server (the verbs and the poll), Launchctl_Client (the command line), Catbsd_Init
    (configuration, signals, boot, event loop, shutdown), Control_Props, Control_Claims.
  \<^item> The tools: Defaults, Defaults_Props and Defaults_Claims (\<^verbatim>\<open>defaults-demo\<close>: preferences in the tree of a
    property list), Shell_Tools and Shell_Claims (\<^verbatim>\<open>ditto\<close>, \<^verbatim>\<open>open\<close>, \<^verbatim>\<open>say\<close>, \<^verbatim>\<open>screencapture\<close> and
    \<^verbatim>\<open>networksetup\<close>, which build shell commands, against a reader of a fragment of the shell's grammar),
    Clipboard (\<^verbatim>\<open>pbcopy\<close>, \<^verbatim>\<open>pbpaste\<close>), Xattr (\<^verbatim>\<open>xattr-demo\<close>), Launchd_Demo (\<^verbatim>\<open>launchd-demo\<close>, over the
    model of Mach ports), Info_Tools (\<^verbatim>\<open>plutil\<close>, \<^verbatim>\<open>scutil\<close>, \<^verbatim>\<open>caffeinate\<close>, \<^verbatim>\<open>sw_vers\<close> and \<^verbatim>\<open>afplay\<close>, which
    print or wait, and the stand-ins for Darwin system calls).
  \<^item> Blocks_Runtime (\<^verbatim>\<open>blocks/runtime.c\<close>: counts, copying and releasing of blocks and \<^verbatim>\<open>__block\<close>
    variables on a memory of cells, with or without a garbage collector), Blocks_Props, Blocks_Collector
    (what a collector is told), Blocks_Debug (the dumps, which fit their buffers), Blocks_Threads (threads
    that count, as a step relation), Blocks_Claims.

  \<^bold>\<open>Correspondence.\<close>  A definition has the name of its C function; a C structure is a record whose fields
  are those of the structure, a tagged union a datatype.  Integers of a fixed width are words, indices and
  lengths are natural numbers.  \<^verbatim>\<open>NULL\<close> is \<open>None\<close>.  An error code is the code of the source.  A
  linked list or growing array is a list.  Reading outside a buffer has a value of its own (\<open>DFault\<close> in
  the frame decoder and in descriptions), so that its absence is a theorem.  A system call is either an
  event of a list over which the model quantifies (sockets, kqueue), or a field of a record of functions on
  an unspecified world (processes, files, clock), so that every behaviour of the system is covered; a call
  that never returns is the result \<open>None\<close>.

  \<^bold>\<open>Theorems.\<close>  C1 to C4: the parser returns on every input, inverts the writer, decodes base64 within its
  buffer; and the malformed documents it takes.  C5 to C9 and C15: messages arrive complete, in order and
  once, through any chunking, interruption and interleaving of threads; the decoder is safe on hostile
  bytes; every dictionary the API can build survives the wire.  C10, C12, C13, C34: a lost wakeup, a
  listener name with two owners, an overrun in descriptions and a control socket that is never served.
  C11, C14: listeners are exclusive while they only crash, and leak nothing.  C16 to C18: ports are fresh
  and first-in-first-out; a failed send leaves its message to the next owner.  C20 to C25: what an exit
  leads to, the throttle, waiting, stopping, unloading, loading.  C26 and C27: socket activation from end
  to end, what a reload adds and removes.  C28 to C31 and C33: the supervisor as a whole.  C32: the registry refines
  a map.  C35 and C36: preferences are a map; arguments reach the programs the tools run
  unless they contain an apostrophe.  C19, C38 and C39: whatever allocation fails,
  message dictionaries and the reader of property lists own their memory, and the loading of job files loses
  at most one block for each file that fails.  C37 and C40:
  a block is freed when its last reference is, with what it captured, and among threads once.

  \<^bold>\<open>Bounds and fuel.\<close>  The functions of the parser that call each other take a fuel; what each
  call supplies is linear in the length of the text, and C1 shows that it is enough for every document.
  The fuel of copying and releasing blocks bounds how deep they are nested; C37 holds from 1 on.
  Loops that end by the passage of time are partial functions; that they return is C23, C24, C32 and
  C33, for a clock that does not go back and that sleeping advances.

  \<^bold>\<open>Parameters.\<close>  \<^verbatim>\<open>strtod\<close>, the printing of doubles, the cast of a double to an integer, the files and
  directories of the host, processes, signals, the clock, libxml2, extended attributes, \<^verbatim>\<open>system\<close> and a garbage collector are
  arguments.  The hypotheses on them are those of their documentation: \<^verbatim>\<open>fork\<close> gives the parent a positive
  pid (\<open>fork_ok\<close>), a clock is monotonic and advances in \<^verbatim>\<open>usleep\<close> (\<open>clock_ok\<close>, \<open>clock_monotonic\<close>), a saved
  document can be read back and \<^verbatim>\<open>xmlNewChild\<close> takes escaped text (\<open>xml_ok\<close>), attributes are stored and
  listed as they are set (\<open>xattr_ok\<close>), and a collector
  gives memory that is not in use and changes nothing that it was not asked to (\<open>collector_ok\<close>).

  \<^bold>\<open>Not modelled.\<close>  Failure of memory allocation outside \<^verbatim>\<open>plist_lite.c\<close>, the loading of jobs and message dictionaries; logging and the banner of \<^verbatim>\<open>catbsd-init.c\<close>; the messages and usage texts of the tools; the
  headers of \<^verbatim>\<open>libdispatch/\<close>, which declare and rename functions that the repository does not define; tests
  and scripts.
\<close>

end
